(* ===== verification/Prelude.thy ===== *)
theory Prelude
  imports Main "HOL-Library.AList"
begin

text \<open>
  Shared vocabulary of the development: how the JavaScript values the services
  use are written in HOL, the generic lemmas about them, and the two interfaces
  on which the components meet.

  \<^item> \<open>undefined\<close>/\<open>null\<close> is \<^term>\<open>None\<close>; a string is a HOL string; the operators
    \<open>||\<close> and \<open>??\<close> on them are \<open>js_or\<close>, \<open>js_or_opt\<close> and \<open>js_coalesce\<close>.
  \<^item> A JavaScript \<open>Map\<close> keeps insertion order and replaces in place: it is an
    association list with \<^const>\<open>AList.update\<close> as \<open>set\<close>.
  \<^item> A plain object used as a dictionary (\<open>registry[key]\<close>) also answers for the
    members of \<open>Object.prototype\<close>; \<open>js_lookup\<close> tells the three outcomes apart.
  \<^item> An exception is an \<^const>\<open>Inl\<close> value of a sum type.
\<close>

named_theorems inr_iff \<open>when a computation that may throw returns a value\<close>

type_synonym time_ms = int
type_synonym 'a opt = "'a option"
type_synonym ('k, 'v) js_map = "('k \<times> 'v) list"

text \<open>The three visibility tiers, one type for the string unions of the packages.\<close>

datatype AccessGroup = PUBLIC | LEGIT_INTEREST | AUTHORITY

section \<open>Strings and the operators on possibly missing values\<close>

definition js_truthy :: "string \<Rightarrow> bool" where
  "js_truthy s = (s \<noteq> [])"

definition js_or :: "string \<Rightarrow> string \<Rightarrow> string" where
  "js_or a b = (if js_truthy a then a else b)"

definition js_or_opt :: "string option \<Rightarrow> string \<Rightarrow> string" where
  "js_or_opt a b = (case a of None \<Rightarrow> b | Some s \<Rightarrow> js_or s b)"

definition js_or_null :: "string option \<Rightarrow> string option" where
  "js_or_null a = (case a of None \<Rightarrow> None | Some s \<Rightarrow> if js_truthy s then Some s else None)"

definition js_coalesce :: "'a option \<Rightarrow> 'a \<Rightarrow> 'a" where
  "js_coalesce a b = (case a of None \<Rightarrow> b | Some x \<Rightarrow> x)"

definition js_truthy_opt :: "string option \<Rightarrow> bool" where
  "js_truthy_opt a = (case a of None \<Rightarrow> False | Some s \<Rightarrow> js_truthy s)"

fun js_join :: "string \<Rightarrow> string list \<Rightarrow> string" where
  "js_join sep [] = []"
| "js_join sep [x] = x"
| "js_join sep (x # y # xs) = x @ sep @ js_join sep (y # xs)"

definition js_startsWith :: "string \<Rightarrow> string \<Rightarrow> bool" where
  "js_startsWith s p = (take (length p) s = p)"

fun js_split :: "char \<Rightarrow> string \<Rightarrow> string list" where
  "js_split c [] = [[]]"
| "js_split c (x # xs) =
     (if x = c then [] # js_split c xs
      else (case js_split c xs of [] \<Rightarrow> [[x]] | y # ys \<Rightarrow> (x # y) # ys))"

lemma js_startsWith_append [simp]: "js_startsWith (p @ s) p"
  by (simp add: js_startsWith_def)

lemma js_startsWith_iff: "js_startsWith s p \<longleftrightarrow> (\<exists>t. s = p @ t)"
  by (auto simp: js_startsWith_def) (metis append_take_drop_id)

lemma js_split_nonempty [simp]: "js_split c s \<noteq> []"
  by (induction s) (auto split: list.splits)

lemma js_join_split: "js_join [c] (js_split c s) = s"
proof (induction s)
  case Nil
  then show ?case by simp
next
  case (Cons x s)
  then show ?case
    by (cases "js_split c s"; cases "tl (js_split c s)") auto
qed

lemma js_or_truthy [simp]: "js_truthy b \<Longrightarrow> js_truthy (js_or a b)"
  by (simp add: js_or_def)

text \<open>\<open>toLowerCase\<close> on ASCII text.\<close>

definition lower_char :: "char \<Rightarrow> char" where
  "lower_char c = (let n = (of_char c :: nat) in if 65 \<le> n \<and> n \<le> 90 then char_of (n + 32) else c)"

definition js_toLowerCase :: "string \<Rightarrow> string" where
  "js_toLowerCase s = map lower_char s"

section \<open>Sequencing computations that may throw\<close>

definition sum_bind :: "'e + 'a \<Rightarrow> ('a \<Rightarrow> 'e + 'b) \<Rightarrow> 'e + 'b" where
  "sum_bind x f = (case x of Inl e \<Rightarrow> Inl e | Inr a \<Rightarrow> f a)"

lemma sum_bind_simps [simp]:
  "sum_bind (Inl e) f = Inl e"
  "sum_bind (Inr a) f = f a"
  by (simp_all add: sum_bind_def)

lemma sum_bind_Inr_iff [inr_iff]: "sum_bind x f = Inr b \<longleftrightarrow> (\<exists>a. x = Inr a \<and> f a = Inr b)"
  by (cases x) simp_all

section \<open>Numbers in template literals\<close>

definition digit_char :: "nat \<Rightarrow> char" where
  "digit_char d = char_of (48 + d)"

fun show_nat :: "nat \<Rightarrow> string" where
  "show_nat n = (if n < 10 then [digit_char n] else show_nat (n div 10) @ [digit_char (n mod 10)])"

declare show_nat.simps [simp del]

definition show_int :: "int \<Rightarrow> string" where
  "show_int i = (if i < 0 then ''-'' @ show_nat (nat (- i)) else show_nat (nat i))"

definition digit_val :: "char \<Rightarrow> nat" where
  "digit_val c = of_char c - 48"

definition read_nat :: "string \<Rightarrow> nat" where
  "read_nat s = foldl (\<lambda>acc c. 10 * acc + digit_val c) 0 s"

lemma digit_val_char [simp]: "d < 10 \<Longrightarrow> digit_val (digit_char d) = d"
  by (simp add: digit_val_def digit_char_def)

lemma read_show_nat [simp]: "read_nat (show_nat n) = n"
proof (induction n rule: show_nat.induct)
  case (1 n)
  show ?case
  proof (cases "n < 10")
    case True
    then show ?thesis by (simp add: show_nat.simps [of n] read_nat_def)
  next
    case False
    then have "read_nat (show_nat (n div 10)) = n div 10" by (rule "1.IH")
    with False show ?thesis by (simp add: show_nat.simps [of n] read_nat_def)
  qed
qed

lemma show_nat_inj: "show_nat a = show_nat b \<Longrightarrow> a = b"
  by (metis read_show_nat)

section \<open>Sets in insertion order\<close>

definition js_set_add :: "'a list \<Rightarrow> 'a \<Rightarrow> 'a list" where
  "js_set_add s x = (if x \<in> set s then s else s @ [x])"

definition js_set_of :: "'a list \<Rightarrow> 'a list" where
  "js_set_of xs = foldl js_set_add [] xs"

lemma set_foldl_js_set_add [simp]: "set (foldl js_set_add s xs) = set s \<union> set xs"
  by (induction xs arbitrary: s) (auto simp: js_set_add_def)

lemma distinct_foldl_js_set_add: "distinct s \<Longrightarrow> distinct (foldl js_set_add s xs)"
  by (induction xs arbitrary: s) (auto simp: js_set_add_def)

lemma set_js_set_of [simp]: "set (js_set_of xs) = set xs"
  by (simp add: js_set_of_def)

lemma distinct_js_set_of [simp]: "distinct (js_set_of xs)"
  by (simp add: js_set_of_def distinct_foldl_js_set_add)

section \<open>Plain objects as dictionaries\<close>

text \<open>
  Reading \<open>obj[key]\<close> on an object literal or on \<open>JSON.parse\<close> output finds an own
  property, else a member of \<open>Object.prototype\<close> (always a truthy value without the
  fields the code goes on to read), else \<open>undefined\<close>.
\<close>

datatype 'v js_prop = Own 'v | Inherited | Undefined

definition object_prototype_keys :: "string list" where
  "object_prototype_keys =
     [''constructor'', ''__defineGetter__'', ''__defineSetter__'', ''hasOwnProperty'',
      ''__lookupGetter__'', ''__lookupSetter__'', ''isPrototypeOf'', ''propertyIsEnumerable'',
      ''toString'', ''valueOf'', ''__proto__'', ''toLocaleString'']"

definition js_lookup :: "(string \<times> 'v) list \<Rightarrow> string \<Rightarrow> 'v js_prop" where
  "js_lookup obj key =
     (case map_of obj key of
        Some v \<Rightarrow> Own v
      | None \<Rightarrow> if key \<in> set object_prototype_keys then Inherited else Undefined)"

lemma js_lookup_Own_iff: "js_lookup obj k = Own v \<longleftrightarrow> map_of obj k = Some v"
  by (auto simp: js_lookup_def split: option.splits)

lemma js_lookup_Undefined_iff:
  "js_lookup obj k = Undefined \<longleftrightarrow> map_of obj k = None \<and> k \<notin> set object_prototype_keys"
  by (auto simp: js_lookup_def split: option.splits)

lemma js_lookup_Inherited_iff:
  "js_lookup obj k = Inherited \<longleftrightarrow> map_of obj k = None \<and> k \<in> set object_prototype_keys"
  by (auto simp: js_lookup_def split: option.splits)

lemma js_lookup_own_key: "js_lookup obj k = Own v \<Longrightarrow> (k, v) \<in> set obj"
  by (simp add: js_lookup_Own_iff map_of_SomeD)

section \<open>Values fetched once\<close>

text \<open>
  The services keep several values they fetch on first use: the predicate registry, the OpenID
  configuration, the contract client. What their callers rely on: a kept value is returned
  without an effect, and what a call returns is kept.
\<close>

locale memo =
  fixes cached :: "'s \<Rightarrow> 'a option"
    and call :: "'s \<Rightarrow> ('e + 'a) \<times> 's"
  assumes hit: "cached s = Some a \<Longrightarrow> call s = (Inr a, s)"
    and filled: "call s = (Inr a, s') \<Longrightarrow> cached s' = Some a"
begin

lemma call_again: "call s = (Inr a, s') \<Longrightarrow> call s' = (Inr a, s')"
  using hit filled by blast

lemma kept_calls_agree:
  "call s = (Inr a, s') \<Longrightarrow> cached t = cached s' \<Longrightarrow> call t = (Inr a, t)"
  using hit filled by metis

lemma fails_unfilled: "call s = (Inl e, s') \<Longrightarrow> cached s = None"
  using hit by (cases "cached s") auto

end

section \<open>Keyed accumulation: the interface of a Map\<close>

text \<open>
  What the accumulating loops of the services need of the \<open>Map\<close> they fill: \<open>get\<close>
  after \<open>set\<close>, and the order of \<open>keys()\<close>.
\<close>

locale keyed_map =
  fixes get :: "'m \<Rightarrow> 'k \<Rightarrow> 'v option"
    and set_at :: "'m \<Rightarrow> 'k \<Rightarrow> 'v \<Rightarrow> 'm"
    and empty :: 'm
  assumes get_empty: "get empty k = None"
    and get_set: "get (set_at m k v) k' = (if k' = k then Some v else get m k')"
begin

lemma accumulate_get:
  "get (fold (\<lambda>x m. set_at m (key x)
          (upd x (case get m (key x) of None \<Rightarrow> new x | Some v \<Rightarrow> v))) xs m) k =
   (case filter (\<lambda>x. key x = k) xs of
      [] \<Rightarrow> get m k
    | y # ys \<Rightarrow> Some (fold upd (y # ys) (case get m k of None \<Rightarrow> new y | Some v \<Rightarrow> v)))"
proof (induction xs arbitrary: m)
  case Nil
  then show ?case by simp
next
  case (Cons x xs)
  show ?case
    by (cases "filter (\<lambda>x. key x = k) xs") (auto simp: Cons.IH get_set split: option.splits)
qed

lemma accumulate_get_empty:
  "get (fold (\<lambda>x m. set_at m (key x)
          (upd x (case get m (key x) of None \<Rightarrow> new x | Some v \<Rightarrow> v))) xs empty) k =
   (case filter (\<lambda>x. key x = k) xs of
      [] \<Rightarrow> None
    | y # ys \<Rightarrow> Some (fold upd (y # ys) (new y)))"
  by (simp add: accumulate_get get_empty split: list.splits)

end

text \<open>The same with the list of its values, as \<open>Array.from(map.values())\<close> reads them.\<close>

locale measured_map = keyed_map get set_at empty
  for get :: "'m \<Rightarrow> 'k \<Rightarrow> 'v option"
    and set_at :: "'m \<Rightarrow> 'k \<Rightarrow> 'v \<Rightarrow> 'm"
    and empty :: 'm +
  fixes contents :: "'m \<Rightarrow> ('k \<times> 'v) list"
  assumes contents_empty: "contents empty = []"
    and contents_set_new:
      "get m k = None \<Longrightarrow> contents (set_at m k v) = contents m @ [(k, v)]"
    and contents_set_old:
      "get m k = Some u \<Longrightarrow> \<exists>as bs. contents m = as @ (k, u) # bs \<and>
         contents (set_at m k v) = as @ (k, v) # bs"
begin

lemma sum_contents_set:
  fixes f :: "'v \<Rightarrow> 'n::ab_group_add"
  shows "sum_list (map (f \<circ> snd) (contents (set_at m k v))) =
     sum_list (map (f \<circ> snd) (contents m)) + (f v - (case get m k of None \<Rightarrow> 0 | Some u \<Rightarrow> f u))"
proof (cases "get m k")
  case None
  then show ?thesis by (simp add: contents_set_new)
next
  case (Some u)
  then obtain as bs where "contents m = as @ (k, u) # bs"
    and "contents (set_at m k v) = as @ (k, v) # bs"
    using contents_set_old by blast
  with Some show ?thesis by simp
qed

lemma get_contents: "get m k = Some u \<Longrightarrow> (k, u) \<in> set (contents m)"
  using contents_set_old [of m k u u] by auto

lemma contents_set_at:
  "(k', v') \<in> set (contents (set_at m k v)) \<Longrightarrow> (k', v') = (k, v) \<or> (k', v') \<in> set (contents m)"
proof (cases "get m k")
  case None
  then show "(k', v') \<in> set (contents (set_at m k v)) \<Longrightarrow> ?thesis" by (auto simp: contents_set_new)
next
  case (Some u)
  then obtain as bs where "contents m = as @ (k, u) # bs"
    and "contents (set_at m k v) = as @ (k, v) # bs"
    using contents_set_old by blast
  then show "(k', v') \<in> set (contents (set_at m k v)) \<Longrightarrow> ?thesis" by auto
qed

lemma accumulate_stored:
  assumes "\<And>x v. Q (upd x v)"
  shows "\<forall>(k, v) \<in> set (contents m). Q v \<Longrightarrow>
    \<forall>(k, v) \<in> set (contents (fold (\<lambda>x m. set_at m (key x)
            (upd x (case get m (key x) of None \<Rightarrow> new x | Some v \<Rightarrow> v))) xs m)). Q v"
proof (induction xs arbitrary: m)
  case Nil
  then show ?case by simp
next
  case (Cons x xs)
  let ?m = "set_at m (key x) (upd x (case get m (key x) of None \<Rightarrow> new x | Some v \<Rightarrow> v))"
  have "\<forall>(k, v) \<in> set (contents ?m). Q v"
    using Cons.prems assms contents_set_at [of _ _ m "key x"] by fastforce
  from Cons.IH [OF this] show ?case by simp
qed

text \<open>A measure \<open>f\<close> that every step raises by \<open>w\<close>, as long as the stored values satisfy \<open>P\<close>.\<close>

lemma accumulate_sum:
  fixes f :: "'v \<Rightarrow> 'n::ab_group_add"
  assumes "\<And>x. f (new x) = 0 \<and> P (new x)"
    and "\<And>x v. P v \<Longrightarrow> f (upd x v) = f v + w x \<and> P (upd x v)"
  shows "\<forall>(k, v) \<in> set (contents m). P v \<Longrightarrow>
    sum_list (map (f \<circ> snd) (contents (fold (\<lambda>x m. set_at m (key x)
            (upd x (case get m (key x) of None \<Rightarrow> new x | Some v \<Rightarrow> v))) xs m))) =
         sum_list (map (f \<circ> snd) (contents m)) + sum_list (map w xs)"
proof (induction xs arbitrary: m)
  case Nil
  then show ?case by simp
next
  case (Cons x xs)
  let ?total = "\<lambda>m. sum_list (map (f \<circ> snd) (contents m))"
  let ?old = "case get m (key x) of None \<Rightarrow> new x | Some v \<Rightarrow> v"
  let ?m = "set_at m (key x) (upd x ?old)"
  have old: "P ?old" using Cons.prems assms(1) get_contents [of m "key x"] by (auto split: option.split)
  have "f (upd x ?old) - (case get m (key x) of None \<Rightarrow> 0 | Some u \<Rightarrow> f u) = w x"
    using assms(2) [OF old] assms(1) by (auto split: option.split)
  then have "?total ?m = ?total m + w x" unfolding sum_contents_set by simp
  moreover have "\<forall>(k, v) \<in> set (contents ?m). P v"
    using Cons.prems assms(2) [OF old] contents_set_at [of _ _ m "key x"] by fastforce
  ultimately show ?case using Cons.IH [of ?m] by (simp add: ac_simps comp_def)
qed

lemma accumulate_sum_empty:
  fixes f :: "'v \<Rightarrow> 'n::ab_group_add"
  assumes "\<And>x. f (new x) = 0 \<and> P (new x)"
    and "\<And>x v. P v \<Longrightarrow> f (upd x v) = f v + w x \<and> P (upd x v)"
  shows "sum_list (map (f \<circ> snd) (contents (fold (\<lambda>x m. set_at m (key x)
            (upd x (case get m (key x) of None \<Rightarrow> new x | Some v \<Rightarrow> v))) xs empty))) =
         sum_list (map w xs)"
  using accumulate_sum [of f new P upd w empty key xs] assms by (simp add: contents_empty)

end

definition jm_set :: "('k, 'v) js_map \<Rightarrow> 'k \<Rightarrow> 'v \<Rightarrow> ('k, 'v) js_map" where
  "jm_set m k v = AList.update k v m"

definition jm_values :: "('k, 'v) js_map \<Rightarrow> 'v list" where
  "jm_values m = map snd m"

lemma map_of_jm_set: "map_of (jm_set m k v) k' = (if k' = k then Some v else map_of m k')"
  by (simp add: jm_set_def update_conv)

lemma jm_set_new: "map_of m k = None \<Longrightarrow> jm_set m k v = m @ [(k, v)]"
  unfolding jm_set_def by (induction m) (auto split: if_splits)

lemma jm_set_old:
  "map_of m k = Some u \<Longrightarrow> \<exists>as bs. m = as @ (k, u) # bs \<and> jm_set m k v = as @ (k, v) # bs"
proof (induction m)
  case Nil
  then show ?case by simp
next
  case (Cons p m)
  show ?case
  proof (cases "fst p = k")
    case True
    with Cons.prems have "p # m = [] @ (k, u) # m \<and> jm_set (p # m) k v = [] @ (k, v) # m"
      by (cases p) (auto simp: jm_set_def)
    then show ?thesis by blast
  next
    case False
    with Cons.prems have "map_of m k = Some u" by (cases p) auto
    from Cons.IH [OF this] obtain as bs
      where "m = as @ (k, u) # bs" "jm_set m k v = as @ (k, v) # bs" by blast
    with False have "p # m = (p # as) @ (k, u) # bs \<and> jm_set (p # m) k v = (p # as) @ (k, v) # bs"
      by (simp add: jm_set_def)
    then show ?thesis by blast
  qed
qed

interpretation jm: measured_map map_of jm_set "[]" "\<lambda>m. m"
  by unfold_locales (auto simp: map_of_jm_set jm_set_new jm_set_old)

lemma distinct_jm_set: "distinct (map fst m) \<Longrightarrow> distinct (map fst (jm_set m k v))"
  by (simp add: jm_set_def distinct_update)

lemma jm_values_sum: "sum_list (map f (jm_values m)) = sum_list (map (f \<circ> snd) m)"
  by (simp add: jm_values_def)

lemma keys_jm_set: "set (map fst (jm_set m k v)) = insert k (set (map fst m))"
  by (auto simp: jm_set_def dom_update image_image)

end
