(* ===== verification/Predicates.thy ===== *)
theory Predicates
  imports Prelude
begin

text \<open>
  The predicate registry of \<open>packages/predicate-lib/src/index.ts\<close>: identifiers and
  their canonical form, the definitions read from \<open>predicates.json\<close>, and the lookups
  every service makes. The registry is a JavaScript object, so a lookup distinguishes an
  own entry from a member inherited from \<open>Object.prototype\<close>. Prices are in
  ten-thousandths of the currency unit (every price of the registry has at most four
  decimals).
\<close>

section \<open>Data\<close>

datatype Currency = EUR | USD

datatype ComparisonType =
    Gte | Lte | EqCmp | RangeCmp | TimestampBeforeExpiry | SetMembership | SetNonMembership
  | LifecycleAggregate

record PredicatePricing =
  perVerification :: int
  currency :: Currency

record PredicateDefinition =
  pd_name :: string
  pd_version :: string
  pd_description :: string
  pd_circuitPath :: string
  pd_publicInputs :: "string list"
  pd_accessGroups :: "AccessGroup list"
  pd_pricing :: PredicatePricing
  pd_claimType :: string
  pd_comparison :: ComparisonType

record PredicateId =
  pid_name :: string
  pid_version :: string

type_synonym PredicateRegistry = "(string \<times> PredicateDefinition) list"

definition predicates_json :: PredicateRegistry where
  "predicates_json =
     [
      (''RECYCLED_CONTENT_GTE_V1'', \<lparr>pd_name = ''RECYCLED_CONTENT_GTE'', pd_version = ''V1'',
         pd_description = ''Proves recycled content percentage is greater than or equal to threshold'',
         pd_circuitPath = ''recycled_content_gte_v1'',
         pd_publicInputs = [''threshold'', ''commitment_root'', ''product_binding'', ''requester_binding''],
         pd_accessGroups = [LEGIT_INTEREST, AUTHORITY], pd_pricing = \<lparr>perVerification = 500, currency = EUR\<rparr>,
         pd_claimType = ''recycled_content'', pd_comparison = Gte\<rparr>),
      (''CARBON_FOOTPRINT_LTE_V1'', \<lparr>pd_name = ''CARBON_FOOTPRINT_LTE'', pd_version = ''V1'',
         pd_description = ''Proves carbon footprint is less than or equal to threshold'',
         pd_circuitPath = ''carbon_footprint_lte_v1'',
         pd_publicInputs = [''threshold'', ''commitment_root'', ''product_binding'', ''requester_binding''],
         pd_accessGroups = [LEGIT_INTEREST, AUTHORITY], pd_pricing = \<lparr>perVerification = 500, currency = EUR\<rparr>,
         pd_claimType = ''carbon_footprint'', pd_comparison = Lte\<rparr>),
      (''CERT_VALID_V1'', \<lparr>pd_name = ''CERT_VALID'', pd_version = ''V1'',
         pd_description = ''Proves a certification is valid (not expired) at a given timestamp'',
         pd_circuitPath = ''cert_valid_v1'',
         pd_publicInputs = [''timestamp'', ''commitment_root'', ''product_binding'', ''requester_binding''],
         pd_accessGroups = [PUBLIC, LEGIT_INTEREST, AUTHORITY], pd_pricing = \<lparr>perVerification = 300, currency = EUR\<rparr>,
         pd_claimType = ''certification'', pd_comparison = TimestampBeforeExpiry\<rparr>),
      (''SUBSTANCE_NOT_IN_LIST_V1'', \<lparr>pd_name = ''SUBSTANCE_NOT_IN_LIST'', pd_version = ''V1'',
         pd_description = ''Proves a product does not contain any substances from a forbidden list'',
         pd_circuitPath = ''substance_not_in_list_v1'',
         pd_publicInputs = [''forbidden_list_hash'', ''commitment_root'', ''product_binding'', ''requester_binding''],
         pd_accessGroups = [LEGIT_INTEREST, AUTHORITY], pd_pricing = \<lparr>perVerification = 800, currency = EUR\<rparr>,
         pd_claimType = ''substance_content'', pd_comparison = SetNonMembership\<rparr>),
      (''BATTERY_CAPACITY_GTE_V1'', \<lparr>pd_name = ''BATTERY_CAPACITY_GTE'', pd_version = ''V1'',
         pd_description = ''Proves battery capacity (Wh) is greater than or equal to declared minimum'',
         pd_circuitPath = ''battery_capacity_gte_v1'',
         pd_publicInputs = [''threshold'', ''commitment_root'', ''product_binding'', ''requester_binding''],
         pd_accessGroups = [LEGIT_INTEREST, AUTHORITY], pd_pricing = \<lparr>perVerification = 500, currency = EUR\<rparr>,
         pd_claimType = ''battery_capacity'', pd_comparison = Gte\<rparr>),
      (''BATTERY_CHEMISTRY_IN_SET_V1'', \<lparr>pd_name = ''BATTERY_CHEMISTRY_IN_SET'', pd_version = ''V1'',
         pd_description = ''Proves battery chemistry is one of the allowed types (LFP, NMC, NCA, LTO, Na-ion)'',
         pd_circuitPath = ''battery_chemistry_in_set_v1'',
         pd_publicInputs = [''set_hash'', ''commitment_root'', ''product_binding'', ''requester_binding''],
         pd_accessGroups = [LEGIT_INTEREST, AUTHORITY], pd_pricing = \<lparr>perVerification = 500, currency = EUR\<rparr>,
         pd_claimType = ''battery_chemistry'', pd_comparison = SetMembership\<rparr>),
      (''COBALT_ORIGIN_NOT_IN_V1'', \<lparr>pd_name = ''COBALT_ORIGIN_NOT_IN'', pd_version = ''V1'',
         pd_description = ''Proves cobalt origin is NOT from conflict regions (OECD Due Diligence compliance)'',
         pd_circuitPath = ''cobalt_origin_not_in_v1'',
         pd_publicInputs = [''set_hash'', ''commitment_root'', ''product_binding'', ''requester_binding''],
         pd_accessGroups = [LEGIT_INTEREST, AUTHORITY], pd_pricing = \<lparr>perVerification = 800, currency = EUR\<rparr>,
         pd_claimType = ''cobalt_origin_country'', pd_comparison = SetNonMembership\<rparr>),
      (''DUE_DILIGENCE_VALID_V1'', \<lparr>pd_name = ''DUE_DILIGENCE_VALID'', pd_version = ''V1'',
         pd_description = ''Proves supply chain due diligence certification is valid (not expired)'',
         pd_circuitPath = ''due_diligence_valid_v1'',
         pd_publicInputs = [''current_timestamp'', ''commitment_root'', ''product_binding'', ''requester_binding''],
         pd_accessGroups = [LEGIT_INTEREST, AUTHORITY], pd_pricing = \<lparr>perVerification = 300, currency = EUR\<rparr>,
         pd_claimType = ''due_diligence_cert'', pd_comparison = TimestampBeforeExpiry\<rparr>),
      (''ENERGY_DENSITY_RANGE_V1'', \<lparr>pd_name = ''ENERGY_DENSITY_RANGE'', pd_version = ''V1'',
         pd_description = ''Proves battery energy density (Wh/kg) is within declared range'',
         pd_circuitPath = ''energy_density_range_v1'',
         pd_publicInputs = [''min_threshold'', ''max_threshold'', ''commitment_root'', ''product_binding'', ''requester_binding''],
         pd_accessGroups = [LEGIT_INTEREST, AUTHORITY], pd_pricing = \<lparr>perVerification = 500, currency = EUR\<rparr>,
         pd_claimType = ''energy_density'', pd_comparison = RangeCmp\<rparr>),
      (''STATE_OF_HEALTH_GTE_V1'', \<lparr>pd_name = ''STATE_OF_HEALTH_GTE'', pd_version = ''V1'',
         pd_description = ''Proves battery state of health (SOH) percentage is at or above threshold'',
         pd_circuitPath = ''state_of_health_gte_v1'',
         pd_publicInputs = [''threshold'', ''commitment_root'', ''product_binding'', ''requester_binding''],
         pd_accessGroups = [LEGIT_INTEREST, AUTHORITY], pd_pricing = \<lparr>perVerification = 500, currency = EUR\<rparr>,
         pd_claimType = ''state_of_health'', pd_comparison = Gte\<rparr>),
      (''RECYCLING_EFFICIENCY_GTE_V1'', \<lparr>pd_name = ''RECYCLING_EFFICIENCY_GTE'', pd_version = ''V1'',
         pd_description = ''Proves recycling process efficiency meets EU Battery Regulation thresholds (65% by 2025, 70% by 2030)'',
         pd_circuitPath = ''recycling_efficiency_gte_v1'',
         pd_publicInputs = [''threshold'', ''commitment_root'', ''product_binding'', ''requester_binding''],
         pd_accessGroups = [LEGIT_INTEREST, AUTHORITY], pd_pricing = \<lparr>perVerification = 500, currency = EUR\<rparr>,
         pd_claimType = ''recycling_efficiency'', pd_comparison = Gte\<rparr>),
      (''CARBON_FOOTPRINT_LIFECYCLE_V1'', \<lparr>pd_name = ''CARBON_FOOTPRINT_LIFECYCLE'', pd_version = ''V1'',
         pd_description = ''Proves total lifecycle carbon footprint across all stages is within threshold'',
         pd_circuitPath = ''carbon_footprint_lifecycle_v1'',
         pd_publicInputs = [''threshold'', ''commitment_root'', ''product_binding'', ''requester_binding''],
         pd_accessGroups = [LEGIT_INTEREST, AUTHORITY], pd_pricing = \<lparr>perVerification = 1000, currency = EUR\<rparr>,
         pd_claimType = ''carbon_footprint_lifecycle'', pd_comparison = LifecycleAggregate\<rparr>)
     ]"

section \<open>Identifiers\<close>

definition canonicalId :: "PredicateId \<Rightarrow> string" where
  "canonicalId i = pid_name i @ ''_'' @ pid_version i"

definition js_lastIndexOf :: "string \<Rightarrow> char \<Rightarrow> nat option" where
  "js_lastIndexOf s c =
     (if c \<in> set s then Some (length s - 1 - length (takeWhile (\<lambda>x. x \<noteq> c) (rev s))) else None)"

datatype parse_error = InvalidPredicateId string

definition parseId :: "string \<Rightarrow> parse_error + PredicateId" where
  "parseId canonical =
     (case js_lastIndexOf canonical (CHR ''_'') of
        None \<Rightarrow> Inl (InvalidPredicateId (''Invalid predicate ID: '' @ canonical))
      | Some lastUnderscore \<Rightarrow>
          Inr \<lparr>pid_name = take lastUnderscore canonical,
               pid_version = drop (lastUnderscore + 1) canonical\<rparr>)"

section \<open>Lookups\<close>

text \<open>\<open>getRegistry\<close>: the process-wide cache and the file it is filled from.\<close>

record RegistryState =
  cachedRegistry :: "PredicateRegistry option"
  registryFile :: PredicateRegistry

definition getRegistry :: "RegistryState \<Rightarrow> PredicateRegistry \<times> RegistryState" where
  "getRegistry st =
     (case cachedRegistry st of
        Some r \<Rightarrow> (r, st)
      | None \<Rightarrow> (registryFile st, st\<lparr>cachedRegistry := Some (registryFile st)\<rparr>))"

datatype PredicateRef = RefStr string | RefId PredicateId

fun ref_key :: "PredicateRef \<Rightarrow> string" where
  "ref_key (RefStr s) = s"
| "ref_key (RefId i) = canonicalId i"

definition getPredicate ::
  "PredicateRegistry \<Rightarrow> PredicateRef \<Rightarrow> PredicateDefinition js_prop" where
  "getPredicate registry ref = js_lookup registry (ref_key ref)"

definition getPredicateById ::
  "PredicateRegistry \<Rightarrow> string \<Rightarrow> PredicateDefinition js_prop" where
  "getPredicateById registry key = getPredicate registry (RefStr key)"

definition listPredicates :: "PredicateRegistry \<Rightarrow> PredicateDefinition list" where
  "listPredicates registry = map snd registry"

definition listPredicatesForAccessGroup ::
  "PredicateRegistry \<Rightarrow> AccessGroup \<Rightarrow> PredicateDefinition list" where
  "listPredicatesForAccessGroup registry grp =
     filter (\<lambda>p. grp \<in> set (pd_accessGroups p)) (listPredicates registry)"

definition getCircuitPath :: "PredicateRegistry \<Rightarrow> PredicateRef \<Rightarrow> string option" where
  "getCircuitPath registry ref =
     (case getPredicate registry ref of
        Own p \<Rightarrow> Some (pd_circuitPath p) | Inherited \<Rightarrow> None | Undefined \<Rightarrow> None)"

datatype lookup_error = LookupTypeError string

definition canAccessPredicate ::
  "PredicateRegistry \<Rightarrow> PredicateRef \<Rightarrow> AccessGroup \<Rightarrow> lookup_error + bool" where
  "canAccessPredicate registry ref requesterGroup =
     (case getPredicate registry ref of
        Undefined \<Rightarrow> Inr False
      | Own predicate \<Rightarrow> Inr (requesterGroup \<in> set (pd_accessGroups predicate))
      | Inherited \<Rightarrow> Inl (LookupTypeError ''predicate.accessGroups is undefined''))"

definition getVerificationPrice ::
  "PredicateRegistry \<Rightarrow> PredicateRef \<Rightarrow> PredicatePricing option" where
  "getVerificationPrice registry ref =
     (case getPredicate registry ref of
        Own p \<Rightarrow> Some (pd_pricing p) | Inherited \<Rightarrow> None | Undefined \<Rightarrow> None)"

text \<open>\<open>getAllPredicates\<close>: each definition with the key it is stored under.\<close>

definition getAllPredicates :: "PredicateRegistry \<Rightarrow> (string \<times> PredicateDefinition) list" where
  "getAllPredicates registry = registry"

text \<open>
  \<open>predicate?.name || id\<close>: the display name the services fall back on. For an
  inherited member that is the name of a built-in function, which is the key itself but
  for \<open>constructor\<close>; \<open>__proto__\<close> has no name.
\<close>

definition display_name :: "PredicateRegistry \<Rightarrow> string \<Rightarrow> string" where
  "display_name registry key =
     (case getPredicateById registry key of
        Own p \<Rightarrow> js_or (pd_name p) key
      | Undefined \<Rightarrow> key
      | Inherited \<Rightarrow> if key = ''constructor'' then ''Object'' else key)"

section \<open>Facts about identifiers\<close>

lemma lastIndexOf_split:
  assumes "c \<notin> set v"
  shows "js_lastIndexOf (n @ c # v) c = Some (length n)"
proof -
  have "takeWhile (\<lambda>x. x \<noteq> c) (rev v @ c # rev n) = rev v"
    using assms by (subst takeWhile_append2) auto
  then show ?thesis by (simp add: js_lastIndexOf_def)
qed

lemma lastIndexOf_Some:
  assumes "js_lastIndexOf s c = Some i"
  obtains n v where "s = n @ c # v" and "c \<notin> set v" and "i = length n"
proof -
  from assms have "c \<in> set s" by (simp add: js_lastIndexOf_def split: if_splits)
  then obtain n v where s: "s = n @ c # v" and v: "c \<notin> set v"
    by (metis split_list_last)
  with assms lastIndexOf_split [OF v, of n] have "i = length n" by simp
  with s v that show ?thesis by blast
qed

lemma parseId_canonical:
  "CHR ''_'' \<notin> set (pid_version i) \<Longrightarrow> parseId (canonicalId i) = Inr i"
  by (simp add: parseId_def canonicalId_def lastIndexOf_split)

lemma canonical_parseId: "parseId s = Inr i \<Longrightarrow> canonicalId i = s \<and> CHR ''_'' \<notin> set (pid_version i)"
  by (auto simp: parseId_def canonicalId_def split: option.splits elim!: lastIndexOf_Some)

lemma parseId_total: "(\<exists>i. parseId s = Inr i) \<longleftrightarrow> CHR ''_'' \<in> set s"
  by (simp add: parseId_def js_lastIndexOf_def)

section \<open>Facts about the registry\<close>

definition registry_wf :: "PredicateRegistry \<Rightarrow> bool" where
  "registry_wf registry =
     (distinct (map fst registry) \<and>
      (\<forall>(k, d) \<in> set registry.
         k = canonicalId \<lparr>pid_name = pd_name d, pid_version = pd_version d\<rparr> \<and>
         pd_name d \<noteq> [] \<and> 0 < perVerification (pd_pricing d)))"

lemma predicates_json_wf: "registry_wf predicates_json"
  by (simp add: registry_wf_def predicates_json_def canonicalId_def)

lemma registry_wf_lookup:
  assumes "registry_wf registry" and "(k, d) \<in> set registry"
  shows "getPredicateById registry k = Own d"
  using assms
  by (simp add: registry_wf_def getPredicateById_def getPredicate_def js_lookup_Own_iff)

lemma getPredicateById_Own_iff:
  "getPredicateById registry k = Own d \<longleftrightarrow> map_of registry k = Some d"
  by (simp add: getPredicateById_def getPredicate_def js_lookup_Own_iff)

lemma getPredicateById_Undefined_iff:
  "getPredicateById registry k = Undefined \<longleftrightarrow>
     map_of registry k = None \<and> k \<notin> set object_prototype_keys"
  by (simp add: getPredicateById_def getPredicate_def js_lookup_Undefined_iff)

interpretation registry_memo: memo cachedRegistry
  "\<lambda>st. (Inr (fst (getRegistry st)) :: unit + PredicateRegistry, snd (getRegistry st))"
  by unfold_locales (auto simp: getRegistry_def split: option.splits)

lemma getRegistry_cached:
  "getRegistry st = (r, st') \<Longrightarrow>
     cachedRegistry st' = Some r \<and> fst (getRegistry (st'\<lparr>registryFile := f\<rparr>)) = r"
  by (auto simp: getRegistry_def split: option.splits)

lemma registry_wf_key:
  "registry_wf registry \<Longrightarrow> (k, d) \<in> set registry \<Longrightarrow>
     k = canonicalId \<lparr>pid_name = pd_name d, pid_version = pd_version d\<rparr>"
  unfolding registry_wf_def by blast

lemma listed_iff:
  "d \<in> set (listPredicatesForAccessGroup registry g) \<longleftrightarrow>
     (\<exists>k. (k, d) \<in> set registry) \<and> g \<in> set (pd_accessGroups d)"
  by (force simp: listPredicatesForAccessGroup_def listPredicates_def)

lemma canAccess_iff_listed:
  assumes "registry_wf registry"
  shows "canAccessPredicate registry (RefStr k) g = Inr True \<longleftrightarrow>
    (\<exists>d \<in> set (listPredicatesForAccessGroup registry g).
       k = canonicalId \<lparr>pid_name = pd_name d, pid_version = pd_version d\<rparr>)"
proof
  assume "canAccessPredicate registry (RefStr k) g = Inr True"
  then obtain d where "map_of registry k = Some d" and "g \<in> set (pd_accessGroups d)"
    by (auto simp: canAccessPredicate_def getPredicate_def js_lookup_Own_iff
        split: js_prop.splits)
  then have d: "(k, d) \<in> set registry" by (simp add: map_of_SomeD)
  with \<open>g \<in> set (pd_accessGroups d)\<close>
  have "d \<in> set (listPredicatesForAccessGroup registry g)" by (auto simp: listed_iff)
  with registry_wf_key [OF assms d]
  show "\<exists>d \<in> set (listPredicatesForAccessGroup registry g).
       k = canonicalId \<lparr>pid_name = pd_name d, pid_version = pd_version d\<rparr>" by (rule bexI)
next
  assume "\<exists>d \<in> set (listPredicatesForAccessGroup registry g).
       k = canonicalId \<lparr>pid_name = pd_name d, pid_version = pd_version d\<rparr>"
  then obtain d k' where d: "(k', d) \<in> set registry" and g: "g \<in> set (pd_accessGroups d)"
    and k: "k = canonicalId \<lparr>pid_name = pd_name d, pid_version = pd_version d\<rparr>"
    by (auto simp: listed_iff)
  from registry_wf_key [OF assms d] k have "k' = k" by simp
  with registry_wf_lookup [OF assms d] g
  show "canAccessPredicate registry (RefStr k) g = Inr True"
    by (simp add: canAccessPredicate_def getPredicateById_def)
qed

section \<open>Properties of identifiers and of the registry\<close>

text \<open>Parsing and printing of predicate identifiers are inverse: what parses prints back
  to the same string, an identifier whose version has no underscore parses back to itself, and
  the strings that do not parse are those without an underscore.\<close>

lemma predicate_id_roundtrip:
  "(case parseId s of
      Inr i \<Rightarrow> canonicalId i = s \<and> parseId (canonicalId i) = Inr i
    | Inl e \<Rightarrow> CHR ''_'' \<notin> set s) \<and>
   (CHR ''_'' \<notin> set (pid_version i) \<longleftrightarrow> parseId (canonicalId i) = Inr i)"
proof -
  have "parseId (canonicalId i) = Inr i \<Longrightarrow> CHR ''_'' \<notin> set (pid_version i)" for i
    using canonical_parseId by blast
  moreover have "\<exists>j. parseId s = Inr j" if "CHR ''_'' \<in> set s"
    using that parseId_total by blast
  ultimately show ?thesis
    by (auto simp: parseId_canonical dest: canonical_parseId split: sum.split)
qed

text \<open>In the registry the services ship, every definition is found under its own canonical
  identifier, access to a key is granted exactly to the groups for which the predicate is
  listed, and a key that is neither registered nor a prototype member is refused without an
  error.\<close>

lemma registry_access:
  "(canAccessPredicate predicates_json (RefStr k) g = Inr True \<longleftrightarrow>
     (\<exists>d. d \<in> set (listPredicatesForAccessGroup predicates_json g) \<and>
       k = canonicalId \<lparr>pid_name = pd_name d, pid_version = pd_version d\<rparr>)) \<and>
   (canAccessPredicate predicates_json (RefStr k) g = Inr False \<longleftrightarrow>
     (case map_of predicates_json k of
        Some d \<Rightarrow> g \<notin> set (pd_accessGroups d)
      | None \<Rightarrow> k \<notin> set object_prototype_keys))"
proof -
  have "canAccessPredicate predicates_json (RefStr k) g = Inr False \<longleftrightarrow>
     (case map_of predicates_json k of
        Some d \<Rightarrow> g \<notin> set (pd_accessGroups d)
      | None \<Rightarrow> k \<notin> set object_prototype_keys)"
    by (simp add: canAccessPredicate_def getPredicate_def js_lookup_def split: option.splits)
  with canAccess_iff_listed [OF predicates_json_wf, of k g] show ?thesis by blast
qed

end
