(* ===== verification/Schemas.thy ===== *)
theory Schemas
  imports Predicates
begin

text \<open>
  The protocol objects of \<open>packages/schemas/src/index.ts\<close> that the services exchange:
  the proof package a supplier submits, the receipt the gateway signs and the event it
  publishes. \<open>predicateId\<close> and \<open>publicInputs\<close> of a package are optional here, because
  the verifier checks that they are there. A value of an open JSON object is a
  \<open>json_value\<close>: arrays, objects and fractional numbers are kept by what \<open>String(...)\<close>
  makes of them.
\<close>

datatype json_value = JStr string | JNum int | JBool bool | JNull | JOther string

fun json_text :: "json_value \<Rightarrow> string" where
  "json_text (JStr s) = s"
| "json_text (JNum n) = show_int n"
| "json_text (JBool b) = (if b then ''true'' else ''false'')"
| "json_text JNull = ''null''"
| "json_text (JOther s) = s"

fun json_truthy :: "json_value \<Rightarrow> bool" where
  "json_truthy (JStr s) = js_truthy s"
| "json_truthy (JNum n) = (n \<noteq> 0)"
| "json_truthy (JBool b) = b"
| "json_truthy JNull = False"
| "json_truthy (JOther s) = True"

record PublicInputs =
  pi_threshold :: "int option"
  pi_commitmentRoot :: string
  pi_productBinding :: string
  pi_requesterBinding :: string
  pi_timestamp :: "int option"
  pi_extra :: "(string \<times> json_value) list option"

record PackageContext =
  ctx_supplierId :: "string option"
  ctx_requesterId :: "string option"
  ctx_productId :: "string option"

record UsageTerms =
  ut_allowedPurposes :: "string list option"
  ut_expiresAt :: "string option"
  ut_retentionPolicy :: "string option"

record ProofPackage =
  pp_predicateId :: "PredicateId option"
  pp_proof :: string
  pp_publicInputs :: "PublicInputs option"
  pp_nonce :: string
  pp_generatedAt :: int
  pp_context :: "PackageContext option"
  pp_supplierSignature :: "string option"
  pp_usageTerms :: "UsageTerms option"

record VerificationReceipt =
  vr_id :: string
  vr_predicateId :: PredicateId
  vr_result :: bool
  vr_commitmentRoot :: string
  vr_productBinding :: string
  vr_requesterBinding :: string
  vr_supplierId :: "string option"
  vr_requesterId :: "string option"
  vr_nonce :: string
  vr_verifiedAt :: time_ms
  vr_gatewayId :: string
  vr_gatewaySignature :: string

record VerificationPayload =
  pl_receiptId :: string
  pl_predicateId :: PredicateId
  pl_supplierId :: string
  pl_requesterId :: string
  pl_productBinding :: "string option"
  pl_result :: bool
  pl_commitmentRoot :: "string option"

record VerificationEvent =
  ev_eventId :: string
  ev_eventType :: string
  ev_timestamp :: time_ms
  ev_payload :: VerificationPayload
  ev_gatewayId :: "string option"

section \<open>Hexadecimal text\<close>

text \<open>
  \<open>Buffer.from(text, 'hex')\<close> decodes pairs of hex digits and stops, without an error,
  at the first pair that is not one.
\<close>

definition hex_val :: "char \<Rightarrow> nat option" where
  "hex_val c =
     (let n = of_char c in
      if 48 \<le> n \<and> n \<le> 57 then Some (n - 48)
      else if 97 \<le> n \<and> n \<le> 102 then Some (n - 87)
      else if 65 \<le> n \<and> n \<le> 70 then Some (n - 55)
      else None)"

fun hex_decode :: "string \<Rightarrow> nat list" where
  "hex_decode (a # b # cs) =
     (case hex_val a of
        None \<Rightarrow> []
      | Some x \<Rightarrow> (case hex_val b of None \<Rightarrow> [] | Some y \<Rightarrow> (16 * x + y) # hex_decode cs))"
| "hex_decode _ = []"

definition is_lower_hex :: "string \<Rightarrow> bool" where
  "is_lower_hex s =
     list_all (\<lambda>c. (48 \<le> (of_char c :: nat) \<and> (of_char c :: nat) \<le> 57) \<or>
                   (97 \<le> (of_char c :: nat) \<and> (of_char c :: nat) \<le> 102)) s"

definition hex_digit :: "nat \<Rightarrow> char" where
  "hex_digit d = (if d < 10 then char_of (48 + d) else char_of (87 + d))"

definition hex_encode :: "nat list \<Rightarrow> string" where
  "hex_encode bs = concat (map (\<lambda>b. [hex_digit (b div 16), hex_digit (b mod 16)]) bs)"

lemma hex_val_bound: "hex_val c = Some x \<Longrightarrow> x < 16"
  by (auto simp: hex_val_def Let_def split: if_splits)

lemma hex_val_lower:
  assumes "is_lower_hex [c]"
  obtains x where "hex_val c = Some x" and "x < 16" and "hex_digit x = c"
proof -
  let ?n = "of_char c :: nat"
  from assms consider "48 \<le> ?n" "?n \<le> 57" | "97 \<le> ?n" "?n \<le> 102"
    by (auto simp: is_lower_hex_def)
  then show ?thesis
  proof cases
    case 1
    then have "hex_val c = Some (?n - 48)" by (simp add: hex_val_def Let_def)
    moreover have "?n - 48 < 10" and "48 + (?n - 48) = ?n" using 1 by linarith+
    then have "hex_digit (?n - 48) = c" by (simp add: hex_digit_def)
    ultimately show ?thesis using 1 that by auto
  next
    case 2
    then have "hex_val c = Some (?n - 87)" by (simp add: hex_val_def Let_def)
    moreover have "\<not> ?n - 87 < 10" and "87 + (?n - 87) = ?n" using 2 by linarith+
    then have "hex_digit (?n - 87) = c" by (simp add: hex_digit_def)
    ultimately show ?thesis using 2 that by auto
  qed
qed

lemma hex_decode_bytes: "b \<in> set (hex_decode s) \<Longrightarrow> b < 256"
proof (induction s rule: hex_decode.induct)
  case (1 a b' cs)
  show ?case
  proof (cases "hex_val a")
    case None
    with "1.prems" show ?thesis by simp
  next
    case (Some x)
    note x = Some
    show ?thesis
    proof (cases "hex_val b'")
      case None
      with x "1.prems" show ?thesis by simp
    next
      case (Some y)
      with "1.prems" x have "b = 16 * x + y \<or> b \<in> set (hex_decode cs)" by simp
      then show ?thesis
        using "1.IH" [OF x Some] hex_val_bound [OF x] hex_val_bound [OF Some] by auto
    qed
  qed
qed simp_all

lemma hex_decode_length: "length (hex_decode s) \<le> length s div 2"
  by (induction s rule: hex_decode.induct) (auto split: option.splits)

lemma hex_roundtrip:
  "is_lower_hex s \<Longrightarrow> even (length s) \<Longrightarrow>
     hex_encode (hex_decode s) = s \<and> 2 * length (hex_decode s) = length s"
proof (induction s rule: hex_decode.induct)
  case (1 a b cs)
  then have "is_lower_hex [a]" "is_lower_hex [b]" and tail: "is_lower_hex cs" "even (length cs)"
    by (auto simp: is_lower_hex_def)
  then obtain x y where "hex_val a = Some x" "x < 16" "hex_digit x = a"
    and "hex_val b = Some y" "y < 16" "hex_digit y = b"
    using hex_val_lower by metis
  with "1.IH" tail show ?case by (simp add: hex_encode_def)
qed (auto simp: hex_encode_def is_lower_hex_def)

end
