(* ===== verification/ErrorCodes.thy ===== *)
theory ErrorCodes
  imports Prelude
begin

text \<open>
  The error vocabulary of \<open>packages/shared/src/errors\<close>: the codes of \<open>codes.ts\<close>
  and the status computed from them by parsing the code string, and the error
  classes of \<open>index.ts\<close> as records built by one constructor function per class.
  What is thrown at run time is a \<open>thrown\<close>: one of these errors, a JavaScript
  \<open>Error\<close>, or any other value.
\<close>

section \<open>Codes and HTTP status\<close>

datatype ErrorCode =
    VALIDATION_FAILED | INVALID_SCHEMA | INVALID_PROOF_FORMAT | INVALID_COMMITMENT
  | INVALID_PREDICATE | MISSING_REQUIRED_FIELD
  | AUTHENTICATION_REQUIRED | INVALID_TOKEN | TOKEN_EXPIRED | INVALID_SIGNATURE
  | AUTHORIZATION_FAILED | INSUFFICIENT_ROLE | ACCESS_DENIED | RESOURCE_FORBIDDEN
  | NOT_FOUND | PRODUCT_NOT_FOUND | SUPPLIER_NOT_FOUND | PREDICATE_NOT_FOUND
  | COMMITMENT_NOT_FOUND
  | PROOF_VERIFICATION_FAILED | PROOF_EXPIRED | NONCE_ALREADY_USED | INVALID_MERKLE_PROOF
  | CIRCUIT_NOT_FOUND
  | DATABASE_ERROR | CONNECTION_FAILED | QUERY_FAILED | DUPLICATE_ENTRY
  | EVENT_BUS_ERROR | EVENT_PUBLISH_FAILED | EVENT_SUBSCRIBE_FAILED
  | RATE_LIMIT_EXCEEDED
  | INTERNAL_ERROR | SERVICE_UNAVAILABLE | CONFIGURATION_ERROR

fun code_string :: "ErrorCode \<Rightarrow> string" where
  "code_string VALIDATION_FAILED = ''ZKDPP-VAL-100''"
| "code_string INVALID_SCHEMA = ''ZKDPP-VAL-101''"
| "code_string INVALID_PROOF_FORMAT = ''ZKDPP-VAL-102''"
| "code_string INVALID_COMMITMENT = ''ZKDPP-VAL-103''"
| "code_string INVALID_PREDICATE = ''ZKDPP-VAL-104''"
| "code_string MISSING_REQUIRED_FIELD = ''ZKDPP-VAL-105''"
| "code_string AUTHENTICATION_REQUIRED = ''ZKDPP-AUTH-200''"
| "code_string INVALID_TOKEN = ''ZKDPP-AUTH-201''"
| "code_string TOKEN_EXPIRED = ''ZKDPP-AUTH-202''"
| "code_string INVALID_SIGNATURE = ''ZKDPP-AUTH-203''"
| "code_string AUTHORIZATION_FAILED = ''ZKDPP-AUTHZ-300''"
| "code_string INSUFFICIENT_ROLE = ''ZKDPP-AUTHZ-301''"
| "code_string ACCESS_DENIED = ''ZKDPP-AUTHZ-302''"
| "code_string RESOURCE_FORBIDDEN = ''ZKDPP-AUTHZ-303''"
| "code_string NOT_FOUND = ''ZKDPP-NF-400''"
| "code_string PRODUCT_NOT_FOUND = ''ZKDPP-NF-401''"
| "code_string SUPPLIER_NOT_FOUND = ''ZKDPP-NF-402''"
| "code_string PREDICATE_NOT_FOUND = ''ZKDPP-NF-403''"
| "code_string COMMITMENT_NOT_FOUND = ''ZKDPP-NF-404''"
| "code_string PROOF_VERIFICATION_FAILED = ''ZKDPP-PROOF-500''"
| "code_string PROOF_EXPIRED = ''ZKDPP-PROOF-501''"
| "code_string NONCE_ALREADY_USED = ''ZKDPP-PROOF-502''"
| "code_string INVALID_MERKLE_PROOF = ''ZKDPP-PROOF-503''"
| "code_string CIRCUIT_NOT_FOUND = ''ZKDPP-PROOF-504''"
| "code_string DATABASE_ERROR = ''ZKDPP-DB-600''"
| "code_string CONNECTION_FAILED = ''ZKDPP-DB-601''"
| "code_string QUERY_FAILED = ''ZKDPP-DB-602''"
| "code_string DUPLICATE_ENTRY = ''ZKDPP-DB-603''"
| "code_string EVENT_BUS_ERROR = ''ZKDPP-EB-700''"
| "code_string EVENT_PUBLISH_FAILED = ''ZKDPP-EB-701''"
| "code_string EVENT_SUBSCRIBE_FAILED = ''ZKDPP-EB-702''"
| "code_string RATE_LIMIT_EXCEEDED = ''ZKDPP-RL-800''"
| "code_string INTERNAL_ERROR = ''ZKDPP-INT-900''"
| "code_string SERVICE_UNAVAILABLE = ''ZKDPP-INT-901''"
| "code_string CONFIGURATION_ERROR = ''ZKDPP-INT-902''"

definition ErrorHttpStatus :: "(string \<times> nat) list" where
  "ErrorHttpStatus =
     [(''ZKDPP-VAL'', 400), (''ZKDPP-AUTH'', 401), (''ZKDPP-AUTHZ'', 403), (''ZKDPP-NF'', 404),
      (''ZKDPP-PROOF'', 422), (''ZKDPP-DB'', 500), (''ZKDPP-EB'', 500), (''ZKDPP-RL'', 429),
      (''ZKDPP-INT'', 500)]"

definition code_prefix :: "string \<Rightarrow> string" where
  "code_prefix code = js_join ''-'' (take 2 (js_split (CHR ''-'') code))"

text \<open>The argument is one of the listed codes, so the prefix is never a prototype member.\<close>

definition getHttpStatusFromCode :: "ErrorCode \<Rightarrow> nat" where
  "getHttpStatusFromCode code =
     js_coalesce (map_of ErrorHttpStatus (code_prefix (code_string code))) 500"

definition code_number :: "ErrorCode \<Rightarrow> nat" where
  "code_number code = read_nat (js_split (CHR ''-'') (code_string code) ! 2)"

lemma status_table:
  "(getHttpStatusFromCode code, code_number code div 100) \<in>
     {(400, 1), (401, 2), (403, 3), (404, 4), (422, 5), (500, 6), (500, 7), (429, 8), (500, 9)}"
  by (cases code)
    (simp_all add: getHttpStatusFromCode_def code_prefix_def ErrorHttpStatus_def js_coalesce_def
      code_number_def read_nat_def digit_val_def)

section \<open>Error objects\<close>

datatype detail = DStr string | DStrs "string list" | DNum int | DUndef

record ZkDppError =
  err_name :: string
  err_code :: ErrorCode
  err_statusCode :: nat
  err_message :: string
  err_details :: "(string \<times> detail) list option"
  err_timestamp :: time_ms

datatype thrown =
    ThrownZk ZkDppError
  | ThrownError string string  \<comment> \<open>an \<open>Error\<close>: its name and message\<close>
  | ThrownOther string  \<comment> \<open>any other value, by its \<open>String(...)\<close>\<close>

definition mkZkDppError ::
  "time_ms \<Rightarrow> ErrorCode \<Rightarrow> string \<Rightarrow> (string \<times> detail) list option \<Rightarrow> ZkDppError" where
  "mkZkDppError now code message details =
     \<lparr>err_name = ''ZkDppError'', err_code = code, err_statusCode = getHttpStatusFromCode code,
      err_message = message, err_details = details, err_timestamp = now\<rparr>"

definition mkValidationError ::
  "time_ms \<Rightarrow> string \<Rightarrow> (string \<times> detail) list option \<Rightarrow> ZkDppError" where
  "mkValidationError now message details =
     (mkZkDppError now VALIDATION_FAILED message details)\<lparr>err_name := ''ValidationError''\<rparr>"

definition mkAuthenticationError :: "time_ms \<Rightarrow> string \<Rightarrow> ErrorCode \<Rightarrow> ZkDppError" where
  "mkAuthenticationError now message code =
     (mkZkDppError now code message None)\<lparr>err_name := ''AuthenticationError''\<rparr>"

definition mkAuthorizationError ::
  "time_ms \<Rightarrow> string \<Rightarrow> ErrorCode \<Rightarrow> (string \<times> detail) list option \<Rightarrow> ZkDppError" where
  "mkAuthorizationError now message code details =
     (mkZkDppError now code message details)\<lparr>err_name := ''AuthorizationError''\<rparr>"

definition mkNotFoundError ::
  "time_ms \<Rightarrow> string \<Rightarrow> string option \<Rightarrow> ErrorCode \<Rightarrow> ZkDppError" where
  "mkNotFoundError now resource identifier code =
     (let message = (case js_or_null identifier of
                       Some i \<Rightarrow> resource @ '' not found: '' @ i
                     | None \<Rightarrow> resource @ '' not found'')
      in (mkZkDppError now code message
            (Some [(''resource'', DStr resource),
                   (''identifier'', case identifier of None \<Rightarrow> DUndef | Some i \<Rightarrow> DStr i)]))
           \<lparr>err_name := ''NotFoundError''\<rparr>)"

definition mkProofVerificationError ::
  "time_ms \<Rightarrow> string \<Rightarrow> ErrorCode \<Rightarrow> (string \<times> detail) list option \<Rightarrow> ZkDppError" where
  "mkProofVerificationError now message code details =
     (mkZkDppError now code message details)\<lparr>err_name := ''ProofVerificationError''\<rparr>"

definition mkDatabaseError ::
  "time_ms \<Rightarrow> string \<Rightarrow> ErrorCode \<Rightarrow> (string \<times> detail) list option \<Rightarrow> ZkDppError" where
  "mkDatabaseError now message code details =
     (mkZkDppError now code message details)\<lparr>err_name := ''DatabaseError''\<rparr>"

definition mkEventBusError ::
  "time_ms \<Rightarrow> string \<Rightarrow> ErrorCode \<Rightarrow> (string \<times> detail) list option \<Rightarrow> ZkDppError" where
  "mkEventBusError now message code details =
     (mkZkDppError now code message details)\<lparr>err_name := ''EventBusError''\<rparr>"

definition mkRateLimitError :: "time_ms \<Rightarrow> string \<Rightarrow> int option \<Rightarrow> ZkDppError" where
  "mkRateLimitError now message retryAfterMs =
     (mkZkDppError now RATE_LIMIT_EXCEEDED message
        (Some [(''retryAfterMs'', case retryAfterMs of None \<Rightarrow> DUndef | Some n \<Rightarrow> DNum n)]))
       \<lparr>err_name := ''RateLimitError''\<rparr>"

definition mkInternalError ::
  "time_ms \<Rightarrow> string \<Rightarrow> ErrorCode \<Rightarrow> (string \<times> detail) list option \<Rightarrow> ZkDppError" where
  "mkInternalError now message code details =
     (mkZkDppError now code message details)\<lparr>err_name := ''InternalError''\<rparr>"

fun isZkDppError :: "thrown \<Rightarrow> bool" where
  "isZkDppError (ThrownZk e) = True"
| "isZkDppError _ = False"

fun wrapError :: "time_ms \<Rightarrow> thrown \<Rightarrow> ZkDppError" where
  "wrapError now (ThrownZk e) = e"
| "wrapError now (ThrownError name message) =
     mkInternalError now message INTERNAL_ERROR (Some [(''originalError'', DStr name)])"
| "wrapError now (ThrownOther s) =
     mkInternalError now ''An unexpected error occurred'' INTERNAL_ERROR None"

text \<open>\<open>toJSON\<close>: what the client is sent.\<close>

record ErrorBody =
  body_error :: string
  body_code :: string
  body_message :: string
  body_details :: "(string \<times> detail) list option"
  body_timestamp :: time_ms

definition toJSON :: "ZkDppError \<Rightarrow> ErrorBody" where
  "toJSON e =
     \<lparr>body_error = err_name e, body_code = code_string (err_code e), body_message = err_message e,
      body_details = err_details e, body_timestamp = err_timestamp e\<rparr>"

text \<open>
  The status a thrown value is answered with: Fastify's default handler uses the
  \<open>statusCode\<close> field of the error when it has one, and 500 otherwise.
\<close>

fun reply_status :: "thrown \<Rightarrow> nat" where
  "reply_status (ThrownZk e) = err_statusCode e"
| "reply_status _ = 500"

definition error_wf :: "ZkDppError \<Rightarrow> bool" where
  "error_wf e = (err_statusCode e = getHttpStatusFromCode (err_code e))"

lemmas error_constructor_defs =
  mkZkDppError_def mkValidationError_def mkAuthenticationError_def mkAuthorizationError_def
  mkNotFoundError_def mkProofVerificationError_def mkDatabaseError_def mkEventBusError_def
  mkRateLimitError_def mkInternalError_def

lemma constructors_wf [simp]:
  "error_wf (mkZkDppError now code msg det)"
  "error_wf (mkValidationError now msg det)"
  "error_wf (mkAuthenticationError now msg code)"
  "error_wf (mkAuthorizationError now msg code det)"
  "error_wf (mkNotFoundError now msg ident code)"
  "error_wf (mkProofVerificationError now msg code det)"
  "error_wf (mkDatabaseError now msg code det)"
  "error_wf (mkEventBusError now msg code det)"
  "error_wf (mkRateLimitError now msg retry)"
  "error_wf (mkInternalError now msg code det)"
  by (simp_all add: error_wf_def error_constructor_defs Let_def)

lemma status_of_internal [simp]: "getHttpStatusFromCode INTERNAL_ERROR = 500"
  by (simp add: getHttpStatusFromCode_def code_prefix_def ErrorHttpStatus_def js_coalesce_def)

lemma status_of_authorization [simp]:
  "getHttpStatusFromCode AUTHORIZATION_FAILED = 403"
  "getHttpStatusFromCode ACCESS_DENIED = 403"
  "getHttpStatusFromCode INSUFFICIENT_ROLE = 403"
  "getHttpStatusFromCode RESOURCE_FORBIDDEN = 403"
  by (simp_all add: getHttpStatusFromCode_def code_prefix_def ErrorHttpStatus_def js_coalesce_def)

lemma status_of_authentication [simp]:
  "getHttpStatusFromCode AUTHENTICATION_REQUIRED = 401"
  "getHttpStatusFromCode INVALID_TOKEN = 401"
  "getHttpStatusFromCode TOKEN_EXPIRED = 401"
  by (simp_all add: getHttpStatusFromCode_def code_prefix_def ErrorHttpStatus_def js_coalesce_def)

section \<open>Properties of the error objects\<close>

text \<open>The HTTP status of a code, found by cutting its string at the dashes, is the one of
  the hundred its number lies in: 1xx validation 400, 2xx authentication 401, 3xx authorization
  403, 4xx not found 404, 5xx proof 422, 8xx rate limit 429, and 500 for the rest.\<close>

lemma status_by_code_number:
  "getHttpStatusFromCode code =
     (let h = code_number code div 100 in
      if h = 1 then 400 else if h = 2 then 401 else if h = 3 then 403 else if h = 4 then 404
      else if h = 5 then 422 else if h = 8 then 429 else 500) \<and>
   1 \<le> code_number code div 100 \<and> code_number code div 100 \<le> 9"
  using status_table [of code] by (auto simp: Let_def)

text \<open>Whatever was thrown, wrapping it gives an error whose status agrees with its code,
  keeps a \<open>ZkDppError\<close> as it is and otherwise answers 500 as the unwrapped value would.\<close>

lemma wrapError_status:
  "(case t of ThrownZk e \<Rightarrow> wrapError now t = e
    | ThrownError n m \<Rightarrow> error_wf (wrapError now t) \<and> err_message (wrapError now t) = m
    | ThrownOther s \<Rightarrow> error_wf (wrapError now t)) \<and>
   reply_status (ThrownZk (wrapError now t)) = reply_status t"
  by (cases t) (simp_all add: mkInternalError_def mkZkDppError_def error_wf_def)

end
