(* ===== verification/NoirCli.thy ===== *)
theory NoirCli
  imports Schemas ErrorCodes
begin

text \<open>
  The Noir backend of the gateway (\<open>services/verify-gateway/src/services/noir-cli.ts\<close>).
  A path is the list of its segments, the file system a map from paths, and the \<open>nargo\<close>
  binary is a parameter with its two commands. \<open>verifyWithNoirCli\<close> runs synchronously
  up to the \<open>await\<close> on \<open>nargo verify\<close>: \<open>noirPrepare\<close> is the part before it, which
  writes the proof and \<open>Verifier.toml\<close>, and \<open>noirFinish\<close> the part after it, which
  reads whatever these files hold by then.
\<close>

section \<open>Verifier.toml\<close>

definition stripHexPrefix :: "string \<Rightarrow> string" where
  "stripHexPrefix value = (if js_startsWith value ''0x'' then drop 2 value else value)"

definition toml_array :: "nat list \<Rightarrow> string" where
  "toml_array bytes = ''['' @ js_join '', '' (map show_nat bytes) @ '']''"

definition bytesToTomlArray :: "string \<Rightarrow> thrown + string" where
  "bytesToTomlArray hex =
     (let bytes = hex_decode (stripHexPrefix hex) in
      if length bytes \<noteq> 32
      then Inl (ThrownError ''Error'' ''Expected 32-byte hex value for binding/hash'')
      else Inr (toml_array bytes))"

definition toml_line :: "string \<Rightarrow> string \<Rightarrow> string" where
  "toml_line key val = key @ '' = '' @ val"

definition quoted :: "string \<Rightarrow> string" where
  "quoted s = [CHR 0x22] @ s @ [CHR 0x22]"

definition extra_field :: "PublicInputs \<Rightarrow> string \<Rightarrow> json_value option" where
  "extra_field publicInputs key =
     (case pi_extra publicInputs of None \<Rightarrow> None | Some flds \<Rightarrow> map_of flds key)"

text \<open>\<open>publicInputs.timestamp ?? publicInputs.extra?.checkTimestamp\<close>\<close>

definition check_timestamp_text :: "PublicInputs \<Rightarrow> string option" where
  "check_timestamp_text publicInputs =
     (case pi_timestamp publicInputs of
        Some t \<Rightarrow> Some (show_int t)
      | None \<Rightarrow> map_option json_text (extra_field publicInputs ''checkTimestamp''))"

text \<open>\<open>extra?.forbiddenListHash || extra?.forbidden_list_hash\<close>, when truthy.\<close>

definition forbidden_hash :: "PublicInputs \<Rightarrow> string option" where
  "forbidden_hash publicInputs =
     (let second = (case extra_field publicInputs ''forbidden_list_hash'' of
                      Some w \<Rightarrow> if json_truthy w then Some (json_text w) else None
                    | None \<Rightarrow> None)
      in case extra_field publicInputs ''forbiddenListHash'' of
           Some v \<Rightarrow> if json_truthy v then Some (json_text v) else second
         | None \<Rightarrow> second)"

definition threshold_lines :: "PublicInputs \<Rightarrow> string list" where
  "threshold_lines publicInputs =
     (case pi_threshold publicInputs of
        None \<Rightarrow> [] | Some t \<Rightarrow> [toml_line ''threshold'' (quoted (show_int t))])"

definition timestamp_lines ::
  "PredicateDefinition \<Rightarrow> PublicInputs \<Rightarrow> thrown + string list" where
  "timestamp_lines predicate publicInputs =
     (if pd_name predicate = ''CERT_VALID'' then
        (case check_timestamp_text publicInputs of
           None \<Rightarrow> Inl (ThrownError ''Error'' ''Missing timestamp for CERT_VALID verification'')
         | Some checkTs \<Rightarrow> Inr [toml_line ''check_timestamp'' (quoted checkTs)])
      else case pi_timestamp publicInputs of
        Some t \<Rightarrow> Inr [toml_line ''timestamp'' (quoted (show_int t))]
      | None \<Rightarrow> Inr [])"

definition hash_line :: "string \<Rightarrow> string \<Rightarrow> thrown + string" where
  "hash_line key hex = sum_bind (bytesToTomlArray hex) (\<lambda>a. Inr (toml_line key a))"

definition toml_lines :: "PredicateDefinition \<Rightarrow> PublicInputs \<Rightarrow> thrown + string list" where
  "toml_lines predicate publicInputs =
     sum_bind (timestamp_lines predicate publicInputs) (\<lambda>ts.
     sum_bind (hash_line ''commitment_root'' (pi_commitmentRoot publicInputs)) (\<lambda>root.
     sum_bind (hash_line ''product_binding'' (pi_productBinding publicInputs)) (\<lambda>product.
     sum_bind (hash_line ''requester_binding'' (pi_requesterBinding publicInputs)) (\<lambda>requester.
     sum_bind (case forbidden_hash publicInputs of
                 None \<Rightarrow> Inr []
               | Some h \<Rightarrow> sum_bind (hash_line ''forbidden_list_hash'' h) (\<lambda>l. Inr [l])) (\<lambda>forbidden.
     Inr (threshold_lines publicInputs @ ts @ [root, product, requester] @ forbidden))))))"

definition buildVerifierToml :: "PredicateDefinition \<Rightarrow> PublicInputs \<Rightarrow> thrown + string" where
  "buildVerifierToml predicate publicInputs =
     sum_bind (toml_lines predicate publicInputs)
       (\<lambda>lines. Inr (js_join [CHR 0x0A] lines @ [CHR 0x0A]))"

section \<open>Locating and compiling the circuit\<close>

type_synonym path = "string list"

datatype fs_entry = FBytes "nat list" | FText string | FDir

type_synonym file_system = "path \<Rightarrow> fs_entry option"

definition fs_exists :: "file_system \<Rightarrow> path \<Rightarrow> bool" where
  "fs_exists fs p = (fs p \<noteq> None)"

text \<open>\<open>path.join(dir, circuitPath)\<close>; an undefined second argument is a \<open>TypeError\<close>.\<close>

definition path_join :: "path \<Rightarrow> string option \<Rightarrow> thrown + path" where
  "path_join dir sub =
     (case sub of
        None \<Rightarrow> Inl (ThrownError ''TypeError''
                  ''The path argument must be of type string. Received undefined'')
      | Some s \<Rightarrow> Inr (dir @ [s]))"

fun walk_up :: "(path \<Rightarrow> bool) \<Rightarrow> nat \<Rightarrow> path \<Rightarrow> path option" where
  "walk_up existsAt 0 current = None"
| "walk_up existsAt (Suc i) current =
     (let candidate = current @ [''circuits'', ''noir'', ''predicates''] in
      if existsAt candidate then Some candidate
      else if current = [] then None
      else walk_up existsAt i (butlast current))"

definition resolveCircuitDir ::
  "file_system \<Rightarrow> path \<Rightarrow> path option \<Rightarrow> string option \<Rightarrow> thrown + path" where
  "resolveCircuitDir fs cwd circuitsDir circuitPath =
     (case circuitsDir of
        Some dir \<Rightarrow>
          if fs_exists fs dir then path_join dir circuitPath
          else (case walk_up (fs_exists fs) 6 cwd of
                  Some candidate \<Rightarrow> path_join candidate circuitPath
                | None \<Rightarrow> Inl (ThrownError ''Error''
                    ''NOIR_CIRCUITS_DIR not found. Set NOIR_CIRCUITS_DIR to circuits/noir/predicates''))
      | None \<Rightarrow>
          (case walk_up (fs_exists fs) 6 cwd of
             Some candidate \<Rightarrow> path_join candidate circuitPath
           | None \<Rightarrow> Inl (ThrownError ''Error''
               ''NOIR_CIRCUITS_DIR not found. Set NOIR_CIRCUITS_DIR to circuits/noir/predicates'')))"

text \<open>
  The external binary: \<open>compile\<close> in a directory fails with a message or leaves a file
  system, \<open>verify\<close> fails with a message or accepts.
\<close>

record nargo =
  nargo_compile :: "path \<Rightarrow> file_system \<Rightarrow> string + file_system"
  nargo_verify :: "path \<Rightarrow> file_system \<Rightarrow> string option"

definition ensureCompiled ::
  "nargo \<Rightarrow> path \<Rightarrow> string \<Rightarrow> file_system \<Rightarrow> thrown + file_system" where
  "ensureCompiled ng circuitDir packageName fs =
     (if fs_exists fs (circuitDir @ [''target'', packageName @ ''.json'']) then Inr fs
      else case nargo_compile ng circuitDir fs of
        Inl msg \<Rightarrow> Inl (ThrownError ''Error'' msg)
      | Inr fs' \<Rightarrow> Inr fs')"

section \<open>Running the verifier\<close>

fun stringifyError :: "thrown \<Rightarrow> string" where
  "stringifyError (ThrownError name msg) = msg"
| "stringifyError (ThrownZk e) = err_message e"
| "stringifyError (ThrownOther s) = s"

record ProofResult =
  pr_valid :: bool
  pr_error :: "string option"

definition circuit_of :: "PredicateDefinition js_prop \<Rightarrow> string option" where
  "circuit_of predicate = (case predicate of Own p \<Rightarrow> Some (pd_circuitPath p) | _ \<Rightarrow> None)"

definition proof_file :: "path \<Rightarrow> string \<Rightarrow> path" where
  "proof_file dir pkg = dir @ [''proofs'', pkg @ ''.proof'']"

definition toml_file :: "path \<Rightarrow> path" where
  "toml_file dir = dir @ [''Verifier.toml'']"

definition noirPrepare ::
  "nargo \<Rightarrow> path \<Rightarrow> path option \<Rightarrow> PredicateDefinition js_prop \<Rightarrow> string \<Rightarrow> PublicInputs \<Rightarrow>
     file_system \<Rightarrow> (thrown + path) \<times> file_system" where
  "noirPrepare ng cwd circuitsDir predicate proofHex publicInputs fs =
     (case resolveCircuitDir fs cwd circuitsDir (circuit_of predicate) of
        Inl e \<Rightarrow> (Inl e, fs)
      | Inr dir \<Rightarrow>
          (case predicate of
             Own p \<Rightarrow>
               (case ensureCompiled ng dir (pd_circuitPath p) fs of
                  Inl e \<Rightarrow> (Inl e, fs)
                | Inr fs1 \<Rightarrow>
                    let fs2 = fs1(dir @ [''proofs''] \<mapsto> FDir);
                        fs3 = fs2(proof_file dir (pd_circuitPath p) \<mapsto> FBytes (hex_decode proofHex))
                    in case buildVerifierToml p publicInputs of
                         Inl e \<Rightarrow> (Inl e, fs3)
                       | Inr toml \<Rightarrow> (Inr dir, fs3(toml_file dir \<mapsto> FText toml)))
           | _ \<Rightarrow> (Inl (ThrownError ''TypeError'' ''unreachable''), fs)))"

definition noirFinish :: "nargo \<Rightarrow> thrown + path \<Rightarrow> file_system \<Rightarrow> ProofResult" where
  "noirFinish ng pending fs =
     (case pending of
        Inl e \<Rightarrow> \<lparr>pr_valid = False, pr_error = Some (stringifyError e)\<rparr>
      | Inr dir \<Rightarrow>
          (case nargo_verify ng dir fs of
             None \<Rightarrow> \<lparr>pr_valid = True, pr_error = None\<rparr>
           | Some msg \<Rightarrow> \<lparr>pr_valid = False, pr_error = Some msg\<rparr>))"

text \<open>One request with no other request between its two halves.\<close>

definition verifyWithNoirCli ::
  "nargo \<Rightarrow> path \<Rightarrow> path option \<Rightarrow> PredicateDefinition js_prop \<Rightarrow> string \<Rightarrow> PublicInputs \<Rightarrow>
     file_system \<Rightarrow> ProofResult \<times> file_system" where
  "verifyWithNoirCli ng cwd circuitsDir predicate proofHex publicInputs fs =
     (let (pending, fs') = noirPrepare ng cwd circuitsDir predicate proofHex publicInputs fs
      in (noirFinish ng pending fs', fs'))"

section \<open>Facts about the walk\<close>

lemma walk_up_sound: "walk_up ex n cur = Some c \<Longrightarrow> ex c"
  by (induction n arbitrary: cur) (auto simp: Let_def split: if_splits)

lemma walk_up_iff:
  "walk_up ex n cur = Some c \<longleftrightarrow>
     (\<exists>k < n. k \<le> length cur \<and> c = take (length cur - k) cur @ [''circuits'', ''noir'', ''predicates'']
        \<and> ex c
        \<and> (\<forall>j < k. \<not> ex (take (length cur - j) cur @ [''circuits'', ''noir'', ''predicates''])))"
proof (induction n arbitrary: cur)
  case 0
  then show ?case by simp
next
  case (Suc n)
  let ?cand = "\<lambda>k. take (length cur - k) cur @ [''circuits'', ''noir'', ''predicates'']"
  show ?case
  proof (cases "ex (?cand 0)")
    case True
    have zero: "k = 0" if "\<forall>j < k. \<not> ex (?cand j)" for k
      using that True by (cases k) auto
    from True have "walk_up ex (Suc n) cur = Some c \<longleftrightarrow> c = ?cand 0" by (auto simp: Let_def)
    also have "\<dots> \<longleftrightarrow> (\<exists>k < Suc n. k \<le> length cur \<and> c = ?cand k \<and> ex c \<and>
        (\<forall>j < k. \<not> ex (?cand j)))"
      using True zero by (metis le0 less_nat_zero_code zero_less_Suc)
    finally show ?thesis .
  next
    case miss: False
    show ?thesis
    proof (cases "cur = []")
      case True
      with miss show ?thesis by (auto simp: Let_def)
    next
      case False
      have shift: "take (length (butlast cur) - k) (butlast cur) = take (length cur - Suc k) cur" for k
        by (simp add: butlast_conv_take min_def)
      have len: "k \<le> length (butlast cur) \<longleftrightarrow> Suc k \<le> length cur" for k
        using False by (cases cur) auto
      have "walk_up ex (Suc n) cur = Some c \<longleftrightarrow> walk_up ex n (butlast cur) = Some c"
        using miss False by (simp add: Let_def)
      also have "\<dots> \<longleftrightarrow> (\<exists>k < n. Suc k \<le> length cur \<and> c = ?cand (Suc k) \<and> ex c \<and>
          (\<forall>j < k. \<not> ex (?cand (Suc j))))"
        unfolding Suc.IH shift len by (rule refl)
      also have "\<dots> \<longleftrightarrow> (\<exists>k < Suc n. k \<le> length cur \<and> c = ?cand k \<and> ex c \<and>
          (\<forall>j < k. \<not> ex (?cand j)))" (is "?L \<longleftrightarrow> ?R")
      proof
        assume ?L
        then obtain k where "k < n" "Suc k \<le> length cur" "c = ?cand (Suc k)" "ex c"
          "\<forall>j < k. \<not> ex (?cand (Suc j))" by blast
        then show ?R using miss by (intro exI [of _ "Suc k"]) (auto simp: less_Suc_eq_0_disj)
      next
        assume ?R
        then obtain k where k: "k < Suc n" "k \<le> length cur" "c = ?cand k" "ex c"
          "\<forall>j < k. \<not> ex (?cand j)" by blast
        with miss obtain k' where "k = Suc k'" by (cases k) auto
        with k show ?L by (intro exI [of _ k']) auto
      qed
      finally show ?thesis .
    qed
  qed
qed

section \<open>Facts about Verifier.toml\<close>

definition toml_key :: "string \<Rightarrow> string" where
  "toml_key line = takeWhile (\<lambda>c. c \<noteq> CHR '' '') line"

lemma toml_key_line: "CHR '' '' \<notin> set key \<Longrightarrow> toml_key (toml_line key v) = key"
  unfolding toml_key_def toml_line_def by (subst takeWhile_append2) auto

lemma hash_line_key:
  "hash_line key hex = Inr l \<Longrightarrow> CHR '' '' \<notin> set key \<Longrightarrow> toml_key l = key"
  by (auto simp: hash_line_def inr_iff toml_key_line)

text \<open>The keys a package makes the file hold, in order.\<close>

definition expected_keys :: "PredicateDefinition \<Rightarrow> PublicInputs \<Rightarrow> string list" where
  "expected_keys predicate publicInputs =
     (if pi_threshold publicInputs = None then [] else [''threshold'']) @
     (if pd_name predicate = ''CERT_VALID'' then [''check_timestamp'']
      else if pi_timestamp publicInputs = None then [] else [''timestamp'']) @
     [''commitment_root'', ''product_binding'', ''requester_binding''] @
     (if forbidden_hash publicInputs = None then [] else [''forbidden_list_hash''])"

lemma timestamp_lines_keys:
  "timestamp_lines p i = Inr ts \<Longrightarrow>
     map toml_key ts =
       (if pd_name p = ''CERT_VALID'' then [''check_timestamp'']
        else if pi_timestamp i = None then [] else [''timestamp''])"
  by (auto simp: timestamp_lines_def toml_key_line split: if_splits option.splits)

lemma threshold_lines_keys:
  "map toml_key (threshold_lines i) = (if pi_threshold i = None then [] else [''threshold''])"
  by (simp add: threshold_lines_def toml_key_line split: option.split)

lemma toml_lines_keys:
  assumes "toml_lines p i = Inr ls"
  shows "map toml_key ls = expected_keys p i"
proof -
  from assms obtain ts root product requester forbidden where
    ts: "timestamp_lines p i = Inr ts" and
    root: "hash_line ''commitment_root'' (pi_commitmentRoot i) = Inr root" and
    product: "hash_line ''product_binding'' (pi_productBinding i) = Inr product" and
    requester: "hash_line ''requester_binding'' (pi_requesterBinding i) = Inr requester" and
    forbidden: "(case forbidden_hash i of None \<Rightarrow> Inr []
       | Some h \<Rightarrow> sum_bind (hash_line ''forbidden_list_hash'' h) (\<lambda>l. Inr [l])) = Inr forbidden"
    and ls: "ls = threshold_lines i @ ts @ [root, product, requester] @ forbidden"
    by (auto simp: toml_lines_def inr_iff)
  have "map toml_key forbidden =
      (if forbidden_hash i = None then [] else [''forbidden_list_hash''])"
    using forbidden by (auto simp: inr_iff hash_line_key split: option.splits)
  with timestamp_lines_keys [OF ts] hash_line_key [OF root] hash_line_key [OF product]
    hash_line_key [OF requester]
  show ?thesis by (simp add: ls expected_keys_def threshold_lines_keys)
qed

definition is_hash32 :: "string \<Rightarrow> bool" where
  "is_hash32 s = (is_lower_hex s \<and> length s = 64)"

lemma hash32_no_prefix: "is_hash32 s \<Longrightarrow> stripHexPrefix s = s"
proof -
  assume s: "is_hash32 s"
  have "\<not> js_startsWith s ''0x''"
  proof
    assume "js_startsWith s ''0x''"
    then obtain t where "s = ''0x'' @ t" by (auto simp: js_startsWith_iff)
    with s show False by (simp add: is_hash32_def is_lower_hex_def)
  qed
  then show ?thesis by (simp add: stripHexPrefix_def)
qed

lemma hash32_array: "is_hash32 s \<Longrightarrow> bytesToTomlArray s = Inr (toml_array (hex_decode s))"
  using hex_roundtrip [of s] by (auto simp: bytesToTomlArray_def hash32_no_prefix is_hash32_def Let_def)

lemma toml_lines_succeed:
  assumes "is_hash32 (pi_commitmentRoot i)" "is_hash32 (pi_productBinding i)"
    "is_hash32 (pi_requesterBinding i)"
    and "pd_name p = ''CERT_VALID'' \<longrightarrow> check_timestamp_text i \<noteq> None"
    and "\<forall>h. forbidden_hash i = Some h \<longrightarrow> is_hash32 h"
  shows "\<exists>ls. toml_lines p i = Inr ls"
proof -
  obtain ts where "timestamp_lines p i = Inr ts"
    using assms(4)
    by (cases "pd_name p = ''CERT_VALID''"; cases "pi_timestamp i")
      (auto simp: timestamp_lines_def)
  with assms show ?thesis
    by (auto simp: toml_lines_def hash_line_def hash32_array split: option.splits)
qed

section \<open>Facts about the two halves\<close>

lemma noirPrepare_Inr:
  assumes "noirPrepare ng cwd cd pred proofHex i fs = (Inr dir, fs')"
  obtains p fs1 toml where "pred = Own p"
    and "resolveCircuitDir fs cwd cd (Some (pd_circuitPath p)) = Inr dir"
    and "ensureCompiled ng dir (pd_circuitPath p) fs = Inr fs1"
    and "buildVerifierToml p i = Inr toml"
    and "fs' = fs1(dir @ [''proofs''] \<mapsto> FDir,
           proof_file dir (pd_circuitPath p) \<mapsto> FBytes (hex_decode proofHex),
           toml_file dir \<mapsto> FText toml)"
proof -
  from assms obtain p where p: "pred = Own p"
    by (auto simp: noirPrepare_def circuit_of_def split: sum.splits js_prop.splits)
  with assms show ?thesis
    by (auto simp: noirPrepare_def circuit_of_def Let_def split: sum.splits intro: that)
qed

lemma prepared_files:
  assumes "noirPrepare ng cwd cd (Own p) proofHex i fs = (Inr dir, fs')"
  obtains toml where "buildVerifierToml p i = Inr toml"
    and "fs' (proof_file dir (pd_circuitPath p)) = Some (FBytes (hex_decode proofHex))"
    and "fs' (toml_file dir) = Some (FText toml)"
  using assms by (auto elim!: noirPrepare_Inr simp: proof_file_def toml_file_def)

lemma noirPrepare_unresolved:
  "pred \<noteq> Undefined \<Longrightarrow> \<forall>p. pred \<noteq> Own p \<Longrightarrow>
     \<exists>e. fst (noirPrepare ng cwd cd pred proofHex i fs) = Inl e"
  by (auto simp: noirPrepare_def circuit_of_def split: sum.splits js_prop.splits)

section \<open>Properties of the Noir backend\<close>

definition toml_ready :: "PredicateDefinition \<Rightarrow> PublicInputs \<Rightarrow> bool" where
  "toml_ready p i =
     (is_hash32 (pi_commitmentRoot i) \<and> is_hash32 (pi_productBinding i) \<and>
      is_hash32 (pi_requesterBinding i) \<and>
      (pd_name p \<noteq> ''CERT_VALID'' \<or> check_timestamp_text i \<noteq> None) \<and>
      (case forbidden_hash i of None \<Rightarrow> True | Some h \<Rightarrow> is_hash32 h))"

text \<open>A package with every input \<open>buildVerifierToml\<close> knows.\<close>

definition full_inputs :: PublicInputs where
  "full_inputs = \<lparr>pi_threshold = Some 1, pi_commitmentRoot = replicate 64 (CHR ''a''),
     pi_productBinding = replicate 64 (CHR ''b''), pi_requesterBinding = replicate 64 (CHR ''c''),
     pi_timestamp = Some 1,
     pi_extra = Some [(''forbiddenListHash'', JStr (replicate 64 (CHR ''d'')))]\<rparr>"

lemma full_inputs_hash: "c \<in> {CHR ''a'', CHR ''b'', CHR ''c'', CHR ''d''} \<Longrightarrow> is_hash32 (replicate 64 c)"
  by (auto simp: is_hash32_def is_lower_hex_def list_all_iff)

lemma full_inputs_forbidden: "forbidden_hash full_inputs = Some (replicate 64 (CHR ''d''))"
proof -
  have "js_truthy (replicate 64 (CHR ''d''))" by (simp add: js_truthy_def)
  then show ?thesis by (simp add: forbidden_hash_def full_inputs_def extra_field_def)
qed

lemma full_inputs_ready: "toml_ready p full_inputs"
  unfolding toml_ready_def full_inputs_forbidden
  by (simp add: full_inputs_hash) (simp add: full_inputs_def full_inputs_hash check_timestamp_text_def)

definition writable_keys :: "PredicateDefinition \<Rightarrow> string list" where
  "writable_keys p = ''threshold'' #
     (if pd_name p = ''CERT_VALID'' then ''check_timestamp'' else ''timestamp'') #
     [''commitment_root'', ''product_binding'', ''requester_binding'', ''forbidden_list_hash'']"

lemma full_inputs_keys:
  obtains ls where "toml_lines p full_inputs = Inr ls" and "map toml_key ls = writable_keys p"
proof -
  obtain ls where ls: "toml_lines p full_inputs = Inr ls"
    using full_inputs_ready [of p] toml_lines_succeed [of full_inputs p]
    by (auto simp: toml_ready_def full_inputs_forbidden)
  have "expected_keys p full_inputs = writable_keys p"
    unfolding expected_keys_def writable_keys_def full_inputs_forbidden
    by (simp add: full_inputs_def)
  with ls toml_lines_keys [OF ls] that show ?thesis by simp
qed

lemma expected_subset: "set (expected_keys p i) \<subseteq> set (writable_keys p)"
  by (auto simp: expected_keys_def writable_keys_def)

lemma covers_iff:
  "(\<exists>i ls. toml_lines p i = Inr ls \<and> set (pd_publicInputs p) \<subseteq> set (map toml_key ls)) \<longleftrightarrow>
     set (pd_publicInputs p) \<subseteq> set (writable_keys p)"
proof
  assume "\<exists>i ls. toml_lines p i = Inr ls \<and> set (pd_publicInputs p) \<subseteq> set (map toml_key ls)"
  then obtain i ls where l: "toml_lines p i = Inr ls"
    and "set (pd_publicInputs p) \<subseteq> set (map toml_key ls)" by blast
  then show "set (pd_publicInputs p) \<subseteq> set (writable_keys p)"
    unfolding toml_lines_keys [OF l] using expected_subset [of p i] by blast
next
  assume sub: "set (pd_publicInputs p) \<subseteq> set (writable_keys p)"
  obtain ls where ls: "toml_lines p full_inputs = Inr ls" and "map toml_key ls = writable_keys p"
    by (rule full_inputs_keys)
  with sub show "\<exists>i ls. toml_lines p i = Inr ls \<and> set (pd_publicInputs p) \<subseteq> set (map toml_key ls)"
    by (intro exI [of _ full_inputs] exI [of _ ls]) simp
qed

text \<open>\<open>Verifier.toml\<close>, when it can be built, holds exactly the keys
  \<open>threshold\<close>, \<open>check_timestamp\<close> or \<open>timestamp\<close>, the root and the two bindings, and
  \<open>forbidden_list_hash\<close>, each once and only when the package supplies it; a package with
  32-byte hashes (and a timestamp, for a certificate) always gets its file.\<close>

lemma verifier_toml_keys:
  "(toml_lines p i = Inr ls \<longrightarrow> map toml_key ls = expected_keys p i) \<and>
   (toml_ready p i \<longrightarrow> (\<exists>toml. buildVerifierToml p i = Inr toml))"
  using toml_lines_succeed [of i p]
  by (auto simp: toml_lines_keys toml_ready_def buildVerifierToml_def split: option.splits)

text \<open>Of the registered predicates, the ones whose declared public inputs
  \<open>buildVerifierToml\<close> can write are those that take a threshold or a forbidden list; for the
  others no package gives a complete \<open>Verifier.toml\<close>.\<close>

lemma toml_covers_registered:
  "map pd_name (filter (\<lambda>p. \<exists>i ls. toml_lines p i = Inr ls \<and>
      set (pd_publicInputs p) \<subseteq> set (map toml_key ls)) (listPredicates predicates_json)) =
   [''RECYCLED_CONTENT_GTE'', ''CARBON_FOOTPRINT_LTE'', ''SUBSTANCE_NOT_IN_LIST'',
    ''BATTERY_CAPACITY_GTE'', ''STATE_OF_HEALTH_GTE'', ''RECYCLING_EFFICIENCY_GTE'',
    ''CARBON_FOOTPRINT_LIFECYCLE'']"
  unfolding covers_iff by (simp add: listPredicates_def predicates_json_def writable_keys_def)

lemma strip_prefixed: "stripHexPrefix (''0x'' @ s) = s"
  by (simp add: stripHexPrefix_def js_startsWith_def)

text \<open>A 32-byte value given as lower-case hex, with or without \<open>0x\<close>, becomes the
  array of exactly the bytes it spells; text that does not decode to 32 bytes is refused.\<close>

lemma bytesToTomlArray_roundtrip:
  "(case bytesToTomlArray h of
      Inr a \<Rightarrow> \<exists>bs. length bs = 32 \<and> list_all (\<lambda>b. b < 256) bs \<and> a = toml_array bs \<and>
        hex_decode (stripHexPrefix h) = bs
    | Inl e \<Rightarrow> \<not> is_hash32 (stripHexPrefix h)) \<and>
   (is_hash32 s \<longrightarrow> (\<exists>bs. hex_encode bs = s \<and> bytesToTomlArray s = Inr (toml_array bs) \<and>
        bytesToTomlArray (''0x'' @ s) = Inr (toml_array bs)))"
proof
  have "is_hash32 t \<Longrightarrow> length (hex_decode t) = 32" for t
    using hex_roundtrip [of t] by (auto simp: is_hash32_def)
  then show "case bytesToTomlArray h of
      Inr a \<Rightarrow> \<exists>bs. length bs = 32 \<and> list_all (\<lambda>b. b < 256) bs \<and> a = toml_array bs \<and>
        hex_decode (stripHexPrefix h) = bs
    | Inl e \<Rightarrow> \<not> is_hash32 (stripHexPrefix h)"
    by (auto simp: bytesToTomlArray_def Let_def list_all_iff dest: hex_decode_bytes)
  show "is_hash32 s \<longrightarrow> (\<exists>bs. hex_encode bs = s \<and> bytesToTomlArray s = Inr (toml_array bs) \<and>
        bytesToTomlArray (''0x'' @ s) = Inr (toml_array bs))"
  proof
    assume s: "is_hash32 s"
    then have "hex_encode (hex_decode s) = s" using hex_roundtrip [of s] by (simp add: is_hash32_def)
    moreover have "bytesToTomlArray (''0x'' @ s) = bytesToTomlArray s"
      unfolding bytesToTomlArray_def strip_prefixed hash32_no_prefix [OF s] by (rule refl)
    ultimately show "\<exists>bs. hex_encode bs = s \<and> bytesToTomlArray s = Inr (toml_array bs) \<and>
        bytesToTomlArray (''0x'' @ s) = Inr (toml_array bs)"
      using hash32_array [OF s] by metis
  qed
qed

lemma walk_up_none:
  "walk_up ex n cur = None \<Longrightarrow> k < n \<Longrightarrow> k \<le> length cur \<Longrightarrow>
     \<not> ex (take (length cur - k) cur @ [''circuits'', ''noir'', ''predicates''])"
proof (induction k rule: less_induct)
  case (less k)
  then have "\<forall>j < k. \<not> ex (take (length cur - j) cur @ [''circuits'', ''noir'', ''predicates''])"
    by simp
  with less.prems walk_up_iff [of ex n cur] show ?case by auto
qed

text \<open>The directory found without a configured one is the nearest
  \<open>circuits/noir/predicates\<close> among the working directory and its five nearest ancestors, and
  the search fails exactly when none of these has one.\<close>

lemma resolveCircuitDir_nearest:
  "case resolveCircuitDir fs cwd None (Some c) of
     Inr dir \<Rightarrow> \<exists>k < 6. k \<le> length cwd \<and>
       dir = take (length cwd - k) cwd @ [''circuits'', ''noir'', ''predicates'', c] \<and>
       fs (take (length cwd - k) cwd @ [''circuits'', ''noir'', ''predicates'']) \<noteq> None \<and>
       (\<forall>j < k. fs (take (length cwd - j) cwd @ [''circuits'', ''noir'', ''predicates'']) = None)
   | Inl e \<Rightarrow> (\<forall>k < 6. k \<le> length cwd \<longrightarrow>
       fs (take (length cwd - k) cwd @ [''circuits'', ''noir'', ''predicates'']) = None)"
proof (cases "walk_up (fs_exists fs) 6 cwd")
  case (Some d)
  then obtain k where k: "k < 6" "k \<le> length cwd"
    and d: "d = take (length cwd - k) cwd @ [''circuits'', ''noir'', ''predicates'']"
    and e: "fs_exists fs d"
    and n: "\<forall>j < k. \<not> fs_exists fs (take (length cwd - j) cwd @ [''circuits'', ''noir'', ''predicates''])"
    unfolding walk_up_iff by blast
  have "resolveCircuitDir fs cwd None (Some c) = Inr (d @ [c])"
    using Some by (simp add: resolveCircuitDir_def path_join_def)
  then show ?thesis using k e n by (auto simp: fs_exists_def d)
next
  case None
  then show ?thesis
    using walk_up_none [OF None] by (auto simp: resolveCircuitDir_def fs_exists_def)
qed

definition one_dir :: "path \<Rightarrow> file_system" where
  "one_dir d = (\<lambda>p. if p = d then Some FDir else None)"

text \<open>Two requests for one circuit that overlap in the \<open>await\<close> share its files: when the
  second has written before the first resumes, the first request's verdict is the binary's
  verdict on the second request's proof and inputs.\<close>

lemma overlapping_requests_share_verdict:
  assumes "noirPrepare ng cwd cd (Own p) proofA inputsA fs = (Inr dirA, fs1)"
    and "noirPrepare ng cwd cd (Own p) proofB inputsB fs1 = (Inr dirB, fs2)"
    and "dirA = dirB"
  shows "noirFinish ng (Inr dirA) fs2 = noirFinish ng (Inr dirB) fs2 \<and>
    fs2 (proof_file dirA (pd_circuitPath p)) = Some (FBytes (hex_decode proofB)) \<and>
    (\<exists>toml. buildVerifierToml p inputsB = Inr toml \<and> fs2 (toml_file dirA) = Some (FText toml))"
  using assms(3) prepared_files [OF assms(2)] by metis

definition demo_nargo :: nargo where
  "demo_nargo = \<lparr>nargo_compile = (\<lambda>d fs. Inr fs),
     nargo_verify = (\<lambda>d fs. if fs (d @ [''proofs'', ''c.proof'']) = Some (FBytes [1]) then None else Some ''bad'')\<rparr>"

definition demo_predicate :: PredicateDefinition where
  "demo_predicate = \<lparr>pd_name = ''P'', pd_version = ''V1'', pd_description = [], pd_circuitPath = ''c'',
     pd_publicInputs = [], pd_accessGroups = [], pd_pricing = \<lparr>perVerification = 1, currency = EUR\<rparr>,
     pd_claimType = [], pd_comparison = Gte\<rparr>"

definition demo_fs :: file_system where
  "demo_fs = (\<lambda>p. if p = [''d''] then Some FDir else None)"

lemma demo_prepare:
  assumes "fs [''d''] = Some FDir"
  shows "\<exists>fs'. noirPrepare demo_nargo [] (Some [''d'']) (Own demo_predicate) h full_inputs fs =
    (Inr [''d'', ''c''], fs') \<and> fs' [''d''] = Some FDir \<and>
    fs' (proof_file [''d'', ''c''] ''c'') = Some (FBytes (hex_decode h))"
proof -
  obtain toml where "buildVerifierToml demo_predicate full_inputs = Inr toml"
    using full_inputs_ready [of demo_predicate] toml_lines_succeed [of full_inputs demo_predicate]
    by (auto simp: toml_ready_def full_inputs_forbidden buildVerifierToml_def)
  then show ?thesis
    using assms
    by (simp add: noirPrepare_def resolveCircuitDir_def path_join_def fs_exists_def circuit_of_def
        ensureCompiled_def demo_nargo_def Let_def proof_file_def toml_file_def demo_predicate_def)
qed

end
