(* ===== verification/NonceStore.thy ===== *)
theory NonceStore
  imports Prelude
begin

text \<open>
  The replay guard of the gateway (\<open>services/verify-gateway/src/services/nonce-store.ts\<close>):
  a \<open>Map\<close> from nonces to the time they were seen, a window, and a periodic cleanup.
  The clock is an argument of the operations that read it. The locale \<open>replay_guard\<close>
  is the contract the verifier relies on; the store is interpreted into it.
\<close>

section \<open>The store\<close>

record NonceEntry =
  ne_nonce :: string
  ne_timestamp :: time_ms
  ne_predicateId :: string

record NonceStore =
  nonces :: "(string, NonceEntry) js_map"
  windowMs :: int
  cleanupInterval :: "int option"  \<comment> \<open>the period of the running timer\<close>

definition newNonceStore :: "int \<Rightarrow> NonceStore" where
  "newNonceStore window = \<lparr>nonces = [], windowMs = window, cleanupInterval = None\<rparr>"

definition setWindowMs :: "int \<Rightarrow> NonceStore \<Rightarrow> NonceStore" where
  "setWindowMs window st = st\<lparr>windowMs := window\<rparr>"

definition startCleanup :: "int \<Rightarrow> NonceStore \<Rightarrow> NonceStore" where
  "startCleanup intervalMs st =
     (if cleanupInterval st \<noteq> None then st else st\<lparr>cleanupInterval := Some intervalMs\<rparr>)"

definition stopCleanup :: "NonceStore \<Rightarrow> NonceStore" where
  "stopCleanup st = (if cleanupInterval st \<noteq> None then st\<lparr>cleanupInterval := None\<rparr> else st)"

definition checkAndStore ::
  "time_ms \<Rightarrow> string \<Rightarrow> string \<Rightarrow> NonceStore \<Rightarrow> bool \<times> NonceStore" where
  "checkAndStore now nonce predicateId st =
     (if map_of (nonces st) nonce \<noteq> None then (False, st)
      else (True, st\<lparr>nonces := jm_set (nonces st) nonce
              \<lparr>ne_nonce = nonce, ne_timestamp = now, ne_predicateId = predicateId\<rparr>\<rparr>))"

text \<open>
  The loop of \<open>cleanup\<close>: it visits the entries in order and deletes the current
  one from the map it iterates over, which a \<open>Map\<close> iterator allows.
\<close>

fun cleanup_loop ::
  "time_ms \<Rightarrow> (string, NonceEntry) js_map \<Rightarrow> (string, NonceEntry) js_map \<Rightarrow> nat \<Rightarrow>
     (string, NonceEntry) js_map \<times> nat" where
  "cleanup_loop cutoff [] m removed = (m, removed)"
| "cleanup_loop cutoff ((nonce, entry) # es) m removed =
     (if ne_timestamp entry < cutoff
      then cleanup_loop cutoff es (AList.delete nonce m) (Suc removed)
      else cleanup_loop cutoff es m removed)"

definition cleanup :: "time_ms \<Rightarrow> NonceStore \<Rightarrow> nat \<times> NonceStore" where
  "cleanup now st =
     (let cutoff = now - windowMs st;
          (m, removed) = cleanup_loop cutoff (nonces st) (nonces st) 0
      in (removed, st\<lparr>nonces := m\<rparr>))"

definition store_size :: "NonceStore \<Rightarrow> nat" where
  "store_size st = length (nonces st)"

definition clear :: "NonceStore \<Rightarrow> NonceStore" where
  "clear st = st\<lparr>nonces := []\<rparr>"

section \<open>Well-formedness\<close>

definition nonce_store_wf :: "NonceStore \<Rightarrow> bool" where
  "nonce_store_wf st =
     (distinct (map fst (nonces st)) \<and> (\<forall>(k, e) \<in> set (nonces st). ne_nonce e = k))"

definition stamp_of :: "NonceStore \<Rightarrow> string \<Rightarrow> time_ms option" where
  "stamp_of st n = map_option ne_timestamp (map_of (nonces st) n)"

lemma jm_set_in: "(k', v') \<in> set (jm_set m k v) \<Longrightarrow> (k', v') = (k, v) \<or> (k', v') \<in> set m"
  unfolding jm_set_def by (induction m) (auto split: if_splits)

lemma newNonceStore_wf [simp]: "nonce_store_wf (newNonceStore w)"
  by (simp add: nonce_store_wf_def newNonceStore_def)

lemma checkAndStore_wf: "nonce_store_wf st \<Longrightarrow> nonce_store_wf (snd (checkAndStore now n p st))"
  by (auto simp: nonce_store_wf_def checkAndStore_def distinct_jm_set dest!: jm_set_in)

lemma cleanup_loop_spec:
  "\<lbrakk>distinct (map fst es); distinct (map fst m);
    \<forall>(k, e) \<in> set es. map_of m k = Some e\<rbrakk> \<Longrightarrow>
   fst (cleanup_loop cutoff es m r) =
     filter (\<lambda>(k, e). \<not> ((k, e) \<in> set es \<and> ne_timestamp e < cutoff)) m \<and>
   snd (cleanup_loop cutoff es m r) =
     r + length (filter (\<lambda>(k, e). ne_timestamp e < cutoff) es)"
proof (induction cutoff es m r rule: cleanup_loop.induct)
  case (1 cutoff m removed)
  then show ?case by simp
next
  case (2 cutoff k e es m removed)
  have fresh: "k \<notin> fst ` set es" and es: "distinct (map fst es)" and m: "distinct (map fst m)"
    using "2.prems" by auto
  have mine: "map_of m k' = Some e'" if "(k', e') \<in> set es" for k' e'
    using "2.prems"(3) that by auto
  have me: "map_of m k = Some e" using "2.prems"(3) by auto
  have uniq: "e' = e" if "(k, e') \<in> set m" for e'
    using me m that by simp
  show ?case
  proof (cases "ne_timestamp e < cutoff")
    case True
    have del: "AList.delete k m = filter (\<lambda>(k', e'). k' \<noteq> k) m"
      unfolding AList.delete_eq by (rule filter_cong) auto
    have "\<forall>(k', e') \<in> set es. map_of (AList.delete k m) k' = Some e'"
      using mine fresh by (fastforce simp: delete_conv' image_iff)
    from "2.IH"(1) [OF True es distinct_delete [OF m] this]
    have IH: "fst (cleanup_loop cutoff es (AList.delete k m) (Suc removed)) =
        filter (\<lambda>(k, e). \<not> ((k, e) \<in> set es \<and> ne_timestamp e < cutoff)) (AList.delete k m)"
      and IHr: "snd (cleanup_loop cutoff es (AList.delete k m) (Suc removed)) =
        Suc removed + length (filter (\<lambda>(k, e). ne_timestamp e < cutoff) es)"
      by blast+
    have "filter (\<lambda>(k', e'). \<not> ((k', e') \<in> set es \<and> ne_timestamp e' < cutoff))
            (filter (\<lambda>(k', e'). k' \<noteq> k) m) =
          filter (\<lambda>(k', e'). \<not> ((k', e') \<in> set ((k, e) # es) \<and> ne_timestamp e' < cutoff)) m"
      unfolding filter_filter by (rule filter_cong [OF refl]) (use True uniq in auto)
    with IH IHr True show ?thesis by (simp add: del)
  next
    case False
    from "2.IH"(2) [OF False es m] mine
    have IH: "fst (cleanup_loop cutoff es m removed) =
        filter (\<lambda>(k, e). \<not> ((k, e) \<in> set es \<and> ne_timestamp e < cutoff)) m"
      and IHr: "snd (cleanup_loop cutoff es m removed) =
        removed + length (filter (\<lambda>(k, e). ne_timestamp e < cutoff) es)"
      by blast+
    have "filter (\<lambda>(k', e'). \<not> ((k', e') \<in> set es \<and> ne_timestamp e' < cutoff)) m =
          filter (\<lambda>(k', e'). \<not> ((k', e') \<in> set ((k, e) # es) \<and> ne_timestamp e' < cutoff)) m"
      by (rule filter_cong [OF refl]) (use False in auto)
    with IH IHr False show ?thesis by simp
  qed
qed

lemma cleanup_filter:
  assumes "nonce_store_wf st"
  shows "snd (cleanup now st) =
      st\<lparr>nonces := filter (\<lambda>(k, e). now - windowMs st \<le> ne_timestamp e) (nonces st)\<rparr>"
    and "fst (cleanup now st) =
      length (filter (\<lambda>(k, e). ne_timestamp e < now - windowMs st) (nonces st))"
proof -
  have d: "distinct (map fst (nonces st))" using assms by (simp add: nonce_store_wf_def)
  then have "\<forall>(k, e) \<in> set (nonces st). map_of (nonces st) k = Some e" by auto
  note spec = cleanup_loop_spec [OF d d this, of "now - windowMs st" 0]
  have "filter (\<lambda>(k, e). \<not> ((k, e) \<in> set (nonces st) \<and> ne_timestamp e < now - windowMs st))
          (nonces st) =
        filter (\<lambda>(k, e). now - windowMs st \<le> ne_timestamp e) (nonces st)"
    by (rule filter_cong [OF refl]) auto
  with spec show "snd (cleanup now st) =
      st\<lparr>nonces := filter (\<lambda>(k, e). now - windowMs st \<le> ne_timestamp e) (nonces st)\<rparr>"
    and "fst (cleanup now st) =
      length (filter (\<lambda>(k, e). ne_timestamp e < now - windowMs st) (nonces st))"
    by (simp_all add: cleanup_def Let_def split_def)
qed

lemma cleanup_wf: "nonce_store_wf st \<Longrightarrow> nonce_store_wf (snd (cleanup now st))"
  by (auto simp: cleanup_filter nonce_store_wf_def distinct_map_filter)

lemma stamp_checkAndStore_fresh:
  "stamp_of st n = None \<Longrightarrow>
     fst (checkAndStore now n p st) \<and>
     stamp_of (snd (checkAndStore now n p st)) = (stamp_of st)(n \<mapsto> now)"
  by (auto simp: stamp_of_def checkAndStore_def map_of_jm_set fun_eq_iff)

lemma stamp_checkAndStore_seen:
  "stamp_of st n = Some t \<Longrightarrow> checkAndStore now n p st = (False, st)"
  by (auto simp: stamp_of_def checkAndStore_def)

lemma map_of_filter_distinct:
  "distinct (map fst m) \<Longrightarrow>
     map_of (filter (\<lambda>(k, e). P e) m) k =
       (case map_of m k of None \<Rightarrow> None | Some e \<Rightarrow> if P e then Some e else None)"
proof (induction m)
  case Nil
  then show ?case by simp
next
  case (Cons x m)
  then show ?case
    by (cases x) (auto split: option.splits simp: map_of_eq_None_iff)
qed

lemma stamp_cleanup:
  assumes "nonce_store_wf st"
  shows "stamp_of (snd (cleanup now st)) n =
    (case stamp_of st n of None \<Rightarrow> None
     | Some t \<Rightarrow> if t < now - windowMs st then None else Some t)"
proof -
  have d: "distinct (map fst (nonces st))" using assms by (simp add: nonce_store_wf_def)
  show ?thesis
    by (auto simp: stamp_of_def cleanup_filter [OF assms] map_of_filter_distinct [OF d]
        split: option.splits)
qed

lemma windowMs_frame [simp]:
  "windowMs (snd (checkAndStore now n p st)) = windowMs st"
  "windowMs (snd (cleanup now st)) = windowMs st"
  by (simp_all add: checkAndStore_def cleanup_def Let_def split_def)

section \<open>The contract of a replay guard\<close>

datatype guard_event = Admit time_ms string string | Purge time_ms

fun event_time :: "guard_event \<Rightarrow> time_ms" where
  "event_time (Admit t n p) = t"
| "event_time (Purge t) = t"

fun guard_run ::
  "(time_ms \<Rightarrow> string \<Rightarrow> string \<Rightarrow> 's \<Rightarrow> bool \<times> 's) \<Rightarrow> (time_ms \<Rightarrow> 's \<Rightarrow> 's) \<Rightarrow>
     guard_event list \<Rightarrow> 's \<Rightarrow> 's" where
  "guard_run admit purge [] s = s"
| "guard_run admit purge (Admit t n p # es) s = guard_run admit purge es (snd (admit t n p s))"
| "guard_run admit purge (Purge t # es) s = guard_run admit purge es (purge t s)"

locale replay_guard =
  fixes admit :: "time_ms \<Rightarrow> string \<Rightarrow> string \<Rightarrow> 's \<Rightarrow> bool \<times> 's"
    and purge :: "time_ms \<Rightarrow> 's \<Rightarrow> 's"
    and stamp :: "'s \<Rightarrow> string \<Rightarrow> time_ms option"
    and window :: "'s \<Rightarrow> int"
    and inv :: "'s \<Rightarrow> bool"
  assumes admit_fresh: "stamp s n = None \<Longrightarrow>
      fst (admit t n p s) \<and> stamp (snd (admit t n p s)) = (stamp s)(n \<mapsto> t)"
    and admit_seen: "stamp s n = Some u \<Longrightarrow> admit t n p s = (False, s)"
    and purge_stamp: "inv s \<Longrightarrow> stamp (purge t s) n =
      (case stamp s n of None \<Rightarrow> None | Some u \<Rightarrow> if u < t - window s then None else Some u)"
    and window_admit: "window (snd (admit t n p s)) = window s"
    and window_purge: "window (purge t s) = window s"
    and inv_admit: "inv s \<Longrightarrow> inv (snd (admit t n p s))"
    and inv_purge: "inv s \<Longrightarrow> inv (purge t s)"
begin

lemma admit_iff: "fst (admit t n p s) \<longleftrightarrow> stamp s n = None"
  using admit_fresh admit_seen by (cases "stamp s n") auto

lemma admit_stamp_other: "n' \<noteq> n \<Longrightarrow> stamp (snd (admit t n p s)) n' = stamp s n'"
  using admit_fresh admit_seen by (cases "stamp s n") auto

lemma admit_keeps: "stamp s n = Some u \<Longrightarrow> stamp (snd (admit t m p s)) n = Some u"
  using admit_seen [of s m] admit_stamp_other [of n m] by (cases "m = n") (auto simp: admit_seen)

lemma run_step:
  "guard_run admit purge (e # es) s =
     guard_run admit purge es (case e of Admit t n p \<Rightarrow> snd (admit t n p s) | Purge t \<Rightarrow> purge t s)"
  by (cases e) simp_all

lemma run_inv: "inv s \<Longrightarrow> inv (guard_run admit purge es s)"
  by (induction es arbitrary: s) (auto simp: run_step inv_admit inv_purge split: guard_event.split)

lemma run_window: "window (guard_run admit purge es s) = window s"
  by (induction es arbitrary: s)
    (auto simp: run_step window_admit window_purge split: guard_event.split)

lemma run_keeps:
  "\<lbrakk>inv s; stamp s n = Some u; \<forall>e \<in> set es. event_time e \<le> u + window s\<rbrakk> \<Longrightarrow>
     stamp (guard_run admit purge es s) n = Some u"
proof (induction es arbitrary: s)
  case Nil
  then show ?case by simp
next
  case (Cons e es)
  show ?case
  proof (cases e)
    case (Admit t m p)
    with Cons.prems Cons.IH [of "snd (admit t m p s)"] show ?thesis
      by (simp add: inv_admit window_admit admit_keeps)
  next
    case (Purge t)
    with Cons.prems Cons.IH [of "purge t s"] show ?thesis
      by (simp add: inv_purge window_purge purge_stamp)
  qed
qed

lemma no_second_admission:
  assumes "inv s" and "fst (admit t1 n p s)"
    and "\<forall>e \<in> set es. event_time e \<le> t2"
    and "fst (admit t2 n q (guard_run admit purge es (snd (admit t1 n p s))))"
  shows "t1 + window s < t2"
proof (rule ccontr)
  let ?s = "snd (admit t1 n p s)"
  assume "\<not> t1 + window s < t2"
  with assms(3) have "\<forall>e \<in> set es. event_time e \<le> t1 + window ?s"
    by (auto simp: window_admit)
  moreover have "stamp ?s n = Some t1"
    using assms(2) admit_fresh [of s n t1 p] by (simp add: admit_iff)
  ultimately have "stamp (guard_run admit purge es ?s) n = Some t1"
    using assms(1) run_keeps [of ?s n t1 es] by (simp add: inv_admit)
  with assms(4) show False by (simp add: admit_iff)
qed

end

abbreviation purge_store :: "time_ms \<Rightarrow> NonceStore \<Rightarrow> NonceStore" where
  "purge_store now st \<equiv> snd (cleanup now st)"

interpretation ns: replay_guard checkAndStore purge_store stamp_of windowMs nonce_store_wf
  by unfold_locales
    (auto simp: stamp_checkAndStore_fresh stamp_checkAndStore_seen stamp_cleanup
      checkAndStore_wf cleanup_wf)

section \<open>Properties of the store\<close>

text \<open>The cleanup loop, which deletes from the map it walks over, leaves exactly the
  entries not older than the window, in their order, reports how many it removed, and so the
  size goes down by that number.\<close>

lemma cleanup_removes_expired:
  assumes "nonce_store_wf st"
  shows "cleanup now st =
      (length (filter (\<lambda>(k, e). ne_timestamp e < now - windowMs st) (nonces st)),
       st\<lparr>nonces := filter (\<lambda>(k, e). now - windowMs st \<le> ne_timestamp e) (nonces st)\<rparr>)
    \<and> store_size (snd (cleanup now st)) + fst (cleanup now st) = store_size st"
proof -
  have "length (filter (\<lambda>(k, e). now - windowMs st \<le> ne_timestamp e) xs) +
      length (filter (\<lambda>(k, e). ne_timestamp e < now - windowMs st) xs) = length xs"
    for xs :: "(string \<times> NonceEntry) list"
    by (induction xs) auto
  then show ?thesis
    by (simp add: prod_eq_iff cleanup_filter [OF assms] store_size_def)
qed

definition demo_store :: NonceStore where
  "demo_store = snd (checkAndStore 900 ''b'' ''P'' (snd (checkAndStore 100 ''a'' ''P'' (newNonceStore 500))))"

lemma demo_store_wf: "nonce_store_wf demo_store"
  by (simp add: demo_store_def checkAndStore_wf)

text \<open>A nonce admitted at one time is admitted again only when more than the window has
  passed, whatever admissions and cleanups come in between, as long as the clock does not run
  backwards.\<close>

lemma nonce_admitted_once_per_window:
  assumes "nonce_store_wf st" and "fst (checkAndStore t1 n p st)"
    and "\<forall>e \<in> set es. event_time e \<le> t2"
    and "fst (checkAndStore t2 n q
           (guard_run checkAndStore purge_store es (snd (checkAndStore t1 n p st))))"
  shows "t1 + windowMs st < t2"
  using assms by (rule ns.no_second_admission)

end
