(* ===== verification/Verifier.thy ===== *)
theory Verifier
  imports NoirCli NonceStore
begin

text \<open>
  The verification service of the gateway (\<open>services/verify-gateway/src/services/verifier.ts\<close>)
  and its route \<open>POST /verify\<close> (\<open>routes/verify.ts\<close>). The state is the nonce store and
  the file system of the Noir backend; what a request reads from outside (clock readings, the
  identifiers drawn, the environment variable, the signing key, the \<open>nargo\<close> binary) is
  its \<open>VerifyEnv\<close>. The clock is read before the window check, when the nonce is stored and
  when the receipt is made.
\<close>

section \<open>Configuration, environment, state\<close>

datatype ZkBackend = NoirCliBackend | MockBackend | OtherBackend string

record VerifierConfig =
  vc_signingKeyId :: string
  vc_gatewayId :: string
  vc_zkBackend :: ZkBackend
  vc_circuitsDir :: "path option"
  vc_nonceWindowMs :: int

record SignPayload =
  sp_rid :: string
  sp_pid :: string
  sp_root :: string
  sp_result :: bool
  sp_iat :: int

record VerifyEnv =
  ve_registry :: PredicateRegistry
  ve_now_window :: time_ms
  ve_now_store :: time_ms
  ve_now_issue :: time_ms
  ve_uuid :: string
  ve_allowMock :: "string option"
  ve_sign :: "(string \<Rightarrow> SignPayload \<Rightarrow> string option) option"
  ve_nargo :: nargo
  ve_cwd :: path

record GatewayState =
  gw_nonces :: NonceStore
  gw_fs :: file_system

datatype VerifyResult = Verified VerificationReceipt | Rejected string

text \<open>
  \<open>init\<close>: the key from the configuration, or a generated one only when explicitly
  allowed. Importing and generating keys are JOSE's.
\<close>

definition verifierInit ::
  "(string \<Rightarrow> 'key option) \<Rightarrow> 'key \<Rightarrow> string \<Rightarrow> string option \<Rightarrow> thrown + 'key" where
  "verifierInit importKey generated signingKeyPrivate allowEphemeralKeys =
     (if js_truthy signingKeyPrivate then
        (case importKey signingKeyPrivate of
           Some key \<Rightarrow> Inr key
         | None \<Rightarrow> Inl (ThrownError ''Error'' ''importPKCS8''))
      else if allowEphemeralKeys \<noteq> Some ''true'' then
        Inl (ThrownError ''Error''
          ''SIGNING_KEY_PRIVATE is required unless ALLOW_EPHEMERAL_KEYS=true'')
      else Inr generated)"

section \<open>The steps of verify\<close>

definition validatePackageStructure :: "ProofPackage \<Rightarrow> string option" where
  "validatePackageStructure pkg =
     (if \<not> js_truthy (pp_proof pkg) then Some ''Missing proof data''
      else case pp_predicateId pkg of
        None \<Rightarrow> Some ''Missing predicateId''
      | Some pid \<Rightarrow>
          if \<not> js_truthy (pid_name pid) \<or> \<not> js_truthy (pid_version pid)
          then Some ''Missing predicateId''
          else (case pp_publicInputs pkg of
                  None \<Rightarrow> Some ''Missing publicInputs''
                | Some inputs \<Rightarrow>
                    if \<not> js_truthy (pi_commitmentRoot inputs)
                    then Some ''Missing commitmentRoot in publicInputs''
                    else None))"

text \<open>Stamps below \<open>1e12\<close> are taken to be in seconds.\<close>

definition createdAtMs :: "int \<Rightarrow> time_ms" where
  "createdAtMs generatedAt =
     (if generatedAt < 1000000000000 then generatedAt * 1000 else generatedAt)"

definition verifyZkProof ::
  "VerifierConfig \<Rightarrow> VerifyEnv \<Rightarrow> string \<Rightarrow> PublicInputs \<Rightarrow> PredicateDefinition js_prop \<Rightarrow>
     file_system \<Rightarrow> ProofResult \<times> file_system" where
  "verifyZkProof cfg env proofData inputs predicate fs =
     (if \<not> js_truthy proofData \<or> length proofData < 32 \<or> length proofData mod 2 \<noteq> 0
      then (\<lparr>pr_valid = False, pr_error = Some ''Invalid proof data length''\<rparr>, fs)
      else case vc_zkBackend cfg of
        MockBackend \<Rightarrow>
          if ve_allowMock env \<noteq> Some ''true''
          then (\<lparr>pr_valid = False, pr_error =
                  Some ''Mock backend disabled. Set ALLOW_MOCK_PROOFS=true to enable.''\<rparr>, fs)
          else (\<lparr>pr_valid = True, pr_error = None\<rparr>, fs)
      | NoirCliBackend \<Rightarrow>
          verifyWithNoirCli (ve_nargo env) (ve_cwd env) (vc_circuitsDir cfg) predicate
            proofData inputs fs
      | OtherBackend b \<Rightarrow>
          (\<lparr>pr_valid = False, pr_error = Some ''Unsupported ZK backend configuration''\<rparr>, fs))"

definition receipt_payload :: "VerificationReceipt \<Rightarrow> SignPayload" where
  "receipt_payload receipt =
     \<lparr>sp_rid = vr_id receipt,
      sp_pid = pid_name (vr_predicateId receipt) @ ''@'' @ pid_version (vr_predicateId receipt),
      sp_root = vr_commitmentRoot receipt, sp_result = vr_result receipt,
      sp_iat = vr_verifiedAt receipt div 1000\<rparr>"

definition signReceipt ::
  "VerifierConfig \<Rightarrow> VerifyEnv \<Rightarrow> VerificationReceipt \<Rightarrow> thrown + string" where
  "signReceipt cfg env receipt =
     (case ve_sign env of
        None \<Rightarrow> Inl (ThrownError ''Error'' ''Signing key not initialized'')
      | Some sign \<Rightarrow>
          (case sign (vc_signingKeyId cfg) (receipt_payload receipt) of
             None \<Rightarrow> Inl (ThrownError ''JOSEError'' ''sign'')
           | Some jwt \<Rightarrow> Inr jwt))"

definition unsigned_receipt ::
  "VerifierConfig \<Rightarrow> VerifyEnv \<Rightarrow> ProofPackage \<Rightarrow> PredicateId \<Rightarrow> PublicInputs \<Rightarrow>
     VerificationReceipt" where
  "unsigned_receipt cfg env pkg pid inputs =
     \<lparr>vr_id = ve_uuid env, vr_predicateId = pid, vr_result = True,
      vr_commitmentRoot = pi_commitmentRoot inputs,
      vr_productBinding = pi_productBinding inputs,
      vr_requesterBinding = pi_requesterBinding inputs,
      vr_supplierId = Option.bind (pp_context pkg) ctx_supplierId,
      vr_requesterId = Option.bind (pp_context pkg) ctx_requesterId,
      vr_nonce = pp_nonce pkg, vr_verifiedAt = ve_now_issue env,
      vr_gatewayId = vc_gatewayId cfg, vr_gatewaySignature = []\<rparr>"

definition createReceipt ::
  "VerifierConfig \<Rightarrow> VerifyEnv \<Rightarrow> ProofPackage \<Rightarrow> PredicateId \<Rightarrow> PublicInputs \<Rightarrow>
     thrown + VerificationReceipt" where
  "createReceipt cfg env pkg pid inputs =
     (let receipt = unsigned_receipt cfg env pkg pid inputs in
      sum_bind (signReceipt cfg env receipt)
        (\<lambda>jwt. Inr (receipt\<lparr>vr_gatewaySignature := jwt\<rparr>)))"

text \<open>The whole method; a thrown error ends in \<open>Internal verification error\<close>.\<close>

definition verify ::
  "VerifierConfig \<Rightarrow> VerifyEnv \<Rightarrow> ProofPackage \<Rightarrow> GatewayState \<Rightarrow> VerifyResult \<times> GatewayState" where
  "verify cfg env pkg st =
     (case validatePackageStructure pkg of
        Some err \<Rightarrow> (Rejected err, st)
      | None \<Rightarrow>
     (case (pp_predicateId pkg, pp_publicInputs pkg) of
        (Some pid, Some inputs) \<Rightarrow>
          (let predicateKey = canonicalId pid;
               predicate = getPredicateById (ve_registry env) predicateKey in
           if predicate = Undefined
           then (Rejected (''Unknown predicate: '' @ predicateKey), st)
           else if vc_nonceWindowMs cfg
                     < \<bar>ve_now_window env - createdAtMs (pp_generatedAt pkg)\<bar>
           then (Rejected ''Proof package timestamp outside valid window'', st)
           else
             let (fresh, nonces') =
                   checkAndStore (ve_now_store env) (pp_nonce pkg) predicateKey (gw_nonces st) in
             if \<not> fresh
             then (Rejected ''Nonce already used (replay detected)'', st\<lparr>gw_nonces := nonces'\<rparr>)
             else
               let (proofResult, fs') =
                     verifyZkProof cfg env (pp_proof pkg) inputs predicate (gw_fs st);
                   st' = st\<lparr>gw_nonces := nonces', gw_fs := fs'\<rparr> in
               if \<not> pr_valid proofResult
               then (Rejected (js_or_opt (pr_error proofResult) ''ZK proof verification failed''),
                     st')
               else (case createReceipt cfg env pkg pid inputs of
                       Inl e \<Rightarrow> (Rejected ''Internal verification error'', st')
                     | Inr receipt \<Rightarrow> (Verified receipt, st')))
      | _ \<Rightarrow> (Rejected ''Internal verification error'', st)))"

section \<open>The route\<close>

record VerifyResponse =
  resp_status :: nat
  resp_success :: bool
  resp_receipt :: "VerificationReceipt option"
  resp_error :: "string option"

definition verification_event ::
  "string \<Rightarrow> time_ms \<Rightarrow> ProofPackage \<Rightarrow> PublicInputs \<Rightarrow> VerificationReceipt \<Rightarrow> VerificationEvent"
where
  "verification_event eventId now pkg inputs receipt =
     \<lparr>ev_eventId = eventId, ev_eventType = ''proofs.verified'', ev_timestamp = now,
      ev_payload =
        \<lparr>pl_receiptId = vr_id receipt, pl_predicateId = vr_predicateId receipt,
         pl_supplierId = js_or_opt (Option.bind (pp_context pkg) ctx_supplierId) ''unknown'',
         pl_requesterId = js_or_opt (Option.bind (pp_context pkg) ctx_requesterId) ''unknown'',
         pl_productBinding = Some (pi_productBinding inputs), pl_result = True,
         pl_commitmentRoot = Some (pi_commitmentRoot inputs)\<rparr>,
      ev_gatewayId = Some (vr_gatewayId receipt)\<rparr>"

text \<open>
  \<open>schemaErrors\<close> stands for the compiled JSON schema: \<^const>\<open>None\<close> accepts, \<open>Some ms\<close>
  refuses with these messages. The bus, when there is one, is asked to publish; a failure to
  publish is only logged. The second component is what was handed to the bus.
\<close>

definition postVerify ::
  "VerifierConfig \<Rightarrow> VerifyEnv \<Rightarrow> (ProofPackage \<Rightarrow> string list option) \<Rightarrow> bool \<Rightarrow> string \<Rightarrow>
     time_ms \<Rightarrow> ProofPackage \<Rightarrow> GatewayState \<Rightarrow>
     VerifyResponse \<times> VerificationEvent list \<times> GatewayState" where
  "postVerify cfg env schemaErrors hasBus eventId now pkg st =
     (case schemaErrors pkg of
        Some errors \<Rightarrow>
          (\<lparr>resp_status = 400, resp_success = False, resp_receipt = None,
            resp_error = Some (''Invalid proof package: ''
              @ js_or (js_join '', '' errors) ''unknown error'')\<rparr>, [], st)
      | None \<Rightarrow>
          (case verify cfg env pkg st of
             (Rejected err, st') \<Rightarrow>
               (\<lparr>resp_status = 400, resp_success = False, resp_receipt = None,
                 resp_error = Some err\<rparr>, [], st')
           | (Verified receipt, st') \<Rightarrow>
               (\<lparr>resp_status = 200, resp_success = True, resp_receipt = Some receipt,
                 resp_error = None\<rparr>,
                (case pp_publicInputs pkg of
                   Some inputs \<Rightarrow>
                     if hasBus then [verification_event eventId now pkg inputs receipt] else []
                 | None \<Rightarrow> []),
                st')))"

section \<open>A run of the gateway\<close>

datatype gateway_event = Submit VerifyEnv ProofPackage | CleanupTick time_ms

fun gateway_step :: "VerifierConfig \<Rightarrow> gateway_event \<Rightarrow> GatewayState \<Rightarrow> GatewayState" where
  "gateway_step cfg (Submit env pkg) st = snd (verify cfg env pkg st)"
| "gateway_step cfg (CleanupTick now) st = st\<lparr>gw_nonces := purge_store now (gw_nonces st)\<rparr>"

fun gateway_run :: "VerifierConfig \<Rightarrow> gateway_event list \<Rightarrow> GatewayState \<Rightarrow> GatewayState" where
  "gateway_run cfg [] st = st"
| "gateway_run cfg (e # es) st = gateway_run cfg es (gateway_step cfg e st)"

fun gateway_event_time :: "gateway_event \<Rightarrow> time_ms" where
  "gateway_event_time (Submit env pkg) = ve_now_store env"
| "gateway_event_time (CleanupTick now) = now"

section \<open>Facts about one verification\<close>

text \<open>The guards passed before the nonce is looked at; none of them reads the state.\<close>

definition passes_guards ::
  "VerifierConfig \<Rightarrow> VerifyEnv \<Rightarrow> ProofPackage \<Rightarrow> PredicateId \<Rightarrow> PublicInputs \<Rightarrow> bool" where
  "passes_guards cfg env pkg pid inputs =
     (validatePackageStructure pkg = None \<and> pp_predicateId pkg = Some pid \<and>
      pp_publicInputs pkg = Some inputs \<and>
      getPredicateById (ve_registry env) (canonicalId pid) \<noteq> Undefined \<and>
      \<bar>ve_now_window env - createdAtMs (pp_generatedAt pkg)\<bar> \<le> vc_nonceWindowMs cfg)"

lemma structure_ok:
  "validatePackageStructure pkg = None \<Longrightarrow>
     \<exists>pid inputs. pp_predicateId pkg = Some pid \<and> pp_publicInputs pkg = Some inputs \<and>
       js_truthy (pp_proof pkg) \<and> js_truthy (pid_name pid) \<and> js_truthy (pid_version pid) \<and>
       js_truthy (pi_commitmentRoot inputs)"
  by (auto simp: validatePackageStructure_def split: if_splits option.splits)

lemma verify_guard_fails:
  assumes "\<nexists>pid inputs. passes_guards cfg env pkg pid inputs"
  shows "snd (verify cfg env pkg st) = st \<and> (\<exists>err. fst (verify cfg env pkg st) = Rejected err)"
proof (cases "validatePackageStructure pkg")
  case None
  then obtain pid inputs where "pp_predicateId pkg = Some pid" "pp_publicInputs pkg = Some inputs"
    using structure_ok by blast
  with assms None show ?thesis
    by (auto simp: verify_def passes_guards_def Let_def)
next
  case (Some err)
  then show ?thesis by (simp add: verify_def)
qed

lemma verify_guarded:
  assumes "passes_guards cfg env pkg pid inputs"
  shows "verify cfg env pkg st =
    (let (fresh, nonces') = checkAndStore (ve_now_store env) (pp_nonce pkg) (canonicalId pid)
           (gw_nonces st) in
     if \<not> fresh then (Rejected ''Nonce already used (replay detected)'', st\<lparr>gw_nonces := nonces'\<rparr>)
     else
       let (proofResult, fs') = verifyZkProof cfg env (pp_proof pkg) inputs
              (getPredicateById (ve_registry env) (canonicalId pid)) (gw_fs st);
           st' = st\<lparr>gw_nonces := nonces', gw_fs := fs'\<rparr> in
       if \<not> pr_valid proofResult
       then (Rejected (js_or_opt (pr_error proofResult) ''ZK proof verification failed''), st')
       else (case createReceipt cfg env pkg pid inputs of
               Inl e \<Rightarrow> (Rejected ''Internal verification error'', st')
             | Inr receipt \<Rightarrow> (Verified receipt, st')))"
  using assms unfolding verify_def passes_guards_def Let_def by simp

lemma verify_nonces:
  assumes "passes_guards cfg env pkg pid inputs"
  shows "gw_nonces (snd (verify cfg env pkg st)) =
    snd (checkAndStore (ve_now_store env) (pp_nonce pkg) (canonicalId pid) (gw_nonces st))"
  unfolding verify_guarded [OF assms] by (auto simp: Let_def split_def split: sum.split)

lemma verify_Verified_iff:
  "verify cfg env pkg st = (Verified r, st') \<longleftrightarrow>
     (\<exists>pid inputs fs'. passes_guards cfg env pkg pid inputs \<and>
        stamp_of (gw_nonces st) (pp_nonce pkg) = None \<and>
        pr_valid (fst (verifyZkProof cfg env (pp_proof pkg) inputs
          (getPredicateById (ve_registry env) (canonicalId pid)) (gw_fs st))) \<and>
        fs' = snd (verifyZkProof cfg env (pp_proof pkg) inputs
          (getPredicateById (ve_registry env) (canonicalId pid)) (gw_fs st)) \<and>
        createReceipt cfg env pkg pid inputs = Inr r \<and>
        st' = st\<lparr>gw_nonces := snd (checkAndStore (ve_now_store env) (pp_nonce pkg) (canonicalId pid)
                   (gw_nonces st)), gw_fs := fs'\<rparr>)"
  (is "?L \<longleftrightarrow> ?R")
proof
  assume L: ?L
  then obtain pid inputs where g: "passes_guards cfg env pkg pid inputs"
    using verify_guard_fails [of cfg env pkg st] by (cases "verify cfg env pkg st") force
  from L show ?R
    unfolding verify_guarded [OF g] using g ns.admit_iff [of "ve_now_store env"]
    by (auto simp: Let_def split_def split: if_splits sum.splits)
next
  assume ?R
  then obtain pid inputs where g: "passes_guards cfg env pkg pid inputs"
    and "stamp_of (gw_nonces st) (pp_nonce pkg) = None"
    and "pr_valid (fst (verifyZkProof cfg env (pp_proof pkg) inputs
          (getPredicateById (ve_registry env) (canonicalId pid)) (gw_fs st)))"
    and "createReceipt cfg env pkg pid inputs = Inr r"
    and "st' = st\<lparr>gw_nonces := snd (checkAndStore (ve_now_store env) (pp_nonce pkg)
           (canonicalId pid) (gw_nonces st)), gw_fs := snd (verifyZkProof cfg env (pp_proof pkg)
           inputs (getPredicateById (ve_registry env) (canonicalId pid)) (gw_fs st))\<rparr>"
    by blast
  then show ?L
    unfolding verify_guarded [OF g] by (simp add: Let_def split_def ns.admit_iff)
qed

lemma createReceipt_Inr:
  "createReceipt cfg env pkg pid inputs = Inr r \<longleftrightarrow>
     (\<exists>sign jwt. ve_sign env = Some sign \<and>
        sign (vc_signingKeyId cfg) (receipt_payload (unsigned_receipt cfg env pkg pid inputs))
          = Some jwt \<and>
        r = (unsigned_receipt cfg env pkg pid inputs)\<lparr>vr_gatewaySignature := jwt\<rparr>)"
  by (auto simp: createReceipt_def signReceipt_def Let_def inr_iff split: option.splits)

lemma verifyZkProof_clock [simp]:
  "verifyZkProof cfg (env\<lparr>ve_now_window := t, ve_now_store := u\<rparr>) = verifyZkProof cfg env"
  by (intro ext) (simp add: verifyZkProof_def split: ZkBackend.split)

section \<open>The nonce store along a run\<close>

text \<open>What an event does to the nonce store, as events of the replay guard.\<close>

definition guard_events :: "VerifierConfig \<Rightarrow> gateway_event \<Rightarrow> guard_event list" where
  "guard_events cfg e =
     (case e of
        CleanupTick now \<Rightarrow> [Purge now]
      | Submit env pkg \<Rightarrow>
          (case (pp_predicateId pkg, pp_publicInputs pkg) of
             (Some pid, Some inputs) \<Rightarrow>
               if passes_guards cfg env pkg pid inputs
               then [Admit (ve_now_store env) (pp_nonce pkg) (canonicalId pid)] else []
           | _ \<Rightarrow> []))"

lemma gateway_step_nonces:
  "gw_nonces (gateway_step cfg e st) =
     guard_run checkAndStore purge_store (guard_events cfg e) (gw_nonces st)"
proof (cases e)
  case (CleanupTick now)
  then show ?thesis by (simp add: guard_events_def)
next
  case (Submit env pkg)
  show ?thesis
  proof (cases "\<exists>pid inputs. passes_guards cfg env pkg pid inputs")
    case True
    then obtain pid inputs where g: "passes_guards cfg env pkg pid inputs" by blast
    then have "guard_events cfg e = [Admit (ve_now_store env) (pp_nonce pkg) (canonicalId pid)]"
      by (simp add: guard_events_def Submit passes_guards_def)
    with g show ?thesis by (simp add: Submit verify_nonces)
  next
    case False
    then have "guard_events cfg e = []"
      by (auto simp: guard_events_def Submit split: option.splits)
    with False verify_guard_fails [of cfg env pkg st] show ?thesis by (simp add: Submit)
  qed
qed

lemma guard_run_append:
  "guard_run admit purge (es1 @ es2) s = guard_run admit purge es2 (guard_run admit purge es1 s)"
proof (induction es1 arbitrary: s)
  case Nil
  then show ?case by simp
next
  case (Cons e es1)
  then show ?case by (cases e) simp_all
qed

lemma gateway_run_nonces:
  "gw_nonces (gateway_run cfg es st) =
     guard_run checkAndStore purge_store (concat (map (guard_events cfg) es)) (gw_nonces st)"
  by (induction es arbitrary: st) (simp_all add: gateway_step_nonces guard_run_append)

lemma guard_event_time:
  "g \<in> set (guard_events cfg e) \<Longrightarrow> event_time g = gateway_event_time e"
  by (auto simp: guard_events_def split: gateway_event.splits option.splits if_splits)

definition gateway_wf :: "VerifierConfig \<Rightarrow> GatewayState \<Rightarrow> bool" where
  "gateway_wf cfg st =
     (nonce_store_wf (gw_nonces st) \<and> windowMs (gw_nonces st) = vc_nonceWindowMs cfg)"

lemma gateway_run_wf: "gateway_wf cfg st \<Longrightarrow> gateway_wf cfg (gateway_run cfg es st)"
  by (simp add: gateway_wf_def gateway_run_nonces ns.run_inv ns.run_window)

lemma verify_wf: "gateway_wf cfg st \<Longrightarrow> gateway_wf cfg (snd (verify cfg env pkg st))"
  using gateway_run_wf [of cfg st "[Submit env pkg]"] by simp

lemma gateway_run_keeps_stamp:
  assumes "gateway_wf cfg st" and "stamp_of (gw_nonces st) n = Some t"
    and "\<forall>e \<in> set es. gateway_event_time e \<le> t + vc_nonceWindowMs cfg"
  shows "stamp_of (gw_nonces (gateway_run cfg es st)) n = Some t"
  using assms unfolding gateway_run_nonces
  by (intro ns.run_keeps) (auto simp: gateway_wf_def dest!: guard_event_time)

section \<open>Acceptance and replay\<close>

text \<open>A concrete gateway with the mock backend, used to exercise the statements.\<close>

definition demo_cfg :: VerifierConfig where
  "demo_cfg = \<lparr>vc_signingKeyId = ''key-1'', vc_gatewayId = ''gateway-1'',
     vc_zkBackend = MockBackend, vc_circuitsDir = None, vc_nonceWindowMs = 1000\<rparr>"

definition demo_env :: "time_ms \<Rightarrow> VerifyEnv" where
  "demo_env now = \<lparr>ve_registry = predicates_json, ve_now_window = now, ve_now_store = now,
     ve_now_issue = now, ve_uuid = ''r-1'', ve_allowMock = Some ''true'',
     ve_sign = Some (\<lambda>kid payload. Some ''sig''),
     ve_nargo = \<lparr>nargo_compile = (\<lambda>d fs. Inl ''no nargo''), nargo_verify = (\<lambda>d fs. Some ''no nargo'')\<rparr>,
     ve_cwd = []\<rparr>"

definition demo_inputs :: PublicInputs where
  "demo_inputs = \<lparr>pi_threshold = Some 20, pi_commitmentRoot = ''aa'', pi_productBinding = ''bb'',
     pi_requesterBinding = ''cc'', pi_timestamp = None, pi_extra = None\<rparr>"

definition demo_pkg :: "int \<Rightarrow> ProofPackage" where
  "demo_pkg created = \<lparr>pp_predicateId = Some \<lparr>pid_name = ''CERT_VALID'', pid_version = ''V1''\<rparr>,
     pp_proof = ''00112233445566778899aabbccddeeff'', pp_publicInputs = Some demo_inputs,
     pp_nonce = ''n-1'', pp_generatedAt = created, pp_context = None,
     pp_supplierSignature = None, pp_usageTerms = None\<rparr>"

definition demo_state :: GatewayState where
  "demo_state = \<lparr>gw_nonces = newNonceStore 1000, gw_fs = (\<lambda>p. None)\<rparr>"

lemmas demo_defs = demo_cfg_def demo_env_def demo_inputs_def demo_pkg_def demo_state_def
  newNonceStore_def

lemma demo_guards:
  "passes_guards demo_cfg (demo_env now) (demo_pkg d) \<lparr>pid_name = ''CERT_VALID'', pid_version = ''V1''\<rparr>
     demo_inputs \<longleftrightarrow> \<bar>now - createdAtMs d\<bar> \<le> 1000"
  by (simp add: passes_guards_def demo_defs validatePackageStructure_def js_truthy_def
      canonicalId_def getPredicateById_def getPredicate_def js_lookup_def predicates_json_def)

lemma demo_accepts:
  assumes "\<bar>now - createdAtMs d\<bar> \<le> 1000"
  shows "\<exists>r st'. verify demo_cfg (demo_env now) (demo_pkg d) demo_state = (Verified r, st')"
proof -
  have "\<exists>r. createReceipt demo_cfg (demo_env now) (demo_pkg d)
      \<lparr>pid_name = ''CERT_VALID'', pid_version = ''V1''\<rparr> demo_inputs = Inr r"
    by (simp add: createReceipt_Inr demo_defs)
  moreover have "pr_valid (fst (verifyZkProof demo_cfg (demo_env now) (pp_proof (demo_pkg d)) i p fs))"
    for i p fs
    by (simp add: verifyZkProof_def demo_defs js_truthy_def)
  moreover have "stamp_of (gw_nonces demo_state) n = None" for n
    by (simp add: demo_defs stamp_of_def)
  ultimately show ?thesis
    using assms demo_guards [of now d] unfolding verify_Verified_iff by blast
qed

lemma demo_wf: "gateway_wf demo_cfg demo_state"
  by (simp add: gateway_wf_def demo_defs nonce_store_wf_def)

text \<open>C1: a package is accepted exactly when its structure is complete, its predicate is
  known, its date lies within the window around the clock, its nonce has not been seen, the
  backend accepts its proof and the receipt can be signed.\<close>

theorem verify_accepts_iff:
  "(\<exists>r. fst (verify cfg env pkg st) = Verified r) \<longleftrightarrow>
     (\<exists>pid inputs r.
        validatePackageStructure pkg = None \<and>
        pp_predicateId pkg = Some pid \<and> pp_publicInputs pkg = Some inputs \<and>
        getPredicateById (ve_registry env) (canonicalId pid) \<noteq> Undefined \<and>
        \<bar>ve_now_window env - createdAtMs (pp_generatedAt pkg)\<bar> \<le> vc_nonceWindowMs cfg \<and>
        stamp_of (gw_nonces st) (pp_nonce pkg) = None \<and>
        pr_valid (fst (verifyZkProof cfg env (pp_proof pkg) inputs
          (getPredicateById (ve_registry env) (canonicalId pid)) (gw_fs st))) \<and>
        createReceipt cfg env pkg pid inputs = Inr r)"
proof -
  have "(\<exists>r. fst (verify cfg env pkg st) = Verified r) \<longleftrightarrow>
      (\<exists>r st'. verify cfg env pkg st = (Verified r, st'))"
    by (metis fst_conv surjective_pairing)
  then show ?thesis unfolding verify_Verified_iff passes_guards_def by blast
qed

text \<open>The receipt of an accepted package states the root, the bindings, the parties and
  the nonce of that package, and its signature is the gateway key's signature over the receipt
  identifier, the predicate, the root and the result.\<close>

lemma receipt_states_package:
  assumes "verify cfg env pkg st = (Verified r, st')"
  shows "\<exists>pid inputs sign. pp_predicateId pkg = Some pid \<and> pp_publicInputs pkg = Some inputs \<and>
    vr_predicateId r = pid \<and> vr_result r \<and> vr_commitmentRoot r = pi_commitmentRoot inputs \<and>
    vr_productBinding r = pi_productBinding inputs \<and>
    vr_requesterBinding r = pi_requesterBinding inputs \<and> vr_nonce r = pp_nonce pkg \<and>
    vr_supplierId r = Option.bind (pp_context pkg) ctx_supplierId \<and>
    vr_gatewayId r = vc_gatewayId cfg \<and> ve_sign env = Some sign \<and>
    sign (vc_signingKeyId cfg)
      \<lparr>sp_rid = vr_id r, sp_pid = pid_name pid @ ''@'' @ pid_version pid,
       sp_root = pi_commitmentRoot inputs, sp_result = True,
       sp_iat = vr_verifiedAt r div 1000\<rparr> = Some (vr_gatewaySignature r)"
  using assms
  by (auto simp: verify_Verified_iff passes_guards_def createReceipt_Inr unsigned_receipt_def
      receipt_payload_def)

text \<open>A request that fails a guard before the nonce check leaves the gateway as it
  was; one that gets past the guards uses its nonce up whatever the verdict, so the nonce is
  seen afterwards and no other nonce changes.\<close>

lemma verify_consumes_nonce:
  "(snd (verify cfg env pkg st) = st \<and> (\<nexists>pid inputs. passes_guards cfg env pkg pid inputs)) \<or>
   ((\<exists>pid inputs. passes_guards cfg env pkg pid inputs) \<and>
    stamp_of (gw_nonces (snd (verify cfg env pkg st))) =
      (stamp_of (gw_nonces st))
        (pp_nonce pkg \<mapsto> (case stamp_of (gw_nonces st) (pp_nonce pkg) of
            Some t \<Rightarrow> t | None \<Rightarrow> ve_now_store env)))"
proof (cases "\<exists>pid inputs. passes_guards cfg env pkg pid inputs")
  case True
  then obtain pid inputs where g: "passes_guards cfg env pkg pid inputs" by blast
  have "stamp_of (gw_nonces (snd (verify cfg env pkg st))) =
      (stamp_of (gw_nonces st))
        (pp_nonce pkg \<mapsto> (case stamp_of (gw_nonces st) (pp_nonce pkg) of
            Some t \<Rightarrow> t | None \<Rightarrow> ve_now_store env))"
    unfolding verify_nonces [OF g]
    by (cases "stamp_of (gw_nonces st) (pp_nonce pkg)")
      (auto simp: stamp_checkAndStore_fresh stamp_checkAndStore_seen fun_eq_iff)
  with True show ?thesis by blast
qed (simp add: verify_guard_fails)

text \<open>C2: once a package has been accepted at a clock reading not before its date, no package
  with the same nonce and a date up to that reading is accepted again, whatever requests and
  cleanups happen in between, as long as the clock does not run backwards.\<close>

theorem no_replay:
  assumes "gateway_wf cfg st" and "verify cfg env1 pkg1 st = (Verified r1, st1)"
    and "pp_nonce pkg2 = pp_nonce pkg1"
    and "createdAtMs (pp_generatedAt pkg2) \<le> ve_now_store env1"
    and "\<forall>e \<in> set es. gateway_event_time e \<le> ve_now_window env2"
  shows "fst (verify cfg env2 pkg2 (gateway_run cfg es st1)) \<noteq> Verified r2"
proof
  let ?st = "gateway_run cfg es st1"
  assume "fst (verify cfg env2 pkg2 ?st) = Verified r2"
  then obtain st2 where "verify cfg env2 pkg2 ?st = (Verified r2, st2)"
    by (cases "verify cfg env2 pkg2 ?st") simp
  then have late: "ve_now_window env2 \<le> createdAtMs (pp_generatedAt pkg2) + vc_nonceWindowMs cfg"
    and fresh: "stamp_of (gw_nonces ?st) (pp_nonce pkg2) = None"
    by (auto simp: verify_Verified_iff passes_guards_def)
  have "stamp_of (gw_nonces st1) (pp_nonce pkg1) = Some (ve_now_store env1)"
    using assms(2) by (auto simp: verify_Verified_iff stamp_checkAndStore_fresh)
  moreover have "gateway_wf cfg st1"
    using verify_wf [OF assms(1), of env1 pkg1] assms(2) by simp
  moreover have "\<forall>e \<in> set es. gateway_event_time e \<le> ve_now_store env1 + vc_nonceWindowMs cfg"
    using assms(4,5) late by force
  ultimately have "stamp_of (gw_nonces ?st) (pp_nonce pkg1) = Some (ve_now_store env1)"
    by (intro gateway_run_keeps_stamp)
  with fresh assms(3) show False by simp
qed

text \<open>The bound on the date is needed. A package dated ahead of the clock that is
  accepted once is accepted a second time after a cleanup that falls between the end of the
  nonce's window and the end of the date's window.\<close>

lemma future_dated_replay:
  assumes "gateway_wf cfg st" and "verify cfg env1 pkg st = (Verified r1, st1)"
    and "ve_now_store env1 + vc_nonceWindowMs cfg < t"
    and "t \<le> createdAtMs (pp_generatedAt pkg) + vc_nonceWindowMs cfg"
    and "ve_now_window env1 \<le> ve_now_store env1"
    and "\<exists>pid inputs. pp_predicateId pkg = Some pid \<and> pp_publicInputs pkg = Some inputs \<and>
      pr_valid (fst (verifyZkProof cfg env1 (pp_proof pkg) inputs
        (getPredicateById (ve_registry env1) (canonicalId pid)) (gw_fs st1)))"
  shows "\<exists>r2. fst (verify cfg (env1\<lparr>ve_now_window := t, ve_now_store := t\<rparr>) pkg
           (gateway_run cfg [CleanupTick t] st1)) = Verified r2"
proof -
  let ?env = "env1\<lparr>ve_now_window := t, ve_now_store := t\<rparr>"
  let ?st = "gateway_run cfg [CleanupTick t] st1"
  from assms(2) obtain pid inputs where g: "passes_guards cfg env1 pkg pid inputs"
    and s: "stamp_of (gw_nonces st1) (pp_nonce pkg) = Some (ve_now_store env1)"
    and r: "createReceipt cfg env1 pkg pid inputs = Inr r1"
    by (auto simp: verify_Verified_iff stamp_checkAndStore_fresh)
  have w: "gateway_wf cfg st1" using verify_wf [OF assms(1), of env1 pkg] assms(2) by simp
  have "stamp_of (gw_nonces ?st) (pp_nonce pkg) = None"
    using w s assms(3) by (simp add: gateway_wf_def stamp_cleanup)
  moreover have "passes_guards cfg ?env pkg pid inputs"
    using g assms(3-5) by (simp add: passes_guards_def abs_le_iff)
  moreover have "pr_valid (fst (verifyZkProof cfg ?env (pp_proof pkg) inputs
          (getPredicateById (ve_registry ?env) (canonicalId pid)) (gw_fs ?st)))"
    using g assms(6) by (auto simp: passes_guards_def)
  moreover have "createReceipt cfg ?env pkg pid inputs = Inr r1"
    using r by (simp add: createReceipt_Inr unsigned_receipt_def)
  ultimately have "verify cfg ?env pkg ?st = (Verified r1, snd (verify cfg ?env pkg ?st))"
    by (subst verify_Verified_iff) (auto simp: verify_guarded Let_def split_def ns.admit_iff)
  then show ?thesis by (metis fst_conv)
qed

theorem no_replay_witness:
  "\<exists>st1. \<forall>r2. fst (verify demo_cfg (demo_env 7001) (demo_pkg 5)
     (gateway_run demo_cfg [CleanupTick 6500, Submit (demo_env 6600) (demo_pkg 6)] st1)) \<noteq> Verified r2"
proof -
  obtain r st' where v: "verify demo_cfg (demo_env 5000) (demo_pkg 5) demo_state = (Verified r, st')"
    using demo_accepts [of 5000 5] by (auto simp: createdAtMs_def)
  show ?thesis
    by (intro exI [of _ st'] allI no_replay [OF demo_wf v])
      (simp_all add: demo_pkg_def demo_env_def createdAtMs_def)
qed

end
