(* ===== verification/EventBus.thy ===== *)
theory EventBus
  imports ErrorCodes
begin

text \<open>
  The NATS client of \<open>packages/event-bus/src/index.ts\<close>. The NATS server and its client
  library are not part of the repository: they are the record \<open>nats\<close> of operations on a
  state of their own, an argument of everything that talks to them. The delivery loops are
  functions over the messages delivered, with the handler as an argument; the locales
  \<open>acking_handler\<close> and \<open>redelivery_safe_handler\<close> are what a subscriber needs of its
  handler for at-least-once delivery to work, and the services interpret them.
\<close>

section \<open>Subjects, streams and configuration\<close>

definition PROOFS_VERIFIED :: string where "PROOFS_VERIFIED = ''proofs.verified''"
definition RECEIPTS_ISSUED :: string where "RECEIPTS_ISSUED = ''receipts.issued''"
definition COMMITMENTS_CREATED :: string where "COMMITMENTS_CREATED = ''commitments.created''"
definition COMMITMENTS_REVOKED :: string where "COMMITMENTS_REVOKED = ''commitments.revoked''"
definition VERIFICATION_STREAM :: string where "VERIFICATION_STREAM = ''VERIFICATION''"
definition COMMITMENTS_STREAM :: string where "COMMITMENTS_STREAM = ''COMMITMENTS''"

lemmas bus_names = PROOFS_VERIFIED_def RECEIPTS_ISSUED_def COMMITMENTS_CREATED_def
  COMMITMENTS_REVOKED_def VERIFICATION_STREAM_def COMMITMENTS_STREAM_def

record EventBusConfig =
  bc_servers :: "string list"
  bc_name :: "string option"
  bc_maxReconnectAttempts :: "int option"

record ConnectOptions =
  co_servers :: "string list"
  co_name :: string
  co_maxReconnectAttempts :: int

record StreamConfig =
  sc_name :: string
  sc_subjects :: "string list"
  sc_retention :: string
  sc_max_msgs :: int
  sc_max_bytes :: int
  sc_max_age :: int
  sc_storage :: string
  sc_num_replicas :: int

record ConsumerConfig =
  cc_durable_name :: string
  cc_ack_policy :: string
  cc_deliver_policy :: string
  cc_filter_subject :: "string option"

record PartialConsumerConfig =
  pc_durable_name :: "string option"
  pc_ack_policy :: "string option"
  pc_deliver_policy :: "string option"
  pc_filter_subject :: "string option"

text \<open>The operations of the NATS client; a thrown error is returned beside the new state.\<close>

record 'n nats =
  nats_connect :: "ConnectOptions \<Rightarrow> 'n \<Rightarrow> thrown option \<times> 'n"
  nats_manager :: "'n \<Rightarrow> thrown option"
  nats_streamInfo :: "string \<Rightarrow> 'n \<Rightarrow> thrown option"
  nats_streamAdd :: "StreamConfig \<Rightarrow> 'n \<Rightarrow> thrown option \<times> 'n"
  nats_consumerInfo :: "string \<Rightarrow> string \<Rightarrow> 'n \<Rightarrow> thrown option"
  nats_consumerAdd :: "string \<Rightarrow> ConsumerConfig \<Rightarrow> 'n \<Rightarrow> thrown option \<times> 'n"
  nats_consumerGet :: "string \<Rightarrow> string \<Rightarrow> 'n \<Rightarrow> thrown option"
  nats_publish :: "string \<Rightarrow> string \<Rightarrow> 'n \<Rightarrow> thrown option \<times> 'n"
  nats_drain :: "'n \<Rightarrow> thrown option \<times> 'n"

text \<open>The fields of \<open>EventBus\<close>; a connection is present or not, and open or closed.\<close>

record EventBus =
  eb_config :: EventBusConfig
  eb_connection :: "bool option"  \<comment> \<open>\<open>Some closed\<close>\<close>
  eb_jsm :: bool
  eb_js :: bool

definition newEventBus :: "EventBusConfig \<Rightarrow> EventBus" where
  "newEventBus config =
     \<lparr>eb_config = config, eb_connection = None, eb_jsm = False, eb_js = False\<rparr>"

definition not_connected :: thrown where
  "not_connected = ThrownError ''Error'' ''Not connected''"

section \<open>Connecting\<close>

definition connect_options :: "EventBusConfig \<Rightarrow> ConnectOptions" where
  "connect_options config =
     \<lparr>co_servers = bc_servers config, co_name = js_coalesce (bc_name config) ''zkdpp-service'',
      co_maxReconnectAttempts = js_coalesce (bc_maxReconnectAttempts config) 10\<rparr>"

definition connect ::
  "'n nats \<Rightarrow> EventBus \<Rightarrow> 'n \<Rightarrow> thrown option \<times> EventBus \<times> 'n" where
  "connect nats bus n =
     (case nats_connect nats (connect_options (eb_config bus)) n of
        (Some e, n') \<Rightarrow> (Some e, bus, n')
      | (None, n') \<Rightarrow>
          let bus' = bus\<lparr>eb_connection := Some False\<rparr> in
          (case nats_manager nats n' of
             Some e \<Rightarrow> (Some e, bus', n')
           | None \<Rightarrow> (None, bus'\<lparr>eb_jsm := True, eb_js := True\<rparr>, n')))"

definition verification_stream :: StreamConfig where
  "verification_stream =
     \<lparr>sc_name = VERIFICATION_STREAM, sc_subjects = [PROOFS_VERIFIED, RECEIPTS_ISSUED],
      sc_retention = ''limits'', sc_max_msgs = 1000000, sc_max_bytes = 1024 * 1024 * 1024,
      sc_max_age = 90 * 24 * 60 * 60 * 1000000000, sc_storage = ''file'', sc_num_replicas = 1\<rparr>"

definition commitments_stream :: StreamConfig where
  "commitments_stream =
     \<lparr>sc_name = COMMITMENTS_STREAM, sc_subjects = [COMMITMENTS_CREATED, COMMITMENTS_REVOKED],
      sc_retention = ''limits'', sc_max_msgs = 100000, sc_max_bytes = 512 * 1024 * 1024,
      sc_max_age = 365 * 24 * 60 * 60 * 1000000000, sc_storage = ''file'', sc_num_replicas = 1\<rparr>"

definition ensureStream ::
  "'n nats \<Rightarrow> EventBus \<Rightarrow> StreamConfig \<Rightarrow> 'n \<Rightarrow> thrown option \<times> 'n" where
  "ensureStream nats bus config n =
     (if \<not> eb_jsm bus then (Some not_connected, n)
      else case nats_streamInfo nats (sc_name config) n of
        None \<Rightarrow> (None, n)
      | Some e \<Rightarrow> nats_streamAdd nats config n)"

definition ensureStreams :: "'n nats \<Rightarrow> EventBus \<Rightarrow> 'n \<Rightarrow> thrown option \<times> 'n" where
  "ensureStreams nats bus n =
     (if \<not> eb_jsm bus then (Some not_connected, n)
      else case ensureStream nats bus verification_stream n of
        (Some e, n') \<Rightarrow> (Some e, n')
      | (None, n') \<Rightarrow> ensureStream nats bus commitments_stream n')"

definition createEventBus ::
  "'n nats \<Rightarrow> EventBusConfig \<Rightarrow> 'n \<Rightarrow> (thrown + EventBus) \<times> 'n" where
  "createEventBus nats config n =
     (case connect nats (newEventBus config) n of
        (Some e, bus, n') \<Rightarrow> (Inl e, n')
      | (None, bus, n') \<Rightarrow>
          (case ensureStreams nats bus n' of
             (Some e, n'') \<Rightarrow> (Inl e, n'')
           | (None, n'') \<Rightarrow> (Inr bus, n'')))"

definition close :: "'n nats \<Rightarrow> EventBus \<Rightarrow> 'n \<Rightarrow> thrown option \<times> EventBus \<times> 'n" where
  "close nats bus n =
     (case eb_connection bus of
        None \<Rightarrow> (None, bus, n)
      | Some c \<Rightarrow>
          (case nats_drain nats n of
             (Some e, n') \<Rightarrow> (Some e, bus, n')
           | (None, n') \<Rightarrow>
               (None, bus\<lparr>eb_connection := None, eb_jsm := False, eb_js := False\<rparr>, n')))"

definition disconnect :: "'n nats \<Rightarrow> EventBus \<Rightarrow> 'n \<Rightarrow> thrown option \<times> EventBus \<times> 'n" where
  "disconnect = close"

definition isConnected :: "EventBus \<Rightarrow> bool" where
  "isConnected bus = (case eb_connection bus of None \<Rightarrow> False | Some closed \<Rightarrow> \<not> closed)"

section \<open>Publishing and subscribing\<close>

text \<open>The payload is the serialised event.\<close>

definition publish ::
  "'n nats \<Rightarrow> EventBus \<Rightarrow> string \<Rightarrow> string \<Rightarrow> 'n \<Rightarrow> thrown option \<times> 'n" where
  "publish nats bus subject payload n =
     (if \<not> eb_js bus then (Some not_connected, n) else nats_publish nats subject payload n)"

definition full_consumer :: "string \<Rightarrow> PartialConsumerConfig option \<Rightarrow> ConsumerConfig" where
  "full_consumer consumerName config =
     (case config of
        None \<Rightarrow>
          \<lparr>cc_durable_name = consumerName, cc_ack_policy = ''explicit'',
           cc_deliver_policy = ''all'', cc_filter_subject = None\<rparr>
      | Some c \<Rightarrow>
          \<lparr>cc_durable_name = js_coalesce (pc_durable_name c) consumerName,
           cc_ack_policy = js_coalesce (pc_ack_policy c) ''explicit'',
           cc_deliver_policy = js_coalesce (pc_deliver_policy c) ''all'',
           cc_filter_subject = pc_filter_subject c\<rparr>)"

definition createConsumer ::
  "'n nats \<Rightarrow> EventBus \<Rightarrow> string \<Rightarrow> string \<Rightarrow> PartialConsumerConfig option \<Rightarrow> 'n \<Rightarrow>
     thrown option \<times> 'n" where
  "createConsumer nats bus stream consumerName config n =
     (if \<not> eb_jsm bus then (Some not_connected, n)
      else case nats_consumerInfo nats stream consumerName n of
        None \<Rightarrow> (None, n)
      | Some e \<Rightarrow> nats_consumerAdd nats stream (full_consumer consumerName config) n)"

definition subscribe :: "'n nats \<Rightarrow> EventBus \<Rightarrow> string \<Rightarrow> string \<Rightarrow> 'n \<Rightarrow> thrown option" where
  "subscribe nats bus stream consumer n =
     (if \<not> eb_js bus then Some not_connected else nats_consumerGet nats stream consumer n)"

definition stream_for :: "string \<Rightarrow> string" where
  "stream_for subject =
     (if js_startsWith subject ''commitments.'' then COMMITMENTS_STREAM else VERIFICATION_STREAM)"

text \<open>
  \<open>subscribeToSubject\<close> up to the start of its delivery loop; \<open>now\<close> is the clock reading
  that names an anonymous consumer. The result is the stream and the consumer read from.
\<close>

definition subscribeToSubject ::
  "'n nats \<Rightarrow> EventBus \<Rightarrow> string \<Rightarrow> string option \<Rightarrow> string option \<Rightarrow> time_ms \<Rightarrow> 'n \<Rightarrow>
     (thrown + string \<times> string) \<times> 'n" where
  "subscribeToSubject nats bus subject durable deliverPolicy now n =
     (if \<not> eb_js bus \<or> \<not> eb_jsm bus then (Inl not_connected, n)
      else
        let streamName = stream_for subject;
            consumerName = js_or_opt durable (''consumer-'' @ show_int now);
            (added, n') =
              (case nats_consumerInfo nats streamName consumerName n of
                 None \<Rightarrow> (None, n)
               | Some e \<Rightarrow> nats_consumerAdd nats streamName
                   \<lparr>cc_durable_name = consumerName, cc_ack_policy = ''explicit'',
                    cc_deliver_policy = js_or_opt deliverPolicy ''all'',
                    cc_filter_subject = Some subject\<rparr> n)
        in case added of
             Some e \<Rightarrow> (Inl e, n')
           | None \<Rightarrow>
               (case nats_consumerGet nats streamName consumerName n' of
                  Some e \<Rightarrow> (Inl e, n')
                | None \<Rightarrow> (Inr (streamName, consumerName), n')))"

section \<open>The delivery loop\<close>

datatype delivery = Ack | Nak int

type_synonym ('d, 's) handler = "'d \<Rightarrow> 's \<Rightarrow> thrown option \<times> 's"

definition process_message ::
  "('m \<Rightarrow> 'd option) \<Rightarrow> ('d, 's) handler \<Rightarrow> 'm \<Rightarrow> 's \<Rightarrow> delivery \<times> 's" where
  "process_message parse handler msg s =
     (case parse msg of
        None \<Rightarrow> (Nak 5000, s)
      | Some data \<Rightarrow>
          (case handler data s of
             (None, s') \<Rightarrow> (Ack, s')
           | (Some e, s') \<Rightarrow> (Nak 5000, s')))"

fun process_messages ::
  "('m \<Rightarrow> 'd option) \<Rightarrow> ('d, 's) handler \<Rightarrow> 'm list \<Rightarrow> 's \<Rightarrow> delivery list \<times> 's" where
  "process_messages parse handler [] s = ([], s)"
| "process_messages parse handler (msg # msgs) s =
     (let (d, s') = process_message parse handler msg s;
          (ds, s'') = process_messages parse handler msgs s'
      in (d # ds, s''))"

section \<open>What a subscriber needs of its handler\<close>

text \<open>
  An acknowledged message is not delivered again, so what it asked for must be in the state:
  \<open>reflected s d\<close> says that the state shows the effect of \<open>d\<close> (or that \<open>d\<close> asks for none).
\<close>

locale stable_handler =
  fixes handle :: "('d, 's) handler" and reflected :: "'s \<Rightarrow> 'd \<Rightarrow> bool"
  assumes reflected_stays: "reflected s d \<Longrightarrow> reflected (snd (handle d' s)) d"
begin

lemma process_stays:
  "reflected s d \<Longrightarrow> reflected (snd (process_messages parse handle msgs s)) d"
proof (induction msgs arbitrary: s)
  case Nil
  then show ?case by simp
next
  case (Cons m ms)
  have "reflected (snd (process_message parse handle m s)) d"
    using reflected_stays [OF Cons.prems] Cons.prems
    by (auto simp: process_message_def split: option.split prod.split) (metis snd_conv)+
  from Cons.IH [OF this] show ?case by (simp add: split_def Let_def)
qed

end

locale acking_handler = stable_handler handle reflected
  for handle :: "('d, 's) handler" and reflected :: "'s \<Rightarrow> 'd \<Rightarrow> bool" +
  assumes success_reflected: "handle d s = (None, s') \<Longrightarrow> reflected s' d"
begin

lemma acked_reflected:
  "\<lbrakk>(msg, Ack) \<in> set (zip msgs (fst (process_messages parse handle msgs s))); parse msg = Some d\<rbrakk> \<Longrightarrow>
     reflected (snd (process_messages parse handle msgs s)) d"
proof (induction msgs arbitrary: s)
  case Nil
  then show ?case by simp
next
  case (Cons m ms)
  let ?r = "process_message parse handle m s"
  have step: "process_messages parse handle (m # ms) s =
      (fst ?r # fst (process_messages parse handle ms (snd ?r)),
       snd (process_messages parse handle ms (snd ?r)))"
    by (simp add: split_def Let_def)
  from Cons.prems(1) consider "msg = m" "fst ?r = Ack"
    | "(msg, Ack) \<in> set (zip ms (fst (process_messages parse handle ms (snd ?r))))"
    unfolding step fst_conv by auto
  then show ?case
  proof cases
    case 1
    with Cons.prems(2) have "handle d s = (None, snd ?r)"
      by (auto simp: process_message_def split: prod.splits option.splits)
    then have "reflected (snd ?r) d" by (rule success_reflected)
    then show ?thesis unfolding step snd_conv by (rule process_stays)
  next
    case 2
    from Cons.IH [OF 2 Cons.prems(2)] show ?thesis unfolding step snd_conv .
  qed
qed

end

locale redelivery_safe_handler = stable_handler handle reflected
  for handle :: "('d, 's) handler" and reflected :: "'s \<Rightarrow> 'd \<Rightarrow> bool" +
  assumes reflected_noop: "reflected s d \<Longrightarrow> snd (handle d s) = s"
begin

lemma redelivery_noop:
  "\<forall>m \<in> set msgs. \<forall>d. parse m = Some d \<longrightarrow> reflected s d \<Longrightarrow>
     snd (process_messages parse handle msgs s) = s"
proof (induction msgs)
  case Nil
  then show ?case by simp
next
  case (Cons m ms)
  then have "snd (process_message parse handle m s) = s"
    using reflected_noop
    by (auto simp: process_message_def split: option.split prod.split) (metis snd_conv)+
  with Cons show ?case by (simp add: split_def Let_def)
qed

end

section \<open>Facts about the bus\<close>

lemma publish_needs_js: "\<not> eb_js bus \<Longrightarrow> publish nats bus subject payload n = (Some not_connected, n)"
  by (simp add: publish_def)

definition bus_wf :: "EventBus \<Rightarrow> bool" where
  "bus_wf bus = (eb_jsm bus = eb_js bus \<and> (eb_js bus \<longrightarrow> eb_connection bus \<noteq> None))"

lemma bus_wf_operations:
  "bus_wf (newEventBus config)"
  "bus_wf bus \<Longrightarrow> bus_wf (fst (snd (connect nats bus n)))"
  "bus_wf bus \<Longrightarrow> bus_wf (fst (snd (close nats bus n)))"
  by (auto simp: bus_wf_def newEventBus_def connect_def close_def Let_def
      split: prod.splits option.splits)

section \<open>Properties of the bus\<close>

text \<open>The four subjects of the system are each routed, when subscribed to, to the one of
  the two streams \<open>ensureStreams\<close> declares that carries the subject.\<close>

lemma subject_routing:
  "list_all (\<lambda>subject.
      filter (\<lambda>s. subject \<in> set (sc_subjects s)) [verification_stream, commitments_stream] =
      filter (\<lambda>s. sc_name s = stream_for subject) [verification_stream, commitments_stream] \<and>
      length (filter (\<lambda>s. subject \<in> set (sc_subjects s)) [verification_stream, commitments_stream]) = 1)
     [PROOFS_VERIFIED, RECEIPTS_ISSUED, COMMITMENTS_CREATED, COMMITMENTS_REVOKED]"
  by (simp add: verification_stream_def commitments_stream_def stream_for_def bus_names
      js_startsWith_def)

definition keeps_streams :: "'n nats \<Rightarrow> bool" where
  "keeps_streams nats =
     (\<forall>config n n'. nats_streamAdd nats config n = (None, n') \<longrightarrow>
        nats_streamInfo nats (sc_name config) n' = None \<and>
        (\<forall>name. nats_streamInfo nats name n = None \<longrightarrow> nats_streamInfo nats name n' = None))"

lemma ensureStream_exists:
  assumes "keeps_streams nats" and "ensureStream nats bus config n = (None, n')"
  shows "nats_streamInfo nats (sc_name config) n' = None \<and>
    (\<forall>name. nats_streamInfo nats name n = None \<longrightarrow> nats_streamInfo nats name n' = None)"
  using assms unfolding keeps_streams_def
  by (auto simp: ensureStream_def split: if_splits option.splits)

text \<open>A bus that \<open>createEventBus\<close> returns is connected and both streams have been found
  or added; against a server where a stream that was found or added stays, both exist at the
  end.\<close>

lemma createEventBus_ready:
  assumes "keeps_streams nats" and "createEventBus nats config n = (Inr bus, n')"
  shows "isConnected bus \<and> eb_js bus \<and> eb_jsm bus \<and>
    nats_streamInfo nats VERIFICATION_STREAM n' = None \<and>
    nats_streamInfo nats COMMITMENTS_STREAM n' = None"
proof -
  from assms(2) obtain n1 n2 where c: "connect nats (newEventBus config) n = (None, bus, n1)"
    and v: "ensureStream nats bus verification_stream n1 = (None, n2)"
    and k: "ensureStream nats bus commitments_stream n2 = (None, n')"
    by (auto simp: createEventBus_def ensureStreams_def split: prod.splits option.splits if_splits)
  have "isConnected bus \<and> eb_js bus \<and> eb_jsm bus"
    using c by (auto simp: connect_def isConnected_def Let_def split: prod.splits option.splits)
  with ensureStream_exists [OF assms(1) v] ensureStream_exists [OF assms(1) k] show ?thesis
    by (auto simp: verification_stream_def commitments_stream_def)
qed

definition demo_nats :: "string list nats" where
  "demo_nats = \<lparr>nats_connect = (\<lambda>opts n. (None, n)), nats_manager = (\<lambda>n. None),
     nats_streamInfo = (\<lambda>name n. if name \<in> set n then None else Some not_connected),
     nats_streamAdd = (\<lambda>config n. (None, sc_name config # n)),
     nats_consumerInfo = (\<lambda>s c n. None), nats_consumerAdd = (\<lambda>s c n. (None, n)),
     nats_consumerGet = (\<lambda>s c n. None), nats_publish = (\<lambda>s p n. (None, n)),
     nats_drain = (\<lambda>n. (None, n))\<rparr>"

end
