(* ===== verification/Gateway.thy ===== *)
theory Gateway
  imports Verifier EventBus
begin

text \<open>
  The rest of the verification gateway (\<open>services/verify-gateway/src\<close>): what
  \<open>index.ts\<close> decides at start-up (configuration, backend, event bus) and the read-only
  routes of \<open>routes/health.ts\<close> and \<open>routes/predicates.ts\<close>. Registering plugins, serving
  HTTP and the metrics text are Fastify's and prom-client's.
\<close>

section \<open>Start-up\<close>

text \<open>\<open>parseInt(text, 10)\<close> on text without leading blanks; \<^const>\<open>None\<close> is \<open>NaN\<close>.\<close>

definition is_digit :: "char \<Rightarrow> bool" where
  "is_digit c = (48 \<le> (of_char c :: nat) \<and> (of_char c :: nat) \<le> 57)"

definition js_parseInt :: "string \<Rightarrow> int option" where
  "js_parseInt s =
     (let (negative, rest) =
        (case s of c # cs \<Rightarrow> if c = CHR ''-'' then (True, cs) else if c = CHR ''+'' then (False, cs) else (False, s)
         | [] \<Rightarrow> (False, s));
          digits = takeWhile is_digit rest
      in if digits = [] then None
         else Some (if negative then - int (read_nat digits) else int (read_nat digits)))"

record GatewayConfig =
  gc_port :: "int option"
  gc_host :: string
  gc_natsUrl :: string
  gc_signingKeyId :: string
  gc_signingKeyPrivate :: string
  gc_nonceWindowMs :: "int option"
  gc_zkBackend :: ZkBackend
  gc_nargoBin :: string
  gc_noirCircuitsDir :: "string option"

definition zk_backend_of :: "string \<Rightarrow> ZkBackend" where
  "zk_backend_of s =
     (if s = ''noir-cli'' then NoirCliBackend else if s = ''mock'' then MockBackend
      else OtherBackend s)"

definition loadGatewayConfig :: "(string \<Rightarrow> string option) \<Rightarrow> GatewayConfig" where
  "loadGatewayConfig env =
     \<lparr>gc_port = js_parseInt (js_or_opt (env ''PORT'') ''3001''),
      gc_host = js_or_opt (env ''HOST'') ''0.0.0.0'',
      gc_natsUrl = js_or_opt (env ''NATS_URL'') ''nats://localhost:4222'',
      gc_signingKeyId = js_or_opt (env ''SIGNING_KEY_ID'') ''gateway-key-001'',
      gc_signingKeyPrivate = js_or_opt (env ''SIGNING_KEY_PRIVATE'') [],
      gc_nonceWindowMs = js_parseInt (js_or_opt (env ''NONCE_WINDOW_MS'') ''300000''),
      gc_zkBackend = zk_backend_of (js_or_opt (env ''ZK_BACKEND'') ''noir-cli''),
      gc_nargoBin = js_or_opt (env ''NARGO_BIN'') ''nargo'',
      gc_noirCircuitsDir = env ''NOIR_CIRCUITS_DIR''\<rparr>"

text \<open>The bus is created before it is connected, so a failure leaves it in place.\<close>

definition start_bus :: "'n nats \<Rightarrow> string \<Rightarrow> string \<Rightarrow> 'n \<Rightarrow> EventBus option \<times> 'n" where
  "start_bus nats natsUrl name n =
     (case connect nats (newEventBus
             \<lparr>bc_servers = [natsUrl], bc_name = Some name, bc_maxReconnectAttempts = None\<rparr>) n of
        (Some e, bus, n') \<Rightarrow> (Some bus, n')
      | (None, bus, n') \<Rightarrow> (Some bus, snd (ensureStreams nats bus n')))"

definition select_backend :: "ZkBackend \<Rightarrow> bool \<Rightarrow> string option \<Rightarrow> thrown + ZkBackend" where
  "select_backend backend nargoRuns allowMock =
     (if backend = NoirCliBackend \<and> \<not> nargoRuns then
        (if allowMock = Some ''true'' then Inr MockBackend
         else Inl (ThrownError ''Error''
           ''Noir CLI not available. Set NARGO_BIN or enable ALLOW_MOCK_PROOFS.''))
      else Inr backend)"

text \<open>The state the gateway starts in: the nonce store's window and its one-minute cleanup.\<close>

definition start_nonces :: "int \<Rightarrow> NonceStore \<Rightarrow> NonceStore" where
  "start_nonces window st = startCleanup 60000 (setWindowMs window st)"

section \<open>Health routes\<close>

record HealthResponse =
  hr_status :: string
  hr_timestamp :: time_ms
  hr_version :: string
  hr_nats :: bool

definition nats_connected :: "EventBus option \<Rightarrow> bool \<Rightarrow> bool" where
  "nats_connected eventBus fallback = (case eventBus of None \<Rightarrow> fallback | Some b \<Rightarrow> isConnected b)"

definition getHealth :: "time_ms \<Rightarrow> EventBus option \<Rightarrow> HealthResponse" where
  "getHealth now eventBus =
     (let natsConnected = nats_connected eventBus False in
      \<lparr>hr_status = (if natsConnected then ''healthy'' else ''degraded''), hr_timestamp = now,
       hr_version = ''0.1.0'', hr_nats = natsConnected\<rparr>)"

definition getReady :: "EventBus option \<Rightarrow> nat \<times> bool" where
  "getReady eventBus = (if nats_connected eventBus True then (200, True) else (503, False))"

definition getLive :: "nat \<times> bool" where
  "getLive = (200, True)"

section \<open>Predicate routes\<close>

record PredicateInfo =
  in_id :: string
  in_name :: string
  in_version :: string
  in_description :: string
  in_accessGroups :: "AccessGroup list"
  in_perVerification :: int
  in_currency :: Currency

definition predicate_info :: "string \<Rightarrow> PredicateDefinition \<Rightarrow> PredicateInfo" where
  "predicate_info key p =
     \<lparr>in_id = key, in_name = pd_name p, in_version = pd_version p,
      in_description = pd_description p, in_accessGroups = pd_accessGroups p,
      in_perVerification = perVerification (pd_pricing p), in_currency = currency (pd_pricing p)\<rparr>"

definition getPredicates :: "PredicateRegistry \<Rightarrow> PredicateInfo list" where
  "getPredicates registry = map (\<lambda>(key, p). predicate_info key p) (getAllPredicates registry)"

datatype PredicateReply = PredicateFound PredicateInfo | PredicateMissing string

definition getPredicateRoute ::
  "PredicateRegistry \<Rightarrow> string \<Rightarrow> thrown + nat \<times> PredicateReply" where
  "getPredicateRoute registry key =
     (case getPredicateById registry key of
        Undefined \<Rightarrow> Inr (404, PredicateMissing (''Predicate not found: '' @ key))
      | Own p \<Rightarrow> Inr (200, PredicateFound (predicate_info key p))
      | Inherited \<Rightarrow>
          Inl (ThrownError ''TypeError'' ''Cannot read properties of undefined''))"

section \<open>Properties of the gateway\<close>

text \<open>A request for a predicate answers 200 with an entry exactly when that entry is in
  the listing of all predicates under the requested identifier; the rest are 404s and, for the
  names every JavaScript object has, an error.\<close>

lemma predicate_routes_agree:
  "case getPredicateRoute predicates_json key of
      Inr (status, PredicateFound info) \<Rightarrow>
        status = 200 \<and> info \<in> set (getPredicates predicates_json) \<and> in_id info = key
    | Inr (status, PredicateMissing msg) \<Rightarrow>
        status = 404 \<and> key \<notin> in_id ` set (getPredicates predicates_json)
    | Inl e \<Rightarrow> key \<in> set object_prototype_keys"
proof (cases "getPredicateById predicates_json key")
  case (Own p)
  then have "(key, p) \<in> set predicates_json"
    by (simp add: getPredicateById_Own_iff map_of_SomeD)
  then have "predicate_info key p \<in> set (getPredicates predicates_json)"
    unfolding getPredicates_def getAllPredicates_def by force
  moreover have "in_id (predicate_info key p) = key" by (simp add: predicate_info_def)
  ultimately show ?thesis using Own by (simp add: getPredicateRoute_def)
next
  case Inherited
  then have "key \<in> set object_prototype_keys"
    by (simp add: getPredicateById_def getPredicate_def js_lookup_Inherited_iff)
  with Inherited show ?thesis by (simp add: getPredicateRoute_def)
next
  case Undefined
  then have "map_of predicates_json key = None" by (simp add: getPredicateById_Undefined_iff)
  then have "key \<notin> fst ` set predicates_json" by (simp add: map_of_eq_None_iff)
  moreover have "in_id ` set (getPredicates predicates_json) = fst ` set predicates_json"
    by (simp add: getPredicates_def getAllPredicates_def predicate_info_def image_image split_def)
  ultimately show ?thesis using Undefined by (simp add: getPredicateRoute_def)
qed

text \<open>When the connection to NATS fails at start-up the gateway still holds a bus object,
  so \<open>/ready\<close> answers 503 and \<open>/health\<close> says degraded, and whatever is published is
  refused; the branch of \<open>/ready\<close> for running without an event bus is never taken.\<close>

lemma failed_bus_not_ready:
  assumes "nats_connect nats (connect_options
      \<lparr>bc_servers = [url], bc_name = Some name, bc_maxReconnectAttempts = None\<rparr>) n = (Some e, n')"
  shows "\<exists>bus. start_bus nats url name n = (Some bus, n') \<and>
    getReady (Some bus) = (503, False) \<and> hr_status (getHealth now (Some bus)) = ''degraded'' \<and>
    publish nats bus subject payload n' = (Some not_connected, n')"
proof -
  let ?bus = "newEventBus \<lparr>bc_servers = [url], bc_name = Some name, bc_maxReconnectAttempts = None\<rparr>"
  have "start_bus nats url name n = (Some ?bus, n')"
    using assms by (simp add: start_bus_def connect_def newEventBus_def)
  moreover have "publish nats ?bus subject payload n' = (Some not_connected, n')"
    by (rule publish_needs_js) (simp add: newEventBus_def)
  ultimately show ?thesis
    by (simp add: getReady_def getHealth_def nats_connected_def isConnected_def newEventBus_def)
qed

text \<open>The proof backend the gateway runs with: mock proofs are accepted only when the
  environment says so, whether the mock backend was configured or fallen back to, and without
  that permission a gateway whose Noir binary is missing does not start.\<close>

lemma mock_needs_permission:
  assumes "select_backend (zk_backend_of name) nargoRuns (ve_allowMock env) = Inr backend"
    and "vc_zkBackend cfg = backend" and "backend \<noteq> NoirCliBackend"
    and "pr_valid (fst (verifyZkProof cfg env proofData inputs predicate fs))"
  shows "ve_allowMock env = Some ''true'' \<and> backend = MockBackend \<and>
    32 \<le> length proofData \<and> even (length proofData)"
  using assms
  by (auto simp: select_backend_def verifyZkProof_def even_iff_mod_2_eq_zero
      split: if_splits ZkBackend.splits)

text \<open>The route publishes exactly one verification event when a package is accepted and a
  bus is configured, carrying the receipt's identifier, the package's root and binding, and
  none otherwise; a response is 200 exactly for an accepted package.\<close>

lemma postVerify_publishes:
  "(case postVerify cfg env schemaErrors hasBus eventId now pkg st of
     (resp, events, st') \<Rightarrow>
       (if schemaErrors pkg = None \<and> (\<exists>r. fst (verify cfg env pkg st) = Verified r)
        then resp_status resp = 200 \<and> length events = (if hasBus then 1 else 0) \<and>
          (\<exists>r. fst (verify cfg env pkg st) = Verified r \<and> resp_receipt resp = Some r \<and>
             list_all (\<lambda>ev. pl_receiptId (ev_payload ev) = vr_id r \<and>
               pl_commitmentRoot (ev_payload ev) = Some (vr_commitmentRoot r) \<and>
               pl_productBinding (ev_payload ev) = Some (vr_productBinding r) \<and>
               ev_eventType ev = PROOFS_VERIFIED) events)
        else resp_status resp = 400 \<and> events = [] \<and> resp_receipt resp = None))"
proof (cases "schemaErrors pkg")
  case (Some errors)
  then show ?thesis by (simp add: postVerify_def)
next
  case None
  obtain v st' where v: "verify cfg env pkg st = (v, st')" by (cases "verify cfg env pkg st")
  show ?thesis
  proof (cases v)
    case (Rejected err)
    with v None show ?thesis by (simp add: postVerify_def)
  next
    case (Verified r)
    with v obtain pid inputs where "pp_publicInputs pkg = Some inputs"
      and "createReceipt cfg env pkg pid inputs = Inr r"
      using verify_Verified_iff [of cfg env pkg st r st'] by (auto simp: passes_guards_def)
    then have "pp_publicInputs pkg = Some inputs"
      and "vr_commitmentRoot r = pi_commitmentRoot inputs"
      and "vr_productBinding r = pi_productBinding inputs"
      by (auto simp: createReceipt_Inr unsigned_receipt_def)
    with v None Verified show ?thesis
      by (simp add: postVerify_def verification_event_def bus_names)
  qed
qed

end
