(* ===== verification/JsonSchemas.thy ===== *)
theory JsonSchemas
  imports Verifier Complex_Main
begin

text \<open>
  The JSON schemas of \<open>packages/schemas\<close>: the six schema files as data, what the keywords they use
  say of a JSON value, and the helpers of \<open>src/index.ts\<close> over the compiled validators. Compiling is
  Ajv's: a validator is an argument, and \<open>compiled\<close> states what Ajv documents, that it accepts
  exactly the values that meet the keywords. Which texts are UUIDs and dates is left to
  ajv-formats, the argument \<open>F\<close>.

  The lemmas show that a body the route lets through is a \<open>ProofPackage\<close>, with all the fields the
  verifier reads and hashes the backend can write down, and that the receipts and events the gateway
  hands out meet their own schemas.
\<close>

section \<open>JSON\<close>

text \<open>A number is the value of a finite double; an object has each key once.\<close>

datatype json =
    JsonNull
  | JsonBool bool
  | JsonNumber rat
  | JsonText string
  | JsonArray "json list"
  | JsonObject "(string \<times> json) list"

definition json_field :: "json \<Rightarrow> string \<Rightarrow> json option" where
  "json_field j name = (case j of JsonObject members \<Rightarrow> map_of members name | _ \<Rightarrow> None)"

definition integral :: "rat \<Rightarrow> bool" where
  "integral r = (of_int \<lfloor>r\<rfloor> = r)"

section \<open>Keywords\<close>

text \<open>
  The keywords of the schema files. \<open>LowerHex n\<close> is \<open>"pattern": "^[a-f0-9]{n}$"\<close>, without a length
  \<open>"^[a-f0-9]+$"\<close>. Annotations (title, description, default) say nothing of a value, and
  \<open>additionalProperties\<close> is only ever true.
\<close>

datatype keyword =
    HasType string
  | Required "string list"
  | Properties "(string \<times> keyword list) list"
  | Items "keyword list"
  | Enum "string list"
  | Const string
  | LowerHex "nat option"
  | Format string
  | Minimum rat
  | Maximum rat
  | OneOf "keyword list list"

type_synonym formats = "string \<Rightarrow> string \<Rightarrow> bool"

definition has_type :: "string \<Rightarrow> json \<Rightarrow> bool" where
  "has_type t j =
     (case j of
        JsonNull \<Rightarrow> t = ''null''
      | JsonBool b \<Rightarrow> t = ''boolean''
      | JsonNumber r \<Rightarrow> t = ''number'' \<or> t = ''integer'' \<and> integral r
      | JsonText s \<Rightarrow> t = ''string''
      | JsonArray js \<Rightarrow> t = ''array''
      | JsonObject members \<Rightarrow> t = ''object'')"

definition on_text :: "(string \<Rightarrow> bool) \<Rightarrow> json \<Rightarrow> bool" where
  "on_text p j = (case j of JsonText s \<Rightarrow> p s | _ \<Rightarrow> True)"

definition on_number :: "(rat \<Rightarrow> bool) \<Rightarrow> json \<Rightarrow> bool" where
  "on_number p j = (case j of JsonNumber r \<Rightarrow> p r | _ \<Rightarrow> True)"

definition lower_hex :: "nat option \<Rightarrow> string \<Rightarrow> bool" where
  "lower_hex n s = (is_lower_hex s \<and> (case n of None \<Rightarrow> s \<noteq> [] | Some n \<Rightarrow> length s = n))"

primrec meets :: "formats \<Rightarrow> keyword \<Rightarrow> json \<Rightarrow> bool" where
  "meets F (HasType t) = has_type t"
| "meets F (Required names) = (\<lambda>j. case j of JsonObject members \<Rightarrow> list_all (\<lambda>n. map_of members n \<noteq> None) names | _ \<Rightarrow> True)"
| "meets F (Properties ps) = (\<lambda>j. list_all (\<lambda>(name, tests).
     case json_field j name of None \<Rightarrow> True | Some v \<Rightarrow> list_all (\<lambda>test. test v) tests)
     (map (map_prod id (map (meets F))) ps))"
| "meets F (Items ks) = (\<lambda>j. case j of JsonArray js \<Rightarrow>
     list_all (\<lambda>v. list_all (\<lambda>test. test v) (map (meets F) ks)) js | _ \<Rightarrow> True)"
| "meets F (Enum values) = (\<lambda>j. case j of JsonText s \<Rightarrow> s \<in> set values | _ \<Rightarrow> False)"
| "meets F (Const c) = (\<lambda>j. j = JsonText c)"
| "meets F (LowerHex n) = on_text (lower_hex n)"
| "meets F (Format f) = on_text (F f)"
| "meets F (Minimum m) = on_number (\<lambda>r. m \<le> r)"
| "meets F (Maximum m) = on_number (\<lambda>r. r \<le> m)"
| "meets F (OneOf kss) = (\<lambda>j. length (filter (\<lambda>tests. list_all (\<lambda>test. test j) tests) (map (map (meets F)) kss)) = 1)"

text \<open>A schema is a list of keywords, all of which a value has to meet.\<close>

type_synonym schema = "keyword list"

definition conforms :: "formats \<Rightarrow> schema \<Rightarrow> json \<Rightarrow> bool" where
  "conforms F schema j = list_all (\<lambda>k. meets F k j) schema"

lemma conforms_simps [simp]:
  "conforms F [] j"
  "conforms F (k # ks) j \<longleftrightarrow> meets F k j \<and> conforms F ks j"
  by (simp_all add: conforms_def)

lemma meets_structure [simp]:
  "meets F (Properties ps) j \<longleftrightarrow>
     (\<forall>(name, ks) \<in> set ps. case json_field j name of None \<Rightarrow> True | Some v \<Rightarrow> conforms F ks v)"
  "meets F (Items ks) (JsonArray js) \<longleftrightarrow> (\<forall>v \<in> set js. conforms F ks v)"
  by (fastforce simp: conforms_def list_all_iff split: option.splits)+

declare meets.simps(3,4) [simp del]

section \<open>The schema files\<close>

abbreviation text_schema :: schema where
  "text_schema \<equiv> [HasType ''string'']"

abbreviation hash_schema :: schema where
  "hash_schema \<equiv> [HasType ''string'', LowerHex (Some 64)]"

abbreviation formatted :: "string \<Rightarrow> schema" where
  "formatted f \<equiv> [HasType ''string'', Format f]"

definition predicateIdSchema :: schema where
  "predicateIdSchema = [HasType ''object'', Required [''name'', ''version''],
     Properties [(''name'', text_schema), (''version'', text_schema)]]"

definition publicInputsSchema :: schema where
  "publicInputsSchema = [HasType ''object'',
     Required [''commitmentRoot'', ''productBinding'', ''requesterBinding''],
     Properties [(''threshold'', [HasType ''integer'']), (''commitmentRoot'', hash_schema),
       (''productBinding'', hash_schema), (''requesterBinding'', hash_schema),
       (''timestamp'', [HasType ''integer'']), (''extra'', [HasType ''object''])]]"

definition contextSchema :: schema where
  "contextSchema = [HasType ''object'',
     Properties [(''supplierId'', text_schema), (''requesterId'', text_schema), (''productId'', text_schema)]]"

definition usageTermsSchema :: schema where
  "usageTermsSchema = [HasType ''object'',
     Properties [(''allowedPurposes'', [HasType ''array'', Items text_schema]),
       (''expiresAt'', formatted ''date-time''), (''retentionPolicy'', text_schema)]]"

definition proofPackageSchema :: schema where
  "proofPackageSchema = [HasType ''object'',
     Required [''predicateId'', ''proof'', ''publicInputs'', ''nonce'', ''generatedAt''],
     Properties [(''predicateId'', predicateIdSchema),
       (''proof'', [HasType ''string'', LowerHex None]),
       (''publicInputs'', publicInputsSchema), (''nonce'', text_schema),
       (''generatedAt'', [HasType ''integer'']), (''supplierSignature'', text_schema),
       (''context'', contextSchema), (''usageTerms'', usageTermsSchema)]]"

definition receiptSchema :: schema where
  "receiptSchema = [HasType ''object'',
     Required [''id'', ''predicateId'', ''result'', ''verifiedAt'', ''gatewaySignature''],
     Properties [(''id'', formatted ''uuid''), (''predicateId'', predicateIdSchema),
       (''result'', [HasType ''boolean'']), (''commitmentRoot'', hash_schema),
       (''productBinding'', hash_schema), (''requesterBinding'', hash_schema),
       (''supplierId'', text_schema), (''requesterId'', text_schema), (''nonce'', text_schema),
       (''verifiedAt'', formatted ''date-time''), (''expiresAt'', formatted ''date-time''),
       (''gatewayId'', text_schema), (''gatewaySignature'', text_schema), (''error'', text_schema)]]"

definition payloadSchema :: schema where
  "payloadSchema = [HasType ''object'',
     Required [''receiptId'', ''predicateId'', ''supplierId'', ''requesterId'', ''result''],
     Properties [(''receiptId'', formatted ''uuid''),
       (''predicateId'', [HasType ''object'', Properties [(''name'', text_schema), (''version'', text_schema)]]),
       (''supplierId'', text_schema), (''requesterId'', text_schema), (''productBinding'', text_schema),
       (''result'', [HasType ''boolean'']), (''commitmentRoot'', text_schema)]]"

definition verificationEventSchema :: schema where
  "verificationEventSchema = [HasType ''object'',
     Required [''eventId'', ''eventType'', ''timestamp'', ''payload''],
     Properties [(''eventId'', formatted ''uuid''),
       (''eventType'', [HasType ''string'', Const ''proofs.verified'']),
       (''timestamp'', formatted ''date-time''),
       (''payload'', payloadSchema),
       (''metadata'', [HasType ''object'', Properties [(''gatewayId'', text_schema),
         (''correlationId'', text_schema), (''traceId'', text_schema)]])]]"

definition commitmentSchema :: schema where
  "commitmentSchema = [HasType ''object'',
     Required [''id'', ''supplierId'', ''root'', ''claimCount'', ''signature'', ''createdAt''],
     Properties [(''id'', formatted ''uuid''), (''supplierId'', text_schema), (''root'', hash_schema),
       (''claimCount'', [HasType ''integer'', Minimum 1]),
       (''claimIds'', [HasType ''array'', Items (formatted ''uuid'')]), (''publicKey'', hash_schema),
       (''signature'', [HasType ''string'', LowerHex (Some 128)]),
       (''validFrom'', formatted ''date-time''), (''validUntil'', formatted ''date-time''),
       (''revoked'', [HasType ''boolean'']), (''revokedAt'', formatted ''date-time''),
       (''revokedReason'', text_schema), (''metadata'', [HasType ''object'']),
       (''createdAt'', formatted ''date-time'')]]"

definition claim_types :: "string list" where
  "claim_types = [''recycled_content'', ''carbon_footprint'', ''certification'', ''substance_content'',
     ''battery_capacity'', ''battery_chemistry'', ''cobalt_origin_country'', ''due_diligence_cert'',
     ''energy_density'', ''state_of_health'', ''recycling_efficiency'', ''carbon_footprint_lifecycle'',
     ''origin'', ''manufacturing_date'']"

definition claimSchema :: schema where
  "claimSchema = [HasType ''object'',
     Required [''id'', ''type'', ''value'', ''unit'', ''productId'', ''supplierId'', ''createdAt''],
     Properties [(''id'', formatted ''uuid''), (''type'', [HasType ''string'', Enum claim_types]),
       (''value'', [OneOf [[HasType ''number''], [HasType ''string''], [HasType ''boolean''], [HasType ''object'']]]),
       (''unit'', text_schema), (''productId'', text_schema), (''supplierId'', text_schema),
       (''evidenceIds'', [HasType ''array'', Items (formatted ''uuid'')]),
       (''confidence'', [HasType ''number'', Minimum 0, Maximum 1]), (''verified'', [HasType ''boolean'']),
       (''metadata'', [HasType ''object'']), (''createdAt'', formatted ''date-time''),
       (''updatedAt'', formatted ''date-time'')]]"

definition evidence_types :: "string list" where
  "evidence_types = [''certificate'', ''test_report'', ''bill_of_materials'', ''manufacturing_record'',
     ''supplier_declaration'', ''audit_report'', ''other'']"

definition issuer_types :: "string list" where
  "issuer_types = [''certification_body'', ''laboratory'', ''supplier'', ''authority'', ''other'']"

definition evidenceSchema :: schema where
  "evidenceSchema = [HasType ''object'', Required [''id'', ''type'', ''supplierId'', ''contentHash'', ''createdAt''],
     Properties [(''id'', formatted ''uuid''), (''type'', [HasType ''string'', Enum evidence_types]),
       (''supplierId'', text_schema), (''originalFilename'', text_schema), (''mimeType'', text_schema),
       (''contentHash'', hash_schema), (''extractedText'', text_schema),
       (''issuer'', [HasType ''object'', Properties [(''name'', text_schema), (''identifier'', text_schema),
         (''type'', [HasType ''string'', Enum issuer_types])]]),
       (''validFrom'', formatted ''date-time''), (''validUntil'', formatted ''date-time''),
       (''metadata'', [HasType ''object'']), (''createdAt'', formatted ''date-time'')]]"

section \<open>Validators\<close>

text \<open>A validator accepts a value or keeps its errors.\<close>

record ValidationError =
  sv_instancePath :: string
  sv_message :: string

type_synonym validator = "json \<Rightarrow> ValidationError list option"

record Validators =
  validateClaim :: validator
  validateEvidence :: validator
  validateCommitment :: validator
  validateProofPackage :: validator
  validateReceipt :: validator
  validateVerificationEvent :: validator

definition compiled :: "formats \<Rightarrow> schema \<Rightarrow> validator \<Rightarrow> bool" where
  "compiled F schema validate \<longleftrightarrow> (\<forall>j. validate j = None \<longleftrightarrow> conforms F schema j)"

definition assertValid :: "validator \<Rightarrow> json \<Rightarrow> string \<Rightarrow> thrown + unit" where
  "assertValid validator data schemaName =
     (case validator data of
        None \<Rightarrow> Inr ()
      | Some errors \<Rightarrow> Inl (ThrownError ''Error'' (''Invalid '' @ schemaName @ '': '' @
          js_join '', '' (map (\<lambda>e. sv_instancePath e @ '' '' @ sv_message e) errors))))"

definition isClaim :: "Validators \<Rightarrow> json \<Rightarrow> bool" where
  "isClaim vs data = (validateClaim vs data = None)"

definition isEvidence :: "Validators \<Rightarrow> json \<Rightarrow> bool" where
  "isEvidence vs data = (validateEvidence vs data = None)"

definition isCommitment :: "Validators \<Rightarrow> json \<Rightarrow> bool" where
  "isCommitment vs data = (validateCommitment vs data = None)"

definition isProofPackage :: "Validators \<Rightarrow> json \<Rightarrow> bool" where
  "isProofPackage vs data = (validateProofPackage vs data = None)"

definition isVerificationReceipt :: "Validators \<Rightarrow> json \<Rightarrow> bool" where
  "isVerificationReceipt vs data = (validateReceipt vs data = None)"

definition isVerificationEvent :: "Validators \<Rightarrow> json \<Rightarrow> bool" where
  "isVerificationEvent vs data = (validateVerificationEvent vs data = None)"

lemma assertValid_iff: "assertValid validator data schemaName = Inr () \<longleftrightarrow> validator data = None"
  by (simp add: assertValid_def split: option.split)

section \<open>A body as a package\<close>

text \<open>
  Reading the fields that the type \<open>ProofPackage\<close> declares; \<^const>\<open>None\<close> when a value does not have
  that type. \<open>T\<close> is \<open>String(...)\<close> of a value of an open object.
\<close>

definition text_of_json :: "json \<Rightarrow> string option" where
  "text_of_json j = (case j of JsonText s \<Rightarrow> Some s | _ \<Rightarrow> None)"

definition int_of_json :: "json \<Rightarrow> int option" where
  "int_of_json j = (case j of JsonNumber r \<Rightarrow> if integral r then Some \<lfloor>r\<rfloor> else None | _ \<Rightarrow> None)"

definition value_of :: "(json \<Rightarrow> string) \<Rightarrow> json \<Rightarrow> json_value" where
  "value_of T j =
     (case j of
        JsonText s \<Rightarrow> JStr s
      | JsonBool b \<Rightarrow> JBool b
      | JsonNull \<Rightarrow> JNull
      | JsonNumber r \<Rightarrow> if integral r then JNum \<lfloor>r\<rfloor> else JOther (T j)
      | _ \<Rightarrow> JOther (T j))"

definition read_open :: "(json \<Rightarrow> string) \<Rightarrow> json \<Rightarrow> (string \<times> json_value) list option" where
  "read_open T j = (case j of JsonObject members \<Rightarrow> Some (map (map_prod id (value_of T)) members) | _ \<Rightarrow> None)"

definition read_texts :: "json \<Rightarrow> string list option" where
  "read_texts j = (case j of JsonArray js \<Rightarrow> those (map text_of_json js) | _ \<Rightarrow> None)"

definition required :: "(json \<Rightarrow> 'a option) \<Rightarrow> string \<Rightarrow> json \<Rightarrow> 'a option" where
  "required read name j = Option.bind (json_field j name) read"

definition optional :: "(json \<Rightarrow> 'a option) \<Rightarrow> string \<Rightarrow> json \<Rightarrow> 'a option option" where
  "optional read name j = (case json_field j name of None \<Rightarrow> Some None | Some v \<Rightarrow> map_option Some (read v))"

definition read_predicateId :: "json \<Rightarrow> PredicateId option" where
  "read_predicateId j =
     Option.bind (required text_of_json ''name'' j) (\<lambda>name.
     Option.bind (required text_of_json ''version'' j) (\<lambda>version.
       Some \<lparr>pid_name = name, pid_version = version\<rparr>))"

definition read_publicInputs :: "(json \<Rightarrow> string) \<Rightarrow> json \<Rightarrow> PublicInputs option" where
  "read_publicInputs T j =
     Option.bind (optional int_of_json ''threshold'' j) (\<lambda>threshold.
     Option.bind (required text_of_json ''commitmentRoot'' j) (\<lambda>commitmentRoot.
     Option.bind (required text_of_json ''productBinding'' j) (\<lambda>productBinding.
     Option.bind (required text_of_json ''requesterBinding'' j) (\<lambda>requesterBinding.
     Option.bind (optional int_of_json ''timestamp'' j) (\<lambda>timestamp.
     Option.bind (optional (read_open T) ''extra'' j) (\<lambda>extra.
       Some \<lparr>pi_threshold = threshold, pi_commitmentRoot = commitmentRoot, pi_productBinding = productBinding,
         pi_requesterBinding = requesterBinding, pi_timestamp = timestamp, pi_extra = extra\<rparr>))))))"

definition read_context :: "json \<Rightarrow> PackageContext option" where
  "read_context j =
     Option.bind (optional text_of_json ''supplierId'' j) (\<lambda>supplierId.
     Option.bind (optional text_of_json ''requesterId'' j) (\<lambda>requesterId.
     Option.bind (optional text_of_json ''productId'' j) (\<lambda>productId.
       Some \<lparr>ctx_supplierId = supplierId, ctx_requesterId = requesterId, ctx_productId = productId\<rparr>)))"

definition read_usageTerms :: "json \<Rightarrow> UsageTerms option" where
  "read_usageTerms j =
     Option.bind (optional read_texts ''allowedPurposes'' j) (\<lambda>allowedPurposes.
     Option.bind (optional text_of_json ''expiresAt'' j) (\<lambda>expiresAt.
     Option.bind (optional text_of_json ''retentionPolicy'' j) (\<lambda>retentionPolicy.
       Some \<lparr>ut_allowedPurposes = allowedPurposes, ut_expiresAt = expiresAt, ut_retentionPolicy = retentionPolicy\<rparr>)))"

definition read_package :: "(json \<Rightarrow> string) \<Rightarrow> json \<Rightarrow> ProofPackage option" where
  "read_package T j =
     Option.bind (required read_predicateId ''predicateId'' j) (\<lambda>predicateId.
     Option.bind (required text_of_json ''proof'' j) (\<lambda>proof.
     Option.bind (required (read_publicInputs T) ''publicInputs'' j) (\<lambda>publicInputs.
     Option.bind (required text_of_json ''nonce'' j) (\<lambda>nonce.
     Option.bind (required int_of_json ''generatedAt'' j) (\<lambda>generatedAt.
     Option.bind (optional read_context ''context'' j) (\<lambda>context.
     Option.bind (optional text_of_json ''supplierSignature'' j) (\<lambda>supplierSignature.
     Option.bind (optional read_usageTerms ''usageTerms'' j) (\<lambda>usageTerms.
       Some \<lparr>pp_predicateId = Some predicateId, pp_proof = proof, pp_publicInputs = Some publicInputs,
         pp_nonce = nonce, pp_generatedAt = generatedAt, pp_context = context,
         pp_supplierSignature = supplierSignature, pp_usageTerms = usageTerms\<rparr>))))))))"

section \<open>What a schema gives its reader\<close>

lemma has_type_iff:
  "has_type ''string'' j \<longleftrightarrow> (\<exists>s. j = JsonText s)"
  "has_type ''boolean'' j \<longleftrightarrow> (\<exists>b. j = JsonBool b)"
  "has_type ''integer'' j \<longleftrightarrow> (\<exists>r. j = JsonNumber r \<and> integral r)"
  "has_type ''array'' j \<longleftrightarrow> (\<exists>js. j = JsonArray js)"
  "has_type ''object'' j \<longleftrightarrow> (\<exists>members. j = JsonObject members)"
  by (cases j; simp add: has_type_def)+

lemma required_member:
  assumes "conforms F [HasType ''object'', Required names, Properties ps] j"
    and "\<And>v. conforms F ks v \<Longrightarrow> \<exists>x. read v = Some x \<and> P x"
    and "n \<in> set names" and "(n, ks) \<in> set ps"
  shows "\<exists>x. required read n j = Some x \<and> P x"
proof -
  obtain v where v: "json_field j n = Some v"
    using assms(1,3) by (fastforce simp: has_type_iff json_field_def list_all_iff)
  then have "conforms F ks v"
    using assms(1,4) by force
  with assms(2) v show ?thesis
    by (simp add: required_def)
qed

lemma required_text:
  assumes "conforms F [HasType ''object'', Required names, Properties ps] j"
    and "\<And>v. conforms F ks v \<Longrightarrow> \<exists>x. read v = Some x" and "n \<in> set names" and "(n, ks) \<in> set ps"
  shows "\<exists>x. required read n j = Some x"
  using required_member [OF assms(1) _ assms(3,4), of read "\<lambda>_. True"] assms(2) by simp

lemma conforms_Properties:
  "conforms F [HasType t, Required names, Properties ps] j \<Longrightarrow> meets F (Properties ps) j"
  "conforms F [HasType t, Properties ps] j \<Longrightarrow> meets F (Properties ps) j"
  by (simp_all del: meets_structure)

lemma optional_member:
  assumes "meets F (Properties ps) j" and "\<And>v. conforms F ks v \<Longrightarrow> \<exists>x. read v = Some x"
    and "(n, ks) \<in> set ps"
  shows "\<exists>x. optional read n j = Some x"
proof (cases "json_field j n")
  case None
  then show ?thesis by (simp add: optional_def)
next
  case (Some v)
  then have "conforms F ks v"
    using assms(1,3) by force
  with assms(2) Some show ?thesis
    by (auto simp: optional_def)
qed

lemma text_read: "conforms F text_schema v \<Longrightarrow> \<exists>s. text_of_json v = Some s"
  by (auto simp: has_type_iff text_of_json_def)

lemma hash_read: "conforms F hash_schema v \<Longrightarrow> \<exists>s. text_of_json v = Some s \<and> is_hash32 s"
  by (auto simp: has_type_iff text_of_json_def on_text_def lower_hex_def is_hash32_def)

lemma int_read: "conforms F [HasType ''integer''] v \<Longrightarrow> \<exists>n. int_of_json v = Some n"
  by (auto simp: has_type_iff int_of_json_def)

lemma formatted_read: "conforms F (formatted f) v \<Longrightarrow> \<exists>s. text_of_json v = Some s"
  by (auto simp: has_type_iff text_of_json_def)

lemma open_read: "conforms F [HasType ''object''] v \<Longrightarrow> \<exists>x. read_open T v = Some x"
  by (auto simp: has_type_iff read_open_def)

lemma texts_read:
  assumes "conforms F [HasType ''array'', Items text_schema] v"
  shows "\<exists>x. read_texts v = Some x"
proof -
  obtain js where v: "v = JsonArray js"
    using assms by (auto simp: has_type_iff)
  have "\<exists>ss. those (map text_of_json js) = Some ss" if "\<forall>v \<in> set js. conforms F text_schema v"
    using that by (induction js) (auto simp: has_type_iff text_of_json_def)
  then show ?thesis
    using assms by (simp add: v read_texts_def)
qed

lemma proof_read: "conforms F [HasType ''string'', LowerHex None] v \<Longrightarrow> \<exists>s. text_of_json v = Some s \<and> lower_hex None s"
  by (auto simp: has_type_iff text_of_json_def on_text_def)

lemma predicateId_read:
  assumes "conforms F predicateIdSchema v"
  shows "\<exists>pid. read_predicateId v = Some pid"
proof -
  note m = assms [unfolded predicateIdSchema_def]
  have "\<exists>x. required text_of_json ''name'' v = Some x"
    by (rule required_text [OF m text_read]) (assumption | simp)+
  moreover have "\<exists>x. required text_of_json ''version'' v = Some x"
    by (rule required_text [OF m text_read]) (assumption | simp)+
  ultimately show ?thesis
    by (auto simp: read_predicateId_def)
qed

lemma publicInputs_read:
  assumes "conforms F publicInputsSchema v"
  shows "\<exists>i. read_publicInputs T v = Some i \<and> is_hash32 (pi_commitmentRoot i) \<and>
    is_hash32 (pi_productBinding i) \<and> is_hash32 (pi_requesterBinding i)"
proof -
  note m = assms [unfolded publicInputsSchema_def]
  note p = conforms_Properties(1) [OF m]
  have "\<exists>x. required text_of_json ''commitmentRoot'' v = Some x \<and> is_hash32 x"
    by (rule required_member [OF m hash_read]) (assumption | simp)+
  moreover have "\<exists>x. required text_of_json ''productBinding'' v = Some x \<and> is_hash32 x"
    by (rule required_member [OF m hash_read]) (assumption | simp)+
  moreover have "\<exists>x. required text_of_json ''requesterBinding'' v = Some x \<and> is_hash32 x"
    by (rule required_member [OF m hash_read]) (assumption | simp)+
  moreover have "\<exists>x. optional int_of_json ''threshold'' v = Some x"
    by (rule optional_member [OF p int_read]) (assumption | simp)+
  moreover have "\<exists>x. optional int_of_json ''timestamp'' v = Some x"
    by (rule optional_member [OF p int_read]) (assumption | simp)+
  moreover have "\<exists>x. optional (read_open T) ''extra'' v = Some x"
    by (rule optional_member [OF p open_read]) (assumption | simp)+
  ultimately show ?thesis
    by (auto simp: read_publicInputs_def)
qed

lemma context_read:
  assumes "conforms F contextSchema v"
  shows "\<exists>c. read_context v = Some c"
proof -
  have "\<exists>x. optional text_of_json n v = Some x" if "n \<in> {''supplierId'', ''requesterId'', ''productId''}" for n
    by (rule optional_member [OF conforms_Properties(2) [OF assms [unfolded contextSchema_def]] text_read])
      (assumption, use that in auto)
  from this [of "''supplierId''"] this [of "''requesterId''"] this [of "''productId''"] show ?thesis
    by (auto simp: read_context_def)
qed

lemma usageTerms_read:
  assumes "conforms F usageTermsSchema v"
  shows "\<exists>u. read_usageTerms v = Some u"
proof -
  note p = conforms_Properties(2) [OF assms [unfolded usageTermsSchema_def]]
  have "\<exists>x. optional read_texts ''allowedPurposes'' v = Some x"
    by (rule optional_member [OF p texts_read]) (assumption | simp)+
  moreover have "\<exists>x. optional text_of_json ''expiresAt'' v = Some x"
    by (rule optional_member [OF p formatted_read]) (assumption | simp)+
  moreover have "\<exists>x. optional text_of_json ''retentionPolicy'' v = Some x"
    by (rule optional_member [OF p text_read]) (assumption | simp)+
  ultimately show ?thesis
    by (auto simp: read_usageTerms_def)
qed

lemma package_read:
  assumes "conforms F proofPackageSchema j"
  shows "\<exists>pkg pid inputs. read_package T j = Some pkg \<and> pp_predicateId pkg = Some pid \<and>
    pp_publicInputs pkg = Some inputs \<and> lower_hex None (pp_proof pkg) \<and> is_hash32 (pi_commitmentRoot inputs) \<and>
    is_hash32 (pi_productBinding inputs) \<and> is_hash32 (pi_requesterBinding inputs)"
proof -
  note m = assms [unfolded proofPackageSchema_def]
  note p = conforms_Properties(1) [OF m]
  have "\<exists>x. required read_predicateId ''predicateId'' j = Some x"
    by (rule required_text [OF m predicateId_read]) (assumption | simp)+
  moreover have "\<exists>x. required text_of_json ''proof'' j = Some x \<and> lower_hex None x"
    by (rule required_member [OF m proof_read]) (assumption | simp)+
  moreover have "\<exists>i. required (read_publicInputs T) ''publicInputs'' j = Some i \<and> is_hash32 (pi_commitmentRoot i) \<and>
      is_hash32 (pi_productBinding i) \<and> is_hash32 (pi_requesterBinding i)"
    by (rule required_member [OF m publicInputs_read]) (assumption | simp)+
  moreover have "\<exists>x. required text_of_json ''nonce'' j = Some x"
    by (rule required_text [OF m text_read]) (assumption | simp)+
  moreover have "\<exists>x. required int_of_json ''generatedAt'' j = Some x"
    by (rule required_text [OF m int_read]) (assumption | simp)+
  moreover have "\<exists>x. optional read_context ''context'' j = Some x"
    by (rule optional_member [OF p context_read]) (assumption | simp)+
  moreover have "\<exists>x. optional text_of_json ''supplierSignature'' j = Some x"
    by (rule optional_member [OF p text_read]) (assumption | simp)+
  moreover have "\<exists>x. optional read_usageTerms ''usageTerms'' j = Some x"
    by (rule optional_member [OF p usageTerms_read]) (assumption | simp)+
  ultimately show ?thesis
    by (auto simp: read_package_def)
qed

section \<open>What the gateway writes\<close>

text \<open>An undefined field is left out of the text; \<open>toISO\<close> renders an instant.\<close>

definition member_if :: "string \<Rightarrow> string option \<Rightarrow> (string \<times> json) list" where
  "member_if name v = (case v of None \<Rightarrow> [] | Some x \<Rightarrow> [(name, JsonText x)])"

definition json_of_predicateId :: "PredicateId \<Rightarrow> json" where
  "json_of_predicateId pid = JsonObject [(''name'', JsonText (pid_name pid)), (''version'', JsonText (pid_version pid))]"

definition json_of_receipt :: "(time_ms \<Rightarrow> string) \<Rightarrow> VerificationReceipt \<Rightarrow> json" where
  "json_of_receipt toISO r = JsonObject
     ([(''id'', JsonText (vr_id r)), (''predicateId'', json_of_predicateId (vr_predicateId r)),
       (''result'', JsonBool (vr_result r)), (''commitmentRoot'', JsonText (vr_commitmentRoot r)),
       (''productBinding'', JsonText (vr_productBinding r)), (''requesterBinding'', JsonText (vr_requesterBinding r))]
      @ member_if ''supplierId'' (vr_supplierId r) @ member_if ''requesterId'' (vr_requesterId r) @
      [(''nonce'', JsonText (vr_nonce r)), (''verifiedAt'', JsonText (toISO (vr_verifiedAt r))),
       (''gatewayId'', JsonText (vr_gatewayId r)), (''gatewaySignature'', JsonText (vr_gatewaySignature r))])"

definition json_of_payload :: "VerificationPayload \<Rightarrow> json" where
  "json_of_payload p = JsonObject
     ([(''receiptId'', JsonText (pl_receiptId p)), (''predicateId'', json_of_predicateId (pl_predicateId p)),
       (''supplierId'', JsonText (pl_supplierId p)), (''requesterId'', JsonText (pl_requesterId p))]
      @ member_if ''productBinding'' (pl_productBinding p) @ [(''result'', JsonBool (pl_result p))]
      @ member_if ''commitmentRoot'' (pl_commitmentRoot p))"

definition json_of_event :: "(time_ms \<Rightarrow> string) \<Rightarrow> VerificationEvent \<Rightarrow> json" where
  "json_of_event toISO e = JsonObject
     [(''eventId'', JsonText (ev_eventId e)), (''eventType'', JsonText (ev_eventType e)),
      (''timestamp'', JsonText (toISO (ev_timestamp e))), (''payload'', json_of_payload (ev_payload e)),
      (''metadata'', JsonObject (member_if ''gatewayId'' (ev_gatewayId e)))]"

lemma map_of_member_if [simp]:
  "map_of (member_if name v) n = (if n = name then map_option JsonText v else None)"
  by (auto simp: member_if_def split: option.splits)

lemma field_of_object [simp]: "json_field (JsonObject members) n = map_of members n"
  by (simp add: json_field_def)

lemma conforms_written [simp]:
  "conforms F text_schema (JsonText s)"
  "conforms F hash_schema (JsonText s) \<longleftrightarrow> is_hash32 s"
  "conforms F (formatted f) (JsonText s) \<longleftrightarrow> F f s"
  "conforms F [HasType ''boolean''] (JsonBool b)"
  by (auto simp: has_type_iff on_text_def lower_hex_def is_hash32_def)

lemma json_field_Cons [simp]:
  "json_field (JsonObject ((k, v) # members)) n = (if n = k then Some v else json_field (JsonObject members) n)"
  by (simp add: json_field_def)

text \<open>A schema of an object is met member by member.\<close>

lemma conforms_object:
  "conforms F [HasType ''object'', Required names, Properties ps] (JsonObject members) \<longleftrightarrow>
     (\<forall>n \<in> set names. map_of members n \<noteq> None) \<and>
     (\<forall>(n, ks) \<in> set ps. \<forall>v. map_of members n = Some v \<longrightarrow> conforms F ks v)"
  "conforms F [HasType ''object'', Properties ps] (JsonObject members) \<longleftrightarrow>
     (\<forall>(n, ks) \<in> set ps. \<forall>v. map_of members n = Some v \<longrightarrow> conforms F ks v)"
  by (auto simp: has_type_iff list_all_iff split: option.splits)

lemma predicateId_meets: "conforms F predicateIdSchema (json_of_predicateId pid)"
  unfolding predicateIdSchema_def json_of_predicateId_def conforms_object by (simp del: conforms_simps)

lemma receipt_meets:
  assumes "is_hash32 (vr_commitmentRoot r)" and "is_hash32 (vr_productBinding r)" and "is_hash32 (vr_requesterBinding r)"
    and "F ''uuid'' (vr_id r)" and "F ''date-time'' (toISO (vr_verifiedAt r))"
  shows "conforms F receiptSchema (json_of_receipt toISO r)"
  unfolding receiptSchema_def json_of_receipt_def conforms_object
  using assms predicateId_meets by (auto simp: map_add_def simp del: conforms_simps split: option.splits if_splits)

lemma payload_predicateId_meets:
  "conforms F [HasType ''object'', Properties [(''name'', text_schema), (''version'', text_schema)]] (json_of_predicateId pid)"
  unfolding json_of_predicateId_def conforms_object by (simp del: conforms_simps)

lemma payload_meets:
  assumes "F ''uuid'' (pl_receiptId p)"
  shows "conforms F payloadSchema (json_of_payload p)"
  unfolding payloadSchema_def json_of_payload_def conforms_object
  using assms payload_predicateId_meets
  by (auto simp: map_add_def simp del: conforms_simps split: option.splits if_splits)

lemma metadata_meets:
  "conforms F [HasType ''object'', Properties [(''gatewayId'', text_schema), (''correlationId'', text_schema),
     (''traceId'', text_schema)]] (JsonObject (member_if ''gatewayId'' g))"
  unfolding conforms_object by (auto simp del: conforms_simps split: if_splits)

lemma event_meets:
  assumes "F ''uuid'' (ev_eventId e)" and "ev_eventType e = ''proofs.verified''"
    and "F ''date-time'' (toISO (ev_timestamp e))" and "F ''uuid'' (pl_receiptId (ev_payload e))"
  shows "conforms F verificationEventSchema (json_of_event toISO e)"
proof -
  have "conforms F [HasType ''string'', Const ''proofs.verified''] (JsonText (ev_eventType e))"
    using assms(2) by (simp add: has_type_iff)
  then show ?thesis
    unfolding verificationEventSchema_def json_of_event_def conforms_object
    using assms payload_meets [where F = F, OF assms(4)] metadata_meets
    by (auto simp del: conforms_simps split: if_splits)
qed

section \<open>Properties\<close>

text \<open>The errors the route reports.\<close>

definition schema_messages :: "Validators \<Rightarrow> json \<Rightarrow> string list option" where
  "schema_messages vs j = map_option (map sv_message) (validateProofPackage vs j)"

text \<open>C39: A body that the validator of \<open>proof-package.schema.json\<close> accepts is a \<open>ProofPackage\<close>: every field
  the type declares is read at its type, the proof is lower-case hex and the three hashes have 32
  bytes. Of the verifier's own checks of the structure only an empty name or version can still
  fail, and the backend can write down the inputs but for a missing timestamp of a certificate or a
  malformed hash of a list of substances, which the schema leaves open.\<close>

theorem validated_body_is_package:
  assumes "compiled F proofPackageSchema (validateProofPackage vs)" and "isProofPackage vs j"
  shows "\<exists>pkg pid inputs. read_package T j = Some pkg \<and> pp_predicateId pkg = Some pid \<and>
    pp_publicInputs pkg = Some inputs \<and> is_lower_hex (pp_proof pkg) \<and> is_hash32 (pi_commitmentRoot inputs) \<and>
    is_hash32 (pi_productBinding inputs) \<and> is_hash32 (pi_requesterBinding inputs) \<and>
    validatePackageStructure pkg =
      (if pid_name pid = [] \<or> pid_version pid = [] then Some ''Missing predicateId'' else None) \<and>
    (\<forall>p. pd_name p = ''CERT_VALID'' \<and> check_timestamp_text inputs = None \<or>
       (\<exists>h. forbidden_hash inputs = Some h \<and> \<not> is_hash32 h) \<or> (\<exists>toml. buildVerifierToml p inputs = Inr toml))"
proof -
  have "conforms F proofPackageSchema j"
    using assms by (simp add: compiled_def isProofPackage_def)
  from package_read [OF this, of T] obtain pkg pid inputs where pkg: "read_package T j = Some pkg"
      "pp_predicateId pkg = Some pid" "pp_publicInputs pkg = Some inputs" "lower_hex None (pp_proof pkg)"
    and hashes: "is_hash32 (pi_commitmentRoot inputs)" "is_hash32 (pi_productBinding inputs)"
      "is_hash32 (pi_requesterBinding inputs)"
    by blast
  moreover have "validatePackageStructure pkg =
      (if pid_name pid = [] \<or> pid_version pid = [] then Some ''Missing predicateId'' else None)"
    using pkg(2-4) hashes(1) by (auto simp: validatePackageStructure_def lower_hex_def is_hash32_def js_truthy_def)
  moreover have "pd_name p = ''CERT_VALID'' \<and> check_timestamp_text inputs = None \<or>
       (\<exists>h. forbidden_hash inputs = Some h \<and> \<not> is_hash32 h) \<or> (\<exists>toml. buildVerifierToml p inputs = Inr toml)" for p
  proof (cases "(pd_name p = ''CERT_VALID'' \<longrightarrow> check_timestamp_text inputs \<noteq> None) \<and>
      (\<forall>h. forbidden_hash inputs = Some h \<longrightarrow> is_hash32 h)")
    case True
    then obtain ls where "toml_lines p inputs = Inr ls"
      using toml_lines_succeed [OF hashes, of p] by auto
    then show ?thesis by (simp add: buildVerifierToml_def)
  qed auto
  ultimately show ?thesis
    by (auto simp: lower_hex_def)
qed

text \<open>C40: What the gateway gives out for a validated package meets its own schemas: the receipt
  \<open>receipt.schema.json\<close> and every event handed to the bus \<open>events/verification-event.schema.json\<close>, given
  that the identifiers drawn are UUIDs and instants are rendered as dates.\<close>

theorem answers_meet_schemas:
  assumes "compiled F proofPackageSchema (validateProofPackage vs)" and "read_package T j = Some pkg"
    and "postVerify cfg env (\<lambda>_. schema_messages vs j) hasBus eventId now pkg st = (resp, events, st')"
    and "F ''uuid'' (ve_uuid env)" and "F ''uuid'' eventId" and "\<And>t. F ''date-time'' (toISO t)"
  shows "(case resp_receipt resp of None \<Rightarrow> True | Some r \<Rightarrow> conforms F receiptSchema (json_of_receipt toISO r)) \<and>
    list_all (\<lambda>e. conforms F verificationEventSchema (json_of_event toISO e)) events"
proof (cases "\<exists>r. resp_receipt resp = Some r")
  case True
  then obtain r where r: "resp_receipt resp = Some r" and valid: "isProofPackage vs j"
    and v: "verify cfg env pkg st = (Verified r, st')"
    and events: "events = (case pp_publicInputs pkg of
       Some inputs \<Rightarrow> if hasBus then [verification_event eventId now pkg inputs r] else [] | None \<Rightarrow> [])"
    using assms(3)
    by (auto simp: postVerify_def schema_messages_def isProofPackage_def split: option.splits prod.splits VerifyResult.splits)
  obtain pid inputs where i: "pp_publicInputs pkg = Some inputs" "is_hash32 (pi_commitmentRoot inputs)"
      "is_hash32 (pi_productBinding inputs)" "is_hash32 (pi_requesterBinding inputs)"
    using package_read [of F j T] assms(1,2) valid by (auto simp: compiled_def isProofPackage_def)
  have "vr_commitmentRoot r = pi_commitmentRoot inputs" "vr_productBinding r = pi_productBinding inputs"
      "vr_requesterBinding r = pi_requesterBinding inputs"
    using receipt_states_package [OF v] i(1) by auto
  moreover have "vr_id r = ve_uuid env"
    using v by (auto simp: verify_Verified_iff createReceipt_Inr unsigned_receipt_def)
  ultimately have "conforms F receiptSchema (json_of_receipt toISO r)"
    using i assms(4,6) by (intro receipt_meets) simp_all
  moreover have "conforms F verificationEventSchema (json_of_event toISO (verification_event eventId now pkg inputs r))"
    using assms(4-6) \<open>vr_id r = ve_uuid env\<close> by (intro event_meets) (simp_all add: verification_event_def)
  ultimately show ?thesis
    by (simp add: r events i(1))
next
  case False
  then have "events = []"
    using assms(3) by (auto simp: postVerify_def split: option.splits prod.splits VerifyResult.splits)
  with False show ?thesis
    by (auto split: option.splits)
qed

section \<open>An example\<close>

definition demo_formats :: formats where
  "demo_formats f s = (s \<noteq> [])"

definition demo_validators :: Validators where
  "demo_validators =
     (let check = (\<lambda>schema j. if conforms demo_formats schema j then None
        else Some [\<lparr>sv_instancePath = [], sv_message = ''refused''\<rparr>])
      in \<lparr>validateClaim = check claimSchema, validateEvidence = check evidenceSchema,
          validateCommitment = check commitmentSchema, validateProofPackage = check proofPackageSchema,
          validateReceipt = check receiptSchema, validateVerificationEvent = check verificationEventSchema\<rparr>)"

definition demo_root :: string where
  "demo_root = replicate 64 CHR ''a''"

definition demo_body :: json where
  "demo_body = JsonObject
     [(''predicateId'', JsonObject [(''name'', JsonText ''CERT_VALID''), (''version'', JsonText ''V1'')]),
      (''proof'', JsonText ''00112233445566778899aabbccddeeff''),
      (''publicInputs'', JsonObject [(''commitmentRoot'', JsonText demo_root),
        (''productBinding'', JsonText demo_root), (''requesterBinding'', JsonText demo_root)]),
      (''nonce'', JsonText ''n-1''), (''generatedAt'', JsonNumber 5)]"

definition demo_read :: ProofPackage where
  "demo_read = (demo_pkg 5)\<lparr>pp_publicInputs := Some \<lparr>pi_threshold = None, pi_commitmentRoot = demo_root,
     pi_productBinding = demo_root, pi_requesterBinding = demo_root, pi_timestamp = None, pi_extra = None\<rparr>\<rparr>"

lemma demo_compiled:
  "compiled demo_formats proofPackageSchema (validateProofPackage demo_validators)"
  by (simp add: compiled_def demo_validators_def Let_def)

lemma demo_root_hash: "is_hash32 demo_root"
  by (simp add: is_hash32_def is_lower_hex_def demo_root_def list_all_iff)

lemma demo_inputs_meet:
  "conforms F publicInputsSchema (JsonObject [(''commitmentRoot'', JsonText demo_root),
     (''productBinding'', JsonText demo_root), (''requesterBinding'', JsonText demo_root)])"
  unfolding publicInputsSchema_def conforms_object using demo_root_hash by (simp del: conforms_simps)

lemma demo_body_accepted: "isProofPackage demo_validators demo_body"
proof -
  have "conforms F [HasType ''string'', LowerHex None] (JsonText ''00112233445566778899aabbccddeeff'')"
    "conforms F [HasType ''integer''] (JsonNumber 5)" for F
    by (simp_all add: has_type_iff on_text_def lower_hex_def is_lower_hex_def integral_def)
  then have "conforms demo_formats proofPackageSchema demo_body"
    unfolding proofPackageSchema_def demo_body_def conforms_object
    using demo_inputs_meet predicateId_meets [of _ "\<lparr>pid_name = ''CERT_VALID'', pid_version = ''V1''\<rparr>", unfolded json_of_predicateId_def]
    by (simp del: conforms_simps)
  then show ?thesis
    by (simp add: isProofPackage_def demo_validators_def Let_def)
qed

lemma demo_body_read: "read_package T demo_body = Some demo_read"
  by (simp add: read_package_def demo_body_def required_def optional_def read_predicateId_def read_publicInputs_def
      text_of_json_def int_of_json_def integral_def demo_read_def demo_pkg_def)

theorem validated_body_is_package_witness:
  "\<exists>pkg inputs. read_package (\<lambda>j. []) demo_body = Some pkg \<and> pp_publicInputs pkg = Some inputs \<and>
     is_hash32 (pi_commitmentRoot inputs) \<and> validatePackageStructure pkg = None"
  using validated_body_is_package [OF demo_compiled demo_body_accepted, of "\<lambda>j. []"]
  by (auto simp: demo_body_read demo_read_def demo_pkg_def)

lemma demo_read_accepted:
  "\<exists>r st'. verify demo_cfg (demo_env 5000) demo_read demo_state = (Verified r, st')"
proof -
  let ?pid = "\<lparr>pid_name = ''CERT_VALID'', pid_version = ''V1''\<rparr>" and ?i = "the (pp_publicInputs demo_read)"
  have "passes_guards demo_cfg (demo_env 5000) demo_read ?pid ?i"
    by (simp add: passes_guards_def demo_defs demo_read_def demo_root_def validatePackageStructure_def js_truthy_def
        canonicalId_def getPredicateById_def getPredicate_def js_lookup_def predicates_json_def createdAtMs_def)
  moreover have "\<exists>r. createReceipt demo_cfg (demo_env 5000) demo_read ?pid ?i = Inr r"
    by (simp add: createReceipt_Inr demo_defs)
  moreover have "pr_valid (fst (verifyZkProof demo_cfg (demo_env 5000) (pp_proof demo_read) i p fs))" for i p fs
    by (simp add: verifyZkProof_def demo_defs demo_read_def js_truthy_def)
  moreover have "stamp_of (gw_nonces demo_state) n = None" for n
    by (simp add: demo_defs stamp_of_def)
  ultimately show ?thesis
    unfolding verify_Verified_iff by blast
qed

theorem answers_meet_schemas_witness:
  "\<exists>resp events st' r. postVerify demo_cfg (demo_env 5000) (\<lambda>_. schema_messages demo_validators demo_body)
     True ''ev'' 5000 demo_read demo_state = (resp, events, st') \<and> resp_receipt resp = Some r \<and>
     length events = 1 \<and> conforms demo_formats receiptSchema (json_of_receipt (\<lambda>t. ''now'') r) \<and>
     list_all (\<lambda>e. conforms demo_formats verificationEventSchema (json_of_event (\<lambda>t. ''now'') e)) events"
proof -
  let ?post = "postVerify demo_cfg (demo_env 5000) (\<lambda>_. schema_messages demo_validators demo_body)
     True ''ev'' 5000 demo_read demo_state"
  obtain r st' where v: "verify demo_cfg (demo_env 5000) demo_read demo_state = (Verified r, st')"
    using demo_read_accepted by blast
  have accepted: "schema_messages demo_validators demo_body = None"
    using demo_body_accepted by (simp add: schema_messages_def isProofPackage_def)
  obtain i where i: "pp_publicInputs demo_read = Some i"
    by (simp add: demo_read_def)
  obtain resp events where post: "?post = (resp, events, st')" and "resp_receipt resp = Some r" "length events = 1"
    by (simp add: postVerify_def accepted v i)
  moreover have "(case resp_receipt resp of None \<Rightarrow> True
      | Some r \<Rightarrow> conforms demo_formats receiptSchema (json_of_receipt (\<lambda>t. ''now'') r)) \<and>
    list_all (\<lambda>e. conforms demo_formats verificationEventSchema (json_of_event (\<lambda>t. ''now'') e)) events"
    by (rule answers_meet_schemas [OF demo_compiled demo_body_read post])
      (simp_all add: demo_formats_def demo_env_def)
  ultimately show ?thesis
    by auto
qed

text \<open>The interface \<open>Claim\<close> lists eight types; the schema behind the guard \<open>isClaim\<close> admits fourteen.\<close>

definition claim_interface_types :: "string list" where
  "claim_interface_types = [''recycled_content'', ''carbon_footprint'', ''certification'', ''substance_content'',
     ''origin'', ''manufacturing_date'', ''battery_capacity'', ''battery_chemistry'']"

lemma guard_admits_more_types:
  "list_all (\<lambda>t. t \<in> set claim_types) claim_interface_types"
  "''cobalt_origin_country'' \<in> set claim_types \<and> ''cobalt_origin_country'' \<notin> set claim_interface_types"
  by (simp_all add: claim_interface_types_def claim_types_def)

end
