(* ===== verification/Tables.thy ===== *)
theory Tables
  imports ErrorCodes
begin

text \<open>
  Relational tables, as the two services with a database use them through SQL: a table is the
  list of its rows in insertion order; \<open>INSERT\<close> appends a row when the uniqueness constraints
  allow it, \<open>UPDATE ... WHERE\<close> rewrites rows in place, \<open>SELECT ... ORDER BY x DESC\<close> sorts
  (rows that tie keep their insertion order, one of the orders SQL allows). A statement fails
  with the error the driver throws when the database cannot be reached, a constraint is violated,
  a text is too long for its column or is not a UUID.
\<close>

definition db_error :: "string \<Rightarrow> thrown" where
  "db_error msg = ThrownError ''error'' msg"

definition db_query :: "bool \<Rightarrow> thrown + 'a \<Rightarrow> thrown + 'a" where
  "db_query up r = (if up then r else Inl (db_error ''connection refused''))"

text \<open>\<open>VARCHAR(n)\<close>\<close>

definition fits :: "nat \<Rightarrow> string \<Rightarrow> bool" where
  "fits n s = (length s \<le> n)"

definition unique_on :: "('r \<Rightarrow> 'k) \<Rightarrow> 'r list \<Rightarrow> bool" where
  "unique_on key rows = distinct (map key rows)"

definition row_by :: "('r \<Rightarrow> 'k) \<Rightarrow> 'k \<Rightarrow> 'r list \<Rightarrow> 'r option" where
  "row_by key k rows = find (\<lambda>r. key r = k) rows"

definition update_where :: "('r \<Rightarrow> bool) \<Rightarrow> ('r \<Rightarrow> 'r) \<Rightarrow> 'r list \<Rightarrow> 'r list" where
  "update_where P f rows = map (\<lambda>r. if P r then f r else r) rows"

definition order_desc :: "('r \<Rightarrow> int) \<Rightarrow> 'r list \<Rightarrow> 'r list" where
  "order_desc key rows = sort_key (\<lambda>r. - key r) rows"

lemma db_query_Inr_iff [inr_iff]: "db_query up r = Inr x \<longleftrightarrow> up \<and> r = Inr x"
  by (simp add: db_query_def)

lemma db_query_up [simp]: "db_query True r = r"
  by (simp add: db_query_def)

lemma row_by_Some: "row_by key k rows = Some r \<Longrightarrow> r \<in> set rows \<and> key r = k"
  by (auto simp: row_by_def find_Some_iff)

lemma row_by_None_iff: "row_by key k rows = None \<longleftrightarrow> k \<notin> key ` set rows"
  by (auto simp: row_by_def find_None_iff)

lemma row_by_unique:
  "unique_on key rows \<Longrightarrow> r \<in> set rows \<Longrightarrow> row_by key (key r) rows = Some r"
  unfolding unique_on_def row_by_def by (induction rows) auto

lemma row_by_append:
  "row_by key k (rows @ [r]) =
     (case row_by key k rows of Some x \<Rightarrow> Some x | None \<Rightarrow> if key r = k then Some r else None)"
  unfolding row_by_def by (induction rows) auto

lemma unique_on_append:
  "unique_on key (rows @ [r]) \<longleftrightarrow> unique_on key rows \<and> key r \<notin> key ` set rows"
  by (auto simp: unique_on_def)

lemma map_update_where:
  "(\<And>r. P r \<Longrightarrow> key (f r) = key r) \<Longrightarrow> map key (update_where P f rows) = map key rows"
  by (simp add: update_where_def)

lemma unique_on_update:
  "(\<And>r. P r \<Longrightarrow> key (f r) = key r) \<Longrightarrow> unique_on key rows \<Longrightarrow> unique_on key (update_where P f rows)"
  by (simp add: unique_on_def map_update_where)

lemma keys_update_where:
  "(\<And>r. P r \<Longrightarrow> key (f r) = key r) \<Longrightarrow> key ` set (update_where P f rows) = key ` set rows"
  unfolding set_map [symmetric] by (simp add: map_update_where)

lemma row_by_update:
  assumes "\<And>r. P r \<Longrightarrow> key (f r) = key r"
  shows "row_by key k (update_where P f rows) =
    map_option (\<lambda>r. if P r then f r else r) (row_by key k rows)"
  unfolding row_by_def update_where_def using assms by (induction rows) auto

lemma set_update_where:
  "r \<in> set (update_where P f rows) \<longleftrightarrow> (\<exists>q \<in> set rows. r = (if P q then f q else q))"
  by (auto simp: update_where_def)

lemma set_order_desc [simp]: "set (order_desc key rows) = set rows"
  by (simp add: order_desc_def)

lemma length_order_desc [simp]: "length (order_desc key rows) = length rows"
  by (simp add: order_desc_def)

lemma order_desc_sorted: "sorted_wrt (\<lambda>a b. key b \<le> key a) (order_desc key rows)"
proof -
  have "sorted (map (\<lambda>r. - key r) (order_desc key rows))"
    unfolding order_desc_def by simp
  then show ?thesis by (simp add: sorted_map)
qed

lemma order_desc_map:
  "(\<And>r. r \<in> set rows \<Longrightarrow> key (f r) = key r) \<Longrightarrow> order_desc key (map f rows) = map f (order_desc key rows)"
proof (induction rows)
  case Nil
  then show ?case by (simp add: order_desc_def)
next
  case (Cons r rows)
  have ins: "(\<And>x. x \<in> insert r (set xs) \<Longrightarrow> key (f x) = key x) \<Longrightarrow>
      insort_key (\<lambda>r. - key r) (f r) (map f xs) = map f (insort_key (\<lambda>r. - key r) r xs)" for xs
    by (induction xs) auto
  have "set (order_desc key rows) = set rows" by simp
  with Cons ins [of "order_desc key rows"] show ?case by (simp add: order_desc_def)
qed

end
