(* ===== verification/DppStore.thy ===== *)
theory DppStore
  imports Tables Predicates
begin

text \<open>
  The database of the passport builder (\<open>services/dpp-builder/src/db/index.ts\<close>, types of
  \<open>types.ts\<close>, columns of \<open>infra/docker/init-db/01-init.sql\<close>): three tables and the
  statements run on them. A statement reads \<open>DbEnv\<close>: whether the database answers, the
  UUID drawn, the clock, PostgreSQL's reading of a text as a UUID or as a time, and its SHA-256
  in hex. Metadata is kept as its JSON text.
\<close>

section \<open>Rows\<close>

record Product =
  p_id :: string
  p_sku :: string
  p_name :: string
  p_description :: "string option"
  p_category :: string
  p_metadata :: string
  p_created_at :: time_ms
  p_updated_at :: time_ms

record ProductSupplierLink =
  l_id :: string
  l_product_id :: string
  l_supplier_id :: string
  l_commitment_root :: string
  l_supplier_public_key :: string
  l_linked_at :: time_ms
  l_active :: bool

record VerifiedPredicate =
  v_id :: string
  v_product_id :: string
  v_supplier_id :: string
  v_predicate_id :: string
  v_receipt_id :: string
  v_result :: bool
  v_verified_at :: time_ms
  v_expires_at :: "time_ms option"

record DppDb =
  products :: "Product list"
  links :: "ProductSupplierLink list"
  verifs :: "VerifiedPredicate list"

record DbEnv =
  de_up :: bool
  de_uuid :: string
  de_now :: time_ms
  de_readUuid :: "string \<Rightarrow> string option"
  de_readTime :: "string \<Rightarrow> time_ms option"
  de_sha256 :: "string \<Rightarrow> string"

record CreateProductRequest =
  cp_sku :: string
  cp_name :: string
  cp_description :: "string option"
  cp_category :: string
  cp_metadata :: "string option"

record LinkSupplierRequest =
  ls_supplierId :: string
  ls_commitmentRoot :: string
  ls_supplierPublicKey :: string

record RecordVerificationRequest =
  rv_predicateId :: string
  rv_receiptId :: string
  rv_result :: bool
  rv_supplierId :: string
  rv_expiresAt :: "string option"

record ProductUpdates =
  pu_name :: "string option"
  pu_description :: "string option"
  pu_category :: "string option"
  pu_metadata :: "string option"

definition empty_db :: DppDb where
  "empty_db = \<lparr>products = [], links = [], verifs = []\<rparr>"

definition with_uuid :: "DbEnv \<Rightarrow> string \<Rightarrow> (string \<Rightarrow> thrown + 'a) \<Rightarrow> thrown + 'a" where
  "with_uuid env text k =
     (case de_readUuid env text of
        None \<Rightarrow> Inl (db_error ''invalid input syntax for type uuid'') | Some u \<Rightarrow> k u)"

section \<open>Products\<close>

definition createProduct ::
  "DbEnv \<Rightarrow> CreateProductRequest \<Rightarrow> DppDb \<Rightarrow> thrown + Product \<times> DppDb" where
  "createProduct env input db =
     db_query (de_up env)
       (let row = \<lparr>p_id = de_uuid env, p_sku = cp_sku input, p_name = cp_name input,
                   p_description = js_or_null (cp_description input),
                   p_category = cp_category input,
                   p_metadata = js_coalesce (cp_metadata input) ''{}'',
                   p_created_at = de_now env, p_updated_at = de_now env\<rparr> in
        if \<not> (fits 100 (p_sku row) \<and> fits 255 (p_name row) \<and> fits 100 (p_category row))
        then Inl (db_error ''value too long'')
        else if p_id row \<in> p_id ` set (products db) \<or> p_sku row \<in> p_sku ` set (products db)
        then Inl (db_error ''duplicate key value violates unique constraint'')
        else Inr (row, db\<lparr>products := products db @ [row]\<rparr>))"

definition getProduct :: "DbEnv \<Rightarrow> string \<Rightarrow> DppDb \<Rightarrow> thrown + Product option" where
  "getProduct env key db =
     db_query (de_up env) (with_uuid env key (\<lambda>u. Inr (row_by p_id u (products db))))"

definition getProductBySku :: "DbEnv \<Rightarrow> string \<Rightarrow> DppDb \<Rightarrow> thrown + Product option" where
  "getProductBySku env sku db = db_query (de_up env) (Inr (row_by p_sku sku (products db)))"

definition product_binding :: "DbEnv \<Rightarrow> Product \<Rightarrow> string" where
  "product_binding env p = de_sha256 env (''product:'' @ p_id p)"

definition getProductByBinding :: "DbEnv \<Rightarrow> string \<Rightarrow> DppDb \<Rightarrow> thrown + Product option" where
  "getProductByBinding env binding db =
     db_query (de_up env) (Inr (row_by (product_binding env) binding (products db)))"

definition listProducts :: "DbEnv \<Rightarrow> int \<Rightarrow> int \<Rightarrow> DppDb \<Rightarrow> thrown + Product list" where
  "listProducts env limit offset db =
     db_query (de_up env)
       (if limit < 0 then Inl (db_error ''LIMIT must not be negative'')
        else if offset < 0 then Inl (db_error ''OFFSET must not be negative'')
        else Inr (take (nat limit) (drop (nat offset) (order_desc p_created_at (products db)))))"

definition update_product_row :: "ProductUpdates \<Rightarrow> time_ms \<Rightarrow> Product \<Rightarrow> Product" where
  "update_product_row updates now p =
     p\<lparr>p_name := js_coalesce (pu_name updates) (p_name p),
       p_description :=
         (case pu_description updates of None \<Rightarrow> p_description p | Some d \<Rightarrow> Some d),
       p_category := js_coalesce (pu_category updates) (p_category p),
       p_metadata := js_coalesce (pu_metadata updates) (p_metadata p),
       p_updated_at := now\<rparr>"

definition updateProduct ::
  "DbEnv \<Rightarrow> string \<Rightarrow> ProductUpdates \<Rightarrow> DppDb \<Rightarrow> thrown + Product option \<times> DppDb" where
  "updateProduct env key updates db =
     (if pu_name updates = None \<and> pu_description updates = None \<and> pu_category updates = None
         \<and> pu_metadata updates = None
      then sum_bind (getProduct env key db) (\<lambda>p. Inr (p, db))
      else db_query (de_up env) (with_uuid env key (\<lambda>u.
        case row_by p_id u (products db) of
          None \<Rightarrow> Inr (None, db)
        | Some p \<Rightarrow>
            let p' = update_product_row updates (de_now env) p in
            if \<not> (fits 255 (p_name p') \<and> fits 100 (p_category p'))
            then Inl (db_error ''value too long'')
            else Inr (Some p',
              db\<lparr>products := update_where (\<lambda>r. p_id r = u)
                    (update_product_row updates (de_now env)) (products db)\<rparr>))))"

section \<open>Supplier links\<close>

definition linkSupplier ::
  "DbEnv \<Rightarrow> string \<Rightarrow> LinkSupplierRequest \<Rightarrow> DppDb \<Rightarrow> thrown + ProductSupplierLink \<times> DppDb" where
  "linkSupplier env productId input db =
     db_query (de_up env) (with_uuid env productId (\<lambda>u.
       let row = \<lparr>l_id = de_uuid env, l_product_id = u, l_supplier_id = ls_supplierId input,
                  l_commitment_root = ls_commitmentRoot input,
                  l_supplier_public_key = ls_supplierPublicKey input,
                  l_linked_at = de_now env, l_active = True\<rparr> in
       if \<not> (fits 100 (l_supplier_id row) \<and> fits 64 (l_commitment_root row))
       then Inl (db_error ''value too long'')
       else if l_id row \<in> l_id ` set (links db)
       then Inl (db_error ''duplicate key value violates unique constraint'')
       else if u \<notin> p_id ` set (products db)
       then Inl (db_error ''insert violates foreign key constraint'')
       else Inr (row, db\<lparr>links := links db @ [row]\<rparr>)))"

definition getSupplierLinks ::
  "DbEnv \<Rightarrow> string \<Rightarrow> DppDb \<Rightarrow> thrown + ProductSupplierLink list" where
  "getSupplierLinks env productId db =
     db_query (de_up env) (with_uuid env productId (\<lambda>u.
       Inr (order_desc l_linked_at (filter (\<lambda>l. l_product_id l = u \<and> l_active l) (links db)))))"

definition deactivateSupplierLink :: "DbEnv \<Rightarrow> string \<Rightarrow> DppDb \<Rightarrow> thrown + bool \<times> DppDb" where
  "deactivateSupplierLink env key db =
     db_query (de_up env) (with_uuid env key (\<lambda>u.
       Inr (u \<in> l_id ` set (links db),
            db\<lparr>links := update_where (\<lambda>l. l_id l = u) (\<lambda>l. l\<lparr>l_active := False\<rparr>) (links db)\<rparr>)))"

section \<open>Verified predicates\<close>

text \<open>\<open>input.expiresAt || null\<close>, read as a time by the database.\<close>

definition expiry :: "DbEnv \<Rightarrow> string option \<Rightarrow> thrown + time_ms option" where
  "expiry env text =
     (case js_or_null text of
        None \<Rightarrow> Inr None
      | Some s \<Rightarrow>
          (case de_readTime env s of
             None \<Rightarrow> Inl (db_error ''invalid input syntax for type timestamp'')
           | Some t \<Rightarrow> Inr (Some t)))"

definition recordVerification ::
  "DbEnv \<Rightarrow> string \<Rightarrow> RecordVerificationRequest \<Rightarrow> DppDb \<Rightarrow> thrown + VerifiedPredicate \<times> DppDb" where
  "recordVerification env productId input db =
     db_query (de_up env) (with_uuid env productId (\<lambda>u.
       sum_bind (expiry env (rv_expiresAt input)) (\<lambda>ex.
         let row = \<lparr>v_id = de_uuid env, v_product_id = u, v_supplier_id = rv_supplierId input,
                    v_predicate_id = rv_predicateId input, v_receipt_id = rv_receiptId input,
                    v_result = rv_result input, v_verified_at = de_now env, v_expires_at = ex\<rparr> in
         if \<not> (fits 100 (v_supplier_id row) \<and> fits 100 (v_predicate_id row)
               \<and> fits 100 (v_receipt_id row))
         then Inl (db_error ''value too long'')
         else if v_id row \<in> v_id ` set (verifs db)
         then Inl (db_error ''duplicate key value violates unique constraint'')
         else if u \<notin> p_id ` set (products db)
         then Inl (db_error ''insert violates foreign key constraint'')
         else Inr (row, db\<lparr>verifs := verifs db @ [row]\<rparr>))))"

definition unexpired :: "time_ms \<Rightarrow> VerifiedPredicate \<Rightarrow> bool" where
  "unexpired now v = (case v_expires_at v of None \<Rightarrow> True | Some t \<Rightarrow> now < t)"

definition getVerifiedPredicates ::
  "DbEnv \<Rightarrow> string \<Rightarrow> DppDb \<Rightarrow> thrown + VerifiedPredicate list" where
  "getVerifiedPredicates env productId db =
     db_query (de_up env) (with_uuid env productId (\<lambda>u.
       Inr (order_desc v_verified_at
         (filter (\<lambda>v. v_product_id v = u \<and> unexpired (de_now env) v) (verifs db)))))"

definition getVerifiedPredicatesBySupplier ::
  "DbEnv \<Rightarrow> string \<Rightarrow> string \<Rightarrow> DppDb \<Rightarrow> thrown + VerifiedPredicate list" where
  "getVerifiedPredicatesBySupplier env productId supplierId db =
     db_query (de_up env) (with_uuid env productId (\<lambda>u.
       Inr (order_desc v_verified_at
         (filter (\<lambda>v. v_product_id v = u \<and> v_supplier_id v = supplierId
            \<and> unexpired (de_now env) v) (verifs db)))))"

definition healthCheck :: "DbEnv \<Rightarrow> bool" where
  "healthCheck env = de_up env"

section \<open>The invariant of the tables\<close>

definition db_wf :: "DppDb \<Rightarrow> bool" where
  "db_wf db =
     (unique_on p_id (products db) \<and> unique_on p_sku (products db) \<and>
      unique_on l_id (links db) \<and> unique_on v_id (verifs db) \<and>
      l_product_id ` set (links db) \<subseteq> p_id ` set (products db) \<and>
      v_product_id ` set (verifs db) \<subseteq> p_id ` set (products db))"

lemmas dpp_query_defs = getProduct_def getProductBySku_def getProductByBinding_def
  getSupplierLinks_def getVerifiedPredicates_def with_uuid_def

lemma createProduct_Inr:
  "createProduct env input db = Inr (row, db') \<Longrightarrow>
     db' = db\<lparr>products := products db @ [row]\<rparr> \<and> p_id row = de_uuid env \<and>
     p_sku row = cp_sku input \<and> p_id row \<notin> p_id ` set (products db) \<and>
     p_sku row \<notin> p_sku ` set (products db)"
  by (auto simp: createProduct_def inr_iff Let_def split: if_splits)

lemma linkSupplier_Inr:
  "linkSupplier env pid input db = Inr (row, db') \<Longrightarrow>
     db' = db\<lparr>links := links db @ [row]\<rparr> \<and> l_id row \<notin> l_id ` set (links db) \<and>
     de_readUuid env pid = Some (l_product_id row) \<and> l_product_id row \<in> p_id ` set (products db) \<and>
     l_active row"
  by (auto simp: linkSupplier_def inr_iff with_uuid_def Let_def
      split: if_splits option.splits)

lemma recordVerification_Inr:
  "recordVerification env pid input db = Inr (row, db') \<Longrightarrow>
     db' = db\<lparr>verifs := verifs db @ [row]\<rparr> \<and> v_id row \<notin> v_id ` set (verifs db) \<and>
     de_readUuid env pid = Some (v_product_id row) \<and> v_product_id row \<in> p_id ` set (products db) \<and>
     v_predicate_id row = rv_predicateId input \<and> v_receipt_id row = rv_receiptId input \<and>
     v_result row = rv_result input \<and> v_supplier_id row = rv_supplierId input \<and>
     v_verified_at row = de_now env"
  by (auto simp: recordVerification_def inr_iff with_uuid_def Let_def
      split: if_splits option.splits)

lemma recordVerification_unexpiring:
  "recordVerification env pid input db = Inr (row, db') \<Longrightarrow> rv_expiresAt input = None \<Longrightarrow>
     v_expires_at row = None"
  by (auto simp: recordVerification_def inr_iff with_uuid_def Let_def
      expiry_def js_or_null_def split: if_splits option.splits)

lemma update_product_row_keys [simp]:
  "p_id (update_product_row u now p) = p_id p" "p_sku (update_product_row u now p) = p_sku p"
  by (simp_all add: update_product_row_def)

lemma createProduct_wf:
  "db_wf db \<Longrightarrow> createProduct env input db = Inr (row, db') \<Longrightarrow> db_wf db'"
  by (drule createProduct_Inr) (auto simp: db_wf_def unique_on_append)

lemma linkSupplier_wf:
  "db_wf db \<Longrightarrow> linkSupplier env pid input db = Inr (row, db') \<Longrightarrow> db_wf db'"
  by (drule linkSupplier_Inr) (auto simp: db_wf_def unique_on_append)

lemma recordVerification_wf:
  "db_wf db \<Longrightarrow> recordVerification env pid input db = Inr (row, db') \<Longrightarrow> db_wf db'"
  by (drule recordVerification_Inr) (auto simp: db_wf_def unique_on_append)

lemma db_wf_products_update:
  "(\<And>r. p_id (f r) = p_id r) \<Longrightarrow> (\<And>r. p_sku (f r) = p_sku r) \<Longrightarrow> db_wf db \<Longrightarrow>
     db_wf (db\<lparr>products := update_where P f (products db)\<rparr>)"
  by (simp add: db_wf_def unique_on_update keys_update_where)

lemma db_wf_links_update:
  "(\<And>r. l_id (f r) = l_id r) \<Longrightarrow> (\<And>r. l_product_id (f r) = l_product_id r) \<Longrightarrow> db_wf db \<Longrightarrow>
     db_wf (db\<lparr>links := update_where P f (links db)\<rparr>)"
  by (simp add: db_wf_def unique_on_update keys_update_where)

lemma updateProduct_wf:
  "db_wf db \<Longrightarrow> updateProduct env key updates db = Inr (p, db') \<Longrightarrow> db_wf db'"
  by (auto simp: updateProduct_def inr_iff with_uuid_def Let_def
      db_wf_products_update split: if_splits option.splits)

lemma deactivate_wf:
  "db_wf db \<Longrightarrow> deactivateSupplierLink env key db = Inr (b, db') \<Longrightarrow> db_wf db'"
  by (auto simp: deactivateSupplierLink_def inr_iff with_uuid_def db_wf_links_update
      split: option.splits)

end
