(* ===== verification/Auth.thy ===== *)
theory Auth
  imports ErrorCodes
begin

text \<open>
  Authentication and authorization of \<open>packages/shared/src/middleware\<close>
  (\<open>auth.ts\<close>, \<open>rbac.ts\<close>). A request carries the
  \<open>Authorization\<close> header and the user a preHandler has attached; a preHandler
  returns the request it leaves or what it throws. The JOSE library that checks a
  token is the parameter \<open>jwtVerify\<close>.
\<close>

section \<open>Users, tokens and roles\<close>

record AuthUser =
  user_id :: string
  user_email :: "string option"
  user_username :: "string option"
  user_roles :: "string list"

record TokenClaims =
  claim_sub :: string
  claim_email :: "string option"
  claim_preferred_username :: "string option"
  claim_realm_roles :: "string list option"
  claim_resource_access :: "(string \<times> string list option) list option"

record AuthConfig =
  auth_issuer :: string
  auth_audience :: "string option"
  auth_jwksUri :: string
  auth_clientId :: "string option"

record HttpRequest =
  req_authorization :: "string option"
  req_user :: "AuthUser option"
  req_ip :: string

datatype jwt_error = JWTExpired | JWSSignatureVerificationFailed | OtherJwtError

text \<open>Key-set URI, issuer, audience and token; the claims or the error JOSE throws.\<close>

type_synonym jwt_verifier =
  "string \<Rightarrow> string \<Rightarrow> string option \<Rightarrow> string \<Rightarrow> jwt_error + TokenClaims"

definition extractToken :: "HttpRequest \<Rightarrow> string option" where
  "extractToken request =
     (case req_authorization request of
        None \<Rightarrow> None
      | Some authHeader \<Rightarrow>
          if \<not> js_truthy authHeader \<or> \<not> js_startsWith authHeader ''Bearer '' then None
          else Some (drop 7 authHeader))"

definition extractRoles :: "TokenClaims \<Rightarrow> string option \<Rightarrow> string list" where
  "extractRoles claims clientId =
     (let roles = (case claim_realm_roles claims of
                     None \<Rightarrow> [] | Some rs \<Rightarrow> foldl js_set_add [] rs)
      in case js_or_null clientId of
           None \<Rightarrow> roles
         | Some cid \<Rightarrow>
             (case claim_resource_access claims of
                None \<Rightarrow> roles
              | Some access \<Rightarrow>
                  (case map_of access cid of
                     Some (Some rs) \<Rightarrow> foldl js_set_add roles rs
                   | _ \<Rightarrow> roles)))"

text \<open>
  The key set is created for the first URI and cached for the process; the state is
  the URI it was created for.
\<close>

definition getJwks :: "string option \<Rightarrow> string \<Rightarrow> string" where
  "getJwks jwks jwksUri = (case jwks of None \<Rightarrow> jwksUri | Some uri \<Rightarrow> uri)"

definition verifyToken ::
  "jwt_verifier \<Rightarrow> time_ms \<Rightarrow> string option \<Rightarrow> string \<Rightarrow> AuthConfig \<Rightarrow> thrown + AuthUser" where
  "verifyToken jwtVerify now jwks token config =
     (case jwtVerify (getJwks jwks (auth_jwksUri config)) (auth_issuer config)
             (auth_audience config) token of
        Inr claims \<Rightarrow>
          Inr \<lparr>user_id = claim_sub claims, user_email = claim_email claims,
               user_username = claim_preferred_username claims,
               user_roles = extractRoles claims (auth_clientId config)\<rparr>
      | Inl JWTExpired \<Rightarrow>
          Inl (ThrownZk (mkAuthenticationError now ''Token expired'' TOKEN_EXPIRED))
      | Inl JWSSignatureVerificationFailed \<Rightarrow>
          Inl (ThrownZk (mkAuthenticationError now ''Invalid token signature'' INVALID_TOKEN))
      | Inl OtherJwtError \<Rightarrow>
          Inl (ThrownZk (mkAuthenticationError now ''Invalid token'' INVALID_TOKEN)))"

definition authPreHandler ::
  "jwt_verifier \<Rightarrow> time_ms \<Rightarrow> string option \<Rightarrow> AuthConfig \<Rightarrow> HttpRequest \<Rightarrow> thrown + HttpRequest"
where
  "authPreHandler jwtVerify now jwks config request =
     (case js_or_null (extractToken request) of
        None \<Rightarrow> Inl (ThrownZk (mkAuthenticationError now ''Authorization header required''
                                 AUTHENTICATION_REQUIRED))
      | Some token \<Rightarrow>
          (case verifyToken jwtVerify now jwks token config of
             Inl e \<Rightarrow> Inl e
           | Inr user \<Rightarrow> Inr (request\<lparr>req_user := Some user\<rparr>)))"

definition optionalAuthPreHandler ::
  "jwt_verifier \<Rightarrow> time_ms \<Rightarrow> string option \<Rightarrow> AuthConfig \<Rightarrow> HttpRequest \<Rightarrow> HttpRequest" where
  "optionalAuthPreHandler jwtVerify now jwks config request =
     (case js_or_null (extractToken request) of
        None \<Rightarrow> request
      | Some token \<Rightarrow>
          (case verifyToken jwtVerify now jwks token config of
             Inl e \<Rightarrow> request
           | Inr user \<Rightarrow> request\<lparr>req_user := Some user\<rparr>))"

text \<open>\<open>registerAuthErrorHandler\<close>: the body sent, or the error passed on.\<close>

fun authErrorHandler :: "thrown \<Rightarrow> thrown + (nat \<times> ErrorBody)" where
  "authErrorHandler (ThrownZk e) =
     (if err_name e = ''AuthenticationError'' then Inr (err_statusCode e, toJSON e)
      else Inl (ThrownZk e))"
| "authErrorHandler t = Inl t"

definition getKeycloakConfig :: "(string \<Rightarrow> string option) \<Rightarrow> AuthConfig" where
  "getKeycloakConfig env =
     (let keycloakUrl = js_or_opt (env ''KEYCLOAK_URL'') ''http://localhost:8080'';
          realm = js_or_opt (env ''KEYCLOAK_REALM'') ''zkdpp'';
          clientId = js_or_opt (env ''KEYCLOAK_CLIENT_ID'') ''zkdpp-services''
      in \<lparr>auth_issuer = keycloakUrl @ ''/realms/'' @ realm, auth_audience = Some clientId,
          auth_jwksUri = keycloakUrl @ ''/realms/'' @ realm @ ''/protocol/openid-connect/certs'',
          auth_clientId = Some clientId\<rparr>)"

section \<open>Roles\<close>

type_synonym DppViewType = AccessGroup

fun view_name :: "DppViewType \<Rightarrow> string" where
  "view_name PUBLIC = ''PUBLIC''"
| "view_name LEGIT_INTEREST = ''LEGIT_INTEREST''"
| "view_name AUTHORITY = ''AUTHORITY''"

fun DppViewRoles :: "DppViewType \<Rightarrow> string list" where
  "DppViewRoles PUBLIC = []"
| "DppViewRoles LEGIT_INTEREST = [''auditor'', ''authority'', ''brand'']"
| "DppViewRoles AUTHORITY = [''authority'']"

definition RoleHierarchy :: "(string \<times> string list) list" where
  "RoleHierarchy =
     [(''authority'', [''auditor'', ''brand'']), (''auditor'', []), (''brand'', []),
      (''supplier'', [])]"

text \<open>
  The loop of \<open>getEffectiveRoles\<close>: a role that names a member of
  \<open>Object.prototype\<close> makes \<open>RoleHierarchy[role]\<close> a value without \<open>forEach\<close>.
\<close>

fun add_inherited :: "string list \<Rightarrow> string list \<Rightarrow> thrown + string list" where
  "add_inherited effective [] = Inr effective"
| "add_inherited effective (role # roles) =
     (case js_lookup RoleHierarchy role of
        Own inherited \<Rightarrow> add_inherited (foldl js_set_add effective inherited) roles
      | Undefined \<Rightarrow> add_inherited effective roles
      | Inherited \<Rightarrow> Inl (ThrownError ''TypeError'' ''inherited.forEach is not a function''))"

definition getEffectiveRoles :: "string list \<Rightarrow> thrown + string list" where
  "getEffectiveRoles userRoles = add_inherited (js_set_of userRoles) userRoles"

definition hasAnyRole :: "AuthUser option \<Rightarrow> string list \<Rightarrow> thrown + bool" where
  "hasAnyRole user requiredRoles =
     (if requiredRoles = [] then Inr True
      else case user of
        None \<Rightarrow> Inr False
      | Some u \<Rightarrow>
          (case getEffectiveRoles (user_roles u) of
             Inl e \<Rightarrow> Inl e
           | Inr effectiveRoles \<Rightarrow>
               Inr (\<exists>role \<in> set requiredRoles. role \<in> set effectiveRoles)))"

definition hasAllRoles :: "AuthUser option \<Rightarrow> string list \<Rightarrow> thrown + bool" where
  "hasAllRoles user requiredRoles =
     (if requiredRoles = [] then Inr True
      else case user of
        None \<Rightarrow> Inr False
      | Some u \<Rightarrow>
          (case getEffectiveRoles (user_roles u) of
             Inl e \<Rightarrow> Inl e
           | Inr effectiveRoles \<Rightarrow>
               Inr (\<forall>role \<in> set requiredRoles. role \<in> set effectiveRoles)))"

definition roles_of_request :: "AuthUser option \<Rightarrow> string list" where
  "roles_of_request user = (case user of None \<Rightarrow> [] | Some u \<Rightarrow> user_roles u)"

definition requireAnyRole :: "time_ms \<Rightarrow> string list \<Rightarrow> HttpRequest \<Rightarrow> thrown + unit" where
  "requireAnyRole now roles request =
     (case hasAnyRole (req_user request) roles of
        Inl e \<Rightarrow> Inl e
      | Inr True \<Rightarrow> Inr ()
      | Inr False \<Rightarrow>
          Inl (ThrownZk (mkAuthorizationError now
            (''Insufficient permissions. Required roles: '' @ js_join '' or '' roles)
            INSUFFICIENT_ROLE
            (Some [(''requiredRoles'', DStrs roles),
                   (''userRoles'', DStrs (roles_of_request (req_user request)))]))))"

definition requireAllRoles :: "time_ms \<Rightarrow> string list \<Rightarrow> HttpRequest \<Rightarrow> thrown + unit" where
  "requireAllRoles now roles request =
     (case hasAllRoles (req_user request) roles of
        Inl e \<Rightarrow> Inl e
      | Inr True \<Rightarrow> Inr ()
      | Inr False \<Rightarrow>
          Inl (ThrownZk (mkAuthorizationError now
            (''Insufficient permissions. Required roles: '' @ js_join '' and '' roles)
            INSUFFICIENT_ROLE
            (Some [(''requiredRoles'', DStrs roles),
                   (''userRoles'', DStrs (roles_of_request (req_user request)))]))))"

definition requireDppViewAccess :: "time_ms \<Rightarrow> DppViewType \<Rightarrow> HttpRequest \<Rightarrow> thrown + unit" where
  "requireDppViewAccess now viewType request =
     (let requiredRoles = DppViewRoles viewType in
      if viewType = PUBLIC then Inr ()
      else case req_user request of
        None \<Rightarrow> Inl (ThrownZk (mkAuthorizationError now
                  ''Authentication required for this view'' AUTHORIZATION_FAILED None))
      | Some user \<Rightarrow>
          (case hasAnyRole (Some user) requiredRoles of
             Inl e \<Rightarrow> Inl e
           | Inr True \<Rightarrow> Inr ()
           | Inr False \<Rightarrow>
               Inl (ThrownZk (mkAuthorizationError now
                 (''Access denied to '' @ view_name viewType @ '' view. Required roles: ''
                    @ js_join '' or '' requiredRoles)
                 ACCESS_DENIED
                 (Some [(''viewType'', DStr (view_name viewType)),
                        (''requiredRoles'', DStrs requiredRoles),
                        (''userRoles'', DStrs (user_roles user))])))))"

definition checkResourceOwnership :: "AuthUser option \<Rightarrow> string \<Rightarrow> bool" where
  "checkResourceOwnership user resourceOwnerId =
     (case user of
        None \<Rightarrow> False
      | Some u \<Rightarrow>
          if ''authority'' \<in> set (user_roles u) then True
          else user_id u = resourceOwnerId)"

definition requireResourceOwnership ::
  "time_ms \<Rightarrow> (HttpRequest \<Rightarrow> string) \<Rightarrow> HttpRequest \<Rightarrow> thrown + unit" where
  "requireResourceOwnership now getOwnerId request =
     (if checkResourceOwnership (req_user request) (getOwnerId request) then Inr ()
      else Inl (ThrownZk (mkAuthorizationError now
             ''You do not have permission to access this resource'' RESOURCE_FORBIDDEN None)))"

section \<open>Effective roles\<close>

definition ordinary_roles :: "string list \<Rightarrow> bool" where
  "ordinary_roles roles = (\<forall>r \<in> set roles. r \<notin> set object_prototype_keys)"

lemma hierarchy_lookup:
  "r \<notin> set object_prototype_keys \<Longrightarrow>
     js_lookup RoleHierarchy r =
       (case map_of RoleHierarchy r of Some rs \<Rightarrow> Own rs | None \<Rightarrow> Undefined)"
  by (simp add: js_lookup_def split: option.splits)

lemma hierarchy_entries:
  "map_of RoleHierarchy r =
     (if r = ''authority'' then Some [''auditor'', ''brand'']
      else if r \<in> {''auditor'', ''brand'', ''supplier''} then Some [] else None)"
  by (simp add: RoleHierarchy_def)

definition inherited_roles :: "string list \<Rightarrow> string set" where
  "inherited_roles roles = (if ''authority'' \<in> set roles then {''auditor'', ''brand''} else {})"

lemma inherited_roles_simps:
  "inherited_roles [] = {}"
  "r \<noteq> ''authority'' \<Longrightarrow> inherited_roles (r # roles) = inherited_roles roles"
  "inherited_roles (''authority'' # roles) = {''auditor'', ''brand''} \<union> inherited_roles roles"
  by (auto simp: inherited_roles_def)

lemma add_inherited_ordinary:
  "ordinary_roles roles \<Longrightarrow>
     \<exists>eff'. add_inherited eff roles = Inr eff' \<and>
       set eff' = set eff \<union> inherited_roles roles \<and> (distinct eff \<longrightarrow> distinct eff')"
proof (induction roles arbitrary: eff)
  case Nil
  then show ?case by (simp add: inherited_roles_simps)
next
  case (Cons r roles)
  then have tail: "ordinary_roles roles" and r: "r \<notin> set object_prototype_keys"
    by (simp_all add: ordinary_roles_def)
  show ?case
  proof (cases "r = ''authority''")
    case True
    define e where "e = foldl js_set_add eff [''auditor'', ''brand'']"
    have "js_lookup RoleHierarchy r = Own [''auditor'', ''brand'']"
      using True by (simp add: js_lookup_Own_iff hierarchy_entries)
    then have step: "add_inherited eff (r # roles) = add_inherited e roles"
      by (simp add: e_def)
    have set_e: "set e = set eff \<union> {''auditor'', ''brand''}"
      unfolding e_def set_foldl_js_set_add by simp
    have dist_e: "distinct eff \<Longrightarrow> distinct e"
      unfolding e_def by (rule distinct_foldl_js_set_add)
    obtain eff' where "add_inherited e roles = Inr eff'"
      and "set eff' = set e \<union> inherited_roles roles" and "distinct e \<longrightarrow> distinct eff'"
      using Cons.IH [OF tail] by blast
    then show ?thesis
      unfolding True inherited_roles_simps set_e Un_assoc step [unfolded True] using dist_e by blast
  next
    case False
    then have "js_lookup RoleHierarchy r \<in> {Own [], Undefined}"
      using r by (simp add: hierarchy_lookup hierarchy_entries)
    then have step: "add_inherited eff (r # roles) = add_inherited eff roles" by auto
    show ?thesis
      unfolding step inherited_roles_simps(2) [OF False] by (rule Cons.IH [OF tail])
  qed
qed

lemma effective_roles_ordinary:
  assumes "ordinary_roles roles"
  obtains eff where "getEffectiveRoles roles = Inr eff" and "distinct eff"
    and "set eff = set roles \<union> inherited_roles roles"
  using add_inherited_ordinary [OF assms, of "js_set_of roles"]
  by (auto simp: getEffectiveRoles_def)

lemma add_inherited_Inr_authority:
  "add_inherited eff roles = Inr eff' \<Longrightarrow>
     ''authority'' \<in> set eff' \<longleftrightarrow> ''authority'' \<in> set eff"
proof (induction roles arbitrary: eff)
  case Nil
  then show ?case by simp
next
  case (Cons r roles)
  show ?case
  proof (cases "js_lookup RoleHierarchy r")
    case (Own inh)
    then have "''authority'' \<notin> set inh"
      by (auto simp: js_lookup_Own_iff hierarchy_entries split: if_splits)
    with Cons Own show ?thesis by (fastforce simp: set_foldl_js_set_add)
  qed (use Cons in auto)
qed

lemma hasAnyRole_authority:
  "hasAnyRole (Some u) [''authority''] = Inr b \<Longrightarrow> b \<longleftrightarrow> ''authority'' \<in> set (user_roles u)"
  by (auto simp: hasAnyRole_def getEffectiveRoles_def dest: add_inherited_Inr_authority
      split: sum.splits)

lemma hasAnyRole_ordinary:
  assumes "ordinary_roles (user_roles u)" and "req \<noteq> []"
  shows "hasAnyRole (Some u) req =
    Inr (\<exists>r \<in> set req. r \<in> set (user_roles u) \<or> r \<in> inherited_roles (user_roles u))"
proof -
  obtain eff where "getEffectiveRoles (user_roles u) = Inr eff"
    and "set eff = set (user_roles u) \<union> inherited_roles (user_roles u)"
    using effective_roles_ordinary [OF assms(1)] by blast
  with assms(2) show ?thesis by (simp add: hasAnyRole_def)
qed

definition view_granted :: "DppViewType \<Rightarrow> string list \<Rightarrow> bool" where
  "view_granted v roles =
     (case v of PUBLIC \<Rightarrow> True
      | LEGIT_INTEREST \<Rightarrow> set roles \<inter> {''auditor'', ''authority'', ''brand''} \<noteq> {}
      | AUTHORITY \<Rightarrow> ''authority'' \<in> set roles)"

lemma hasAnyRole_view:
  assumes "ordinary_roles (user_roles u)"
  shows "hasAnyRole (Some u) (DppViewRoles v) = Inr (view_granted v (user_roles u))"
proof (cases v)
  case PUBLIC
  then show ?thesis by (simp add: hasAnyRole_def view_granted_def)
next
  case LEGIT_INTEREST
  then show ?thesis
    by (auto simp: hasAnyRole_ordinary [OF assms] view_granted_def inherited_roles_def)
next
  case AUTHORITY
  then show ?thesis
    by (auto simp: hasAnyRole_ordinary [OF assms] view_granted_def inherited_roles_def)
qed

lemma requireDppViewAccess_user:
  assumes "req_user r = Some u" and "ordinary_roles (user_roles u)"
  shows "requireDppViewAccess now v r = Inr () \<longleftrightarrow> view_granted v (user_roles u)"
  using assms hasAnyRole_view [OF assms(2), of v]
  by (cases v; cases "view_granted v (user_roles u)")
    (simp_all add: requireDppViewAccess_def Let_def view_granted_def)

lemma requireDppViewAccess_anonymous:
  "req_user r = None \<Longrightarrow> requireDppViewAccess now v r = Inr () \<longleftrightarrow> v = PUBLIC"
  by (simp add: requireDppViewAccess_def Let_def)

section \<open>Properties of authentication and authorization\<close>

text \<open>Access to a view of the passport: everyone sees the public one, the
  legitimate-interest view needs a user who is auditor, brand or authority, the authority view
  needs an authority; everyone else gets an error whose status is 403.\<close>

lemma view_access:
  assumes "ordinary_roles (roles_of_request (req_user request))"
  shows "case requireDppViewAccess now v request of
      Inr u \<Rightarrow> v = PUBLIC \<or> req_user request \<noteq> None \<and> view_granted v (roles_of_request (req_user request))
    | Inl e \<Rightarrow> reply_status e = 403 \<and> v \<noteq> PUBLIC \<and>
        \<not> (req_user request \<noteq> None \<and> view_granted v (roles_of_request (req_user request)))"
proof (cases "req_user request")
  case None
  then show ?thesis
    by (cases v) (simp_all add: requireDppViewAccess_def mkAuthorizationError_def mkZkDppError_def)
next
  case (Some u)
  with assms have o: "ordinary_roles (user_roles u)" by (simp add: roles_of_request_def)
  show ?thesis
    using hasAnyRole_view [OF o, of v] Some
    by (cases v; cases "view_granted v (user_roles u)")
      (simp_all add: requireDppViewAccess_def mkAuthorizationError_def mkZkDppError_def
        roles_of_request_def view_granted_def)
qed

definition demo_request :: "string list \<Rightarrow> HttpRequest" where
  "demo_request roles = \<lparr>req_authorization = None,
     req_user = Some \<lparr>user_id = ''u'', user_email = None, user_username = None, user_roles = roles\<rparr>,
     req_ip = ''10.0.0.1''\<rparr>"

lemma brand_ordinary: "ordinary_roles (roles_of_request (req_user (demo_request [''brand''])))"
  by (simp add: ordinary_roles_def roles_of_request_def demo_request_def object_prototype_keys_def)

text \<open>The effective roles of a user are the listed roles together with auditor and brand
  for an authority, without duplicates; no role other than those is gained.\<close>

lemma effective_roles_exact:
  assumes "ordinary_roles roles"
  shows "\<exists>eff. getEffectiveRoles roles = Inr eff \<and> distinct eff \<and>
    set eff = set roles \<union> (if ''authority'' \<in> set roles then {''auditor'', ''brand''} else {})"
  using effective_roles_ordinary [OF assms] unfolding inherited_roles_def by metis

lemma verifyToken_Inl: "verifyToken jv now jwks token config = Inl e \<Longrightarrow> reply_status e = 401"
  by (auto simp: verifyToken_def mkAuthenticationError_def mkZkDppError_def
      split: sum.splits jwt_error.splits)

lemma verifyToken_Inr:
  "verifyToken jv now jwks token config = Inr user \<longleftrightarrow>
     (\<exists>claims. jv (getJwks jwks (auth_jwksUri config)) (auth_issuer config) (auth_audience config)
          token = Inr claims \<and>
        user = \<lparr>user_id = claim_sub claims, user_email = claim_email claims,
          user_username = claim_preferred_username claims,
          user_roles = extractRoles claims (auth_clientId config)\<rparr>)"
  by (auto simp: verifyToken_def split: sum.splits jwt_error.splits)

text \<open>The authenticating preHandler lets a request through only with the user of a token
  JOSE has accepted for the configured issuer and audience, and otherwise throws an error of
  status 401; the optional one never throws and attaches a user in exactly the same cases.\<close>

lemma auth_preHandlers:
  "(case authPreHandler jv now jwks config request of
      Inr r \<Rightarrow> \<exists>token claims user. req_authorization request = Some (''Bearer '' @ token) \<and>
        jv (getJwks jwks (auth_jwksUri config)) (auth_issuer config) (auth_audience config) token
          = Inr claims \<and>
        user_id user = claim_sub claims \<and> user_roles user = extractRoles claims (auth_clientId config) \<and>
        r = request\<lparr>req_user := Some user\<rparr> \<and>
        optionalAuthPreHandler jv now jwks config request = r
    | Inl e \<Rightarrow> reply_status e = 401 \<and> optionalAuthPreHandler jv now jwks config request = request)"
proof (cases "js_or_null (extractToken request)")
  case None
  then show ?thesis
    by (simp add: authPreHandler_def optionalAuthPreHandler_def mkAuthenticationError_def
        mkZkDppError_def)
next
  case (Some token)
  then have "extractToken request = Some token"
    by (auto simp: js_or_null_def split: option.splits if_splits)
  then have h: "req_authorization request = Some (''Bearer '' @ token)"
    by (auto simp: extractToken_def js_startsWith_iff split: option.splits if_splits)
  show ?thesis
  proof (cases "verifyToken jv now jwks token config")
    case (Inl e)
    then show ?thesis
      using verifyToken_Inl [OF Inl] Some
      by (simp add: authPreHandler_def optionalAuthPreHandler_def)
  next
    case (Inr user)
    then obtain claims where "jv (getJwks jwks (auth_jwksUri config)) (auth_issuer config)
        (auth_audience config) token = Inr claims"
      and "user_id user = claim_sub claims"
      and "user_roles user = extractRoles claims (auth_clientId config)"
      by (auto simp: verifyToken_Inr)
    with h Some Inr show ?thesis
      by (auto simp: authPreHandler_def optionalAuthPreHandler_def)
  qed
qed

end
