(* ===== verification/DppViews.thy ===== *)
theory DppViews
  imports DppStore Auth Schemas EventBus "HOL-Library.Multiset"
begin

text \<open>
  The passport builder above its database: the view composer
  (\<open>services/view-composer.ts\<close>), the routes of \<open>routes/dpp.ts\<close> and \<open>routes/products.ts\<close>,
  and the subscriber to verification events of \<open>index.ts\<close>. The locale \<open>latest_first\<close> is
  what the composer's loops need of the order the store returns rows in.
\<close>

section \<open>Views\<close>

record ProductBasicInfo =
  bi_id :: string
  bi_sku :: string
  bi_name :: string
  bi_category :: string

record VerifiedPredicateInfo =
  vi_predicateId :: string
  vi_predicateName :: string
  vi_result :: bool
  vi_verifiedAt :: time_ms

record SupplierInfo =
  si_id :: string
  si_commitmentRoot :: string
  si_publicKey :: string
  si_linkedAt :: time_ms

datatype AuditDetails =
    PredicateVerified string string string bool  \<comment> \<open>predicate, receipt, supplier, result\<close>
  | SupplierLinked string string  \<comment> \<open>supplier, commitment root\<close>

record AuditEntry =
  ae_timestamp :: time_ms
  ae_details :: AuditDetails

datatype DPPView =
    DPPViewPublic ProductBasicInfo
  | DPPViewLegitInterest ProductBasicInfo "VerifiedPredicateInfo list" nat
  | DPPViewAuthority ProductBasicInfo "VerifiedPredicateInfo list" nat "SupplierInfo list"
      "AuditEntry list"

fun view_accessLevel :: "DPPView \<Rightarrow> AccessGroup" where
  "view_accessLevel (DPPViewPublic b) = PUBLIC"
| "view_accessLevel (DPPViewLegitInterest b i n) = LEGIT_INTEREST"
| "view_accessLevel (DPPViewAuthority b i n s a) = AUTHORITY"

section \<open>Composing\<close>

definition basic_info :: "Product \<Rightarrow> ProductBasicInfo" where
  "basic_info product =
     \<lparr>bi_id = p_id product, bi_sku = p_sku product, bi_name = p_name product,
      bi_category = p_category product\<rparr>"

definition composePublicView :: "Product \<Rightarrow> DPPView" where
  "composePublicView product = DPPViewPublic (basic_info product)"

definition predicate_result :: "string \<Rightarrow> VerifiedPredicate \<Rightarrow> VerifiedPredicateInfo" where
  "predicate_result name vp =
     \<lparr>vi_predicateId = v_predicate_id vp, vi_predicateName = name, vi_result = v_result vp,
      vi_verifiedAt = v_verified_at vp\<rparr>"

definition supersedes ::
  "VerifiedPredicate \<Rightarrow> (string, VerifiedPredicateInfo) js_map \<Rightarrow> bool" where
  "supersedes vp results =
     (case map_of results (v_predicate_id vp) of
        None \<Rightarrow> True | Some existing \<Rightarrow> vi_verifiedAt existing < v_verified_at vp)"

fun legit_results ::
  "PredicateRegistry \<Rightarrow> VerifiedPredicate list \<Rightarrow> (string, VerifiedPredicateInfo) js_map \<Rightarrow>
     thrown + (string, VerifiedPredicateInfo) js_map" where
  "legit_results registry [] results = Inr results"
| "legit_results registry (vp # vps) results =
     (if supersedes vp results then
        (case getPredicateById registry (v_predicate_id vp) of
           Undefined \<Rightarrow> legit_results registry vps results
         | Inherited \<Rightarrow> Inl (ThrownError ''TypeError'' ''Cannot read properties of undefined'')
         | Own predicate \<Rightarrow>
             if LEGIT_INTEREST \<notin> set (pd_accessGroups predicate)
             then legit_results registry vps results
             else legit_results registry vps
               (jm_set results (v_predicate_id vp)
                 (predicate_result (display_name registry (v_predicate_id vp)) vp)))
      else legit_results registry vps results)"

fun authority_results ::
  "PredicateRegistry \<Rightarrow> VerifiedPredicate list \<Rightarrow> (string, VerifiedPredicateInfo) js_map \<Rightarrow>
     (string, VerifiedPredicateInfo) js_map" where
  "authority_results registry [] results = results"
| "authority_results registry (vp # vps) results =
     (if supersedes vp results
      then authority_results registry vps
        (jm_set results (v_predicate_id vp)
          (predicate_result (display_name registry (v_predicate_id vp)) vp))
      else authority_results registry vps results)"

definition composeLegitInterestView ::
  "PredicateRegistry \<Rightarrow> DbEnv \<Rightarrow> Product \<Rightarrow> DppDb \<Rightarrow> thrown + DPPView" where
  "composeLegitInterestView registry env product db =
     sum_bind (getVerifiedPredicates env (p_id product) db) (\<lambda>verifiedPredicates.
     sum_bind (getSupplierLinks env (p_id product) db) (\<lambda>supplierLinks.
     sum_bind (legit_results registry verifiedPredicates []) (\<lambda>predicateResults.
       Inr (DPPViewLegitInterest (basic_info product) (jm_values predicateResults)
         (length supplierLinks)))))"

definition verification_entry :: "VerifiedPredicate \<Rightarrow> AuditEntry" where
  "verification_entry vp =
     \<lparr>ae_timestamp = v_verified_at vp, ae_details = PredicateVerified (v_predicate_id vp)
        (v_receipt_id vp) (v_supplier_id vp) (v_result vp)\<rparr>"

definition link_entry :: "ProductSupplierLink \<Rightarrow> AuditEntry" where
  "link_entry link =
     \<lparr>ae_timestamp = l_linked_at link,
      ae_details = SupplierLinked (l_supplier_id link) (l_commitment_root link)\<rparr>"

definition supplier_info :: "ProductSupplierLink \<Rightarrow> SupplierInfo" where
  "supplier_info link =
     \<lparr>si_id = l_supplier_id link, si_commitmentRoot = l_commitment_root link,
      si_publicKey = l_supplier_public_key link, si_linkedAt = l_linked_at link\<rparr>"

definition audit_trail ::
  "VerifiedPredicate list \<Rightarrow> ProductSupplierLink list \<Rightarrow> AuditEntry list" where
  "audit_trail verifiedPredicates supplierLinks =
     order_desc ae_timestamp (map verification_entry verifiedPredicates @ map link_entry supplierLinks)"

definition composeAuthorityView ::
  "PredicateRegistry \<Rightarrow> DbEnv \<Rightarrow> Product \<Rightarrow> DppDb \<Rightarrow> thrown + DPPView" where
  "composeAuthorityView registry env product db =
     sum_bind (getVerifiedPredicates env (p_id product) db) (\<lambda>verifiedPredicates.
     sum_bind (getSupplierLinks env (p_id product) db) (\<lambda>supplierLinks.
       Inr (DPPViewAuthority (basic_info product)
         (jm_values (authority_results registry verifiedPredicates []))
         (length supplierLinks) (map supplier_info supplierLinks)
         (audit_trail verifiedPredicates supplierLinks))))"

definition composeDPPView ::
  "PredicateRegistry \<Rightarrow> DbEnv \<Rightarrow> string \<Rightarrow> AccessGroup \<Rightarrow> DppDb \<Rightarrow> thrown + DPPView option" where
  "composeDPPView registry env productId accessLevel db =
     sum_bind (getProduct env productId db) (\<lambda>found.
       case found of
         None \<Rightarrow> Inr None
       | Some product \<Rightarrow>
           (case accessLevel of
              PUBLIC \<Rightarrow> Inr (Some (composePublicView product))
            | LEGIT_INTEREST \<Rightarrow>
                sum_bind (composeLegitInterestView registry env product db) (\<lambda>v. Inr (Some v))
            | AUTHORITY \<Rightarrow>
                sum_bind (composeAuthorityView registry env product db) (\<lambda>v. Inr (Some v))))"

text \<open>\<open>ViewComposer.canAccessPredicate\<close>\<close>

definition canAccessPredicateAt ::
  "PredicateRegistry \<Rightarrow> AccessGroup \<Rightarrow> string \<Rightarrow> thrown + bool" where
  "canAccessPredicateAt registry accessLevel predicateId =
     (case getPredicateById registry predicateId of
        Undefined \<Rightarrow> Inr False
      | Inherited \<Rightarrow>
          (case accessLevel of
             PUBLIC \<Rightarrow> Inr False
           | AUTHORITY \<Rightarrow> Inr True
           | LEGIT_INTEREST \<Rightarrow>
               Inl (ThrownError ''TypeError'' ''Cannot read properties of undefined''))
      | Own predicate \<Rightarrow>
          (case accessLevel of
             PUBLIC \<Rightarrow> Inr False
           | AUTHORITY \<Rightarrow> Inr True
           | LEGIT_INTEREST \<Rightarrow> Inr (LEGIT_INTEREST \<in> set (pd_accessGroups predicate))))"

section \<open>Routes of passports\<close>

text \<open>A reply is a status with a value or an error text.\<close>

type_synonym 'a reply = "nat \<times> (string + 'a)"

definition serve_view :: "thrown + DPPView option \<Rightarrow> thrown + DPPView reply" where
  "serve_view composed =
     sum_bind composed (\<lambda>dpp.
       case dpp of
         None \<Rightarrow> Inr (404, Inl ''Product not found'')
       | Some v \<Rightarrow> Inr (200, Inr v))"

definition getPublicView ::
  "PredicateRegistry \<Rightarrow> DbEnv \<Rightarrow> string \<Rightarrow> DppDb \<Rightarrow> thrown + DPPView reply" where
  "getPublicView registry env productId db =
     serve_view (composeDPPView registry env productId PUBLIC db)"

text \<open>The two guarded routes: the preHandler runs first and may throw.\<close>

definition getGuardedView ::
  "PredicateRegistry \<Rightarrow> DbEnv \<Rightarrow> AccessGroup \<Rightarrow> HttpRequest \<Rightarrow> string \<Rightarrow> DppDb \<Rightarrow>
     thrown + DPPView reply" where
  "getGuardedView registry env level request productId db =
     sum_bind (requireDppViewAccess (de_now env) level request) (\<lambda>u.
       serve_view (composeDPPView registry env productId level db))"

definition viewTypeMap :: "(string \<times> AccessGroup) list" where
  "viewTypeMap = [(''public'', PUBLIC), (''legit-interest'', LEGIT_INTEREST), (''authority'', AUTHORITY)]"

text \<open>The handler of the generic route, after the parameter schema has been checked.\<close>

definition getViewAtLevel ::
  "PredicateRegistry \<Rightarrow> DbEnv \<Rightarrow> HttpRequest \<Rightarrow> string \<Rightarrow> string \<Rightarrow> DppDb \<Rightarrow>
     thrown + DPPView reply" where
  "getViewAtLevel registry env request level productId db =
     (if level \<notin> {''public'', ''legit-interest'', ''authority''}
      then Inr (400, Inl ''params/level must be equal to one of the allowed values'')
      else case map_of viewTypeMap (js_toLowerCase level) of
        None \<Rightarrow> Inr (400, Inl ''Invalid access level'')
      | Some accessLevel \<Rightarrow>
          if accessLevel = PUBLIC
          then serve_view (composeDPPView registry env productId accessLevel db)
          else (case req_user request of
            None \<Rightarrow> Inr (401, Inl ''Authentication required for this view'')
          | Some user \<Rightarrow>
              sum_bind (hasAnyRole (Some user) (DppViewRoles accessLevel)) (\<lambda>granted.
                if \<not> granted
                then Inr (403, Inl (''Access denied to '' @ view_name accessLevel @ '' view''))
                else serve_view (composeDPPView registry env productId accessLevel db))))"

section \<open>Routes of products\<close>

definition postProduct ::
  "DbEnv \<Rightarrow> CreateProductRequest \<Rightarrow> DppDb \<Rightarrow> Product reply \<times> DppDb" where
  "postProduct env body db =
     (case getProductBySku env (cp_sku body) db of
        Inl e \<Rightarrow> ((500, Inl ''Failed to create product''), db)
      | Inr (Some existing) \<Rightarrow> ((400, Inl ''SKU already exists''), db)
      | Inr None \<Rightarrow>
          (case createProduct env body db of
             Inl e \<Rightarrow> ((500, Inl ''Failed to create product''), db)
           | Inr (product, db') \<Rightarrow> ((201, Inr product), db')))"

definition getProducts ::
  "DbEnv \<Rightarrow> int option \<Rightarrow> int option \<Rightarrow> DppDb \<Rightarrow> thrown + Product list reply" where
  "getProducts env limit offset db =
     sum_bind (listProducts env (js_coalesce limit 100) (js_coalesce offset 0) db)
       (\<lambda>products. Inr (200, Inr products))"

definition getProductRoute :: "DbEnv \<Rightarrow> string \<Rightarrow> DppDb \<Rightarrow> thrown + Product reply" where
  "getProductRoute env key db =
     sum_bind (getProduct env key db) (\<lambda>found.
       case found of
         None \<Rightarrow> Inr (404, Inl ''Product not found'') | Some p \<Rightarrow> Inr (200, Inr p))"

definition postLinkSupplier ::
  "DbEnv \<Rightarrow> string \<Rightarrow> LinkSupplierRequest \<Rightarrow> DppDb \<Rightarrow>
     (thrown + ProductSupplierLink reply) \<times> DppDb" where
  "postLinkSupplier env key body db =
     (case getProduct env key db of
        Inl e \<Rightarrow> (Inl e, db)
      | Inr None \<Rightarrow> (Inr (404, Inl ''Product not found''), db)
      | Inr (Some product) \<Rightarrow>
          (case linkSupplier env key body db of
             Inl e \<Rightarrow> (Inr (500, Inl ''Failed to link supplier''), db)
           | Inr (link, db') \<Rightarrow> (Inr (201, Inr link), db')))"

definition postVerification ::
  "DbEnv \<Rightarrow> string \<Rightarrow> RecordVerificationRequest \<Rightarrow> DppDb \<Rightarrow>
     (thrown + VerifiedPredicate reply) \<times> DppDb" where
  "postVerification env key body db =
     (case getProduct env key db of
        Inl e \<Rightarrow> (Inl e, db)
      | Inr None \<Rightarrow> (Inr (404, Inl ''Product not found''), db)
      | Inr (Some product) \<Rightarrow>
          (case recordVerification env key body db of
             Inl e \<Rightarrow> (Inr (500, Inl ''Failed to record verification''), db)
           | Inr (v, db') \<Rightarrow> (Inr (201, Inr v), db')))"

section \<open>The subscriber\<close>

definition event_request :: "VerificationEvent \<Rightarrow> RecordVerificationRequest" where
  "event_request event =
     \<lparr>rv_predicateId = canonicalId (pl_predicateId (ev_payload event)),
      rv_receiptId = pl_receiptId (ev_payload event), rv_result = pl_result (ev_payload event),
      rv_supplierId = pl_supplierId (ev_payload event), rv_expiresAt = None\<rparr>"

fun dpp_handle :: "(DbEnv \<times> VerificationEvent, DppDb) handler" where
  "dpp_handle (env, event) db =
     (case js_or_null (pl_productBinding (ev_payload event)) of
        None \<Rightarrow> (None, db)
      | Some binding \<Rightarrow>
          (case getProductByBinding env binding db of
             Inl e \<Rightarrow> (Some e, db)
           | Inr None \<Rightarrow> (None, db)
           | Inr (Some product) \<Rightarrow>
               (case recordVerification env (p_id product) (event_request event) db of
                  Inl e \<Rightarrow> (Some e, db)
                | Inr (row, db') \<Rightarrow> (None, db'))))"

section \<open>Health\<close>

definition dppHealth :: "DbEnv \<Rightarrow> EventBus option \<Rightarrow> string \<times> bool \<times> bool" where
  "dppHealth env eventBus =
     (let dbHealthy = healthCheck env;
          natsConnected = (case eventBus of None \<Rightarrow> False | Some b \<Rightarrow> isConnected b)
      in (if dbHealthy then ''healthy'' else ''unhealthy'', dbHealthy, natsConnected))"

definition dppReady :: "DbEnv \<Rightarrow> nat \<times> bool" where
  "dppReady env = (if healthCheck env then (200, True) else (503, False))"

section \<open>Rows in order: the interface between the store and the composer\<close>

text \<open>What both loops compute when rows come latest first: the first row of each predicate.\<close>

fun first_results ::
  "(string \<Rightarrow> string option) \<Rightarrow> VerifiedPredicate list \<Rightarrow>
     (string, VerifiedPredicateInfo) js_map \<Rightarrow> (string, VerifiedPredicateInfo) js_map" where
  "first_results accept [] results = results"
| "first_results accept (vp # vps) results =
     first_results accept vps
       (case (map_of results (v_predicate_id vp), accept (v_predicate_id vp)) of
          (None, Some name) \<Rightarrow> results @ [(v_predicate_id vp, predicate_result name vp)]
        | _ \<Rightarrow> results)"

definition first_row :: "string \<Rightarrow> VerifiedPredicate list \<Rightarrow> VerifiedPredicate option" where
  "first_row pid vps = find (\<lambda>v. v_predicate_id v = pid) vps"

lemma first_results_lookup:
  "map_of (first_results accept vps results) pid =
     (case map_of results pid of
        Some i \<Rightarrow> Some i
      | None \<Rightarrow>
          (case (first_row pid vps, accept pid) of
             (Some v, Some name) \<Rightarrow> Some (predicate_result name v) | _ \<Rightarrow> None))"
proof (induction vps arbitrary: results)
  case Nil
  then show ?case by (simp add: first_row_def split: option.split)
next
  case (Cons v vs)
  show ?case
    by (cases "v_predicate_id v = pid"; cases "map_of results (v_predicate_id v)";
        cases "accept (v_predicate_id v)")
      (auto simp: Cons.IH first_row_def map_add_def split: option.splits)
qed

lemma first_results_distinct:
  "distinct (map fst results) \<Longrightarrow> distinct (map fst (first_results accept vps results))"
proof (induction vps arbitrary: results)
  case Nil
  then show ?case by simp
next
  case (Cons v vs)
  have "distinct (map fst (case (map_of results (v_predicate_id v), accept (v_predicate_id v)) of
      (None, Some name) \<Rightarrow> results @ [(v_predicate_id v, predicate_result name v)] | _ \<Rightarrow> results))"
    using Cons.prems by (auto split: option.splits simp: map_of_eq_None_iff)
  from Cons.IH [OF this] show ?case by simp
qed

definition latest_sorted :: "VerifiedPredicate list \<Rightarrow> bool" where
  "latest_sorted vps = sorted_wrt (\<lambda>a b. v_verified_at b \<le> v_verified_at a) vps"

definition results_newer ::
  "(string, VerifiedPredicateInfo) js_map \<Rightarrow> VerifiedPredicate list \<Rightarrow> bool" where
  "results_newer results vps =
     (\<forall>v \<in> set vps. \<forall>(k, i) \<in> set results. v_verified_at v \<le> vi_verifiedAt i)"

lemma supersedes_sorted:
  "results_newer results (v # vps) \<Longrightarrow> supersedes v results \<longleftrightarrow> map_of results (v_predicate_id v) = None"
  by (force simp: supersedes_def results_newer_def split: option.split dest: map_of_SomeD)

lemma results_newer_step:
  "latest_sorted (v # vps) \<Longrightarrow> results_newer results (v # vps) \<Longrightarrow>
     results_newer results vps \<and>
     results_newer (results @ [(v_predicate_id v, predicate_result name v)]) vps"
  by (auto simp: results_newer_def latest_sorted_def predicate_result_def)

lemma authority_results_first:
  "latest_sorted vps \<Longrightarrow> results_newer results vps \<Longrightarrow>
     authority_results registry vps results =
       first_results (\<lambda>pid. Some (display_name registry pid)) vps results"
proof (induction vps arbitrary: results)
  case Nil
  then show ?case by simp
next
  case (Cons v vs)
  have tail: "latest_sorted vs" using Cons.prems(1) by (simp add: latest_sorted_def)
  note new = results_newer_step [OF Cons.prems]
  show ?case
    using Cons.IH [OF tail] new supersedes_sorted [OF Cons.prems(2)]
    by (auto simp: jm_set_new split: option.split)
qed

definition legit_name :: "PredicateRegistry \<Rightarrow> string \<Rightarrow> string option" where
  "legit_name registry pid =
     (case getPredicateById registry pid of
        Own p \<Rightarrow> if LEGIT_INTEREST \<in> set (pd_accessGroups p) then Some (js_or (pd_name p) pid) else None
      | _ \<Rightarrow> None)"

definition inherited_row :: "PredicateRegistry \<Rightarrow> VerifiedPredicate \<Rightarrow> bool" where
  "inherited_row registry v = (getPredicateById registry (v_predicate_id v) = Inherited)"

lemma legit_results_first:
  "latest_sorted vps \<Longrightarrow> results_newer results vps \<Longrightarrow>
     legit_results registry vps results =
       (if \<exists>v \<in> set vps. inherited_row registry v \<and> map_of results (v_predicate_id v) = None
        then Inl (ThrownError ''TypeError'' ''Cannot read properties of undefined'')
        else Inr (first_results (legit_name registry) vps results))"
proof (induction vps arbitrary: results)
  case Nil
  then show ?case by simp
next
  case (Cons v vs)
  have tail: "latest_sorted vs" using Cons.prems(1) by (simp add: latest_sorted_def)
  note new = results_newer_step [OF Cons.prems]
  let ?results = "results @ [(v_predicate_id v, predicate_result (display_name registry (v_predicate_id v)) v)]"
  note IH = Cons.IH [OF tail] and sup = supersedes_sorted [OF Cons.prems(2)]
  show ?case
  proof (cases "map_of results (v_predicate_id v)")
    case (Some i)
    then show ?thesis using IH [of results] new sup by simp
  next
    case None
    show ?thesis
    proof (cases "getPredicateById registry (v_predicate_id v)")
      case (Own p)
      have same: "inherited_row registry w \<and> map_of ?results (v_predicate_id w) = None \<longleftrightarrow>
          inherited_row registry w \<and> map_of results (v_predicate_id w) = None" for w
        using Own by (auto simp: inherited_row_def map_add_def split: option.split)
      have name: "legit_name registry (v_predicate_id v) =
          (if LEGIT_INTEREST \<in> set (pd_accessGroups p)
           then Some (display_name registry (v_predicate_id v)) else None)"
        using Own by (simp add: legit_name_def display_name_def)
      have "\<not> inherited_row registry v" using Own by (simp add: inherited_row_def)
      then show ?thesis
        using None Own IH [of results] IH [of ?results, unfolded same] new sup
        by (cases "LEGIT_INTEREST \<in> set (pd_accessGroups p)")
          (simp_all add: jm_set_new name)
    next
      case Inherited
      then show ?thesis using None sup by (simp add: inherited_row_def)
    next
      case Undefined
      then have "legit_name registry (v_predicate_id v) = None" and "\<not> inherited_row registry v"
        by (simp_all add: legit_name_def inherited_row_def)
      then show ?thesis using None Undefined IH [of results] new sup by simp
    qed
  qed
qed

locale latest_first =
  fixes rows :: "'q \<Rightarrow> 's \<Rightarrow> VerifiedPredicate list"
  assumes rows_sorted: "latest_sorted (rows q s)"
begin

lemma first_is_latest:
  "first_row pid (rows q s) = Some v \<Longrightarrow>
     v \<in> set (rows q s) \<and> v_predicate_id v = pid \<and>
     (\<forall>w \<in> set (rows q s). v_predicate_id w = pid \<longrightarrow> v_verified_at w \<le> v_verified_at v)"
proof -
  assume "first_row pid (rows q s) = Some v"
  then obtain i where i: "i < length (rows q s)" "rows q s ! i = v" "v_predicate_id v = pid"
    and first: "\<forall>j < i. v_predicate_id (rows q s ! j) \<noteq> pid"
    by (auto simp: first_row_def find_Some_iff)
  have "v_verified_at w \<le> v_verified_at v" if "w \<in> set (rows q s)" "v_predicate_id w = pid" for w
  proof -
    from that obtain j where j: "j < length (rows q s)" "rows q s ! j = w"
      by (auto simp: in_set_conv_nth)
    with first that(2) have "i = j \<or> i < j" by (metis linorder_neqE_nat)
    with i j rows_sorted [of q s] show ?thesis
      by (auto simp: latest_sorted_def sorted_wrt_iff_nth_less)
  qed
  with i show ?thesis by (metis nth_mem)
qed

lemma first_none: "first_row pid (rows q s) = None \<longleftrightarrow> (\<forall>w \<in> set (rows q s). v_predicate_id w \<noteq> pid)"
  by (auto simp: first_row_def find_None_iff)

lemma legit_rows:
  "legit_results registry (rows q s) [] = Inr results \<Longrightarrow>
     results = first_results (legit_name registry) (rows q s) []"
  using legit_results_first [of "rows q s" "[]" registry]
  by (simp add: rows_sorted results_newer_def split: if_splits)

lemma authority_rows:
  "authority_results registry (rows q s) [] =
     first_results (\<lambda>pid. Some (display_name registry pid)) (rows q s) []"
  by (rule authority_results_first) (simp_all add: rows_sorted results_newer_def)

lemma result_iff:
  "i \<in> set (jm_values (first_results accept (rows q s) [])) \<longleftrightarrow>
     (\<exists>v name. first_row (v_predicate_id v) (rows q s) = Some v \<and> accept (v_predicate_id v) = Some name \<and>
        i = predicate_result name v)"
proof -
  let ?m = "first_results accept (rows q s) []"
  have "i \<in> set (jm_values ?m) \<longleftrightarrow> (\<exists>k. map_of ?m k = Some i)"
    using first_results_distinct [of "[]" accept "rows q s"]
    by (force simp: jm_values_def map_of_eq_Some_iff)
  also have "\<dots> \<longleftrightarrow> (\<exists>k v name. first_row k (rows q s) = Some v \<and> accept k = Some name \<and>
      i = predicate_result name v)"
  proof -
    have "map_of ?m k = Some i \<longleftrightarrow> (\<exists>v name. first_row k (rows q s) = Some v \<and>
        accept k = Some name \<and> i = predicate_result name v)" for k
      by (cases "first_row k (rows q s)"; cases "accept k") (auto simp: first_results_lookup)
    then show ?thesis by blast
  qed
  also have "\<dots> \<longleftrightarrow> (\<exists>v name. first_row (v_predicate_id v) (rows q s) = Some v \<and>
      accept (v_predicate_id v) = Some name \<and> i = predicate_result name v)"
    using first_is_latest by blast
  finally show ?thesis .
qed

lemma result_ids:
  "set (map vi_predicateId (jm_values (first_results accept (rows q s) []))) =
     {k \<in> v_predicate_id ` set (rows q s). accept k \<noteq> None}"
proof (intro set_eqI iffI)
  fix k assume "k \<in> set (map vi_predicateId (jm_values (first_results accept (rows q s) [])))"
  then obtain v name where "first_row (v_predicate_id v) (rows q s) = Some v"
    and "accept (v_predicate_id v) = Some name" and "k = v_predicate_id v"
    by (auto simp: result_iff predicate_result_def)
  then show "k \<in> {k \<in> v_predicate_id ` set (rows q s). accept k \<noteq> None}"
    using first_is_latest [of "v_predicate_id v" q s v] by auto
next
  fix k assume "k \<in> {k \<in> v_predicate_id ` set (rows q s). accept k \<noteq> None}"
  then obtain name where "accept k = Some name" and "k \<in> v_predicate_id ` set (rows q s)" by auto
  moreover from this(2) first_none [of k q s] obtain w where "first_row k (rows q s) = Some w"
    by fastforce
  moreover from this have "v_predicate_id w = k" using first_is_latest by blast
  ultimately have "predicate_result name w \<in> set (jm_values (first_results accept (rows q s) []))"
    unfolding result_iff by (intro exI [of _ w] exI [of _ name]) simp
  moreover have "vi_predicateId (predicate_result name w) = k"
    using \<open>v_predicate_id w = k\<close> by (simp add: predicate_result_def)
  ultimately show "k \<in> set (map vi_predicateId (jm_values (first_results accept (rows q s) [])))"
    by (metis image_eqI list.set_map)
qed

end

text \<open>The rows the store answers with, without the ways the statement can fail.\<close>

definition current_rows :: "time_ms \<times> string \<Rightarrow> DppDb \<Rightarrow> VerifiedPredicate list" where
  "current_rows q db =
     order_desc v_verified_at
       (filter (\<lambda>v. v_product_id v = snd q \<and> unexpired (fst q) v) (verifs db))"

lemma getVerifiedPredicates_rows:
  "getVerifiedPredicates env pid db =
     db_query (de_up env) (with_uuid env pid (\<lambda>u. Inr (current_rows (de_now env, u) db)))"
  by (simp add: getVerifiedPredicates_def current_rows_def)

interpretation store: latest_first current_rows
  by unfold_locales (simp add: current_rows_def latest_sorted_def order_desc_sorted)

lemma first_results_infos_distinct:
  "distinct (map vi_predicateId (jm_values (first_results accept vps [])))"
proof -
  have "(k, i) \<in> set results \<longrightarrow> vi_predicateId i = k" if "results = first_results accept vps []" for k i results
    using that first_results_distinct [of "[]" accept vps]
    by (auto simp: first_results_lookup first_row_def predicate_result_def find_Some_iff
        dest!: map_of_is_SomeI [rotated] split: option.splits)
  then have "map vi_predicateId (jm_values (first_results accept vps [])) =
      map fst (first_results accept vps [])"
    by (auto simp: jm_values_def)
  then show ?thesis using first_results_distinct [of "[]" accept vps] by simp
qed

section \<open>Properties of the views\<close>

definition latest_of :: "VerifiedPredicate list \<Rightarrow> VerifiedPredicate \<Rightarrow> bool" where
  "latest_of rows v =
     (v \<in> set rows \<and>
      list_all (\<lambda>w. v_predicate_id w \<noteq> v_predicate_id v \<or> v_verified_at w \<le> v_verified_at v) rows)"

lemma first_row_latest:
  "first_row pid (current_rows q db) = Some v \<Longrightarrow> latest_of (current_rows q db) v \<and> v_predicate_id v = pid"
  using store.first_is_latest [of pid q db v] by (auto simp: latest_of_def list_all_iff)

lemma compose_Some_product:
  assumes "composeDPPView registry env key level db = Inr (Some view)"
  obtains product u where "de_up env" "de_readUuid env key = Some u"
    "row_by p_id u (products db) = Some product" "p_id product = u"
  using assms
  by (auto simp: composeDPPView_def inr_iff getProduct_def with_uuid_def
      split: option.splits dest: row_by_Some intro: that)

lemma compose_legit_Inr:
  assumes "composeDPPView registry env key LEGIT_INTEREST db = Inr (Some (DPPViewLegitInterest b infos n))"
  obtains product u where "row_by p_id (p_id product) (products db) = Some product"
    and "de_readUuid env key = Some (p_id product)"
    and "de_readUuid env (p_id product) = Some u" and "b = basic_info product"
    and "infos = jm_values (first_results (legit_name registry) (current_rows (de_now env, u) db) [])"
    and "n = length (filter (\<lambda>l. l_product_id l = u \<and> l_active l) (links db))"
proof -
  obtain product u0 where p: "de_up env" "de_readUuid env key = Some u0"
      "row_by p_id u0 (products db) = Some product" "p_id product = u0"
    using assms by (rule compose_Some_product)
  then have "getProduct env key db = Inr (Some product)"
    by (simp add: getProduct_def with_uuid_def)
  with assms have "composeLegitInterestView registry env product db =
      Inr (DPPViewLegitInterest b infos n)"
    by (simp add: composeDPPView_def inr_iff)
  then obtain u results where "de_readUuid env (p_id product) = Some u"
    and r: "legit_results registry (current_rows (de_now env, u) db) [] = Inr results"
    and "b = basic_info product" "infos = jm_values results"
    and "n = length (filter (\<lambda>l. l_product_id l = u \<and> l_active l) (links db))"
    using p(1)
    by (auto simp: composeLegitInterestView_def inr_iff getVerifiedPredicates_rows
        getSupplierLinks_def with_uuid_def split: option.splits)
  with p store.legit_rows [OF r] show ?thesis by (intro that) auto
qed

text \<open>C9: the legitimate-interest view lists each predicate once; every entry is the latest
  unexpired verification of a registered predicate whose definition admits that group, and every
  such predicate that has an unexpired verification is listed.\<close>

theorem legit_view_latest:
  assumes "composeDPPView registry env key LEGIT_INTEREST db = Inr (Some (DPPViewLegitInterest b infos n))"
  shows "\<exists>u. (\<exists>p \<in> set (products db). b = basic_info p \<and> de_readUuid env (p_id p) = Some u) \<and>
    distinct (map vi_predicateId infos) \<and>
    list_all (\<lambda>i. \<exists>v p. latest_of (current_rows (de_now env, u) db) v \<and>
        getPredicateById registry (v_predicate_id v) = Own p \<and>
        LEGIT_INTEREST \<in> set (pd_accessGroups p) \<and> vi_predicateId i = v_predicate_id v \<and>
        vi_result i = v_result v \<and> vi_verifiedAt i = v_verified_at v) infos \<and>
    list_all (\<lambda>v. (case getPredicateById registry (v_predicate_id v) of
          Own p \<Rightarrow> LEGIT_INTEREST \<notin> set (pd_accessGroups p) | _ \<Rightarrow> True) \<or>
        v_predicate_id v \<in> set (map vi_predicateId infos)) (current_rows (de_now env, u) db) \<and>
    n = length (filter (\<lambda>l. l_product_id l = u \<and> l_active l) (links db))"
proof -
  obtain product u where p: "row_by p_id (p_id product) (products db) = Some product"
    and k: "de_readUuid env key = Some (p_id product)"
    and u: "de_readUuid env (p_id product) = Some u" and b: "b = basic_info product"
    and infos: "infos = jm_values (first_results (legit_name registry) (current_rows (de_now env, u) db) [])"
    and n: "n = length (filter (\<lambda>l. l_product_id l = u \<and> l_active l) (links db))"
    by (rule compose_legit_Inr [OF assms])
  let ?rows = "current_rows (de_now env, u) db"
  have granted: "\<exists>p. getPredicateById registry pid = Own p \<and> LEGIT_INTEREST \<in> set (pd_accessGroups p)"
    if "legit_name registry pid = Some name" for pid name
    using that by (auto simp: legit_name_def split: js_prop.splits if_splits)
  have entries: "list_all (\<lambda>i. \<exists>v p. latest_of ?rows v \<and>
        getPredicateById registry (v_predicate_id v) = Own p \<and>
        LEGIT_INTEREST \<in> set (pd_accessGroups p) \<and> vi_predicateId i = v_predicate_id v \<and>
        vi_result i = v_result v \<and> vi_verifiedAt i = v_verified_at v) infos"
    unfolding list_all_iff infos
  proof (intro ballI)
    fix i assume "i \<in> set (jm_values (first_results (legit_name registry) ?rows []))"
    then obtain v name where v: "first_row (v_predicate_id v) ?rows = Some v"
      and name: "legit_name registry (v_predicate_id v) = Some name" and i: "i = predicate_result name v"
      unfolding store.result_iff by blast
    from granted [OF name] obtain p where "getPredicateById registry (v_predicate_id v) = Own p"
      and "LEGIT_INTEREST \<in> set (pd_accessGroups p)" by blast
    with first_row_latest [OF v] show "\<exists>v p. latest_of ?rows v \<and>
        getPredicateById registry (v_predicate_id v) = Own p \<and>
        LEGIT_INTEREST \<in> set (pd_accessGroups p) \<and> vi_predicateId i = v_predicate_id v \<and>
        vi_result i = v_result v \<and> vi_verifiedAt i = v_verified_at v"
      by (intro exI [of _ v] exI [of _ p]) (simp add: i predicate_result_def)
  qed
  have complete: "list_all (\<lambda>v. (case getPredicateById registry (v_predicate_id v) of
          Own p \<Rightarrow> LEGIT_INTEREST \<notin> set (pd_accessGroups p) | _ \<Rightarrow> True) \<or>
        v_predicate_id v \<in> set (map vi_predicateId infos)) ?rows"
    unfolding infos store.result_ids
    by (auto simp: list_all_iff legit_name_def split: js_prop.split)
  have "product \<in> set (products db)" using row_by_Some [OF p] by blast
  then show ?thesis
    using entries complete b u n
    by (intro exI [of _ u] conjI bexI [of _ product])
      (simp_all only: infos first_results_infos_distinct)
qed

text \<open>A passport with two verifications of one predicate.\<close>

definition demo_db_env :: DbEnv where
  "demo_db_env = \<lparr>de_up = True, de_uuid = ''u9'', de_now = 100, de_readUuid = Some,
     de_readTime = (\<lambda>s. None), de_sha256 = (\<lambda>s. ''h:'' @ s)\<rparr>"

definition demo_product :: Product where
  "demo_product = \<lparr>p_id = ''u1'', p_sku = ''S'', p_name = ''N'', p_description = None,
     p_category = ''C'', p_metadata = ''{}'', p_created_at = 1, p_updated_at = 1\<rparr>"

definition demo_verif :: "string \<Rightarrow> time_ms \<Rightarrow> bool \<Rightarrow> VerifiedPredicate" where
  "demo_verif key t res = \<lparr>v_id = key, v_product_id = ''u1'', v_supplier_id = ''s'',
     v_predicate_id = ''CERT_VALID_V1'', v_receipt_id = ''r'', v_result = res, v_verified_at = t,
     v_expires_at = None\<rparr>"

definition demo_db :: DppDb where
  "demo_db = \<lparr>products = [demo_product], links = [],
     verifs = [demo_verif ''v1'' 10 False, demo_verif ''v2'' 20 True]\<rparr>"

lemmas demo_db_defs = demo_db_env_def demo_product_def demo_verif_def demo_db_def

lemma cert_valid_own: "\<exists>p. getPredicateById predicates_json ''CERT_VALID_V1'' = Own p \<and>
    LEGIT_INTEREST \<in> set (pd_accessGroups p) \<and> pd_name p = ''CERT_VALID''"
  by (simp add: getPredicateById_def getPredicate_def js_lookup_def predicates_json_def)

lemma demo_rows: "current_rows (100, ''u1'') demo_db = [demo_verif ''v2'' 20 True, demo_verif ''v1'' 10 False]"
  by (simp add: current_rows_def demo_db_def demo_verif_def unexpired_def order_desc_def)

lemma demo_legit:
  "\<exists>infos. composeDPPView predicates_json demo_db_env ''u1'' LEGIT_INTEREST demo_db =
     Inr (Some (DPPViewLegitInterest (basic_info demo_product) infos 0))"
proof -
  from cert_valid_own obtain p where p: "getPredicateById predicates_json ''CERT_VALID_V1'' = Own p"
    "LEGIT_INTEREST \<in> set (pd_accessGroups p)" by blast
  then have "\<exists>results. legit_results predicates_json (current_rows (100, ''u1'') demo_db) [] = Inr results"
    unfolding demo_rows by (simp add: supersedes_def demo_verif_def jm_set_def predicate_result_def)
  moreover have "getSupplierLinks demo_db_env ''u1'' demo_db = Inr []"
    by (simp add: getSupplierLinks_def with_uuid_def demo_db_env_def demo_db_def order_desc_def)
  moreover have "getVerifiedPredicates demo_db_env ''u1'' demo_db = Inr (current_rows (100, ''u1'') demo_db)"
    by (simp add: getVerifiedPredicates_rows with_uuid_def demo_db_env_def)
  moreover have "getProduct demo_db_env ''u1'' demo_db = Inr (Some demo_product)"
    by (simp add: getProduct_def with_uuid_def demo_db_env_def demo_db_def row_by_def demo_product_def)
  ultimately show ?thesis
    by (auto simp: composeDPPView_def composeLegitInterestView_def demo_product_def)
qed

theorem legit_view_latest_witness:
  "\<exists>infos. composeDPPView predicates_json demo_db_env ''u1'' LEGIT_INTEREST demo_db =
     Inr (Some (DPPViewLegitInterest (basic_info demo_product) infos 0)) \<and>
     distinct (map vi_predicateId infos) \<and> list_all (\<lambda>i. vi_result i \<and> vi_verifiedAt i = 20) infos"
proof -
  obtain infos where c: "composeDPPView predicates_json demo_db_env ''u1'' LEGIT_INTEREST demo_db =
     Inr (Some (DPPViewLegitInterest (basic_info demo_product) infos 0))" using demo_legit by blast
  from legit_view_latest [OF c] have d: "distinct (map vi_predicateId infos)"
    and l: "list_all (\<lambda>i. \<exists>v. latest_of (current_rows (100, ''u1'') demo_db) v \<and>
        vi_result i = v_result v \<and> vi_verifiedAt i = v_verified_at v) infos"
    by (auto simp: demo_db_env_def demo_db_def demo_product_def list_all_iff)
  have "latest_of (current_rows (100, ''u1'') demo_db) v \<Longrightarrow> v_result v \<and> v_verified_at v = 20" for v
    unfolding demo_rows by (auto simp: latest_of_def demo_verif_def)
  with l have "list_all (\<lambda>i. vi_result i \<and> vi_verifiedAt i = 20) infos"
    by (auto simp: list_all_iff)
  with c d show ?thesis by blast
qed

text \<open>What neither the public nor the legitimate-interest view may depend on.\<close>

definition redact_row :: "VerifiedPredicate \<Rightarrow> VerifiedPredicate" where
  "redact_row v = v\<lparr>v_supplier_id := [], v_receipt_id := []\<rparr>"

definition redact_link :: "ProductSupplierLink \<Rightarrow> ProductSupplierLink" where
  "redact_link l = l\<lparr>l_supplier_id := [], l_commitment_root := [], l_supplier_public_key := []\<rparr>"

definition redact :: "DppDb \<Rightarrow> DppDb" where
  "redact db = db\<lparr>links := map redact_link (links db), verifs := map redact_row (verifs db)\<rparr>"

lemma redact_row_simps [simp]:
  "v_predicate_id (redact_row v) = v_predicate_id v" "v_verified_at (redact_row v) = v_verified_at v"
  "v_product_id (redact_row v) = v_product_id v" "unexpired t (redact_row v) = unexpired t v"
  "supersedes (redact_row v) results = supersedes v results"
  "predicate_result name (redact_row v) = predicate_result name v"
  by (simp_all add: redact_row_def unexpired_def supersedes_def predicate_result_def split: option.split)

lemma legit_results_redacted:
  "legit_results registry (map redact_row vps) results = legit_results registry vps results"
  by (induction vps arbitrary: results) (simp_all split: js_prop.split)

lemma current_rows_redacted: "current_rows q (redact db) = map redact_row (current_rows q db)"
  by (simp add: current_rows_def redact_def filter_map comp_def order_desc_map)

text \<open>C11: the public view depends on the product alone, and the legitimate-interest view does
  not change when supplier identities, receipt identifiers, commitment roots and public keys are
  erased from the database: neither discloses any of them.\<close>

theorem views_disclose_nothing_more:
  "composeDPPView registry env key LEGIT_INTEREST (redact db) =
     composeDPPView registry env key LEGIT_INTEREST db \<and>
   composeDPPView registry env key PUBLIC (db\<lparr>links := [], verifs := []\<rparr>) =
     composeDPPView registry env key PUBLIC db"
proof -
  have same: "products (redact db) = products db" by (simp add: redact_def)
  have links: "map_sum id length (getSupplierLinks env k (redact db)) = map_sum id length (getSupplierLinks env k db)" for k
    by (simp add: getSupplierLinks_def redact_def db_query_def with_uuid_def filter_map comp_def
        redact_link_def split: option.split)
  have "composeLegitInterestView registry env p (redact db) = composeLegitInterestView registry env p db" for p
    using links [of "p_id p"]
    by (cases "getSupplierLinks env (p_id p) db"; cases "getSupplierLinks env (p_id p) (redact db)")
      (simp_all add: composeLegitInterestView_def getVerifiedPredicates_rows current_rows_redacted
        legit_results_redacted db_query_def with_uuid_def sum_bind_def split: option.split sum.split)
  then show ?thesis
    by (simp add: composeDPPView_def getProduct_def same sum_bind_def split: sum.split option.split)
qed



section \<open>Properties of the routes\<close>

lemma compose_level:
  "composeDPPView registry env key level db = Inr (Some view) \<Longrightarrow> view_accessLevel view = level"
  by (cases level) (auto simp: composeDPPView_def composePublicView_def composeLegitInterestView_def
      composeAuthorityView_def inr_iff split: option.splits)

lemma serve_view_200:
  "serve_view composed = Inr (200, Inr view) \<longleftrightarrow> composed = Inr (Some view)"
  by (auto simp: serve_view_def inr_iff split: option.splits)

lemma lower_levels:
  "js_toLowerCase ''public'' = ''public''" "js_toLowerCase ''legit-interest'' = ''legit-interest''"
  "js_toLowerCase ''authority'' = ''authority''"
  by (simp_all add: js_toLowerCase_def lower_char_def)

lemma viewTypeMap_entries:
  "map_of viewTypeMap ''public'' = Some PUBLIC"
  "map_of viewTypeMap ''legit-interest'' = Some LEGIT_INTEREST"
  "map_of viewTypeMap ''authority'' = Some AUTHORITY"
  by (simp_all add: viewTypeMap_def)

text \<open>C10: whichever route serves it, a passport view beyond the public one reaches only a request
  whose user holds a role the tier admits, and it is a view of the tier that was asked for.\<close>

theorem served_view_authorized:
  assumes "ordinary_roles (roles_of_request (req_user request))"
    and "getGuardedView registry env level request key db = Inr (200, Inr view) \<or>
         getViewAtLevel registry env request name key db = Inr (200, Inr view) \<and>
           map_of viewTypeMap name = Some level"
  shows "view_accessLevel view = level \<and>
    (level = PUBLIC \<or> req_user request \<noteq> None \<and> view_granted level (roles_of_request (req_user request)))"
  using assms(2)
proof
  assume g: "getGuardedView registry env level request key db = Inr (200, Inr view)"
  then have "requireDppViewAccess (de_now env) level request = Inr ()"
    and c: "composeDPPView registry env key level db = Inr (Some view)"
    by (auto simp: getGuardedView_def inr_iff serve_view_200)
  with compose_level [OF c] assms(1) show ?thesis
    using requireDppViewAccess_user [of request _ "de_now env" level]
      requireDppViewAccess_anonymous [of request "de_now env" level]
    by (cases "req_user request") (auto simp: roles_of_request_def)
next
  assume g: "getViewAtLevel registry env request name key db = Inr (200, Inr view) \<and>
    map_of viewTypeMap name = Some level"
  then have "name \<in> {''public'', ''legit-interest'', ''authority''}"
    by (auto simp: getViewAtLevel_def split: if_splits)
  then have m: "map_of viewTypeMap (js_toLowerCase name) = Some level"
    using g by (elim insertE emptyE) (simp_all only: lower_levels)
  show ?thesis
  proof (cases "level = PUBLIC")
    case True
    with g m show ?thesis
      by (auto simp: getViewAtLevel_def serve_view_200 dest: compose_level split: if_splits)
  next
    case False
    with g m obtain u where u: "req_user request = Some u"
      and h: "hasAnyRole (Some u) (DppViewRoles level) = Inr True"
      and c: "composeDPPView registry env key level db = Inr (Some view)"
      by (auto simp: getViewAtLevel_def inr_iff serve_view_200 split: if_splits option.splits)
    from u assms(1) have "ordinary_roles (user_roles u)" by (simp add: roles_of_request_def)
    with h hasAnyRole_view [of u level] have "view_granted level (user_roles u)" by simp
    with u compose_level [OF c] show ?thesis by (simp add: roles_of_request_def)
  qed
qed

theorem served_view_authorized_witness:
  "\<exists>view. getGuardedView predicates_json demo_db_env LEGIT_INTEREST (demo_request [''brand'']) ''u1'' demo_db
     = Inr (200, Inr view) \<and> view_accessLevel view = LEGIT_INTEREST"
proof -
  obtain view where "composeDPPView predicates_json demo_db_env ''u1'' LEGIT_INTEREST demo_db = Inr (Some view)"
    using demo_legit by blast
  moreover have "requireDppViewAccess (de_now demo_db_env) LEGIT_INTEREST (demo_request [''brand'']) = Inr ()"
    using brand_ordinary requireDppViewAccess_user [of "demo_request [''brand'']"]
    by (simp add: demo_request_def roles_of_request_def view_granted_def)
  ultimately have "getGuardedView predicates_json demo_db_env LEGIT_INTEREST (demo_request [''brand'']) ''u1'' demo_db
      = Inr (200, Inr view)"
    by (simp add: getGuardedView_def serve_view_def)
  with served_view_authorized [OF brand_ordinary disjI1] show ?thesis by blast
qed

text \<open>Everything that changes the database, in any order.\<close>

datatype dpp_op =
    PostProduct DbEnv CreateProductRequest
  | UpdateProduct DbEnv string ProductUpdates
  | PostLink DbEnv string LinkSupplierRequest
  | DeactivateLink DbEnv string
  | PostVerification DbEnv string RecordVerificationRequest
  | Deliver DbEnv VerificationEvent

definition committed :: "thrown + 'a \<times> DppDb \<Rightarrow> DppDb \<Rightarrow> DppDb" where
  "committed r db = (case r of Inl e \<Rightarrow> db | Inr (x, db') \<Rightarrow> db')"

fun dpp_step :: "dpp_op \<Rightarrow> DppDb \<Rightarrow> DppDb" where
  "dpp_step (PostProduct env body) db = snd (postProduct env body db)"
| "dpp_step (UpdateProduct env key updates) db = committed (updateProduct env key updates db) db"
| "dpp_step (PostLink env key body) db = snd (postLinkSupplier env key body db)"
| "dpp_step (DeactivateLink env key) db = committed (deactivateSupplierLink env key db) db"
| "dpp_step (PostVerification env key body) db = snd (postVerification env key body db)"
| "dpp_step (Deliver env event) db = snd (dpp_handle (env, event) db)"

definition dpp_run :: "dpp_op list \<Rightarrow> DppDb \<Rightarrow> DppDb" where
  "dpp_run ops db = fold dpp_step ops db"

lemma dpp_step_wf: "db_wf db \<Longrightarrow> db_wf (dpp_step op db)"
  by (cases op)
    (auto simp: postProduct_def postLinkSupplier_def postVerification_def committed_def
      split: sum.split option.split
      intro: createProduct_wf linkSupplier_wf recordVerification_wf updateProduct_wf deactivate_wf)

lemma dpp_run_wf: "db_wf db \<Longrightarrow> db_wf (dpp_run ops db)"
  unfolding dpp_run_def by (induction ops arbitrary: db) (simp_all add: dpp_step_wf)


text \<open>Creating a product: 201 stores a row with the request's fields under a fresh SKU, which
  is then the row found by that SKU; 400 means the SKU is taken; in every other case the answer is
  500 and the database is as before.\<close>

lemma postProduct_cases:
  "case postProduct env body db of
      ((status, Inr row), db') \<Rightarrow> status = 201 \<and> db' = db\<lparr>products := products db @ [row]\<rparr> \<and>
        p_sku row = cp_sku body \<and> cp_sku body \<notin> p_sku ` set (products db) \<and>
        getProductBySku env (cp_sku body) db' = Inr (Some row)
    | ((status, Inl msg), db') \<Rightarrow> db' = db \<and>
        (status = 400 \<and> msg = ''SKU already exists'' \<and> cp_sku body \<in> p_sku ` set (products db) \<or>
         status = 500 \<and> msg = ''Failed to create product'')"
proof (cases "getProductBySku env (cp_sku body) db")
  case (Inl e)
  then show ?thesis by (simp add: postProduct_def)
next
  case (Inr found)
  then have up: "de_up env" and found: "found = row_by p_sku (cp_sku body) (products db)"
    by (auto simp: getProductBySku_def inr_iff)
  show ?thesis
  proof (cases found)
    case None
    with found have none: "row_by p_sku (cp_sku body) (products db) = None" by simp
    show ?thesis
    proof (cases "createProduct env body db")
      case (Inl e)
      then show ?thesis using Inr None by (simp add: postProduct_def)
    next
      case (Inr r)
      obtain row db' where r: "r = (row, db')" by (cases r)
      from createProduct_Inr [OF Inr [unfolded r]] none up
      show ?thesis
        using Inr r None \<open>getProductBySku env (cp_sku body) db = Inr found\<close>
        by (auto simp: postProduct_def getProductBySku_def row_by_append)
    qed
  next
    case (Some p)
    with found have "cp_sku body \<in> p_sku ` set (products db)"
      using row_by_Some [of p_sku "cp_sku body" "products db" p] by force
    with Some Inr show ?thesis by (simp add: postProduct_def)
  qed
qed

section \<open>Properties of the subscriber\<close>

fun dpp_reflected :: "DppDb \<Rightarrow> DbEnv \<times> VerificationEvent \<Rightarrow> bool" where
  "dpp_reflected db (env, event) =
     (case js_or_null (pl_productBinding (ev_payload event)) of
        None \<Rightarrow> True
      | Some binding \<Rightarrow>
          row_by (product_binding env) binding (products db) = None \<or>
          (\<exists>v \<in> set (verifs db).
             v_receipt_id v = pl_receiptId (ev_payload event) \<and>
             v_predicate_id v = canonicalId (pl_predicateId (ev_payload event)) \<and>
             v_result v = pl_result (ev_payload event) \<and>
             (\<exists>p \<in> set (products db). product_binding env p = binding \<and>
                de_readUuid env (p_id p) = Some (v_product_id v))))"

lemma dpp_handle_frame:
  "products (snd (dpp_handle (env, event) db)) = products db \<and>
   set (verifs db) \<subseteq> set (verifs (snd (dpp_handle (env, event) db)))"
  by (auto split: option.split sum.split dest!: recordVerification_Inr)

lemma dpp_handle_success:
  assumes "dpp_handle (env, event) db = (None, db')"
  shows "dpp_reflected db' (env, event)"
proof (cases "js_or_null (pl_productBinding (ev_payload event))")
  case None
  then show ?thesis by simp
next
  case (Some binding)
  show ?thesis
  proof (cases "row_by (product_binding env) binding (products db)")
    case None
    then show ?thesis using dpp_handle_frame [of env event db] assms Some by auto
  next
    case (Some p)
    with \<open>js_or_null _ = Some binding\<close> assms obtain row where
      "recordVerification env (p_id p) (event_request event) db = Inr (row, db')"
      by (auto simp: getProductByBinding_def db_query_def split: if_splits sum.splits)
    note rec = recordVerification_Inr [OF this]
    from row_by_Some [OF Some] rec have "p \<in> set (products db')" "product_binding env p = binding"
      "row \<in> set (verifs db')" "de_readUuid env (p_id p) = Some (v_product_id row)" by auto
    then show ?thesis
      using rec \<open>js_or_null _ = Some binding\<close> by (auto simp: event_request_def)
  qed
qed

interpretation dpp: acking_handler dpp_handle dpp_reflected
proof unfold_locales
  fix db :: DppDb and d d' :: "DbEnv \<times> VerificationEvent"
  assume r: "dpp_reflected db d"
  obtain env event where d: "d = (env, event)" by (cases d)
  show "dpp_reflected (snd (dpp_handle d' db)) d"
    using r dpp_handle_frame [of "fst d'" "snd d'" db]
    by (auto simp: d split: option.splits)
next
  fix d :: "DbEnv \<times> VerificationEvent" and db db' :: DppDb
  assume "dpp_handle d db = (None, db')"
  then show "dpp_reflected db' d" by (cases d) (auto dest: dpp_handle_success simp del: dpp_handle.simps dpp_reflected.simps)
qed

text \<open>Of the events delivered to the passport builder, every one that is acknowledged and
  whose binding belongs to a product has a verification row of that product with its receipt,
  predicate and result at the end of the run.\<close>

lemma acknowledged_event_recorded:
  assumes "(msg, Ack) \<in> set (zip msgs (fst (process_messages parse dpp_handle msgs db)))"
    and "parse msg = Some (env, event)"
    and "pl_productBinding (ev_payload event) = Some binding" and "js_truthy binding"
    and "row_by (product_binding env) binding (products (snd (process_messages parse dpp_handle msgs db))) = Some p"
  shows "\<exists>v. v \<in> set (verifs (snd (process_messages parse dpp_handle msgs db))) \<and>
    v_receipt_id v = pl_receiptId (ev_payload event) \<and>
    v_predicate_id v = canonicalId (pl_predicateId (ev_payload event)) \<and>
    v_result v = pl_result (ev_payload event)"
proof -
  from dpp.acked_reflected [OF assms(1,2)]
  have "dpp_reflected (snd (process_messages parse dpp_handle msgs db)) (env, event)" .
  with assms(3-5) show ?thesis by (auto simp: js_or_null_def)
qed

definition demo_event :: VerificationEvent where
  "demo_event = \<lparr>ev_eventId = ''e'', ev_eventType = ''proofs.verified'', ev_timestamp = 50,
     ev_payload = \<lparr>pl_receiptId = ''r7'', pl_predicateId = \<lparr>pid_name = ''CERT_VALID'', pid_version = ''V1''\<rparr>,
       pl_supplierId = ''s'', pl_requesterId = ''b'', pl_productBinding = Some ''h:product:u1'',
       pl_result = True, pl_commitmentRoot = None\<rparr>, ev_gatewayId = None\<rparr>"

lemma demo_delivery:
  "process_messages Some dpp_handle [(demo_db_env, demo_event)] demo_db =
     ([Ack], demo_db\<lparr>verifs := verifs demo_db @ [\<lparr>v_id = ''u9'', v_product_id = ''u1'', v_supplier_id = ''s'',
       v_predicate_id = ''CERT_VALID_V1'', v_receipt_id = ''r7'', v_result = True, v_verified_at = 100,
       v_expires_at = None\<rparr>]\<rparr>)"
  by (simp add: process_message_def demo_event_def demo_db_defs js_or_null_def js_truthy_def
      getProductByBinding_def row_by_def product_binding_def recordVerification_def event_request_def
      with_uuid_def expiry_def canonicalId_def fits_def Let_def)

end
