(* ===== verification/Evm.thy ===== *)
theory Evm
  imports Prelude "HOL-Library.Word"
begin

text \<open>
  What the three Solidity contracts of \<open>src/contracts\<close> share: machine words, the arithmetic of
  Solidity 0.8 (an operation whose result does not fit reverts), the transaction context, and
  the code they import. OpenZeppelin's \<open>Ownable\<close>, \<open>Pausable\<close> and \<open>ReentrancyGuard\<close> and the
  payment token are third-party: the first is the record \<open>openzeppelin\<close> over a base state of
  its own, the second the record \<open>erc20\<close> over the state of the tokens. A token call returns the
  tokens' state only, so a token that calls back into the contract is not represented.

  A call that reverts is \<^const>\<open>Inl\<close> of its error and leaves no state behind; a call that returns is
  \<^const>\<open>Inr\<close> of the new state. The events a contract emits are kept in its state, oldest first;
  the locale \<open>journalled\<close> is the one way in which the contracts' books are shown to balance.
\<close>

type_synonym uint256 = "256 word"
type_synonym bytes32 = "256 word"
type_synonym address = "160 word"

datatype evm_revert =
    StatementAlreadyExists bytes32
  | StatementNotFound bytes32
  | InvalidSupplierAddress
  | InvalidAmount
  | StatementNotSubmitted bytes32
  | DisputeWindowNotPassed bytes32 uint256
  | StatementAlreadyFinalized bytes32
  | StatementDisputedError bytes32
  | NotSupplier bytes32 address
  | DisputeWindowPassed bytes32
  | NothingToClaim
  | InvalidDisputeWindow
  | BrandInsufficientBalance address uint256 uint256
  | InvalidAddress
  | ReceiptAlreadyRecorded bytes32
  | NotSettlementContract address
  | SettlementContractNotSet
  | InsufficientPendingAmount address uint256 uint256
  | FeesTooHigh uint256 uint256
  | ArithmeticPanic
  | ImportedRevert string

record TxContext =
  msg_sender :: address
  block_timestamp :: uint256
  this_address :: address

section \<open>Checked arithmetic\<close>

definition checked_add :: "uint256 \<Rightarrow> uint256 \<Rightarrow> evm_revert + uint256" where
  "checked_add a b = (if uint a + uint b < 2 ^ 256 then Inr (a + b) else Inl ArithmeticPanic)"

definition checked_sub :: "uint256 \<Rightarrow> uint256 \<Rightarrow> evm_revert + uint256" where
  "checked_sub a b = (if uint b \<le> uint a then Inr (a - b) else Inl ArithmeticPanic)"

definition checked_mul :: "uint256 \<Rightarrow> uint256 \<Rightarrow> evm_revert + uint256" where
  "checked_mul a b = (if uint a * uint b < 2 ^ 256 then Inr (a * b) else Inl ArithmeticPanic)"

lemma checked_add_Inr_iff [inr_iff]:
  "checked_add a b = Inr c \<longleftrightarrow> uint a + uint b < 2 ^ 256 \<and> c = a + b"
  by (auto simp: checked_add_def)

lemma checked_sub_Inr_iff [inr_iff]: "checked_sub a b = Inr c \<longleftrightarrow> uint b \<le> uint a \<and> c = a - b"
  by (auto simp: checked_sub_def)

lemma checked_mul_Inr_iff [inr_iff]:
  "checked_mul a b = Inr c \<longleftrightarrow> uint a * uint b < 2 ^ 256 \<and> c = a * b"
  by (auto simp: checked_mul_def)

lemma uint_checked_add: "checked_add a b = Inr c \<Longrightarrow> uint c = uint a + uint b"
  by (simp add: checked_add_Inr_iff uint_plus_if')

lemma uint_checked_sub: "checked_sub a b = Inr c \<Longrightarrow> uint c = uint a - uint b"
  by (simp add: checked_sub_Inr_iff uint_sub_if')

lemma uint_checked_mul: "checked_mul a b = Inr c \<Longrightarrow> uint c = uint a * uint b"
  using uint_mult_lem [of a b] by (simp add: checked_mul_Inr_iff)

lemmas uint_checked = uint_checked_add uint_checked_sub uint_checked_mul

section \<open>Reverting early\<close>

definition revert_if :: "bool \<Rightarrow> evm_revert \<Rightarrow> evm_revert + 'a \<Rightarrow> evm_revert + 'a" where
  "revert_if b e k = (if b then Inl e else k)"

definition modifier :: "evm_revert option \<Rightarrow> evm_revert + 'a \<Rightarrow> evm_revert + 'a" where
  "modifier r k = (case r of Some e \<Rightarrow> Inl e | None \<Rightarrow> k)"

lemma revert_if_Inr_iff [inr_iff]: "revert_if b e k = Inr x \<longleftrightarrow> \<not> b \<and> k = Inr x"
  by (simp add: revert_if_def)

lemma modifier_Inr_iff [inr_iff]: "modifier r k = Inr x \<longleftrightarrow> r = None \<and> k = Inr x"
  by (simp add: modifier_def split: option.split)

section \<open>Imported contracts\<close>

record 'b openzeppelin =
  oz_construct :: "address \<Rightarrow> evm_revert + 'b"
  oz_owner :: "'b \<Rightarrow> address"
  oz_onlyOwner :: "address \<Rightarrow> 'b \<Rightarrow> evm_revert option"
  oz_transferOwnership :: "address \<Rightarrow> address \<Rightarrow> 'b \<Rightarrow> evm_revert + 'b"
  oz_renounceOwnership :: "address \<Rightarrow> 'b \<Rightarrow> evm_revert + 'b"
  oz_paused :: "'b \<Rightarrow> bool"
  oz_whenNotPaused :: "'b \<Rightarrow> evm_revert option"
  oz_pause :: "'b \<Rightarrow> evm_revert + 'b"
  oz_unpause :: "'b \<Rightarrow> evm_revert + 'b"
  oz_nonReentrant_enter :: "'b \<Rightarrow> evm_revert + 'b"
  oz_nonReentrant_leave :: "'b \<Rightarrow> 'b"

text \<open>\<open>safeTransfer token from to amount\<close> is the call made by the contract at \<open>from\<close>,
  \<open>safeTransferFrom token spender from to amount\<close> the one made by \<open>spender\<close>.\<close>

record 't erc20 =
  safeTransfer :: "address \<Rightarrow> address \<Rightarrow> address \<Rightarrow> uint256 \<Rightarrow> 't \<Rightarrow> evm_revert + 't"
  safeTransferFrom ::
    "address \<Rightarrow> address \<Rightarrow> address \<Rightarrow> address \<Rightarrow> uint256 \<Rightarrow> 't \<Rightarrow> evm_revert + 't"
  token_balance :: "address \<Rightarrow> address \<Rightarrow> 't \<Rightarrow> uint256"

text \<open>The functions every contract here inherits and exposes.\<close>

datatype inherited_call = Pause | Unpause | TransferOwnership address | RenounceOwnership

definition inherited_exec ::
  "'b openzeppelin \<Rightarrow> TxContext \<Rightarrow> inherited_call \<Rightarrow> 'b \<Rightarrow> evm_revert + 'b" where
  "inherited_exec oz msg call b =
     (case call of
        Pause \<Rightarrow> modifier (oz_onlyOwner oz (msg_sender msg) b) (oz_pause oz b)
      | Unpause \<Rightarrow> modifier (oz_onlyOwner oz (msg_sender msg) b) (oz_unpause oz b)
      | TransferOwnership a \<Rightarrow> oz_transferOwnership oz (msg_sender msg) a b
      | RenounceOwnership \<Rightarrow> oz_renounceOwnership oz (msg_sender msg) b)"

section \<open>Books that balance\<close>

text \<open>
  A contract keeps a balance for every account of a kind and a journal of events that credit and
  debit accounts. When every step's new events account for the change of every balance, the
  whole journal accounts for the balances.
\<close>

locale journalled =
  fixes step :: "'s \<Rightarrow> 's \<Rightarrow> bool"
    and journal :: "'s \<Rightarrow> 'e list"
    and balance :: "'s \<Rightarrow> 'a \<Rightarrow> int"
    and credit :: "'e \<Rightarrow> 'a \<Rightarrow> int"
    and debit :: "'e \<Rightarrow> 'a \<Rightarrow> int"
  assumes step_balances:
    "step s s' \<Longrightarrow> \<exists>es. journal s' = journal s @ es \<and>
       (\<forall>a. balance s' a = balance s a + (\<Sum>e\<leftarrow>es. credit e a) - (\<Sum>e\<leftarrow>es. debit e a))"
begin

lemma journal_grows: "step\<^sup>*\<^sup>* s s' \<Longrightarrow> \<exists>es. journal s' = journal s @ es"
proof (induction rule: rtranclp_induct)
  case base
  then show ?case by simp
next
  case (step s' s'')
  then show ?case using step_balances by fastforce
qed

lemma books_balance:
  assumes "step\<^sup>*\<^sup>* s s'"
    and "balance s a = (\<Sum>e\<leftarrow>journal s. credit e a) - (\<Sum>e\<leftarrow>journal s. debit e a)"
  shows "balance s' a = (\<Sum>e\<leftarrow>journal s'. credit e a) - (\<Sum>e\<leftarrow>journal s'. debit e a)"
  using assms(1)
proof (induction rule: rtranclp_induct)
  case base
  then show ?case by (rule assms(2))
next
  case (step s' s'')
  then show ?case using step_balances [OF step.hyps(2)] by auto
qed

end

text \<open>Adding the entries of a list that all stay within a bound.\<close>

lemma sum_list_nonneg_int: "\<forall>e \<in> set es. 0 \<le> f e \<Longrightarrow> 0 \<le> (\<Sum>e\<leftarrow>es. f e :: int)"
  by (rule sum_list_nonneg) auto

section \<open>An instance for examples\<close>

text \<open>
  Imported code small enough to compute with: the base state is the owner, the paused flag and
  the lock, the tokens' state is one table of balances. Only examples use it.
\<close>

definition small_oz :: "(address \<times> bool \<times> bool) openzeppelin" where
  "small_oz =
     \<lparr>oz_construct = (\<lambda>a. if a = 0 then Inl (ImportedRevert ''OwnableInvalidOwner'')
        else Inr (a, False, False)),
      oz_owner = fst,
      oz_onlyOwner = (\<lambda>a b. if a = fst b then None
        else Some (ImportedRevert ''OwnableUnauthorizedAccount'')),
      oz_transferOwnership = (\<lambda>a a' b. if a = fst b then Inr (a', snd b)
        else Inl (ImportedRevert ''OwnableUnauthorizedAccount'')),
      oz_renounceOwnership = (\<lambda>a b. if a = fst b then Inr (0, snd b)
        else Inl (ImportedRevert ''OwnableUnauthorizedAccount'')),
      oz_paused = (\<lambda>b. fst (snd b)),
      oz_whenNotPaused = (\<lambda>b. if fst (snd b) then Some (ImportedRevert ''EnforcedPause'') else None),
      oz_pause = (\<lambda>b. if fst (snd b) then Inl (ImportedRevert ''EnforcedPause'')
        else Inr (fst b, True, snd (snd b))),
      oz_unpause = (\<lambda>b. if fst (snd b) then Inr (fst b, False, snd (snd b))
        else Inl (ImportedRevert ''ExpectedPause'')),
      oz_nonReentrant_enter = (\<lambda>b. if snd (snd b)
        then Inl (ImportedRevert ''ReentrancyGuardReentrantCall'') else Inr (fst b, fst (snd b), True)),
      oz_nonReentrant_leave = (\<lambda>b. (fst b, fst (snd b), False))\<rparr>"

definition small_move ::
  "address \<Rightarrow> address \<Rightarrow> uint256 \<Rightarrow> (address \<Rightarrow> uint256) \<Rightarrow> evm_revert + (address \<Rightarrow> uint256)" where
  "small_move a a' v t = (if t a < v then Inl (ImportedRevert ''ERC20InsufficientBalance'')
     else Inr ((t(a := t a - v))(a' := (t(a := t a - v)) a' + v)))"

definition small_token :: "(address \<Rightarrow> uint256) erc20" where
  "small_token =
     \<lparr>safeTransfer = (\<lambda>token. small_move),
      safeTransferFrom = (\<lambda>token spender. small_move),
      token_balance = (\<lambda>token a t. t a)\<rparr>"

lemmas small_defs = small_oz_def small_token_def small_move_def

end
