(* ===== verification/RoyaltySettlement.thy ===== *)
theory RoyaltySettlement
  imports Evm
begin

text \<open>
  The contract \<open>src/contracts/src/RoyaltySettlement.sol\<close>: its storage as the record
  \<open>Settlement\<close>, one definition per external function, and \<open>rs_exec\<close>, which dispatches a
  transaction to them. A run of the contract is a sequence of transactions from its
  constructor, the ones that revert left out. What the lemmas show: the claimable balances are
  exactly what the finalised statements credited less what was claimed; a statement is credited
  at most once, never after a dispute, and keeps its terms for good; at any time exactly one of
  dispute and finalisation is open.
\<close>

datatype OnChainStatus = NoStatement | Submitted | Disputed | Finalized | Paid

record OnChainStatement =
  os_statementHash :: bytes32
  os_supplier :: address
  os_totalAmount :: uint256
  os_submittedAt :: uint256
  os_finalizedAt :: uint256
  os_status :: OnChainStatus

definition zero_statement :: OnChainStatement where
  "zero_statement = \<lparr>os_statementHash = 0, os_supplier = 0, os_totalAmount = 0,
     os_submittedAt = 0, os_finalizedAt = 0, os_status = NoStatement\<rparr>"

datatype rs_event =
    StatementSubmitted bytes32 address uint256 bytes32
  | StatementFinalized bytes32 address uint256
  | StatementDisputed bytes32 address string
  | PaymentClaimed address uint256

record 'b Settlement =
  rs_base :: 'b
  rs_paymentToken :: address
  rs_disputeWindow :: uint256
  rs_statements :: "bytes32 \<Rightarrow> OnChainStatement"
  rs_claimable :: "address \<Rightarrow> uint256"
  rs_log :: "rs_event list"

definition DEFAULT_DISPUTE_WINDOW :: uint256 where
  "DEFAULT_DISPUTE_WINDOW = 24 * 3600"

definition MAX_DISPUTE_WINDOW :: uint256 where
  "MAX_DISPUTE_WINDOW = 7 * 86400"

section \<open>The contract\<close>

definition rs_construct ::
  "'b openzeppelin \<Rightarrow> address \<Rightarrow> address \<Rightarrow> evm_revert + 'b Settlement" where
  "rs_construct oz paymentToken initialOwner =
     sum_bind (oz_construct oz initialOwner) (\<lambda>b. Inr
       \<lparr>rs_base = b, rs_paymentToken = paymentToken, rs_disputeWindow = DEFAULT_DISPUTE_WINDOW,
        rs_statements = (\<lambda>_. zero_statement), rs_claimable = (\<lambda>_. 0), rs_log = []\<rparr>)"

definition rs_submitStatement ::
  "'b openzeppelin \<Rightarrow> TxContext \<Rightarrow> bytes32 \<Rightarrow> address \<Rightarrow> uint256 \<Rightarrow> bytes32 \<Rightarrow> 'b Settlement \<Rightarrow>
     evm_revert + 'b Settlement" where
  "rs_submitStatement oz msg statementId supplier totalAmount statementHash s =
     modifier (oz_onlyOwner oz (msg_sender msg) (rs_base s))
     (modifier (oz_whenNotPaused oz (rs_base s))
     (revert_if (os_status (rs_statements s statementId) \<noteq> NoStatement)
        (StatementAlreadyExists statementId)
     (revert_if (supplier = 0) InvalidSupplierAddress
     (revert_if (totalAmount = 0) InvalidAmount
     (Inr (s\<lparr>rs_statements := (rs_statements s)(statementId :=
               \<lparr>os_statementHash = statementHash, os_supplier = supplier,
                os_totalAmount = totalAmount, os_submittedAt = block_timestamp msg,
                os_finalizedAt = 0, os_status = Submitted\<rparr>),
             rs_log := rs_log s @
               [StatementSubmitted statementId supplier totalAmount statementHash]\<rparr>))))))"

definition rs_finalizeStatement ::
  "'b openzeppelin \<Rightarrow> TxContext \<Rightarrow> bytes32 \<Rightarrow> 'b Settlement \<Rightarrow> evm_revert + 'b Settlement" where
  "rs_finalizeStatement oz msg statementId s =
     modifier (oz_whenNotPaused oz (rs_base s))
     (let statement = rs_statements s statementId in
      revert_if (os_status statement = NoStatement) (StatementNotFound statementId)
     (revert_if (os_status statement = Finalized \<or> os_status statement = Paid)
        (StatementAlreadyFinalized statementId)
     (revert_if (os_status statement = Disputed) (StatementDisputedError statementId)
     (sum_bind (checked_add (os_submittedAt statement) (rs_disputeWindow s)) (\<lambda>windowEnd.
      revert_if (block_timestamp msg < windowEnd)
        (DisputeWindowNotPassed statementId (windowEnd - block_timestamp msg))
     (sum_bind (checked_add (rs_claimable s (os_supplier statement)) (os_totalAmount statement))
        (\<lambda>balance.
      Inr (s\<lparr>rs_statements := (rs_statements s)(statementId := statement
               \<lparr>os_status := Finalized, os_finalizedAt := block_timestamp msg\<rparr>),
             rs_claimable := (rs_claimable s)(os_supplier statement := balance),
             rs_log := rs_log s @ [StatementFinalized statementId (os_supplier statement)
               (os_totalAmount statement)]\<rparr>))))))))"

definition rs_disputeStatement ::
  "'b openzeppelin \<Rightarrow> TxContext \<Rightarrow> bytes32 \<Rightarrow> string \<Rightarrow> 'b Settlement \<Rightarrow>
     evm_revert + 'b Settlement" where
  "rs_disputeStatement oz msg statementId reason s =
     modifier (oz_whenNotPaused oz (rs_base s))
     (let statement = rs_statements s statementId in
      revert_if (os_status statement = NoStatement) (StatementNotFound statementId)
     (revert_if (os_supplier statement \<noteq> msg_sender msg) (NotSupplier statementId (msg_sender msg))
     (revert_if (os_status statement \<noteq> Submitted) (StatementNotSubmitted statementId)
     (sum_bind (checked_add (os_submittedAt statement) (rs_disputeWindow s)) (\<lambda>windowEnd.
      revert_if (windowEnd \<le> block_timestamp msg) (DisputeWindowPassed statementId)
     (Inr (s\<lparr>rs_statements := (rs_statements s)(statementId := statement\<lparr>os_status := Disputed\<rparr>),
             rs_log := rs_log s @ [StatementDisputed statementId (os_supplier statement) reason]\<rparr>)))))))"

definition rs_claimPayment ::
  "'b openzeppelin \<Rightarrow> 't erc20 \<Rightarrow> TxContext \<Rightarrow> 'b Settlement \<times> 't \<Rightarrow>
     evm_revert + 'b Settlement \<times> 't" where
  "rs_claimPayment oz tk msg st =
     (case st of (s, t) \<Rightarrow>
      sum_bind (oz_nonReentrant_enter oz (rs_base s)) (\<lambda>b.
      modifier (oz_whenNotPaused oz b)
      (let amount = rs_claimable s (msg_sender msg) in
       revert_if (amount = 0) NothingToClaim
      (sum_bind (safeTransfer tk (rs_paymentToken s) (this_address msg) (msg_sender msg) amount t)
         (\<lambda>t'. Inr (s\<lparr>rs_base := oz_nonReentrant_leave oz b,
                      rs_claimable := (rs_claimable s)(msg_sender msg := 0),
                      rs_log := rs_log s @ [PaymentClaimed (msg_sender msg) amount]\<rparr>, t'))))))"

definition rs_getStatement :: "bytes32 \<Rightarrow> 'b Settlement \<Rightarrow> OnChainStatement" where
  "rs_getStatement statementId s = rs_statements s statementId"

definition rs_getClaimableBalance :: "address \<Rightarrow> 'b Settlement \<Rightarrow> uint256" where
  "rs_getClaimableBalance supplier s = rs_claimable s supplier"

definition rs_isFinalizable :: "uint256 \<Rightarrow> bytes32 \<Rightarrow> 'b Settlement \<Rightarrow> evm_revert + bool" where
  "rs_isFinalizable timestamp statementId s =
     (let statement = rs_statements s statementId in
      if os_status statement \<noteq> Submitted then Inr False
      else sum_bind (checked_add (os_submittedAt statement) (rs_disputeWindow s))
             (\<lambda>windowEnd. Inr (windowEnd \<le> timestamp)))"

definition rs_getRemainingDisputeTime ::
  "uint256 \<Rightarrow> bytes32 \<Rightarrow> 'b Settlement \<Rightarrow> evm_revert + uint256" where
  "rs_getRemainingDisputeTime timestamp statementId s =
     (let statement = rs_statements s statementId in
      if os_status statement \<noteq> Submitted then Inr 0
      else sum_bind (checked_add (os_submittedAt statement) (rs_disputeWindow s)) (\<lambda>windowEnd.
             if windowEnd \<le> timestamp then Inr 0 else checked_sub windowEnd timestamp))"

definition rs_setDisputeWindow ::
  "'b openzeppelin \<Rightarrow> TxContext \<Rightarrow> uint256 \<Rightarrow> 'b Settlement \<Rightarrow> evm_revert + 'b Settlement" where
  "rs_setDisputeWindow oz msg newWindow s =
     modifier (oz_onlyOwner oz (msg_sender msg) (rs_base s))
     (revert_if (newWindow = 0 \<or> MAX_DISPUTE_WINDOW < newWindow) InvalidDisputeWindow
     (Inr (s\<lparr>rs_disputeWindow := newWindow\<rparr>)))"

definition rs_emergencyWithdraw ::
  "'b openzeppelin \<Rightarrow> 't erc20 \<Rightarrow> TxContext \<Rightarrow> address \<Rightarrow> address \<Rightarrow> uint256 \<Rightarrow>
     'b Settlement \<times> 't \<Rightarrow> evm_revert + 'b Settlement \<times> 't" where
  "rs_emergencyWithdraw oz tk msg token recipient amount st =
     (case st of (s, t) \<Rightarrow>
      modifier (oz_onlyOwner oz (msg_sender msg) (rs_base s))
      (sum_bind (safeTransfer tk token (this_address msg) recipient amount t)
         (\<lambda>t'. Inr (s, t'))))"

text \<open>The transactions of the contract and their dispatch.\<close>

datatype rs_call =
    SubmitStatement bytes32 address uint256 bytes32
  | FinalizeStatement bytes32
  | DisputeStatement bytes32 string
  | ClaimPayment
  | SetDisputeWindow uint256
  | EmergencyWithdraw address address uint256
  | Inherited inherited_call

definition on_storage :: "evm_revert + 's \<Rightarrow> 't \<Rightarrow> evm_revert + 's \<times> 't" where
  "on_storage r t = sum_bind r (\<lambda>s. Inr (s, t))"

definition rs_exec ::
  "'b openzeppelin \<Rightarrow> 't erc20 \<Rightarrow> TxContext \<Rightarrow> rs_call \<Rightarrow> 'b Settlement \<times> 't \<Rightarrow>
     evm_revert + 'b Settlement \<times> 't" where
  "rs_exec oz tk msg call st =
     (case st of (s, t) \<Rightarrow>
      (case call of
         SubmitStatement i supplier amount h \<Rightarrow>
           on_storage (rs_submitStatement oz msg i supplier amount h s) t
       | FinalizeStatement i \<Rightarrow> on_storage (rs_finalizeStatement oz msg i s) t
       | DisputeStatement i reason \<Rightarrow> on_storage (rs_disputeStatement oz msg i reason s) t
       | ClaimPayment \<Rightarrow> rs_claimPayment oz tk msg (s, t)
       | SetDisputeWindow w \<Rightarrow> on_storage (rs_setDisputeWindow oz msg w s) t
       | EmergencyWithdraw token recipient amount \<Rightarrow>
           rs_emergencyWithdraw oz tk msg token recipient amount (s, t)
       | Inherited c \<Rightarrow>
           sum_bind (inherited_exec oz msg c (rs_base s)) (\<lambda>b. Inr (s\<lparr>rs_base := b\<rparr>, t))))"

definition rs_step ::
  "'b openzeppelin \<Rightarrow> 't erc20 \<Rightarrow> 'b Settlement \<times> 't \<Rightarrow> 'b Settlement \<times> 't \<Rightarrow> bool" where
  "rs_step oz tk st st' = (\<exists>msg call. rs_exec oz tk msg call st = Inr st')"

text \<open>A sequence of transactions; one that reverts leaves the state as it was.\<close>

definition rs_run ::
  "'b openzeppelin \<Rightarrow> 't erc20 \<Rightarrow> (TxContext \<times> rs_call) list \<Rightarrow> 'b Settlement \<times> 't \<Rightarrow>
     'b Settlement \<times> 't" where
  "rs_run oz tk txs st =
     fold (\<lambda>(msg, call) st. case rs_exec oz tk msg call st of Inl _ \<Rightarrow> st | Inr st' \<Rightarrow> st') txs st"

section \<open>What a transaction does\<close>

lemma rs_run_Nil [simp]: "rs_run oz tk [] st = st"
  by (simp add: rs_run_def)

lemma rs_run_Cons [simp]:
  "rs_run oz tk ((msg, call) # txs) st =
     rs_run oz tk txs (case rs_exec oz tk msg call st of Inl _ \<Rightarrow> st | Inr st' \<Rightarrow> st')"
  by (simp add: rs_run_def)

lemma rs_run_steps: "(rs_step oz tk)\<^sup>*\<^sup>* st (rs_run oz tk txs st)"
proof (induction txs arbitrary: st)
  case Nil
  then show ?case by simp
next
  case (Cons tx txs)
  obtain msg call where tx: "tx = (msg, call)" by (cases tx)
  show ?case
  proof (cases "rs_exec oz tk msg call st")
    case (Inl e)
    with Cons.IH [of st] show ?thesis by (simp add: tx)
  next
    case (Inr st')
    then have "rs_step oz tk st st'" by (auto simp: rs_step_def)
    then show ?thesis using Cons.IH [of st'] by (simp add: tx Inr converse_rtranclp_into_rtranclp)
  qed
qed

text \<open>The effect of a call that returns, call by call.\<close>

lemma rs_submitStatement_Inr:
  "rs_submitStatement oz msg i supplier amount h s = Inr s' \<longleftrightarrow>
     oz_onlyOwner oz (msg_sender msg) (rs_base s) = None \<and> oz_whenNotPaused oz (rs_base s) = None \<and>
     os_status (rs_statements s i) = NoStatement \<and> supplier \<noteq> 0 \<and> amount \<noteq> 0 \<and>
     s' = s\<lparr>rs_statements := (rs_statements s)(i := \<lparr>os_statementHash = h, os_supplier = supplier,
              os_totalAmount = amount, os_submittedAt = block_timestamp msg, os_finalizedAt = 0,
              os_status = Submitted\<rparr>),
            rs_log := rs_log s @ [StatementSubmitted i supplier amount h]\<rparr>"
  by (auto simp: rs_submitStatement_def inr_iff)

lemma rs_finalizeStatement_Inr:
  "rs_finalizeStatement oz msg i s = Inr s' \<longleftrightarrow>
     oz_whenNotPaused oz (rs_base s) = None \<and> os_status (rs_statements s i) = Submitted \<and>
     (\<exists>windowEnd balance.
        checked_add (os_submittedAt (rs_statements s i)) (rs_disputeWindow s) = Inr windowEnd \<and>
        windowEnd \<le> block_timestamp msg \<and>
        checked_add (rs_claimable s (os_supplier (rs_statements s i)))
          (os_totalAmount (rs_statements s i)) = Inr balance \<and>
        s' = s\<lparr>rs_statements := (rs_statements s)(i := (rs_statements s i)
                 \<lparr>os_status := Finalized, os_finalizedAt := block_timestamp msg\<rparr>),
               rs_claimable := (rs_claimable s)(os_supplier (rs_statements s i) := balance),
               rs_log := rs_log s @ [StatementFinalized i (os_supplier (rs_statements s i))
                 (os_totalAmount (rs_statements s i))]\<rparr>)"
  by (cases "os_status (rs_statements s i)")
    (auto simp: rs_finalizeStatement_def Let_def sum_bind_Inr_iff modifier_Inr_iff
      revert_if_Inr_iff not_less)

lemma rs_disputeStatement_Inr:
  "rs_disputeStatement oz msg i reason s = Inr s' \<longleftrightarrow>
     oz_whenNotPaused oz (rs_base s) = None \<and> os_status (rs_statements s i) = Submitted \<and>
     os_supplier (rs_statements s i) = msg_sender msg \<and>
     (\<exists>windowEnd.
        checked_add (os_submittedAt (rs_statements s i)) (rs_disputeWindow s) = Inr windowEnd \<and>
        block_timestamp msg < windowEnd \<and>
        s' = s\<lparr>rs_statements := (rs_statements s)(i := (rs_statements s i)\<lparr>os_status := Disputed\<rparr>),
               rs_log := rs_log s @ [StatementDisputed i (msg_sender msg) reason]\<rparr>)"
  by (auto simp: rs_disputeStatement_def Let_def sum_bind_Inr_iff modifier_Inr_iff
      revert_if_Inr_iff not_le)

lemma rs_claimPayment_Inr:
  "rs_claimPayment oz tk msg (s, t) = Inr (s', t') \<longleftrightarrow>
     rs_claimable s (msg_sender msg) \<noteq> 0 \<and>
     (\<exists>b. oz_nonReentrant_enter oz (rs_base s) = Inr b \<and> oz_whenNotPaused oz b = None \<and>
        safeTransfer tk (rs_paymentToken s) (this_address msg) (msg_sender msg)
          (rs_claimable s (msg_sender msg)) t = Inr t' \<and>
        s' = s\<lparr>rs_base := oz_nonReentrant_leave oz b,
               rs_claimable := (rs_claimable s)(msg_sender msg := 0),
               rs_log := rs_log s @ [PaymentClaimed (msg_sender msg)
                 (rs_claimable s (msg_sender msg))]\<rparr>)"
  by (auto simp: rs_claimPayment_def Let_def inr_iff)

text \<open>
  A step seen from the books: either the statements, the balances and the log are untouched, or
  it is one of the four calls that move them.
\<close>

inductive rs_move :: "uint256 \<Rightarrow> 'b Settlement \<Rightarrow> 'b Settlement \<Rightarrow> bool" for now where
  housekeeping:
    "\<lbrakk>rs_statements s' = rs_statements s; rs_claimable s' = rs_claimable s; rs_log s' = rs_log s\<rbrakk>
      \<Longrightarrow> rs_move now s s'"
| submitted:
    "\<lbrakk>os_status (rs_statements s i) = NoStatement; supplier \<noteq> 0; amount \<noteq> 0;
      rs_statements s' = (rs_statements s)(i := \<lparr>os_statementHash = h, os_supplier = supplier,
        os_totalAmount = amount, os_submittedAt = now, os_finalizedAt = 0, os_status = Submitted\<rparr>);
      rs_claimable s' = rs_claimable s;
      rs_log s' = rs_log s @ [StatementSubmitted i supplier amount h]\<rbrakk> \<Longrightarrow> rs_move now s s'"
| finalized:
    "\<lbrakk>os_status (rs_statements s i) = Submitted;
      rs_statements s' = (rs_statements s)(i := (rs_statements s i)
        \<lparr>os_status := Finalized, os_finalizedAt := now\<rparr>);
      checked_add (rs_claimable s (os_supplier (rs_statements s i)))
        (os_totalAmount (rs_statements s i)) = Inr balance;
      rs_claimable s' = (rs_claimable s)(os_supplier (rs_statements s i) := balance);
      rs_log s' = rs_log s @ [StatementFinalized i (os_supplier (rs_statements s i))
        (os_totalAmount (rs_statements s i))]\<rbrakk> \<Longrightarrow> rs_move now s s'"
| disputed:
    "\<lbrakk>os_status (rs_statements s i) = Submitted;
      rs_statements s' = (rs_statements s)(i := (rs_statements s i)\<lparr>os_status := Disputed\<rparr>);
      rs_claimable s' = rs_claimable s;
      rs_log s' = rs_log s @ [StatementDisputed i (os_supplier (rs_statements s i)) reason]\<rbrakk>
      \<Longrightarrow> rs_move now s s'"
| claimed:
    "\<lbrakk>rs_claimable s a \<noteq> 0; rs_statements s' = rs_statements s;
      rs_claimable s' = (rs_claimable s)(a := 0);
      rs_log s' = rs_log s @ [PaymentClaimed a (rs_claimable s a)]\<rbrakk> \<Longrightarrow> rs_move now s s'"

lemma rs_exec_move:
  assumes "rs_exec oz tk msg call (s, t) = Inr (s', t')"
  shows "rs_move (block_timestamp msg) s s'"
proof (cases call)
  case (SubmitStatement i supplier amount h)
  with assms show ?thesis
    by (auto simp: rs_exec_def on_storage_def inr_iff rs_submitStatement_Inr intro!: rs_move.submitted)
next
  case (FinalizeStatement i)
  with assms show ?thesis
    by (auto simp: rs_exec_def on_storage_def sum_bind_Inr_iff rs_finalizeStatement_Inr
        intro!: rs_move.finalized)
next
  case (DisputeStatement i reason)
  with assms show ?thesis
    by (auto simp: rs_exec_def on_storage_def sum_bind_Inr_iff rs_disputeStatement_Inr
        intro!: rs_move.disputed)
next
  case ClaimPayment
  with assms show ?thesis
    by (auto simp: rs_exec_def rs_claimPayment_Inr intro!: rs_move.claimed)
next
  case (SetDisputeWindow w)
  with assms show ?thesis
    by (auto simp: rs_exec_def on_storage_def rs_setDisputeWindow_def inr_iff
        intro!: rs_move.housekeeping)
next
  case (EmergencyWithdraw token recipient amount)
  with assms show ?thesis
    by (auto simp: rs_exec_def rs_emergencyWithdraw_def inr_iff intro!: rs_move.housekeeping)
next
  case (Inherited c)
  with assms show ?thesis
    by (auto simp: rs_exec_def inr_iff intro!: rs_move.housekeeping)
qed

inductive_cases rs_moveE: "rs_move now s s'"

lemma rs_step_move: "rs_step oz tk st st' \<Longrightarrow> \<exists>now. rs_move now (fst st) (fst st')"
  by (cases st; cases st') (auto simp: rs_step_def intro: rs_exec_move)

section \<open>The books of the contract\<close>

definition rs_credit :: "rs_event \<Rightarrow> address \<Rightarrow> int" where
  "rs_credit e a = (case e of StatementFinalized i b v \<Rightarrow> if b = a then uint v else 0 | _ \<Rightarrow> 0)"

definition rs_debit :: "rs_event \<Rightarrow> address \<Rightarrow> int" where
  "rs_debit e a = (case e of PaymentClaimed b v \<Rightarrow> if b = a then uint v else 0 | _ \<Rightarrow> 0)"

definition credited_to :: "address \<Rightarrow> 'b Settlement \<Rightarrow> int" where
  "credited_to a s = (\<Sum>e\<leftarrow>rs_log s. rs_credit e a)"

definition claimed_by :: "address \<Rightarrow> 'b Settlement \<Rightarrow> int" where
  "claimed_by a s = (\<Sum>e\<leftarrow>rs_log s. rs_debit e a)"

lemmas rs_entries = rs_credit_def rs_debit_def

lemma rs_move_balances:
  assumes "rs_move now s s'"
  shows "\<exists>es. rs_log s' = rs_log s @ es \<and>
     (\<forall>a. uint (rs_claimable s' a) =
        uint (rs_claimable s a) + (\<Sum>e\<leftarrow>es. rs_credit e a) - (\<Sum>e\<leftarrow>es. rs_debit e a))"
  using assms
proof cases
  case (finalized i balance)
  then show ?thesis using uint_checked_add [OF finalized(3)] by (simp add: rs_entries)
qed (simp_all add: rs_entries)

interpretation rs_book: journalled "rs_step oz tk" "rs_log \<circ> fst" "\<lambda>st a. uint (rs_claimable (fst st) a)"
  rs_credit rs_debit for oz tk
proof
  fix st st'
  assume "rs_step oz tk st st'"
  then obtain now where "rs_move now (fst st) (fst st')" using rs_step_move by blast
  then show "\<exists>es. (rs_log \<circ> fst) st' = (rs_log \<circ> fst) st @ es \<and>
      (\<forall>a. uint (rs_claimable (fst st') a) = uint (rs_claimable (fst st) a) +
         (\<Sum>e\<leftarrow>es. rs_credit e a) - (\<Sum>e\<leftarrow>es. rs_debit e a))"
    using rs_move_balances by fastforce
qed

text \<open>The log read as lists of submissions and of finalisations.\<close>

definition submissions :: "rs_event list \<Rightarrow> (bytes32 \<times> address \<times> uint256) list" where
  "submissions es = concat (map (\<lambda>e. case e of StatementSubmitted i a v h \<Rightarrow> [(i, a, v)] | _ \<Rightarrow> []) es)"

definition finalizations :: "rs_event list \<Rightarrow> (bytes32 \<times> address \<times> uint256) list" where
  "finalizations es = concat (map (\<lambda>e. case e of StatementFinalized i a v \<Rightarrow> [(i, a, v)] | _ \<Rightarrow> []) es)"

lemma submissions_simps [simp]:
  "submissions [] = []"
  "submissions (es @ es') = submissions es @ submissions es'"
  "submissions [StatementSubmitted i a v h] = [(i, a, v)]"
  "submissions [StatementFinalized i a v] = []"
  "submissions [StatementDisputed i a reason] = []"
  "submissions [PaymentClaimed a v] = []"
  by (simp_all add: submissions_def)

lemma finalizations_simps [simp]:
  "finalizations [] = []"
  "finalizations (es @ es') = finalizations es @ finalizations es'"
  "finalizations [StatementSubmitted i a v h] = []"
  "finalizations [StatementFinalized i a v] = [(i, a, v)]"
  "finalizations [StatementDisputed i a reason] = []"
  "finalizations [PaymentClaimed a v] = []"
  by (simp_all add: finalizations_def)

definition total_submitted :: "'b Settlement \<Rightarrow> int" where
  "total_submitted s = (\<Sum>(i, a, v)\<leftarrow>submissions (rs_log s). uint v)"

text \<open>What the log says of the statements, in every state a run reaches.\<close>

definition rs_consistent :: "int \<Rightarrow> 'b Settlement \<Rightarrow> bool" where
  "rs_consistent limit s \<longleftrightarrow>
     distinct (map fst (submissions (rs_log s))) \<and>
     distinct (map fst (finalizations (rs_log s))) \<and>
     (\<forall>i a v. (i, a, v) \<in> set (submissions (rs_log s)) \<longleftrightarrow>
        os_status (rs_statements s i) \<noteq> NoStatement \<and> os_supplier (rs_statements s i) = a \<and>
        os_totalAmount (rs_statements s i) = v) \<and>
     (\<forall>i a v. (i, a, v) \<in> set (finalizations (rs_log s)) \<longleftrightarrow>
        os_status (rs_statements s i) = Finalized \<and> os_supplier (rs_statements s i) = a \<and>
        os_totalAmount (rs_statements s i) = v) \<and>
     (\<forall>i. os_status (rs_statements s i) \<noteq> Paid \<and> uint (os_submittedAt (rs_statements s i)) < limit)"

lemma rs_consistent_move:
  assumes "rs_move now s s'" and "rs_consistent limit s" and "uint now < limit"
  shows "rs_consistent limit s'"
  using assms(1)
proof cases
  case housekeeping
  then show ?thesis using assms(2) by (simp add: rs_consistent_def)
next
  case (submitted i supplier amount h)
  have "i \<notin> fst ` set (submissions (rs_log s))"
    using assms(2) submitted(1) unfolding rs_consistent_def by force
  then show ?thesis using assms(2,3) submitted unfolding rs_consistent_def by (auto split: if_splits)
next
  case (finalized i balance)
  have "i \<notin> fst ` set (finalizations (rs_log s))"
    using assms(2) finalized(1) unfolding rs_consistent_def by force
  then show ?thesis using assms(2) finalized unfolding rs_consistent_def by (auto split: if_splits)
next
  case (disputed i reason)
  then show ?thesis using assms(2) unfolding rs_consistent_def by (auto split: if_splits)
next
  case (claimed a)
  then show ?thesis using assms(2) by (simp add: rs_consistent_def)
qed

lemma rs_exec_window:
  assumes "rs_exec oz tk msg call (s, t) = Inr (s', t')"
    and "0 < rs_disputeWindow s \<and> rs_disputeWindow s \<le> MAX_DISPUTE_WINDOW"
  shows "0 < rs_disputeWindow s' \<and> rs_disputeWindow s' \<le> MAX_DISPUTE_WINDOW"
  using assms
  by (cases call)
    (auto simp: rs_exec_def on_storage_def sum_bind_Inr_iff modifier_Inr_iff revert_if_Inr_iff
      rs_submitStatement_Inr rs_finalizeStatement_Inr rs_disputeStatement_Inr rs_claimPayment_Inr
      rs_setDisputeWindow_def rs_emergencyWithdraw_def not_less word_gt_0)

definition rs_inv :: "int \<Rightarrow> 'b Settlement \<Rightarrow> bool" where
  "rs_inv limit s \<longleftrightarrow> rs_consistent limit s \<and>
     0 < rs_disputeWindow s \<and> rs_disputeWindow s \<le> MAX_DISPUTE_WINDOW \<and>
     (\<forall>a. uint (rs_claimable s a) = credited_to a s - claimed_by a s)"

lemma rs_inv_construct:
  assumes "rs_construct oz token owner = Inr s" and "0 < limit"
  shows "rs_inv limit s"
  using assms
  by (auto simp: rs_construct_def inr_iff rs_inv_def rs_consistent_def zero_statement_def
      credited_to_def claimed_by_def DEFAULT_DISPUTE_WINDOW_def MAX_DISPUTE_WINDOW_def
      word_le_def word_less_def)

lemma rs_inv_exec:
  assumes "rs_exec oz tk msg call (s, t) = Inr (s', t')" and "rs_inv limit s"
    and "uint (block_timestamp msg) < limit"
  shows "rs_inv limit s'"
proof -
  have step: "(rs_step oz tk)\<^sup>*\<^sup>* (s, t) (s', t')"
    by (rule r_into_rtranclp) (use assms(1) in \<open>auto simp: rs_step_def\<close>)
  have "uint (rs_claimable s' a) = credited_to a s' - claimed_by a s'" for a
    using rs_book.books_balance [OF step, of a] assms(2)
    by (simp add: rs_inv_def credited_to_def claimed_by_def comp_def)
  then show ?thesis
    using assms rs_consistent_move [OF rs_exec_move [OF assms(1)]] rs_exec_window [OF assms(1)]
    by (simp add: rs_inv_def)
qed

lemma rs_inv_run:
  assumes "rs_inv limit s" and "\<forall>(msg, call) \<in> set txs. uint (block_timestamp msg) < limit"
  shows "rs_inv limit (fst (rs_run oz tk txs (s, t)))"
  using assms
proof (induction txs arbitrary: s t)
  case Nil
  then show ?case by simp
next
  case (Cons tx txs)
  obtain msg call where tx: "tx = (msg, call)" by (cases tx)
  show ?case
  proof (cases "rs_exec oz tk msg call (s, t)")
    case (Inl e)
    with Cons.prems Cons.IH [of s t] show ?thesis by (simp add: tx)
  next
    case (Inr st')
    obtain s' t' where st': "st' = (s', t')" by (cases st')
    have "rs_inv limit s'"
      using rs_inv_exec [OF Inr [unfolded st']] Cons.prems by (simp add: tx)
    with Cons.prems Cons.IH [of s' t'] show ?thesis by (simp add: tx Inr st')
  qed
qed

lemma credited_finalizations:
  "(\<Sum>e\<leftarrow>es. rs_credit e a) \<le> (\<Sum>(i, b, v)\<leftarrow>finalizations es. uint v)"
  by (induction es) (auto simp: rs_credit_def finalizations_def intro: add_increasing split: rs_event.split)

lemma claimed_by_nonneg: "0 \<le> claimed_by a s"
  unfolding claimed_by_def
  by (rule sum_list_nonneg_int) (simp add: rs_debit_def split: rs_event.split)

text \<open>What is claimable and one open statement together stay within what was submitted.\<close>

lemma open_statement_fits:
  assumes "rs_inv limit s" and "os_status (rs_statements s i) = Submitted"
  shows "uint (rs_claimable s a) + uint (os_totalAmount (rs_statements s i)) \<le> total_submitted s"
proof -
  let ?w = "\<lambda>(i :: bytes32, a :: address, v :: uint256). uint v"
  let ?S = "submissions (rs_log s)" and ?F = "finalizations (rs_log s)"
  let ?e = "(i, os_supplier (rs_statements s i), os_totalAmount (rs_statements s i))"
  have inv: "rs_consistent limit s" and bal: "uint (rs_claimable s a) = credited_to a s - claimed_by a s"
    using assms(1) by (simp_all add: rs_inv_def)
  have dist: "distinct ?S" "distinct ?F"
    using inv by (auto simp: rs_consistent_def distinct_map)
  have sub: "insert ?e (set ?F) \<subseteq> set ?S" and new: "?e \<notin> set ?F"
    using inv assms(2) by (auto simp: rs_consistent_def)
  have "uint (rs_claimable s a) \<le> (\<Sum>x\<leftarrow>?F. ?w x)"
    using bal claimed_by_nonneg [of a s] credited_finalizations [of a "rs_log s"]
    by (simp add: credited_to_def)
  also have "\<dots> = (\<Sum>x\<in>set ?F. ?w x)" by (rule sum_list_distinct_conv_sum_set [OF dist(2)])
  finally have "uint (rs_claimable s a) + ?w ?e \<le> (\<Sum>x\<in>insert ?e (set ?F). ?w x)"
    using new by simp
  also have "\<dots> \<le> (\<Sum>x\<in>set ?S. ?w x)" by (rule sum_mono2) (use sub in auto)
  also have "\<dots> = total_submitted s"
    unfolding total_submitted_def by (rule sum_list_distinct_conv_sum_set [symmetric, OF dist(1)])
  finally show ?thesis by simp
qed

lemma window_end_fits:
  assumes "rs_inv (2 ^ 64) s"
  shows "uint (os_submittedAt (rs_statements s i)) + uint (rs_disputeWindow s) < 2 ^ 256"
proof -
  have "uint (os_submittedAt (rs_statements s i)) < 2 ^ 64"
    using assms by (simp add: rs_inv_def rs_consistent_def)
  moreover have "uint (rs_disputeWindow s) \<le> 604800"
    using assms by (simp add: rs_inv_def MAX_DISPUTE_WINDOW_def word_le_def)
  ultimately show ?thesis by simp
qed

section \<open>The life of a statement on the contract\<close>

lemma rs_move_terms:
  assumes "rs_move now s s'" and "os_status (rs_statements s i) \<noteq> NoStatement"
  shows "os_status (rs_statements s' i) \<noteq> NoStatement \<and>
     os_statementHash (rs_statements s' i) = os_statementHash (rs_statements s i) \<and>
     os_supplier (rs_statements s' i) = os_supplier (rs_statements s i) \<and>
     os_totalAmount (rs_statements s' i) = os_totalAmount (rs_statements s i) \<and>
     os_submittedAt (rs_statements s' i) = os_submittedAt (rs_statements s i) \<and>
     (os_status (rs_statements s i) \<noteq> Submitted \<longrightarrow> rs_statements s' i = rs_statements s i)"
  using assms by cases auto

lemma rs_steps_terms:
  assumes "(rs_step oz tk)\<^sup>*\<^sup>* st st'" and "os_status (rs_statements (fst st) i) \<noteq> NoStatement"
  shows "os_status (rs_statements (fst st') i) \<noteq> NoStatement \<and>
     os_statementHash (rs_statements (fst st') i) = os_statementHash (rs_statements (fst st) i) \<and>
     os_supplier (rs_statements (fst st') i) = os_supplier (rs_statements (fst st) i) \<and>
     os_totalAmount (rs_statements (fst st') i) = os_totalAmount (rs_statements (fst st) i) \<and>
     os_submittedAt (rs_statements (fst st') i) = os_submittedAt (rs_statements (fst st) i) \<and>
     (os_status (rs_statements (fst st) i) \<noteq> Submitted \<longrightarrow>
        rs_statements (fst st') i = rs_statements (fst st) i)"
  using assms(1)
proof (induction rule: rtranclp_induct)
  case base
  then show ?case using assms(2) by simp
next
  case (step st' st'')
  obtain now where "rs_move now (fst st') (fst st'')" using rs_step_move [OF step.hyps(2)] by blast
  from rs_move_terms [OF this, of i] step.IH show ?case by auto
qed

section \<open>Properties of the settlement contract\<close>

text \<open>A run from an owner's contract in which one statement is finalised and claimed and one disputed.\<close>

definition demo_tx :: "address \<Rightarrow> uint256 \<Rightarrow> TxContext" where
  "demo_tx a now = \<lparr>msg_sender = a, block_timestamp = now, this_address = 900\<rparr>"

definition demo_contract :: "(address \<times> bool \<times> bool) Settlement" where
  "demo_contract =
     \<lparr>rs_base = (1, False, False), rs_paymentToken = 800, rs_disputeWindow = 86400,
      rs_statements = (\<lambda>_. zero_statement), rs_claimable = (\<lambda>_. 0), rs_log = []\<rparr>"

definition demo_funds :: "address \<Rightarrow> uint256" where
  "demo_funds = (\<lambda>a. if a = 900 then 1000 else 0)"

definition demo_txs :: "(TxContext \<times> rs_call) list" where
  "demo_txs =
     [(demo_tx 1 100, SubmitStatement 7 2 300 77),
      (demo_tx 1 200, SubmitStatement 8 2 400 88),
      (demo_tx 2 300, DisputeStatement 8 ''wrong total''),
      (demo_tx 5 90000, FinalizeStatement 7),
      (demo_tx 5 90001, FinalizeStatement 7),
      (demo_tx 5 90002, FinalizeStatement 8),
      (demo_tx 2 90003, ClaimPayment)]"

lemma demo_contract_construct: "rs_construct small_oz 800 1 = Inr demo_contract"
  by (simp add: rs_construct_def small_oz_def demo_contract_def DEFAULT_DISPUTE_WINDOW_def)

lemmas rs_call_defs = rs_exec_def on_storage_def rs_submitStatement_def rs_finalizeStatement_def
  rs_disputeStatement_def rs_claimPayment_def Let_def modifier_def revert_if_def checked_add_def

text \<open>C28: in every state a run of the contract reaches, the claimable balance of each address is
  exactly the amounts of the statements finalised for it less what it has claimed; no statement is
  finalised twice, and the finalised statements are exactly those whose amounts were credited.\<close>

theorem settlement_books:
  assumes "rs_construct oz token owner = Inr s0" and "rs_run oz tk txs (s0, t0) = (s, t)"
  shows "(\<forall>a. uint (rs_claimable s a) = credited_to a s - claimed_by a s) \<and>
     distinct (map fst (finalizations (rs_log s))) \<and>
     (\<forall>i a v. (i, a, v) \<in> set (finalizations (rs_log s)) \<longleftrightarrow>
        os_status (rs_statements s i) = Finalized \<and> os_supplier (rs_statements s i) = a \<and>
        os_totalAmount (rs_statements s i) = v) \<and>
     (\<forall>i. os_status (rs_statements s i) \<noteq> Paid)"
proof -
  have "rs_inv (2 ^ 256) (fst (rs_run oz tk txs (s0, t0)))"
    by (rule rs_inv_run [OF rs_inv_construct [OF assms(1)]])
      (use uint_lt2p [where 'a = 256] in auto)
  then have inv: "rs_inv (2 ^ 256) s" by (simp add: assms(2))
  then show ?thesis by (simp add: rs_inv_def rs_consistent_def)
qed

theorem settlement_books_witness:
  "uint (rs_claimable (fst (rs_run small_oz small_token demo_txs (demo_contract, demo_funds))) 2) =
     credited_to 2 (fst (rs_run small_oz small_token demo_txs (demo_contract, demo_funds))) -
     claimed_by 2 (fst (rs_run small_oz small_token demo_txs (demo_contract, demo_funds)))"
  by (rule settlement_books [OF demo_contract_construct prod.collapse [symmetric], THEN conjunct1, rule_format])

text \<open>The state in which statement 7 of the example waits for the end of its window.\<close>

definition demo_waiting :: "(address \<times> bool \<times> bool) Settlement" where
  "demo_waiting = demo_contract
     \<lparr>rs_statements := (\<lambda>_. zero_statement)(7 := \<lparr>os_statementHash = 77, os_supplier = 2,
        os_totalAmount = 300, os_submittedAt = 100, os_finalizedAt = 0, os_status = Submitted\<rparr>),
      rs_log := [StatementSubmitted 7 2 300 77]\<rparr>"

lemma demo_waiting_run:
  "rs_run small_oz small_token (take 1 demo_txs) (demo_contract, demo_funds) =
     (demo_waiting, demo_funds)"
  by (simp add: demo_txs_def rs_call_defs demo_tx_def small_oz_def demo_contract_def
      demo_waiting_def zero_statement_def)

text \<open>C30: a statement on the contract keeps its hash, supplier, amount and date through every run,
  and once it is disputed or finalised nothing about it changes any more.\<close>

theorem settlement_finality:
  assumes "os_status (rs_statements s i) \<noteq> NoStatement"
    and "rs_run oz tk txs (s, t) = (s', t')"
  shows "os_statementHash (rs_statements s' i) = os_statementHash (rs_statements s i) \<and>
     os_supplier (rs_statements s' i) = os_supplier (rs_statements s i) \<and>
     os_totalAmount (rs_statements s' i) = os_totalAmount (rs_statements s i) \<and>
     os_submittedAt (rs_statements s' i) = os_submittedAt (rs_statements s i) \<and>
     (os_status (rs_statements s i) \<in> {Disputed, Finalized} \<longrightarrow>
        rs_statements s' i = rs_statements s i)"
  using rs_steps_terms [OF rs_run_steps, of "(s, t)" i oz tk txs] assms by auto

theorem settlement_finality_witness:
  "os_totalAmount (rs_statements (fst (rs_run small_oz small_token (drop 1 demo_txs)
     (demo_waiting, demo_funds))) 7) = 300"
proof -
  have "os_status (rs_statements demo_waiting 7) \<noteq> NoStatement" by (simp add: demo_waiting_def)
  from settlement_finality [OF this prod.collapse [symmetric],
      where oz = small_oz and tk = small_token and txs = "drop 1 demo_txs" and t = demo_funds]
  show ?thesis by (simp add: demo_waiting_def)
qed

text \<open>C29: as long as the amounts ever submitted fit a word, nothing on the way to a payment can
  overflow, and a submitted statement of a running contract is never stuck: until its dispute window
  ends (at most seven days after submission) its supplier can dispute it and nobody can finalise it,
  from then on anybody can finalise it, which credits the supplier with the amount, and nobody can
  dispute it; \<open>isFinalizable\<close> and \<open>getRemainingDisputeTime\<close> say which.\<close>

theorem dispute_or_finalize:
  assumes "rs_construct oz token owner = Inr s0" and "rs_run oz tk txs (s0, t0) = (s, t)"
    and "\<forall>(msg, call) \<in> set txs. uint (block_timestamp msg) < 2 ^ 64"
    and "total_submitted s < 2 ^ 256"
    and "os_status (rs_statements s i) = Submitted" and "oz_whenNotPaused oz (rs_base s) = None"
  shows "\<exists>windowEnd. uint windowEnd =
       uint (os_submittedAt (rs_statements s i)) + uint (rs_disputeWindow s) \<and>
     uint windowEnd \<le> uint (os_submittedAt (rs_statements s i)) + 7 * 86400 \<and>
     (\<forall>msg. block_timestamp msg < windowEnd \<longrightarrow>
        (msg_sender msg = os_supplier (rs_statements s i) \<longrightarrow>
           (\<exists>s'. rs_disputeStatement oz msg i reason s = Inr s' \<and>
                 os_status (rs_statements s' i) = Disputed)) \<and>
        rs_finalizeStatement oz msg i s =
          Inl (DisputeWindowNotPassed i (windowEnd - block_timestamp msg)) \<and>
        rs_isFinalizable (block_timestamp msg) i s = Inr False \<and>
        rs_getRemainingDisputeTime (block_timestamp msg) i s = Inr (windowEnd - block_timestamp msg)) \<and>
     (\<forall>msg. windowEnd \<le> block_timestamp msg \<longrightarrow>
        (msg_sender msg = os_supplier (rs_statements s i) \<longrightarrow>
           rs_disputeStatement oz msg i reason s = Inl (DisputeWindowPassed i)) \<and>
        (\<exists>s'. rs_finalizeStatement oz msg i s = Inr s' \<and>
              os_status (rs_statements s' i) = Finalized \<and>
              uint (rs_claimable s' (os_supplier (rs_statements s i))) =
                uint (rs_claimable s (os_supplier (rs_statements s i))) +
                uint (os_totalAmount (rs_statements s i))) \<and>
        rs_isFinalizable (block_timestamp msg) i s = Inr True \<and>
        rs_getRemainingDisputeTime (block_timestamp msg) i s = Inr 0)"
proof -
  let ?stmt = "rs_statements s i"
  have "rs_inv (2 ^ 64) (fst (rs_run oz tk txs (s0, t0)))"
    by (rule rs_inv_run [OF rs_inv_construct [OF assms(1)]]) (use assms(3) in auto)
  then have inv: "rs_inv (2 ^ 64) s" by (simp add: assms(2))
  obtain windowEnd where
    we: "checked_add (os_submittedAt ?stmt) (rs_disputeWindow s) = Inr windowEnd"
    using window_end_fits [OF inv, of i] by (simp add: checked_add_def)
  obtain balance where
    bal: "checked_add (rs_claimable s (os_supplier ?stmt)) (os_totalAmount ?stmt) = Inr balance"
    using open_statement_fits [OF inv assms(5), of "os_supplier ?stmt"] assms(4)
    by (simp add: checked_add_def)
  have sub: "now < windowEnd \<Longrightarrow> checked_sub windowEnd now = Inr (windowEnd - now)" for now
    by (simp add: checked_sub_def word_less_def)
  have "uint (rs_disputeWindow s) \<le> 604800"
    using inv by (simp add: rs_inv_def MAX_DISPUTE_WINDOW_def word_le_def)
  with we bal sub assms(5,6) uint_checked_add [OF we] uint_checked_add [OF bal] show ?thesis
    by (intro exI [of _ windowEnd])
      (auto simp: rs_disputeStatement_def rs_finalizeStatement_def rs_isFinalizable_def
        rs_getRemainingDisputeTime_def Let_def modifier_def revert_if_def not_less)
qed

theorem dispute_or_finalize_witness:
  "(\<exists>s'. rs_disputeStatement small_oz (demo_tx 2 86499) 7 [] demo_waiting = Inr s' \<and>
        os_status (rs_statements s' 7) = Disputed) \<and>
     rs_disputeStatement small_oz (demo_tx 2 86500) 7 [] demo_waiting = Inl (DisputeWindowPassed 7)"
proof -
  have "\<exists>windowEnd :: uint256. uint windowEnd =
       uint (os_submittedAt (rs_statements demo_waiting 7)) + uint (rs_disputeWindow demo_waiting) \<and>
     uint windowEnd \<le> uint (os_submittedAt (rs_statements demo_waiting 7)) + 7 * 86400 \<and>
     (\<forall>msg. block_timestamp msg < windowEnd \<longrightarrow>
        (msg_sender msg = os_supplier (rs_statements demo_waiting 7) \<longrightarrow>
           (\<exists>s'. rs_disputeStatement small_oz msg 7 [] demo_waiting = Inr s' \<and>
                 os_status (rs_statements s' 7) = Disputed))) \<and>
     (\<forall>msg. windowEnd \<le> block_timestamp msg \<longrightarrow>
        (msg_sender msg = os_supplier (rs_statements demo_waiting 7) \<longrightarrow>
           rs_disputeStatement small_oz msg 7 [] demo_waiting = Inl (DisputeWindowPassed 7)))"
    using dispute_or_finalize [OF demo_contract_construct demo_waiting_run, of 7 "[]"]
    by (fastforce simp: demo_txs_def demo_tx_def total_submitted_def demo_waiting_def small_oz_def
        demo_contract_def)
  then obtain windowEnd :: uint256 where we: "uint windowEnd = 86500"
    and early: "\<forall>msg. block_timestamp msg < windowEnd \<longrightarrow> msg_sender msg = 2 \<longrightarrow>
           (\<exists>s'. rs_disputeStatement small_oz msg 7 [] demo_waiting = Inr s' \<and>
                 os_status (rs_statements s' 7) = Disputed)"
    and late: "\<forall>msg. windowEnd \<le> block_timestamp msg \<longrightarrow> msg_sender msg = 2 \<longrightarrow>
           rs_disputeStatement small_oz msg 7 [] demo_waiting = Inl (DisputeWindowPassed 7)"
    by (auto simp: demo_waiting_def demo_contract_def)
  have "windowEnd = 86500" using we by (simp add: word_uint_eqI)
  then show ?thesis using early [rule_format, of "demo_tx 2 86499"]
      late [rule_format, of "demo_tx 2 86500"]
    by (auto simp: demo_tx_def)
qed

text \<open>The dispute window is not fixed when a statement is submitted: the owner can shorten it
  afterwards, and a statement submitted under the window of 24 hours is then beyond dispute, and
  can be finalised by anybody, after one second.\<close>

lemma window_shortened_after_submission:
  assumes "os_status (rs_statements s i) = Submitted"
    and "oz_onlyOwner oz (msg_sender owner_tx) (rs_base s) = None"
    and "oz_whenNotPaused oz (rs_base s) = None"
    and "uint (rs_claimable s (os_supplier (rs_statements s i))) +
      uint (os_totalAmount (rs_statements s i)) < 2 ^ 256"
    and "os_submittedAt (rs_statements s i) < block_timestamp later"
  shows "\<exists>s1 s2. rs_setDisputeWindow oz owner_tx 1 s = Inr s1 \<and>
     rs_finalizeStatement oz later i s1 = Inr s2 \<and> os_status (rs_statements s2 i) = Finalized \<and>
     rs_disputeStatement oz (later\<lparr>msg_sender := os_supplier (rs_statements s i)\<rparr>) i reason s1 =
       Inl (DisputeWindowPassed i)"
proof -
  let ?at = "os_submittedAt (rs_statements s i)"
  have less: "uint ?at < uint (block_timestamp later)" using assms(5) by (simp add: word_less_def)
  moreover have "uint (block_timestamp later) < 2 ^ 256"
    using uint_lt2p [of "block_timestamp later"] by simp
  ultimately have add: "checked_add ?at 1 = Inr (?at + 1)" by (simp add: checked_add_def)
  have "?at + 1 \<le> block_timestamp later"
    using less uint_checked_add [OF add] by (simp add: word_le_def)
  moreover have "checked_add (rs_claimable s (os_supplier (rs_statements s i)))
      (os_totalAmount (rs_statements s i)) = Inr (rs_claimable s (os_supplier (rs_statements s i)) +
        os_totalAmount (rs_statements s i))"
    using assms(4) by (simp add: checked_add_def)
  moreover have "\<not> MAX_DISPUTE_WINDOW < 1" by (simp add: MAX_DISPUTE_WINDOW_def)
  ultimately show ?thesis
    using assms(1-3) add
    by (simp add: rs_setDisputeWindow_def rs_finalizeStatement_def rs_disputeStatement_def
        Let_def modifier_def revert_if_def not_less)
qed

end
