(* ===== verification/ContractAbi.thy ===== *)
theory ContractAbi
  imports RoyaltySettlement ErrorCodes
begin

text \<open>
  The ABI arrays of \<open>src/packages/contracts/src/abis\<close> as data, what it means for arguments and
  answers to fit them, and how the ABI of the settlement contract agrees with the contract:
  every transaction of its own functions can be named and typed by it, with the exception of
  \<open>emergencyWithdraw\<close> and of the inherited ownership functions, and every error the contract
  declares but one is listed under its name.
\<close>

section \<open>Entries\<close>

datatype abi_type =
    TAddress
  | TBytes32
  | TUint256
  | TUint8
  | TBool
  | TString
  | TTuple "(string \<times> abi_type) list"

datatype mutability = View | Nonpayable

datatype abi_item =
    AbiConstructor "(string \<times> abi_type) list"
  | AbiEvent string "(string \<times> abi_type \<times> bool) list"
  | AbiFunction string mutability "(string \<times> abi_type) list" "(string \<times> abi_type) list"
  | AbiError string "(string \<times> abi_type) list"

section \<open>The arrays\<close>

definition rs_abi_events :: "abi_item list" where
  "rs_abi_events =
     [AbiConstructor [(''_paymentToken'', TAddress), (''_initialOwner'', TAddress)],
      AbiEvent ''StatementSubmitted'' [(''statementId'', TBytes32, True), (''supplier'',
        TAddress, True), (''totalAmount'', TUint256, False), (''statementHash'', TBytes32,
        False)],
      AbiEvent ''StatementFinalized'' [(''statementId'', TBytes32, True), (''supplier'',
        TAddress, True), (''totalAmount'', TUint256, False)],
      AbiEvent ''StatementDisputed'' [(''statementId'', TBytes32, True), (''supplier'',
        TAddress, True), (''reason'', TString, False)],
      AbiEvent ''PaymentClaimed'' [(''supplier'', TAddress, True), (''amount'', TUint256,
        False)]]"

definition rs_abi_reads :: "abi_item list" where
  "rs_abi_reads =
     [AbiFunction ''getStatement'' View [(''statementId'', TBytes32)] [('''', TTuple
        [(''statementHash'', TBytes32), (''supplier'', TAddress), (''totalAmount'',
        TUint256), (''submittedAt'', TUint256), (''finalizedAt'', TUint256), (''status'',
        TUint8)])],
      AbiFunction ''getClaimableBalance'' View [(''supplier'', TAddress)] [('''', TUint256)],
      AbiFunction ''isFinalizable'' View [(''statementId'', TBytes32)] [('''', TBool)],
      AbiFunction ''getRemainingDisputeTime'' View [(''statementId'', TBytes32)] [('''',
        TUint256)],
      AbiFunction ''disputeWindow'' View [] [('''', TUint256)],
      AbiFunction ''claimableBalances'' View [('''', TAddress)] [('''', TUint256)],
      AbiFunction ''paymentToken'' View [] [('''', TAddress)],
      AbiFunction ''owner'' View [] [('''', TAddress)],
      AbiFunction ''paused'' View [] [('''', TBool)]]"

definition rs_abi_writes :: "abi_item list" where
  "rs_abi_writes =
     [AbiFunction ''submitStatement'' Nonpayable [(''statementId'', TBytes32),
        (''supplier'', TAddress), (''totalAmount'', TUint256), (''statementHash'',
        TBytes32)] [],
      AbiFunction ''finalizeStatement'' Nonpayable [(''statementId'', TBytes32)] [],
      AbiFunction ''disputeStatement'' Nonpayable [(''statementId'', TBytes32), (''reason'',
        TString)] [],
      AbiFunction ''claimPayment'' Nonpayable [] [],
      AbiFunction ''setDisputeWindow'' Nonpayable [(''newWindow'', TUint256)] [],
      AbiFunction ''pause'' Nonpayable [] [],
      AbiFunction ''unpause'' Nonpayable [] []]"

definition rs_abi_errors :: "abi_item list" where
  "rs_abi_errors =
     [AbiError ''StatementAlreadyExists'' [(''statementId'', TBytes32)],
      AbiError ''StatementNotFound'' [(''statementId'', TBytes32)],
      AbiError ''InvalidSupplierAddress'' [],
      AbiError ''InvalidAmount'' [],
      AbiError ''StatementNotSubmitted'' [(''statementId'', TBytes32)],
      AbiError ''DisputeWindowNotPassed'' [(''statementId'', TBytes32), (''remainingTime'',
        TUint256)],
      AbiError ''StatementAlreadyFinalized'' [(''statementId'', TBytes32)],
      AbiError ''StatementDisputed'' [(''statementId'', TBytes32)],
      AbiError ''NotSupplier'' [(''statementId'', TBytes32), (''caller'', TAddress)],
      AbiError ''DisputeWindowPassed'' [(''statementId'', TBytes32)],
      AbiError ''NothingToClaim'' [],
      AbiError ''InvalidDisputeWindow'' []]"

definition RoyaltySettlementABI :: "abi_item list" where
  "RoyaltySettlementABI = rs_abi_events @ rs_abi_reads @ rs_abi_writes @ rs_abi_errors"

definition ve_abi_events :: "abi_item list" where
  "ve_abi_events =
     [AbiConstructor [(''_paymentToken'', TAddress), (''_initialOwner'', TAddress)],
      AbiEvent ''Deposited'' [(''brand'', TAddress, True), (''amount'', TUint256, False)],
      AbiEvent ''VerificationRecorded'' [(''brand'', TAddress, True), (''supplier'',
        TAddress, True), (''amount'', TUint256, False), (''receiptId'', TBytes32, False)],
      AbiEvent ''TransferredToSettlement'' [(''supplier'', TAddress, True), (''amount'',
        TUint256, False)],
      AbiEvent ''Withdrawn'' [(''brand'', TAddress, True), (''amount'', TUint256, False)]]"

definition ve_abi_reads :: "abi_item list" where
  "ve_abi_reads =
     [AbiFunction ''getBrandBalance'' View [(''brand'', TAddress)] [('''', TUint256)],
      AbiFunction ''getPendingAmount'' View [(''brand'', TAddress), (''supplier'',
        TAddress)] [('''', TUint256)],
      AbiFunction ''getSupplierPendingTotal'' View [(''supplier'', TAddress)] [('''',
        TUint256)],
      AbiFunction ''isReceiptRecorded'' View [(''receiptId'', TBytes32)] [('''', TBool)],
      AbiFunction ''brandBalances'' View [('''', TAddress)] [('''', TUint256)],
      AbiFunction ''supplierPendingTotals'' View [('''', TAddress)] [('''', TUint256)],
      AbiFunction ''settlementContract'' View [] [('''', TAddress)],
      AbiFunction ''paymentToken'' View [] [('''', TAddress)],
      AbiFunction ''owner'' View [] [('''', TAddress)],
      AbiFunction ''paused'' View [] [('''', TBool)]]"

definition ve_abi_writes :: "abi_item list" where
  "ve_abi_writes =
     [AbiFunction ''deposit'' Nonpayable [(''amount'', TUint256)] [],
      AbiFunction ''recordVerification'' Nonpayable [(''brand'', TAddress), (''supplier'',
        TAddress), (''amount'', TUint256), (''receiptId'', TBytes32)] [],
      AbiFunction ''transferToSettlement'' Nonpayable [(''supplier'', TAddress),
        (''amount'', TUint256)] [],
      AbiFunction ''withdraw'' Nonpayable [(''amount'', TUint256)] [],
      AbiFunction ''setSettlementContract'' Nonpayable [(''_settlementContract'', TAddress)]
        [],
      AbiFunction ''pause'' Nonpayable [] [],
      AbiFunction ''unpause'' Nonpayable [] []]"

definition ve_abi_errors :: "abi_item list" where
  "ve_abi_errors =
     [AbiError ''InsufficientBalance'' [(''brand'', TAddress), (''available'', TUint256),
        (''required'', TUint256)],
      AbiError ''InvalidAmount'' [],
      AbiError ''InvalidAddress'' [],
      AbiError ''ReceiptAlreadyRecorded'' [(''receiptId'', TBytes32)],
      AbiError ''NotSettlementContract'' [(''caller'', TAddress)],
      AbiError ''SettlementContractNotSet'' [],
      AbiError ''InsufficientPendingAmount'' [(''supplier'', TAddress), (''available'',
        TUint256), (''required'', TUint256)]]"

definition VerificationEscrowABI :: "abi_item list" where
  "VerificationEscrowABI = ve_abi_events @ ve_abi_reads @ ve_abi_writes @ ve_abi_errors"

definition pd_abi_events :: "abi_item list" where
  "pd_abi_events =
     [AbiConstructor [(''_paymentToken'', TAddress), (''_protocolTreasury'', TAddress),
        (''_initialOwner'', TAddress)],
      AbiEvent ''PaymentDistributed'' [(''supplier'', TAddress, True), (''gateway'',
        TAddress, True), (''supplierAmount'', TUint256, False), (''protocolFee'', TUint256,
        False), (''gatewayFee'', TUint256, False)],
      AbiEvent ''FeesUpdated'' [(''protocolFeeBps'', TUint256, False), (''gatewayFeeBps'',
        TUint256, False)],
      AbiEvent ''TreasuryUpdated'' [(''oldTreasury'', TAddress, True), (''newTreasury'',
        TAddress, True)],
      AbiEvent ''ProtocolFeesClaimed'' [(''to'', TAddress, True), (''amount'', TUint256,
        False)],
      AbiEvent ''GatewayFeesClaimed'' [(''gateway'', TAddress, True), (''amount'', TUint256,
        False)]]"

definition pd_abi_reads :: "abi_item list" where
  "pd_abi_reads =
     [AbiFunction ''getFees'' View [] [(''protocolFeeBps'', TUint256), (''gatewayFeeBps'',
        TUint256)],
      AbiFunction ''calculateFees'' View [(''totalAmount'', TUint256)] [(''supplierAmount'',
        TUint256), (''protocolFee'', TUint256), (''gatewayFee'', TUint256)],
      AbiFunction ''getAccumulatedProtocolFees'' View [] [('''', TUint256)],
      AbiFunction ''getAccumulatedGatewayFees'' View [(''gateway'', TAddress)] [('''',
        TUint256)],
      AbiFunction ''protocolFeeBps'' View [] [('''', TUint256)],
      AbiFunction ''gatewayFeeBps'' View [] [('''', TUint256)],
      AbiFunction ''protocolTreasury'' View [] [('''', TAddress)],
      AbiFunction ''accumulatedProtocolFees'' View [] [('''', TUint256)],
      AbiFunction ''accumulatedGatewayFees'' View [('''', TAddress)] [('''', TUint256)],
      AbiFunction ''paymentToken'' View [] [('''', TAddress)],
      AbiFunction ''owner'' View [] [('''', TAddress)],
      AbiFunction ''paused'' View [] [('''', TBool)],
      AbiFunction ''MAX_TOTAL_FEE_BPS'' View [] [('''', TUint256)],
      AbiFunction ''BPS_DENOMINATOR'' View [] [('''', TUint256)],
      AbiFunction ''DEFAULT_PROTOCOL_FEE_BPS'' View [] [('''', TUint256)],
      AbiFunction ''DEFAULT_GATEWAY_FEE_BPS'' View [] [('''', TUint256)]]"

definition pd_abi_writes :: "abi_item list" where
  "pd_abi_writes =
     [AbiFunction ''distribute'' Nonpayable [(''supplier'', TAddress), (''totalAmount'',
        TUint256), (''gateway'', TAddress)] [],
      AbiFunction ''setFees'' Nonpayable [(''_protocolFeeBps'', TUint256),
        (''_gatewayFeeBps'', TUint256)] [],
      AbiFunction ''setProtocolTreasury'' Nonpayable [(''newTreasury'', TAddress)] [],
      AbiFunction ''claimProtocolFees'' Nonpayable [] [],
      AbiFunction ''claimGatewayFees'' Nonpayable [] [],
      AbiFunction ''pause'' Nonpayable [] [],
      AbiFunction ''unpause'' Nonpayable [] []]"

definition pd_abi_errors :: "abi_item list" where
  "pd_abi_errors =
     [AbiError ''InvalidAddress'' [],
      AbiError ''InvalidAmount'' [],
      AbiError ''FeesTooHigh'' [(''combined'', TUint256), (''max'', TUint256)],
      AbiError ''InsufficientBalance'' [(''available'', TUint256), (''required'', TUint256)],
      AbiError ''NothingToClaim'' []]"

definition PaymentDistributorABI :: "abi_item list" where
  "PaymentDistributorABI = pd_abi_events @ pd_abi_reads @ pd_abi_writes @ pd_abi_errors"

definition ERC20ABI :: "abi_item list" where
  "ERC20ABI =
     [AbiFunction ''approve'' Nonpayable [(''spender'', TAddress), (''amount'', TUint256)]
        [('''', TBool)],
      AbiFunction ''transfer'' Nonpayable [(''to'', TAddress), (''amount'', TUint256)]
        [('''', TBool)],
      AbiFunction ''transferFrom'' Nonpayable [(''from'', TAddress), (''to'', TAddress),
        (''amount'', TUint256)] [('''', TBool)],
      AbiFunction ''balanceOf'' View [(''account'', TAddress)] [('''', TUint256)],
      AbiFunction ''allowance'' View [(''owner'', TAddress), (''spender'', TAddress)]
        [('''', TUint256)],
      AbiFunction ''decimals'' View [] [('''', TUint8)],
      AbiFunction ''symbol'' View [] [('''', TString)],
      AbiFunction ''name'' View [] [('''', TString)]]"

section \<open>Looking entries up\<close>

definition abi_function ::
  "abi_item list \<Rightarrow> string \<Rightarrow> (mutability \<times> (string \<times> abi_type) list \<times> (string \<times> abi_type) list) option" where
  "abi_function abi name = List.find (\<lambda>_. True)
     (concat (map (\<lambda>item. case item of
        AbiFunction n m ins outs \<Rightarrow> if n = name then [(m, ins, outs)] else [] | _ \<Rightarrow> []) abi))"

definition abi_error :: "abi_item list \<Rightarrow> string \<Rightarrow> (string \<times> abi_type) list option" where
  "abi_error abi name = List.find (\<lambda>_. True)
     (concat (map (\<lambda>item. case item of
        AbiError n ins \<Rightarrow> if n = name then [ins] else [] | _ \<Rightarrow> []) abi))"

text \<open>
  Values on the JavaScript side of a call: hex text and other strings, \<open>bigint\<close>s (which is how
  ethers represents every integer type), booleans and structs.
\<close>

datatype abi_value = VStr string | VInt int | VBool bool | VTuple "abi_value list"

definition is_hex :: "char \<Rightarrow> bool" where
  "is_hex c = (let n = (of_char c :: nat) in
     48 \<le> n \<and> n \<le> 57 \<or> 65 \<le> n \<and> n \<le> 70 \<or> 97 \<le> n \<and> n \<le> 102)"

definition is_hex_bytes :: "nat \<Rightarrow> string \<Rightarrow> bool" where
  "is_hex_bytes n s = (take 2 s = ''0x'' \<and> length s = 2 + 2 * n \<and> list_all is_hex (drop 2 s))"

fun fits :: "abi_type \<Rightarrow> abi_value \<Rightarrow> bool" where
  "fits TAddress (VStr s) = is_hex_bytes 20 s"
| "fits TBytes32 (VStr s) = is_hex_bytes 32 s"
| "fits TUint256 (VInt i) = (0 \<le> i \<and> i < 2 ^ 256)"
| "fits TUint8 (VInt i) = (0 \<le> i \<and> i < 2 ^ 8)"
| "fits TBool (VBool b) = True"
| "fits TString (VStr s) = True"
| "fits (TTuple []) (VTuple []) = True"
| "fits (TTuple ((name, t) # parts)) (VTuple (v # vs)) = (fits t v \<and> fits (TTuple parts) (VTuple vs))"
| "fits _ _ = False"

definition fits_all :: "(string \<times> abi_type) list \<Rightarrow> abi_value list \<Rightarrow> bool" where
  "fits_all params vs = list_all2 (\<lambda>(name, t) v. fits t v) params vs"

definition well_typed_call :: "abi_item list \<Rightarrow> string \<Rightarrow> abi_value list \<Rightarrow> bool" where
  "well_typed_call abi method args =
     (case abi_function abi method of None \<Rightarrow> False | Some (m, ins, outs) \<Rightarrow> fits_all ins args)"

definition well_typed_answer :: "abi_item list \<Rightarrow> string \<Rightarrow> abi_value list \<Rightarrow> bool" where
  "well_typed_answer abi method answer =
     (case abi_function abi method of None \<Rightarrow> False | Some (m, ins, outs) \<Rightarrow> fits_all outs answer)"

lemma fits_all_simps [simp]:
  "fits_all [] vs \<longleftrightarrow> vs = []"
  "fits_all ((n, t) # ps) vs \<longleftrightarrow> (\<exists>x xs. vs = x # xs \<and> fits t x \<and> fits_all ps xs)"
  by (auto simp: fits_all_def list_all2_Cons1)

lemma fits_iff:
  "fits TAddress v \<longleftrightarrow> (\<exists>s. v = VStr s \<and> is_hex_bytes 20 s)"
  "fits TBytes32 v \<longleftrightarrow> (\<exists>s. v = VStr s \<and> is_hex_bytes 32 s)"
  "fits TUint256 v \<longleftrightarrow> (\<exists>i. v = VInt i \<and> 0 \<le> i \<and> i < 2 ^ 256)"
  "fits TUint8 v \<longleftrightarrow> (\<exists>i. v = VInt i \<and> 0 \<le> i \<and> i < 2 ^ 8)"
  "fits TBool v \<longleftrightarrow> (\<exists>b. v = VBool b)"
  by (cases v; simp)+

section \<open>The contract's side\<close>

text \<open>The signature of each transaction, as \<open>RoyaltySettlement.sol\<close> declares it.\<close>

fun rs_signature :: "rs_call \<Rightarrow> string \<times> abi_type list" where
  "rs_signature (SubmitStatement i a v h) =
     (''submitStatement'', [TBytes32, TAddress, TUint256, TBytes32])"
| "rs_signature (FinalizeStatement i) = (''finalizeStatement'', [TBytes32])"
| "rs_signature (DisputeStatement i reason) = (''disputeStatement'', [TBytes32, TString])"
| "rs_signature ClaimPayment = (''claimPayment'', [])"
| "rs_signature (SetDisputeWindow w) = (''setDisputeWindow'', [TUint256])"
| "rs_signature (EmergencyWithdraw t a v) = (''emergencyWithdraw'', [TAddress, TAddress, TUint256])"
| "rs_signature (Inherited Pause) = (''pause'', [])"
| "rs_signature (Inherited Unpause) = (''unpause'', [])"
| "rs_signature (Inherited (TransferOwnership a)) = (''transferOwnership'', [TAddress])"
| "rs_signature (Inherited RenounceOwnership) = (''renounceOwnership'', [])"

text \<open>The signature of each error the contract declares.\<close>

fun revert_signature :: "evm_revert \<Rightarrow> (string \<times> abi_type list) option" where
  "revert_signature (StatementAlreadyExists i) = Some (''StatementAlreadyExists'', [TBytes32])"
| "revert_signature (StatementNotFound i) = Some (''StatementNotFound'', [TBytes32])"
| "revert_signature InvalidSupplierAddress = Some (''InvalidSupplierAddress'', [])"
| "revert_signature InvalidAmount = Some (''InvalidAmount'', [])"
| "revert_signature (StatementNotSubmitted i) = Some (''StatementNotSubmitted'', [TBytes32])"
| "revert_signature (DisputeWindowNotPassed i t) =
     Some (''DisputeWindowNotPassed'', [TBytes32, TUint256])"
| "revert_signature (StatementAlreadyFinalized i) = Some (''StatementAlreadyFinalized'', [TBytes32])"
| "revert_signature (StatementDisputedError i) = Some (''StatementDisputedError'', [TBytes32])"
| "revert_signature (NotSupplier i a) = Some (''NotSupplier'', [TBytes32, TAddress])"
| "revert_signature (DisputeWindowPassed i) = Some (''DisputeWindowPassed'', [TBytes32])"
| "revert_signature NothingToClaim = Some (''NothingToClaim'', [])"
| "revert_signature InvalidDisputeWindow = Some (''InvalidDisputeWindow'', [])"
| "revert_signature _ = None"

text \<open>An error or a function is found by the hash of its signature: name and types must agree.\<close>

definition decodes_error :: "abi_item list \<Rightarrow> evm_revert \<Rightarrow> bool" where
  "decodes_error abi e = (case revert_signature e of None \<Rightarrow> False
     | Some (name, ts) \<Rightarrow> map_option (map snd) (abi_error abi name) = Some ts)"

definition names_call :: "abi_item list \<Rightarrow> rs_call \<Rightarrow> bool" where
  "names_call abi call = (case rs_signature call of (name, ts) \<Rightarrow>
     (case abi_function abi name of None \<Rightarrow> False
      | Some (m, ins, outs) \<Rightarrow> m = Nonpayable \<and> map snd ins = ts))"

lemmas rs_abi_defs = RoyaltySettlementABI_def rs_abi_events_def rs_abi_reads_def
  rs_abi_writes_def rs_abi_errors_def

lemma fits_tuple_simps:
  "fits (TTuple []) v \<longleftrightarrow> v = VTuple []"
  "fits (TTuple ((name, t) # parts)) v \<longleftrightarrow>
     (\<exists>x xs. v = VTuple (x # xs) \<and> fits t x \<and> fits (TTuple parts) (VTuple xs))"
proof -
  show "fits (TTuple []) v \<longleftrightarrow> v = VTuple []"
    by (cases "(TTuple [], v)" rule: fits.cases) simp_all
  show "fits (TTuple ((name, t) # parts)) v \<longleftrightarrow>
     (\<exists>x xs. v = VTuple (x # xs) \<and> fits t x \<and> fits (TTuple parts) (VTuple xs))"
    by (cases "(TTuple ((name, t) # parts), v)" rule: fits.cases) auto
qed

section \<open>Agreement\<close>

text \<open>The settlement ABI the client is built with names, with the argument types of the
  contract, exactly the contract's transactions other than \<open>emergencyWithdraw\<close> and the inherited
  ownership functions, and lists every error the contract declares except \<open>StatementDisputedError\<close>:
  that error, which finalising a disputed statement raises, stands in the array as
  \<open>StatementDisputed\<close> and so cannot be decoded.\<close>

lemma abi_matches_contract:
  shows "(\<forall>call. names_call RoyaltySettlementABI call \<longleftrightarrow>
       (case call of EmergencyWithdraw t a v \<Rightarrow> False
        | Inherited (TransferOwnership a) \<Rightarrow> False | Inherited RenounceOwnership \<Rightarrow> False
        | _ \<Rightarrow> True)) \<and>
     (\<forall>e. revert_signature e \<noteq> None \<longrightarrow>
       decodes_error RoyaltySettlementABI e = (\<forall>i. e \<noteq> StatementDisputedError i)) \<and>
     (oz_whenNotPaused oz (rs_base s) = None \<and> os_status (rs_statements s i) = Disputed \<longrightarrow>
       rs_finalizeStatement oz msg i s = Inl (StatementDisputedError i))"
proof (intro conjI allI impI)
  show "names_call RoyaltySettlementABI call \<longleftrightarrow>
       (case call of EmergencyWithdraw t a v \<Rightarrow> False
        | Inherited (TransferOwnership a) \<Rightarrow> False | Inherited RenounceOwnership \<Rightarrow> False
        | _ \<Rightarrow> True)" for call
    by (cases call rule: rs_signature.cases)
      (simp_all add: names_call_def abi_function_def rs_abi_defs)
  show "revert_signature e \<noteq> None \<Longrightarrow>
       decodes_error RoyaltySettlementABI e = (\<forall>i. e \<noteq> StatementDisputedError i)" for e
    by (cases e rule: revert_signature.cases)
      (simp_all add: decodes_error_def abi_error_def rs_abi_defs)
  show "oz_whenNotPaused oz (rs_base s) = None \<and> os_status (rs_statements s i) = Disputed \<Longrightarrow>
       rs_finalizeStatement oz msg i s = Inl (StatementDisputedError i)"
    by (simp add: rs_finalizeStatement_def Let_def modifier_def revert_if_def)
qed

end
