(* ===== verification/ContractClient.thy ===== *)
theory ContractClient
  imports ContractAbi
begin

text \<open>
  \<open>ZKDPPContractClient\<close> of \<open>src/packages/contracts/src/client.ts\<close> with the types of \<open>types.ts\<close>:
  the client as a record with its four contract instances and its signer, one definition per
  method. ethers (version 6) is third-party: it is the record \<open>ethers\<close> over the state of the
  outside world, and what it does with a call is its own; the client's part is which contract
  it calls through which runner, with which arguments, and what it makes of the answer. A
  method that throws returns \<^const>\<open>Inl\<close>.
\<close>

section \<open>Types\<close>

text \<open>The numbers of the enumeration \<open>StatementStatus\<close>.\<close>

definition Status_None :: int where "Status_None = 0"
definition Status_Submitted :: int where "Status_Submitted = 1"
definition Status_Disputed :: int where "Status_Disputed = 2"
definition Status_Finalized :: int where "Status_Finalized = 3"
definition Status_Paid :: int where "Status_Paid = 4"

record ClientStatement =
  cs_statementHash :: abi_value
  cs_supplier :: abi_value
  cs_totalAmount :: abi_value
  cs_submittedAt :: abi_value
  cs_finalizedAt :: abi_value
  cs_status :: int

record StatementSubmission =
  ss_statementId :: string
  ss_supplier :: string
  ss_totalAmount :: string
  ss_statementHash :: string

record VerificationRecord =
  vr_brand :: string
  vr_supplier :: string
  vr_amount :: string
  vr_receiptId :: string

record FeeBreakdown =
  fb_supplierAmount :: abi_value
  fb_protocolFee :: abi_value
  fb_gatewayFee :: abi_value

record TransactionReceipt =
  rc_blockNumber :: int
  rc_gasUsed :: int

record TransactionResult =
  tr_hash :: string
  tr_receipt :: TransactionReceipt
  tr_blockNumber :: int
  tr_gasUsed :: int

record FeeData =
  fd_gasPrice :: "int option"
  fd_maxFeePerGas :: "int option"
  fd_maxPriorityFeePerGas :: "int option"

record GasEstimate =
  ge_gasLimit :: int
  ge_gasPrice :: int
  ge_maxFeePerGas :: "int option"
  ge_maxPriorityFeePerGas :: "int option"
  ge_estimatedCost :: int

record ContractAddresses =
  ca_settlement :: string
  ca_escrow :: string
  ca_distributor :: string
  ca_usdc :: string

record ClientConfig =
  cf_addresses :: ContractAddresses
  cf_chainId :: "int option"
  cf_rpcUrl :: "string option"

definition BaseMainnet :: int where "BaseMainnet = 8453"
definition BaseSepolia :: int where "BaseSepolia = 84532"
definition Localhost :: int where "Localhost = 31337"

text \<open>\<open>KNOWN_ADDRESSES\<close>: per chain the addresses that are known, here only one contract's.\<close>

definition KNOWN_ADDRESSES :: "(int \<times> (string \<times> string) list) list" where
  "KNOWN_ADDRESSES =
     [(BaseMainnet, [(''usdc'', ''0x833589fCD6eDb6E08f4c7C32D4f71b54bdA02913'')]),
      (BaseSepolia, [])]"

section \<open>The client\<close>

datatype 'g runner = ProviderRunner | SignerRunner 'g

record 'g Contract =
  ct_address :: string
  ct_abi :: "abi_item list"
  ct_runner :: "'g runner"

text \<open>
  What the client uses of ethers: building a wallet from a key; sending a call, which gives the
  hash of the transaction, and waiting for its receipt; calling a read function, which gives
  the list of results; estimating gas and fees; hashing and the conversion of units. All of
  it may throw.
\<close>

record ('g, 'w) ethers =
  et_Wallet :: "string \<Rightarrow> thrown + 'g"
  et_send :: "'g Contract \<Rightarrow> string \<Rightarrow> abi_value list \<Rightarrow> 'w \<Rightarrow> (thrown + string) \<times> 'w"
  et_wait :: "string \<Rightarrow> 'w \<Rightarrow> (thrown + TransactionReceipt option) \<times> 'w"
  et_call :: "'g Contract \<Rightarrow> string \<Rightarrow> abi_value list \<Rightarrow> 'w \<Rightarrow> thrown + abi_value list"
  et_estimateGas :: "'g Contract \<Rightarrow> string \<Rightarrow> abi_value list \<Rightarrow> 'w \<Rightarrow> thrown + int"
  et_getFeeData :: "'w \<Rightarrow> thrown + FeeData"
  et_keccakUtf8 :: "string \<Rightarrow> string"
  et_formatUnits :: "string \<Rightarrow> nat \<Rightarrow> thrown + string"
  et_parseUnits :: "string \<Rightarrow> nat \<Rightarrow> thrown + int"

record 'g ContractClient =
  cc_providerUrl :: "string option"
  cc_signer :: "'g option"
  cc_addresses :: ContractAddresses
  cc_chainId :: "int option"
  cc_settlement :: "'g Contract"
  cc_escrow :: "'g Contract"
  cc_distributor :: "'g Contract"
  cc_usdc :: "'g Contract"

definition new_contract :: "string \<Rightarrow> abi_item list \<Rightarrow> 'g Contract" where
  "new_contract address abi = \<lparr>ct_address = address, ct_abi = abi, ct_runner = ProviderRunner\<rparr>"

text \<open>\<open>config.rpcUrl ? ... : ...\<close>: an empty url is no url.\<close>

definition newContractClient :: "ClientConfig \<Rightarrow> 'g ContractClient" where
  "newContractClient config =
     \<lparr>cc_providerUrl = js_or_null (cf_rpcUrl config), cc_signer = None,
      cc_addresses = cf_addresses config, cc_chainId = cf_chainId config,
      cc_settlement = new_contract (ca_settlement (cf_addresses config)) RoyaltySettlementABI,
      cc_escrow = new_contract (ca_escrow (cf_addresses config)) VerificationEscrowABI,
      cc_distributor = new_contract (ca_distributor (cf_addresses config)) PaymentDistributorABI,
      cc_usdc = new_contract (ca_usdc (cf_addresses config)) ERC20ABI\<rparr>"

definition contract_connect :: "'g \<Rightarrow> 'g Contract \<Rightarrow> 'g Contract" where
  "contract_connect signer c = c\<lparr>ct_runner := SignerRunner signer\<rparr>"

definition client_connect :: "'g \<Rightarrow> 'g ContractClient \<Rightarrow> 'g ContractClient" where
  "client_connect signer cl =
     cl\<lparr>cc_signer := Some signer,
        cc_settlement := contract_connect signer (cc_settlement cl),
        cc_escrow := contract_connect signer (cc_escrow cl),
        cc_distributor := contract_connect signer (cc_distributor cl),
        cc_usdc := contract_connect signer (cc_usdc cl)\<rparr>"

definition connectWithKey ::
  "('g, 'w) ethers \<Rightarrow> string \<Rightarrow> 'g ContractClient \<Rightarrow> thrown + 'g ContractClient" where
  "connectWithKey et privateKey cl =
     sum_bind (et_Wallet et privateKey) (\<lambda>wallet. Inr (client_connect wallet cl))"

section \<open>Helpers of the methods\<close>

definition toBytes32 :: "('g, 'w) ethers \<Rightarrow> string \<Rightarrow> string" where
  "toBytes32 et value =
     (if js_startsWith value ''0x'' \<and> length value = 66 then value else et_keccakUtf8 et value)"

definition requireSigner :: "'g ContractClient \<Rightarrow> thrown + 'g" where
  "requireSigner cl =
     (case cc_signer cl of
        None \<Rightarrow> Inl (ThrownError ''Error''
          ''Signer required for write operations. Call connect() first.'')
      | Some signer \<Rightarrow> Inr signer)"

text \<open>
  \<open>BigInt(text)\<close>: white space around the digits is skipped, the empty text is 0, a decimal may
  have a sign; prefixed hexadecimal, octal and binary literals are read in their base.
\<close>

definition js_is_space :: "char \<Rightarrow> bool" where
  "js_is_space c = (c \<in> {CHR '' '', CHR 0x09, CHR 0x0A, CHR 0x0B, CHR 0x0C, CHR 0x0D, CHR 0xA0})"

definition js_trim :: "string \<Rightarrow> string" where
  "js_trim s = rev (dropWhile js_is_space (rev (dropWhile js_is_space s)))"

definition char_digit :: "char \<Rightarrow> nat option" where
  "char_digit c = (let n = (of_char c :: nat) in
     if 48 \<le> n \<and> n \<le> 57 then Some (n - 48)
     else if 65 \<le> n \<and> n \<le> 70 then Some (n - 55)
     else if 97 \<le> n \<and> n \<le> 102 then Some (n - 87) else None)"

fun read_base :: "nat \<Rightarrow> nat \<Rightarrow> string \<Rightarrow> nat option" where
  "read_base b acc [] = Some acc"
| "read_base b acc (c # cs) =
     (case char_digit c of
        None \<Rightarrow> None
      | Some d \<Rightarrow> if d < b then read_base b (b * acc + d) cs else None)"

definition read_literal :: "nat \<Rightarrow> string \<Rightarrow> int option" where
  "read_literal b s = (if s = [] then None else map_option int (read_base b 0 s))"

definition js_BigInt :: "string \<Rightarrow> thrown + int" where
  "js_BigInt text =
     (let s = js_trim text in
      let value =
        (if s = [] then Some 0
         else if take 2 s \<in> {''0x'', ''0X''} then read_literal 16 (drop 2 s)
         else if take 2 s \<in> {''0o'', ''0O''} then read_literal 8 (drop 2 s)
         else if take 2 s \<in> {''0b'', ''0B''} then read_literal 2 (drop 2 s)
         else if hd s = CHR ''-'' then map_option uminus (read_literal 10 (tl s))
         else if hd s = CHR ''+'' then read_literal 10 (tl s)
         else read_literal 10 s) in
      case value of
        Some i \<Rightarrow> Inr i
      | None \<Rightarrow> Inl (ThrownError ''SyntaxError'' (''Cannot convert '' @ text @ '' to a BigInt'')))"

text \<open>Sending a transaction and waiting for it, the end of every write method.\<close>

definition transact ::
  "('g, 'w) ethers \<Rightarrow> 'g Contract \<Rightarrow> string \<Rightarrow> abi_value list \<Rightarrow> 'w \<Rightarrow>
     (thrown + TransactionResult) \<times> 'w" where
  "transact et contract method args w =
     (case et_send et contract method args w of
        (Inl e, w') \<Rightarrow> (Inl e, w')
      | (Inr txHash, w') \<Rightarrow>
          (case et_wait et txHash w' of
             (Inl e, w'') \<Rightarrow> (Inl e, w'')
           | (Inr None, w'') \<Rightarrow> (Inl (ThrownError ''Error'' ''Transaction failed''), w'')
           | (Inr (Some receipt), w'') \<Rightarrow>
               (Inr \<lparr>tr_hash = txHash, tr_receipt = receipt, tr_blockNumber = rc_blockNumber receipt,
                     tr_gasUsed = rc_gasUsed receipt\<rparr>, w'')))"

text \<open>A method that needs a signer and builds its arguments before it sends.\<close>

definition write_method ::
  "('g, 'w) ethers \<Rightarrow> 'g ContractClient \<Rightarrow> 'g Contract \<Rightarrow> string \<Rightarrow> thrown + abi_value list \<Rightarrow> 'w \<Rightarrow>
     (thrown + TransactionResult) \<times> 'w" where
  "write_method et cl contract method args w =
     (case requireSigner cl of
        Inl e \<Rightarrow> (Inl e, w)
      | Inr signer \<Rightarrow>
          (case args of
             Inl e \<Rightarrow> (Inl e, w)
           | Inr vs \<Rightarrow> transact et contract method vs w))"

section \<open>Settlement contract methods\<close>

definition statementHashBytes :: "('g, 'w) ethers \<Rightarrow> string \<Rightarrow> string" where
  "statementHashBytes et statementHash =
     (if js_startsWith statementHash ''0x'' then statementHash else toBytes32 et statementHash)"

definition submission_args ::
  "('g, 'w) ethers \<Rightarrow> StatementSubmission \<Rightarrow> thrown + abi_value list" where
  "submission_args et submission =
     sum_bind (js_BigInt (ss_totalAmount submission)) (\<lambda>amount.
       Inr [VStr (toBytes32 et (ss_statementId submission)), VStr (ss_supplier submission),
            VInt amount, VStr (statementHashBytes et (ss_statementHash submission))])"

definition client_submitStatement ::
  "('g, 'w) ethers \<Rightarrow> 'g ContractClient \<Rightarrow> StatementSubmission \<Rightarrow> 'w \<Rightarrow>
     (thrown + TransactionResult) \<times> 'w" where
  "client_submitStatement et cl submission w =
     write_method et cl (cc_settlement cl) ''submitStatement'' (submission_args et submission) w"

definition client_finalizeStatement ::
  "('g, 'w) ethers \<Rightarrow> 'g ContractClient \<Rightarrow> string \<Rightarrow> 'w \<Rightarrow> (thrown + TransactionResult) \<times> 'w" where
  "client_finalizeStatement et cl statementId w =
     write_method et cl (cc_settlement cl) ''finalizeStatement''
       (Inr [VStr (toBytes32 et statementId)]) w"

definition client_disputeStatement ::
  "('g, 'w) ethers \<Rightarrow> 'g ContractClient \<Rightarrow> string \<Rightarrow> string \<Rightarrow> 'w \<Rightarrow>
     (thrown + TransactionResult) \<times> 'w" where
  "client_disputeStatement et cl statementId reason w =
     write_method et cl (cc_settlement cl) ''disputeStatement''
       (Inr [VStr (toBytes32 et statementId), VStr reason]) w"

definition client_claimPayment ::
  "('g, 'w) ethers \<Rightarrow> 'g ContractClient \<Rightarrow> 'w \<Rightarrow> (thrown + TransactionResult) \<times> 'w" where
  "client_claimPayment et cl w = write_method et cl (cc_settlement cl) ''claimPayment'' (Inr []) w"

text \<open>
  \<open>v === n\<close> for a number \<open>n\<close>: no value ethers decodes is a number, its integers are bigints, and a
  bigint is never strictly equal to a number.
\<close>

fun js_strict_eq_number :: "abi_value \<Rightarrow> int \<Rightarrow> bool" where
  "js_strict_eq_number (VInt i) n = False"
| "js_strict_eq_number (VStr s) n = False"
| "js_strict_eq_number (VBool b) n = False"
| "js_strict_eq_number (VTuple vs) n = False"

text \<open>Reading a single result. An answer of another shape is one the code does not expect.\<close>

definition unexpected :: thrown where
  "unexpected = ThrownError ''TypeError'' ''unexpected answer''"

fun single :: "abi_value list \<Rightarrow> thrown + abi_value" where
  "single [v] = Inr v"
| "single vs = Inl unexpected"

fun value_int :: "abi_value \<Rightarrow> thrown + int" where
  "value_int (VInt i) = Inr i"
| "value_int v = Inl unexpected"

fun value_bool :: "abi_value \<Rightarrow> thrown + bool" where
  "value_bool (VBool b) = Inr b"
| "value_bool v = Inl unexpected"

definition read_int ::
  "('g, 'w) ethers \<Rightarrow> 'g Contract \<Rightarrow> string \<Rightarrow> abi_value list \<Rightarrow> 'w \<Rightarrow> thrown + int" where
  "read_int et contract method args w =
     sum_bind (sum_bind (et_call et contract method args w) single) value_int"

definition read_bool ::
  "('g, 'w) ethers \<Rightarrow> 'g Contract \<Rightarrow> string \<Rightarrow> abi_value list \<Rightarrow> 'w \<Rightarrow> thrown + bool" where
  "read_bool et contract method args w =
     sum_bind (sum_bind (et_call et contract method args w) single) value_bool"

definition read_text ::
  "('g, 'w) ethers \<Rightarrow> 'g Contract \<Rightarrow> string \<Rightarrow> abi_value list \<Rightarrow> 'w \<Rightarrow> thrown + string" where
  "read_text et contract method args w =
     sum_bind (read_int et contract method args w) (\<lambda>i. Inr (show_int i))"

definition client_getStatement ::
  "('g, 'w) ethers \<Rightarrow> 'g ContractClient \<Rightarrow> string \<Rightarrow> 'w \<Rightarrow> thrown + ClientStatement option" where
  "client_getStatement et cl statementId w =
     sum_bind (sum_bind (et_call et (cc_settlement cl) ''getStatement''
         [VStr (toBytes32 et statementId)] w) single) (\<lambda>answer.
       case answer of
         VTuple [statementHash, supplier, totalAmount, submittedAt, finalizedAt, status] \<Rightarrow>
           if js_strict_eq_number status Status_None then Inr None
           else sum_bind (value_int status) (\<lambda>n. Inr (Some
             \<lparr>cs_statementHash = statementHash, cs_supplier = supplier, cs_totalAmount = totalAmount,
              cs_submittedAt = submittedAt, cs_finalizedAt = finalizedAt, cs_status = n\<rparr>))
       | _ \<Rightarrow> Inl unexpected)"

definition client_isFinalizable ::
  "('g, 'w) ethers \<Rightarrow> 'g ContractClient \<Rightarrow> string \<Rightarrow> 'w \<Rightarrow> thrown + bool" where
  "client_isFinalizable et cl statementId w =
     read_bool et (cc_settlement cl) ''isFinalizable'' [VStr (toBytes32 et statementId)] w"

definition client_getClaimableBalance ::
  "('g, 'w) ethers \<Rightarrow> 'g ContractClient \<Rightarrow> string \<Rightarrow> 'w \<Rightarrow> thrown + string" where
  "client_getClaimableBalance et cl supplier w =
     read_text et (cc_settlement cl) ''getClaimableBalance'' [VStr supplier] w"

text \<open>\<open>Number(...)\<close> is exact for the times that occur; the value is kept as an integer.\<close>

definition client_getRemainingDisputeTime ::
  "('g, 'w) ethers \<Rightarrow> 'g ContractClient \<Rightarrow> string \<Rightarrow> 'w \<Rightarrow> thrown + int" where
  "client_getRemainingDisputeTime et cl statementId w =
     read_int et (cc_settlement cl) ''getRemainingDisputeTime'' [VStr (toBytes32 et statementId)] w"

definition client_getDisputeWindow ::
  "('g, 'w) ethers \<Rightarrow> 'g ContractClient \<Rightarrow> 'w \<Rightarrow> thrown + int" where
  "client_getDisputeWindow et cl w = read_int et (cc_settlement cl) ''disputeWindow'' [] w"

definition estimateSubmissionGas ::
  "('g, 'w) ethers \<Rightarrow> 'g ContractClient \<Rightarrow> StatementSubmission \<Rightarrow> 'w \<Rightarrow> thrown + GasEstimate" where
  "estimateSubmissionGas et cl submission w =
     sum_bind (submission_args et submission) (\<lambda>args.
     sum_bind (et_estimateGas et (cc_settlement cl) ''submitStatement'' args w) (\<lambda>gasLimit.
     sum_bind (et_getFeeData et w) (\<lambda>feeData. Inr
       \<lparr>ge_gasLimit = gasLimit, ge_gasPrice = js_coalesce (fd_gasPrice feeData) 0,
        ge_maxFeePerGas = fd_maxFeePerGas feeData,
        ge_maxPriorityFeePerGas = fd_maxPriorityFeePerGas feeData,
        ge_estimatedCost = gasLimit * js_coalesce (fd_gasPrice feeData) 0\<rparr>)))"

section \<open>Escrow, distributor and token methods\<close>

definition amount_args :: "abi_value list \<Rightarrow> string \<Rightarrow> abi_value list \<Rightarrow> thrown + abi_value list" where
  "amount_args before amount after =
     sum_bind (js_BigInt amount) (\<lambda>n. Inr (before @ [VInt n] @ after))"

definition client_deposit ::
  "('g, 'w) ethers \<Rightarrow> 'g ContractClient \<Rightarrow> string \<Rightarrow> 'w \<Rightarrow> (thrown + TransactionResult) \<times> 'w" where
  "client_deposit et cl amount w =
     write_method et cl (cc_escrow cl) ''deposit'' (amount_args [] amount []) w"

definition client_recordVerification ::
  "('g, 'w) ethers \<Rightarrow> 'g ContractClient \<Rightarrow> VerificationRecord \<Rightarrow> 'w \<Rightarrow>
     (thrown + TransactionResult) \<times> 'w" where
  "client_recordVerification et cl r w =
     write_method et cl (cc_escrow cl) ''recordVerification''
       (amount_args [VStr (vr_brand r), VStr (vr_supplier r)] (vr_amount r)
          [VStr (toBytes32 et (vr_receiptId r))]) w"

definition client_getBrandBalance ::
  "('g, 'w) ethers \<Rightarrow> 'g ContractClient \<Rightarrow> string \<Rightarrow> 'w \<Rightarrow> thrown + string" where
  "client_getBrandBalance et cl brand w =
     read_text et (cc_escrow cl) ''getBrandBalance'' [VStr brand] w"

definition client_getSupplierPendingTotal ::
  "('g, 'w) ethers \<Rightarrow> 'g ContractClient \<Rightarrow> string \<Rightarrow> 'w \<Rightarrow> thrown + string" where
  "client_getSupplierPendingTotal et cl supplier w =
     read_text et (cc_escrow cl) ''getSupplierPendingTotal'' [VStr supplier] w"

definition client_isReceiptRecorded ::
  "('g, 'w) ethers \<Rightarrow> 'g ContractClient \<Rightarrow> string \<Rightarrow> 'w \<Rightarrow> thrown + bool" where
  "client_isReceiptRecorded et cl receiptId w =
     read_bool et (cc_escrow cl) ''isReceiptRecorded'' [VStr (toBytes32 et receiptId)] w"

definition client_calculateFees ::
  "('g, 'w) ethers \<Rightarrow> 'g ContractClient \<Rightarrow> string \<Rightarrow> 'w \<Rightarrow> thrown + FeeBreakdown" where
  "client_calculateFees et cl totalAmount w =
     sum_bind (amount_args [] totalAmount []) (\<lambda>args.
     sum_bind (et_call et (cc_distributor cl) ''calculateFees'' args w) (\<lambda>answer.
       case answer of
         [supplierAmount, protocolFee, gatewayFee] \<Rightarrow>
           Inr \<lparr>fb_supplierAmount = supplierAmount, fb_protocolFee = protocolFee,
                fb_gatewayFee = gatewayFee\<rparr>
       | _ \<Rightarrow> Inl unexpected))"

definition client_getFees ::
  "('g, 'w) ethers \<Rightarrow> 'g ContractClient \<Rightarrow> 'w \<Rightarrow> thrown + int \<times> int" where
  "client_getFees et cl w =
     sum_bind (et_call et (cc_distributor cl) ''getFees'' [] w) (\<lambda>answer.
       case answer of
         [protocolFeeBps, gatewayFeeBps] \<Rightarrow>
           sum_bind (value_int protocolFeeBps) (\<lambda>p.
             sum_bind (value_int gatewayFeeBps) (\<lambda>g. Inr (p, g)))
       | _ \<Rightarrow> Inl unexpected)"

definition client_getAccumulatedProtocolFees ::
  "('g, 'w) ethers \<Rightarrow> 'g ContractClient \<Rightarrow> 'w \<Rightarrow> thrown + string" where
  "client_getAccumulatedProtocolFees et cl w =
     read_text et (cc_distributor cl) ''getAccumulatedProtocolFees'' [] w"

definition client_getAccumulatedGatewayFees ::
  "('g, 'w) ethers \<Rightarrow> 'g ContractClient \<Rightarrow> string \<Rightarrow> 'w \<Rightarrow> thrown + string" where
  "client_getAccumulatedGatewayFees et cl gateway w =
     read_text et (cc_distributor cl) ''getAccumulatedGatewayFees'' [VStr gateway] w"

definition client_approveUsdc ::
  "('g, 'w) ethers \<Rightarrow> 'g ContractClient \<Rightarrow> string \<Rightarrow> string \<Rightarrow> 'w \<Rightarrow>
     (thrown + TransactionResult) \<times> 'w" where
  "client_approveUsdc et cl spender amount w =
     write_method et cl (cc_usdc cl) ''approve'' (amount_args [VStr spender] amount []) w"

definition client_getUsdcBalance ::
  "('g, 'w) ethers \<Rightarrow> 'g ContractClient \<Rightarrow> string \<Rightarrow> 'w \<Rightarrow> thrown + string" where
  "client_getUsdcBalance et cl addr w = read_text et (cc_usdc cl) ''balanceOf'' [VStr addr] w"

definition client_getUsdcAllowance ::
  "('g, 'w) ethers \<Rightarrow> 'g ContractClient \<Rightarrow> string \<Rightarrow> string \<Rightarrow> 'w \<Rightarrow> thrown + string" where
  "client_getUsdcAllowance et cl owner spender w =
     read_text et (cc_usdc cl) ''allowance'' [VStr owner, VStr spender] w"

section \<open>Utilities\<close>

definition formatUsdc :: "('g, 'w) ethers \<Rightarrow> string \<Rightarrow> thrown + string" where
  "formatUsdc et amount = et_formatUnits et amount 6"

definition parseUsdc :: "('g, 'w) ethers \<Rightarrow> string \<Rightarrow> thrown + string" where
  "parseUsdc et amount = sum_bind (et_parseUnits et amount 6) (\<lambda>units. Inr (show_int units))"

definition getAddresses :: "'g ContractClient \<Rightarrow> ContractAddresses" where
  "getAddresses cl = cc_addresses cl"

definition getChainId :: "'g ContractClient \<Rightarrow> int option" where
  "getChainId cl = cc_chainId cl"

definition getProvider :: "'g ContractClient \<Rightarrow> string option" where
  "getProvider cl = cc_providerUrl cl"

definition getSigner :: "'g ContractClient \<Rightarrow> 'g option" where
  "getSigner cl = cc_signer cl"

section \<open>Amounts as text\<close>

lemma char_digit_char [simp]: "d < 10 \<Longrightarrow> char_digit (digit_char d) = Some d"
  by (simp add: char_digit_def digit_char_def)

lemma read_base_append:
  "read_base b acc (xs @ ys) = Option.bind (read_base b acc xs) (\<lambda>a. read_base b a ys)"
  by (induction b acc xs rule: read_base.induct) (simp_all split: option.split)

lemma read_base_show_nat [simp]: "read_base 10 0 (show_nat n) = Some n"
proof (induction n rule: show_nat.induct)
  case (1 n)
  show ?case
  proof (cases "n < 10")
    case True
    then show ?thesis by (simp add: show_nat.simps [of n])
  next
    case False
    with 1 have "read_base 10 0 (show_nat (n div 10)) = Some (n div 10)" by simp
    with False show ?thesis by (simp add: show_nat.simps [of n] read_base_append)
  qed
qed

lemma show_nat_nonempty [simp]: "show_nat n \<noteq> []"
  by (simp add: show_nat.simps [of n])

lemma show_nat_digits: "c \<in> set (show_nat n) \<Longrightarrow> \<exists>d < 10. c = digit_char d"
proof (induction n rule: show_nat.induct)
  case (1 n)
  then show ?case
  proof (cases "n < 10")
    case True
    with 1 show ?thesis by (auto simp: show_nat.simps [of n])
  next
    case False
    have "\<exists>d < 10. digit_char (n mod 10) = digit_char d" by (rule exI [of _ "n mod 10"]) simp
    with False 1 show ?thesis by (auto simp: show_nat.simps [of n])
  qed
qed

lemma digit_char_plain:
  assumes "d < 10"
  shows "\<not> js_is_space (digit_char d) \<and> digit_char d \<notin> set ''xXoObB+-''"
proof -
  have "(of_char (digit_char d) :: nat) = 48 + d" using assms by (simp add: digit_char_def)
  then show ?thesis using assms by (auto simp: js_is_space_def)
qed

lemma js_trim_plain:
  assumes "\<forall>c \<in> set s. \<not> js_is_space c"
  shows "js_trim s = s"
proof -
  have "dropWhile js_is_space t = t" if "\<forall>c \<in> set t. \<not> js_is_space c" for t
    using that by (cases t) simp_all
  from this [of s] this [of "rev s"] assms show ?thesis by (simp add: js_trim_def)
qed

lemma js_BigInt_show_int: "js_BigInt (show_int i) = Inr i"
proof -
  have plain: "\<forall>c \<in> set (show_nat n). \<not> js_is_space c \<and> c \<notin> set ''xXoObB+-''" for n
    using show_nat_digits digit_char_plain by blast
  have prefix: "take 2 (show_nat n) \<noteq> [a, b]" if "b \<in> set ''xXoObB+-''" for n a b
  proof
    assume "take 2 (show_nat n) = [a, b]"
    then have "b \<in> set (show_nat n)" by (metis in_set_takeD list.set_intros(1) list.set_intros(2))
    with plain that show False by blast
  qed
  have head: "hd (show_nat n) \<notin> set ''xXoObB+-''" for n
    using plain [of n] by (meson hd_in_set show_nat_nonempty)
  have read: "read_literal 10 (show_nat n) = Some (int n)" for n
    by (simp add: read_literal_def)
  show ?thesis
  proof (cases "i < 0")
    case True
    have minus: "\<not> js_is_space (CHR ''-'')" by (simp add: js_is_space_def)
    have "js_trim (show_int i) = show_int i"
      by (rule js_trim_plain) (use plain minus True in \<open>auto simp: show_int_def\<close>)
    then show ?thesis
      using True read [of "nat (- i)"] by (simp add: js_BigInt_def show_int_def Let_def)
  next
    case False
    have "js_trim (show_nat (nat i)) = show_nat (nat i)"
      by (rule js_trim_plain) (use plain in blast)
    then show ?thesis
      using False read [of "nat i"] prefix [of _ "nat i"] head [of "nat i"]
      by (simp add: js_BigInt_def show_int_def Let_def)
  qed
qed

section \<open>The client and the ABI\<close>

text \<open>
  A client as \<open>getContractClient\<close> makes it: built from a configuration and connected to a signer.
\<close>

definition connected_client :: "'g \<Rightarrow> ClientConfig \<Rightarrow> 'g ContractClient" where
  "connected_client signer config = client_connect signer (newContractClient config)"

text \<open>
  The same outside world behind a gate that lets through only calls that fit the ABI of the
  contract they are made on.
\<close>

definition gated :: "('g, 'w) ethers \<Rightarrow> ('g, 'w) ethers" where
  "gated et = et
     \<lparr>et_send := (\<lambda>c method args w. if well_typed_call (ct_abi c) method args
        then et_send et c method args w else (Inl unexpected, w)),
      et_call := (\<lambda>c method args w. if well_typed_call (ct_abi c) method args
        then et_call et c method args w else Inl unexpected)\<rparr>"

text \<open>keccak256 gives 32 bytes of hex, and what looks like an identifier already is one.\<close>

definition hashes_to_bytes32 :: "('g, 'w) ethers \<Rightarrow> bool" where
  "hashes_to_bytes32 et = (\<forall>s. is_hex_bytes 32 (et_keccakUtf8 et s))"

definition id_ok :: "string \<Rightarrow> bool" where
  "id_ok s = (js_startsWith s ''0x'' \<and> length s = 66 \<longrightarrow> is_hex_bytes 32 s)"

definition hash_ok :: "string \<Rightarrow> bool" where
  "hash_ok s = (js_startsWith s ''0x'' \<longrightarrow> is_hex_bytes 32 s)"

definition amount_ok :: "string \<Rightarrow> bool" where
  "amount_ok s = (case js_BigInt s of Inl e \<Rightarrow> False | Inr i \<Rightarrow> 0 \<le> i \<and> i < 2 ^ 256)"

lemma toBytes32_fits: "hashes_to_bytes32 et \<Longrightarrow> id_ok s \<Longrightarrow> is_hex_bytes 32 (toBytes32 et s)"
  by (simp add: hashes_to_bytes32_def id_ok_def toBytes32_def)

lemma statementHashBytes_fits:
  "hashes_to_bytes32 et \<Longrightarrow> hash_ok s \<Longrightarrow> is_hex_bytes 32 (statementHashBytes et s)"
  by (simp add: hashes_to_bytes32_def hash_ok_def statementHashBytes_def toBytes32_def)

lemma gated_helpers [simp]:
  "toBytes32 (gated et) = toBytes32 et" "statementHashBytes (gated et) = statementHashBytes et"
  "submission_args (gated et) = submission_args et" "et_wait (gated et) = et_wait et"
  by (simp_all add: fun_eq_iff gated_def toBytes32_def statementHashBytes_def submission_args_def)

lemma et_send_gated:
  "well_typed_call (ct_abi c) method args \<Longrightarrow>
     et_send (gated et) c method args w = et_send et c method args w"
  by (simp add: gated_def)

lemma transact_gated:
  assumes "well_typed_call (ct_abi c) method args"
  shows "transact (gated et) c method args w = transact et c method args w"
  unfolding transact_def gated_helpers et_send_gated [OF assms] ..

lemma write_method_gated:
  assumes "\<And>vs. args = Inr vs \<Longrightarrow> well_typed_call (ct_abi c) method vs"
  shows "write_method (gated et) cl c method args w = write_method et cl c method args w"
  using assms transact_gated by (auto simp: write_method_def split: sum.split)

lemma et_call_gated:
  "well_typed_call (ct_abi c) method args \<Longrightarrow>
     et_call (gated et) c method args w = et_call et c method args w"
  by (simp add: gated_def)

lemma client_abis [simp]:
  "ct_abi (cc_settlement (connected_client g config)) = RoyaltySettlementABI"
  "ct_abi (cc_escrow (connected_client g config)) = VerificationEscrowABI"
  "ct_abi (cc_distributor (connected_client g config)) = PaymentDistributorABI"
  "ct_abi (cc_usdc (connected_client g config)) = ERC20ABI"
  "cc_signer (connected_client g config) = Some g"
  by (simp_all add: connected_client_def client_connect_def contract_connect_def
      newContractClient_def new_contract_def)

lemma write_method_gated_Inr:
  "well_typed_call (ct_abi c) method vs \<Longrightarrow>
     write_method (gated et) cl c method (Inr vs) w = write_method et cl c method (Inr vs) w"
  by (rule write_method_gated) simp

text \<open>The entries of the functions the client calls.\<close>

lemma settlement_functions:
  "abi_function RoyaltySettlementABI ''submitStatement'' = Some (Nonpayable,
     [(''statementId'', TBytes32), (''supplier'', TAddress), (''totalAmount'', TUint256),
      (''statementHash'', TBytes32)], [])"
  "abi_function RoyaltySettlementABI ''finalizeStatement'' =
     Some (Nonpayable, [(''statementId'', TBytes32)], [])"
  "abi_function RoyaltySettlementABI ''disputeStatement'' =
     Some (Nonpayable, [(''statementId'', TBytes32), (''reason'', TString)], [])"
  "abi_function RoyaltySettlementABI ''claimPayment'' = Some (Nonpayable, [], [])"
  "abi_function RoyaltySettlementABI ''getStatement'' = Some (View, [(''statementId'', TBytes32)],
     [('''', TTuple [(''statementHash'', TBytes32), (''supplier'', TAddress), (''totalAmount'', TUint256),
        (''submittedAt'', TUint256), (''finalizedAt'', TUint256), (''status'', TUint8)])])"
  "abi_function RoyaltySettlementABI ''isFinalizable'' =
     Some (View, [(''statementId'', TBytes32)], [('''', TBool)])"
  "abi_function RoyaltySettlementABI ''getClaimableBalance'' =
     Some (View, [(''supplier'', TAddress)], [('''', TUint256)])"
  "abi_function RoyaltySettlementABI ''getRemainingDisputeTime'' =
     Some (View, [(''statementId'', TBytes32)], [('''', TUint256)])"
  "abi_function RoyaltySettlementABI ''disputeWindow'' = Some (View, [], [('''', TUint256)])"
  by (simp_all add: abi_function_def rs_abi_defs)

lemma escrow_functions:
  "abi_function VerificationEscrowABI ''deposit'' = Some (Nonpayable, [(''amount'', TUint256)], [])"
  "abi_function VerificationEscrowABI ''recordVerification'' = Some (Nonpayable,
     [(''brand'', TAddress), (''supplier'', TAddress), (''amount'', TUint256), (''receiptId'', TBytes32)], [])"
  "abi_function VerificationEscrowABI ''getBrandBalance'' =
     Some (View, [(''brand'', TAddress)], [('''', TUint256)])"
  "abi_function VerificationEscrowABI ''getSupplierPendingTotal'' =
     Some (View, [(''supplier'', TAddress)], [('''', TUint256)])"
  "abi_function VerificationEscrowABI ''isReceiptRecorded'' =
     Some (View, [(''receiptId'', TBytes32)], [('''', TBool)])"
  by (simp_all add: abi_function_def VerificationEscrowABI_def ve_abi_events_def ve_abi_reads_def
      ve_abi_writes_def ve_abi_errors_def)

lemma distributor_functions:
  "abi_function PaymentDistributorABI ''calculateFees'' = Some (View, [(''totalAmount'', TUint256)],
     [(''supplierAmount'', TUint256), (''protocolFee'', TUint256), (''gatewayFee'', TUint256)])"
  "abi_function PaymentDistributorABI ''getFees'' = Some (View, [],
     [(''protocolFeeBps'', TUint256), (''gatewayFeeBps'', TUint256)])"
  "abi_function PaymentDistributorABI ''getAccumulatedProtocolFees'' = Some (View, [], [('''', TUint256)])"
  "abi_function PaymentDistributorABI ''getAccumulatedGatewayFees'' =
     Some (View, [(''gateway'', TAddress)], [('''', TUint256)])"
  by (simp_all add: abi_function_def PaymentDistributorABI_def pd_abi_events_def pd_abi_reads_def
      pd_abi_writes_def pd_abi_errors_def)

lemma token_functions:
  "abi_function ERC20ABI ''approve'' =
     Some (Nonpayable, [(''spender'', TAddress), (''amount'', TUint256)], [('''', TBool)])"
  "abi_function ERC20ABI ''balanceOf'' = Some (View, [(''account'', TAddress)], [('''', TUint256)])"
  "abi_function ERC20ABI ''allowance'' =
     Some (View, [(''owner'', TAddress), (''spender'', TAddress)], [('''', TUint256)])"
  by (simp_all add: abi_function_def ERC20ABI_def)

lemmas client_functions = settlement_functions escrow_functions distributor_functions token_functions

lemmas read_defs = read_text_def read_int_def read_bool_def client_getStatement_def
  client_isFinalizable_def client_getClaimableBalance_def client_getRemainingDisputeTime_def
  client_getDisputeWindow_def client_getBrandBalance_def client_getSupplierPendingTotal_def
  client_isReceiptRecorded_def client_calculateFees_def client_getFees_def
  client_getAccumulatedProtocolFees_def client_getAccumulatedGatewayFees_def
  client_getUsdcBalance_def client_getUsdcAllowance_def

lemmas write_defs = client_submitStatement_def client_finalizeStatement_def
  client_disputeStatement_def client_claimPayment_def client_deposit_def
  client_recordVerification_def client_approveUsdc_def

lemma submission_args_typed:
  assumes "hashes_to_bytes32 et" and "id_ok (ss_statementId sub)" and "hash_ok (ss_statementHash sub)"
    and "is_hex_bytes 20 (ss_supplier sub)" and "amount_ok (ss_totalAmount sub)"
    and "submission_args et sub = Inr vs"
  shows "well_typed_call RoyaltySettlementABI ''submitStatement'' vs"
  using assms toBytes32_fits statementHashBytes_fits
  by (auto simp: submission_args_def inr_iff amount_ok_def well_typed_call_def settlement_functions)

lemma amount_args_typed:
  "amount_ok s \<Longrightarrow> amount_args before s after = Inr vs \<Longrightarrow>
     \<exists>i. 0 \<le> i \<and> i < 2 ^ 256 \<and> vs = before @ [VInt i] @ after"
  by (auto simp: amount_args_def inr_iff amount_ok_def)

text \<open>
  What well-formed arguments are, method by method: identifiers that are 32 bytes of hex when
  they look like it, addresses of 20 bytes, amounts that fit a word.
\<close>

definition submission_ok :: "StatementSubmission \<Rightarrow> bool" where
  "submission_ok s \<longleftrightarrow> id_ok (ss_statementId s) \<and> hash_ok (ss_statementHash s) \<and>
     is_hex_bytes 20 (ss_supplier s) \<and> amount_ok (ss_totalAmount s)"

definition record_ok :: "VerificationRecord \<Rightarrow> bool" where
  "record_ok r \<longleftrightarrow> is_hex_bytes 20 (vr_brand r) \<and> is_hex_bytes 20 (vr_supplier r) \<and>
     amount_ok (vr_amount r) \<and> id_ok (vr_receiptId r)"

text \<open>The answers of the node have the types the ABI announces.\<close>

definition typed_answers :: "('g, 'w) ethers \<Rightarrow> bool" where
  "typed_answers et = (\<forall>c method args w vs. et_call et c method args w = Inr vs \<longrightarrow>
     well_typed_answer (ct_abi c) method vs)"

lemma typed_answer:
  assumes "typed_answers et" and "et_call et c method args w = Inr vs"
    and "abi_function (ct_abi c) method = Some (m, ins, outs)"
  shows "fits_all outs vs"
proof -
  from assms(1,2) have "well_typed_answer (ct_abi c) method vs" unfolding typed_answers_def by blast
  with assms(3) show ?thesis by (simp add: well_typed_answer_def)
qed

definition answers :: "thrown + 'a \<Rightarrow> thrown + 'b \<Rightarrow> bool" where
  "answers call result = (case call of Inl e \<Rightarrow> result = Inl e | Inr vs \<Rightarrow> \<exists>x. result = Inr x)"

lemma read_int_answers:
  assumes "typed_answers et" and "abi_function (ct_abi c) method = Some (m, ins, [(n, TUint256)])"
  shows "answers (et_call et c method args w) (read_int et c method args w)"
    and "answers (et_call et c method args w) (read_text et c method args w)"
proof -
  have "(\<exists>e. et_call et c method args w = Inl e) \<or> (\<exists>i. et_call et c method args w = Inr [VInt i])"
    using typed_answer [OF assms(1) _ assms(2), of args w]
    by (cases "et_call et c method args w") (auto simp: fits_iff)
  then show "answers (et_call et c method args w) (read_int et c method args w)"
    and "answers (et_call et c method args w) (read_text et c method args w)"
    by (auto simp: answers_def read_text_def read_int_def)
qed

lemma read_bool_answers:
  assumes "typed_answers et" and "abi_function (ct_abi c) method = Some (m, ins, [(n, TBool)])"
  shows "answers (et_call et c method args w) (read_bool et c method args w)"
proof -
  have "(\<exists>e. et_call et c method args w = Inl e) \<or> (\<exists>b. et_call et c method args w = Inr [VBool b])"
    using typed_answer [OF assms(1) _ assms(2), of args w]
    by (cases "et_call et c method args w") (auto simp: fits_iff)
  then show ?thesis by (auto simp: answers_def read_bool_def)
qed

text \<open>
  A node for examples, on which no statement stands: it answers \<open>getStatement\<close> with the empty
  statement and refuses everything else.
\<close>

definition zeros :: "nat \<Rightarrow> string" where
  "zeros n = ''0x'' @ replicate (2 * n) (CHR ''0'')"

definition empty_node :: "(unit, unit) ethers" where
  "empty_node =
     \<lparr>et_Wallet = (\<lambda>key. Inr ()),
      et_send = (\<lambda>c method args w. (Inl (ThrownError ''Error'' ''execution reverted''), w)),
      et_wait = (\<lambda>h w. (Inr None, w)),
      et_call = (\<lambda>c method args w. if method = ''getStatement'' \<and> ct_abi c = RoyaltySettlementABI
        then Inr [VTuple [VStr (zeros 32), VStr (zeros 20), VInt 0, VInt 0, VInt 0, VInt 0]]
        else Inl (ThrownError ''Error'' ''execution reverted'')),
      et_estimateGas = (\<lambda>c method args w. Inl (ThrownError ''Error'' ''execution reverted'')),
      et_getFeeData = (\<lambda>w. Inl (ThrownError ''Error'' ''execution reverted'')),
      et_keccakUtf8 = (\<lambda>s. zeros 32),
      et_formatUnits = (\<lambda>s n. Inr s),
      et_parseUnits = (\<lambda>s n. Inr 0)\<rparr>"

definition demo_config :: ClientConfig where
  "demo_config =
     \<lparr>cf_addresses = \<lparr>ca_settlement = zeros 20, ca_escrow = zeros 20, ca_distributor = zeros 20,
        ca_usdc = zeros 20\<rparr>, cf_chainId = Some Localhost, cf_rpcUrl = None\<rparr>"

lemma zeros_hex [simp]: "is_hex_bytes n (zeros n)"
proof -
  have "is_hex (CHR ''0'')" by (simp add: is_hex_def)
  then show ?thesis by (simp add: is_hex_bytes_def zeros_def list_all_iff)
qed

lemma empty_node_hashes: "hashes_to_bytes32 empty_node"
  by (simp add: hashes_to_bytes32_def empty_node_def)

lemma empty_node_typed: "typed_answers empty_node"
  by (simp add: typed_answers_def empty_node_def well_typed_answer_def settlement_functions)

lemma calls_by_id_typed:
  assumes "hashes_to_bytes32 et" and "cl = connected_client g config" and "id_ok i"
  shows "client_finalizeStatement (gated et) cl i w = client_finalizeStatement et cl i w \<and>
           client_disputeStatement (gated et) cl i reason w = client_disputeStatement et cl i reason w \<and>
           client_getStatement (gated et) cl i w = client_getStatement et cl i w \<and>
           client_isFinalizable (gated et) cl i w = client_isFinalizable et cl i w \<and>
           client_getRemainingDisputeTime (gated et) cl i w = client_getRemainingDisputeTime et cl i w \<and>
           client_isReceiptRecorded (gated et) cl i w = client_isReceiptRecorded et cl i w"
  using toBytes32_fits [OF assms(1)] assms(3)
  by (simp add: write_defs read_defs write_method_gated_Inr et_call_gated well_typed_call_def client_functions assms(2))

lemma calls_without_arguments_typed:
  assumes "cl = connected_client g config"
  shows "client_claimPayment (gated et) cl w = client_claimPayment et cl w \<and>
           client_getDisputeWindow (gated et) cl w = client_getDisputeWindow et cl w \<and>
           client_getFees (gated et) cl w = client_getFees et cl w \<and>
           client_getAccumulatedProtocolFees (gated et) cl w = client_getAccumulatedProtocolFees et cl w"
  by (simp add: write_defs read_defs write_method_gated_Inr et_call_gated well_typed_call_def client_functions assms)

lemma calls_by_address_typed:
  assumes "cl = connected_client g config" and "is_hex_bytes 20 a" and "is_hex_bytes 20 b"
  shows "client_getClaimableBalance (gated et) cl a w = client_getClaimableBalance et cl a w \<and>
           client_getBrandBalance (gated et) cl a w = client_getBrandBalance et cl a w \<and>
           client_getSupplierPendingTotal (gated et) cl a w = client_getSupplierPendingTotal et cl a w \<and>
           client_getAccumulatedGatewayFees (gated et) cl a w = client_getAccumulatedGatewayFees et cl a w \<and>
           client_getUsdcBalance (gated et) cl a w = client_getUsdcBalance et cl a w \<and>
           client_getUsdcAllowance (gated et) cl a b w = client_getUsdcAllowance et cl a b w"
  using assms(2,3) by (simp add: read_defs et_call_gated well_typed_call_def client_functions assms(1))



text \<open>With a node whose answers have the announced types, every read method returns whenever
  the call itself does; but \<open>getStatement\<close> never returns null: the comparison with the enumeration's
  \<open>None\<close> is between a bigint and a number, so that the caller of an unknown statement is handed the
  empty one.\<close>

lemma client_reads_answer:
  assumes "typed_answers et" and "cl = connected_client g config"
  shows "answers (et_call et (cc_settlement cl) ''isFinalizable'' [VStr (toBytes32 et i)] w)
           (client_isFinalizable et cl i w) \<and>
     answers (et_call et (cc_settlement cl) ''getRemainingDisputeTime'' [VStr (toBytes32 et i)] w)
           (client_getRemainingDisputeTime et cl i w) \<and>
     answers (et_call et (cc_settlement cl) ''getClaimableBalance'' [VStr a] w)
           (client_getClaimableBalance et cl a w) \<and>
     answers (et_call et (cc_distributor cl) ''getFees'' [] w) (client_getFees et cl w) \<and>
     answers (et_call et (cc_settlement cl) ''getStatement'' [VStr (toBytes32 et i)] w)
           (client_getStatement et cl i w) \<and>
     client_getStatement et cl i w \<noteq> Inr None"
proof -
  note outs = client_functions assms(2)
  have fees: "abi_function (ct_abi (cc_distributor cl)) ''getFees'' =
      Some (View, [], [(''protocolFeeBps'', TUint256), (''gatewayFeeBps'', TUint256)])"
    by (simp add: outs)
  have stmt: "abi_function (ct_abi (cc_settlement cl)) ''getStatement'' =
      Some (View, [(''statementId'', TBytes32)], [('''', TTuple [(''statementHash'', TBytes32),
        (''supplier'', TAddress), (''totalAmount'', TUint256), (''submittedAt'', TUint256),
        (''finalizedAt'', TUint256), (''status'', TUint8)])])"
    by (simp add: outs)
  have reply: "(\<exists>e. et_call et (cc_settlement cl) ''getStatement'' [VStr (toBytes32 et i)] w = Inl e) \<or>
      (\<exists>h b v t f n. et_call et (cc_settlement cl) ''getStatement'' [VStr (toBytes32 et i)] w =
         Inr [VTuple [h, b, v, t, f, VInt n]])"
    using typed_answer [OF assms(1) _ stmt, of "[VStr (toBytes32 et i)]" w]
    by (cases "et_call et (cc_settlement cl) ''getStatement'' [VStr (toBytes32 et i)] w")
      (auto simp: fits_iff fits_tuple_simps)
  have "answers (et_call et (cc_settlement cl) ''isFinalizable'' [VStr (toBytes32 et i)] w)
           (client_isFinalizable et cl i w)"
    unfolding client_isFinalizable_def
    by (rule read_bool_answers [OF assms(1)]) (simp add: outs)
  moreover have "answers (et_call et (cc_settlement cl) ''getRemainingDisputeTime'' [VStr (toBytes32 et i)] w)
           (client_getRemainingDisputeTime et cl i w)"
    unfolding client_getRemainingDisputeTime_def
    by (rule read_int_answers(1) [OF assms(1)]) (simp add: outs)
  moreover have "answers (et_call et (cc_settlement cl) ''getClaimableBalance'' [VStr a] w)
           (client_getClaimableBalance et cl a w)"
    unfolding client_getClaimableBalance_def
    by (rule read_int_answers(2) [OF assms(1)]) (simp add: outs)
  moreover have "answers (et_call et (cc_distributor cl) ''getFees'' [] w) (client_getFees et cl w)"
    using typed_answer [OF assms(1) _ fees, of "[]" w]
    by (cases "et_call et (cc_distributor cl) ''getFees'' [] w")
      (auto simp: answers_def client_getFees_def fits_iff)
  moreover have "answers (et_call et (cc_settlement cl) ''getStatement'' [VStr (toBytes32 et i)] w)
           (client_getStatement et cl i w)"
    and "client_getStatement et cl i w \<noteq> Inr None"
    using reply by (auto simp: answers_def client_getStatement_def)
  ultimately show ?thesis by blast
qed

text \<open>What the caller gets instead of null.\<close>

lemma unknown_statement_answer:
  "client_getStatement empty_node (connected_client () demo_config) ''stmt-1'' () =
     Inr (Some \<lparr>cs_statementHash = VStr (zeros 32), cs_supplier = VStr (zeros 20),
       cs_totalAmount = VInt 0, cs_submittedAt = VInt 0, cs_finalizedAt = VInt 0, cs_status = 0\<rparr>)"
  by (simp add: client_getStatement_def empty_node_def)

end
