(* ===== verification/MeteringStore.thy ===== *)
theory MeteringStore
  imports Tables Predicates "HOL-Library.Multiset"
begin

text \<open>
  The database of the metering service (\<open>services/metering-billing/src/db/index.ts\<close>, types of
  \<open>types.ts\<close>, columns of \<open>01-init.sql\<close> and \<open>02-blockchain.sql\<close>). Amounts are held in
  ten-thousandths, as the \<open>DECIMAL(.., 4)\<close> columns hold them. How the driver hands such a
  column to JavaScript is not the repository's code: \<open>me_readNumeric\<close> may give a number or a
  text, and \<open>+\<close> is JavaScript's on either. A number is represented by its exact value, so
  floating-point rounding (absorbed by the column's four decimals) is not modelled.
\<close>

section \<open>JavaScript's plus\<close>

datatype js_amount = JsNum int | JsStr string

text \<open>\<open>String(n)\<close> of \<open>n / 10000\<close>: no trailing zeros are printed.\<close>

definition four_digits :: "nat \<Rightarrow> string" where
  "four_digits n =
     [digit_char (n div 1000 mod 10), digit_char (n div 100 mod 10), digit_char (n div 10 mod 10),
      digit_char (n mod 10)]"

definition strip_zeros :: "string \<Rightarrow> string" where
  "strip_zeros s = rev (dropWhile (\<lambda>c. c = CHR ''0'') (rev s))"

definition num_text :: "int \<Rightarrow> string" where
  "num_text n =
     (let a = nat \<bar>n\<bar>; frac = strip_zeros (four_digits (a mod 10000))
      in (if n < 0 then ''-'' else []) @ show_nat (a div 10000)
         @ (if frac = [] then [] else ''.'' @ frac))"

text \<open>The text of a \<open>DECIMAL(.., 4)\<close> value.\<close>

definition decimal_text :: "int \<Rightarrow> string" where
  "decimal_text n =
     (let a = nat \<bar>n\<bar>
      in (if n < 0 then ''-'' else []) @ show_nat (a div 10000) @ ''.'' @ four_digits (a mod 10000))"

fun js_amount_text :: "js_amount \<Rightarrow> string" where
  "js_amount_text (JsNum n) = num_text n"
| "js_amount_text (JsStr s) = s"

fun js_plus :: "js_amount \<Rightarrow> js_amount \<Rightarrow> js_amount" where
  "js_plus (JsNum a) (JsNum b) = JsNum (a + b)"
| "js_plus a b = JsStr (js_amount_text a @ js_amount_text b)"

section \<open>Rows\<close>

record VerificationUsage =
  u_id :: string
  u_event_id :: string
  u_supplier_id :: string
  u_brand_id :: "string option"
  u_predicate_id :: string
  u_receipt_id :: string
  u_verified_at :: time_ms
  u_price :: int
  u_currency :: Currency
  u_recorded_at :: time_ms

record SettlementBreakdown =
  sb_predicate_id :: string
  sb_predicate_name :: string
  sb_brand_id :: "string option"
  sb_verification_count :: nat
  sb_price_per_verification :: js_amount
  sb_subtotal :: js_amount

datatype StatementStatus = DRAFT | FINALIZED | PAID

datatype BlockchainStatus =
  NOT_SUBMITTED | PENDING | SUBMITTED | CHAIN_FINALIZED | DISPUTED | CHAIN_PAID | FAILED

record SettlementStatement =
  st_id :: string
  st_supplier_id :: string
  st_period_start :: time_ms
  st_period_end :: time_ms
  st_total_verifications :: nat
  st_total_amount :: int
  st_currency :: Currency
  st_breakdown :: "SettlementBreakdown list"
  st_status :: StatementStatus
  st_created_at :: time_ms
  st_finalized_at :: "time_ms option"
  st_supplier_wallet :: "string option"
  st_blockchain_status :: "BlockchainStatus option"
  st_tx_hash :: "string option"
  st_block_number :: "int option"
  st_chain_submitted_at :: "time_ms option"
  st_chain_finalized_at :: "time_ms option"

record SupplierWallet =
  sw_supplier_id :: string
  sw_wallet_address :: string
  sw_created_at :: time_ms

record MeterDb =
  usages :: "VerificationUsage list"
  statements :: "SettlementStatement list"
  wallets :: "SupplierWallet list"

record MeterEnv =
  me_up :: bool
  me_uuid :: string
  me_now :: time_ms
  me_registry :: PredicateRegistry
  me_readUuid :: "string \<Rightarrow> string option"
  me_readTime :: "string \<Rightarrow> time_ms option"
  me_readNumeric :: "int \<Rightarrow> js_amount"
  me_parseNumeric :: "string \<Rightarrow> int option"
  me_orderUsage :: "VerificationUsage list \<Rightarrow> VerificationUsage list"
  me_month :: "time_ms \<Rightarrow> string"
  me_monthAfter :: "string \<Rightarrow> time_ms option"

record RecordUsageRequest =
  ru_eventId :: string
  ru_supplierId :: string
  ru_brandId :: "string option"
  ru_predicateId :: string
  ru_receiptId :: string
  ru_verifiedAt :: string

record GenerateStatementRequest =
  gs_supplierId :: string
  gs_periodStart :: string
  gs_periodEnd :: string

definition empty_meter :: MeterDb where
  "empty_meter = \<lparr>usages = [], statements = [], wallets = []\<rparr>"

definition with_time :: "MeterEnv \<Rightarrow> string \<Rightarrow> (time_ms \<Rightarrow> thrown + 'a) \<Rightarrow> thrown + 'a" where
  "with_time env text k =
     (case me_readTime env text of
        None \<Rightarrow> Inl (db_error ''invalid input syntax for type timestamp with time zone'')
      | Some t \<Rightarrow> k t)"

definition with_meter_uuid :: "MeterEnv \<Rightarrow> string \<Rightarrow> (string \<Rightarrow> thrown + 'a) \<Rightarrow> thrown + 'a" where
  "with_meter_uuid env text k =
     (case me_readUuid env text of
        None \<Rightarrow> Inl (db_error ''invalid input syntax for type uuid'') | Some u \<Rightarrow> k u)"

text \<open>An optional bound of a query: absent or empty text sets none.\<close>

definition with_bound ::
  "MeterEnv \<Rightarrow> string option \<Rightarrow> (time_ms option \<Rightarrow> thrown + 'a) \<Rightarrow> thrown + 'a" where
  "with_bound env text k =
     (case js_or_null text of
        None \<Rightarrow> k None | Some s \<Rightarrow> with_time env s (\<lambda>t. k (Some t)))"

section \<open>Usage\<close>

text \<open>\<open>predicate?.pricing.perVerification ?? 0.05\<close> and the currency likewise.\<close>

definition usage_price :: "PredicateRegistry \<Rightarrow> string \<Rightarrow> thrown + int \<times> Currency" where
  "usage_price registry predicateId =
     (case getPredicateById registry predicateId of
        Own p \<Rightarrow> Inr (perVerification (pd_pricing p), currency (pd_pricing p))
      | Undefined \<Rightarrow> Inr (500, EUR)
      | Inherited \<Rightarrow> Inl (ThrownError ''TypeError'' ''Cannot read properties of undefined''))"

definition usage_row :: "MeterEnv \<Rightarrow> RecordUsageRequest \<Rightarrow> int \<Rightarrow> Currency \<Rightarrow> time_ms \<Rightarrow> VerificationUsage" where
  "usage_row env input price cur verifiedAt =
     \<lparr>u_id = me_uuid env, u_event_id = ru_eventId input, u_supplier_id = ru_supplierId input,
      u_brand_id = js_or_null (ru_brandId input), u_predicate_id = ru_predicateId input,
      u_receipt_id = ru_receiptId input, u_verified_at = verifiedAt, u_price = price,
      u_currency = cur, u_recorded_at = me_now env\<rparr>"

definition usage_fits :: "VerificationUsage \<Rightarrow> bool" where
  "usage_fits row =
     (fits 100 (u_event_id row) \<and> fits 100 (u_supplier_id row) \<and>
      (case u_brand_id row of None \<Rightarrow> True | Some b \<Rightarrow> fits 100 b) \<and>
      fits 100 (u_predicate_id row) \<and> fits 100 (u_receipt_id row) \<and> \<bar>u_price row\<bar> < 10 ^ 10)"

definition recordUsage ::
  "MeterEnv \<Rightarrow> RecordUsageRequest \<Rightarrow> MeterDb \<Rightarrow> thrown + VerificationUsage \<times> MeterDb" where
  "recordUsage env input db =
     sum_bind (usage_price (me_registry env) (ru_predicateId input)) (\<lambda>(price, cur).
       db_query (me_up env) (with_time env (ru_verifiedAt input) (\<lambda>verifiedAt.
         let row = usage_row env input price cur verifiedAt in
         if \<not> usage_fits row then Inl (db_error ''value out of range for its column'')
         else if u_id row \<in> u_id ` set (usages db) \<or> u_event_id row \<in> u_event_id ` set (usages db)
         then Inl (db_error ''duplicate key value violates unique constraint'')
         else Inr (row, db\<lparr>usages := usages db @ [row]\<rparr>))))"

definition in_period :: "time_ms option \<Rightarrow> time_ms option \<Rightarrow> time_ms \<Rightarrow> bool" where
  "in_period from until t =
     ((case from of None \<Rightarrow> True | Some f \<Rightarrow> f \<le> t) \<and> (case until of None \<Rightarrow> True | Some u \<Rightarrow> t < u))"

definition getUsageBySupplier ::
  "MeterEnv \<Rightarrow> string \<Rightarrow> string option \<Rightarrow> string option \<Rightarrow> MeterDb \<Rightarrow>
     thrown + VerificationUsage list" where
  "getUsageBySupplier env supplierId startDate endDate db =
     db_query (me_up env) (with_bound env startDate (\<lambda>from. with_bound env endDate (\<lambda>until.
       Inr (order_desc u_verified_at
         (filter (\<lambda>u. u_supplier_id u = supplierId \<and> in_period from until (u_verified_at u))
           (usages db))))))"

text \<open>One row of \<open>GROUP BY\<close>; the order of the rows is the database's.\<close>

record MonthlyAggregation =
  ma_supplier_id :: string
  ma_brand_id :: "string option"
  ma_predicate_id :: string
  ma_month :: string
  ma_verification_count :: nat
  ma_total_amount :: int
  ma_currency :: Currency

definition aggregation_key :: "MeterEnv \<Rightarrow> VerificationUsage \<Rightarrow> string option \<times> string \<times> string \<times> Currency" where
  "aggregation_key env u = (u_brand_id u, u_predicate_id u, me_month env (u_verified_at u), u_currency u)"

definition aggregation_row ::
  "MeterEnv \<Rightarrow> string \<Rightarrow> VerificationUsage list \<Rightarrow> string option \<times> string \<times> string \<times> Currency \<Rightarrow>
     MonthlyAggregation" where
  "aggregation_row env supplierId rows key =
     (let (brand, predicate, month, cur) = key;
          mine = filter (\<lambda>u. aggregation_key env u = key) rows
      in \<lparr>ma_supplier_id = supplierId, ma_brand_id = brand, ma_predicate_id = predicate,
          ma_month = month, ma_verification_count = length mine,
          ma_total_amount = sum_list (map u_price mine), ma_currency = cur\<rparr>)"

definition with_month_bounds ::
  "MeterEnv \<Rightarrow> string option \<Rightarrow> string option \<Rightarrow>
     (time_ms option \<Rightarrow> time_ms option \<Rightarrow> thrown + 'a) \<Rightarrow> thrown + 'a" where
  "with_month_bounds env startMonth endMonth k =
     with_bound env (map_option (\<lambda>m. m @ ''-01'') (js_or_null startMonth)) (\<lambda>from.
       case js_or_null endMonth of
         None \<Rightarrow> k from None
       | Some m \<Rightarrow>
           (case me_monthAfter env (m @ ''-01'') of
              None \<Rightarrow> Inl (db_error ''invalid input syntax for type date'')
            | Some t \<Rightarrow> k from (Some t)))"

definition getMonthlyAggregations ::
  "MeterEnv \<Rightarrow> string \<Rightarrow> string option \<Rightarrow> string option \<Rightarrow> MeterDb \<Rightarrow>
     thrown + MonthlyAggregation list" where
  "getMonthlyAggregations env supplierId startMonth endMonth db =
     db_query (me_up env) (with_month_bounds env startMonth endMonth (\<lambda>from until.
       let rows = filter (\<lambda>u. u_supplier_id u = supplierId \<and> in_period from until (u_verified_at u))
                    (usages db)
       in Inr (map (aggregation_row env supplierId rows) (remdups (map (aggregation_key env) rows)))))"

section \<open>Settlement statements\<close>

definition breakdown_key :: "VerificationUsage \<Rightarrow> string" where
  "breakdown_key usage = u_predicate_id usage @ '':'' @ js_or_opt (u_brand_id usage) ''none''"

definition new_breakdown :: "MeterEnv \<Rightarrow> VerificationUsage \<Rightarrow> SettlementBreakdown" where
  "new_breakdown env usage =
     \<lparr>sb_predicate_id = u_predicate_id usage,
      sb_predicate_name = display_name (me_registry env) (u_predicate_id usage),
      sb_brand_id = u_brand_id usage, sb_verification_count = 0,
      sb_price_per_verification = me_readNumeric env (u_price usage), sb_subtotal = JsNum 0\<rparr>"

definition add_usage :: "MeterEnv \<Rightarrow> VerificationUsage \<Rightarrow> SettlementBreakdown \<Rightarrow> SettlementBreakdown" where
  "add_usage env usage b =
     b\<lparr>sb_verification_count := Suc (sb_verification_count b),
       sb_subtotal := js_plus (sb_subtotal b) (me_readNumeric env (u_price usage))\<rparr>"

definition build_breakdown ::
  "MeterEnv \<Rightarrow> VerificationUsage list \<Rightarrow> (string, SettlementBreakdown) js_map" where
  "build_breakdown env us =
     fold (\<lambda>usage m. jm_set m (breakdown_key usage)
       (add_usage env usage
         (case map_of m (breakdown_key usage) of None \<Rightarrow> new_breakdown env usage | Some b \<Rightarrow> b))) us []"

definition total_of :: "SettlementBreakdown list \<Rightarrow> js_amount" where
  "total_of breakdown = foldl (\<lambda>total b. js_plus total (sb_subtotal b)) (JsNum 0) breakdown"

definition currency_of :: "VerificationUsage list \<Rightarrow> Currency" where
  "currency_of us = (case us of [] \<Rightarrow> EUR | u # _ \<Rightarrow> u_currency u)"

text \<open>The value a \<open>DECIMAL(12, 4)\<close> column stores for a number or a text.\<close>

definition store_numeric :: "MeterEnv \<Rightarrow> js_amount \<Rightarrow> thrown + int" where
  "store_numeric env a =
     (case (case a of JsNum n \<Rightarrow> Some n | JsStr s \<Rightarrow> me_parseNumeric env s) of
        None \<Rightarrow> Inl (db_error ''invalid input syntax for type numeric'')
      | Some n \<Rightarrow> if \<bar>n\<bar> < 10 ^ 12 then Inr n else Inl (db_error ''numeric field overflow''))"

definition period_usages ::
  "MeterEnv \<Rightarrow> string \<Rightarrow> time_ms \<Rightarrow> time_ms \<Rightarrow> MeterDb \<Rightarrow> VerificationUsage list" where
  "period_usages env supplierId start until db =
     me_orderUsage env
       (filter (\<lambda>u. u_supplier_id u = supplierId \<and> start \<le> u_verified_at u \<and> u_verified_at u < until)
         (usages db))"

definition generateStatement ::
  "MeterEnv \<Rightarrow> GenerateStatementRequest \<Rightarrow> MeterDb \<Rightarrow> thrown + SettlementStatement \<times> MeterDb" where
  "generateStatement env input db =
     db_query (me_up env) (with_time env (gs_periodStart input) (\<lambda>start.
       with_time env (gs_periodEnd input) (\<lambda>until.
         let us = period_usages env (gs_supplierId input) start until db;
             breakdown = jm_values (build_breakdown env us)
         in sum_bind (store_numeric env (total_of breakdown)) (\<lambda>total.
           let row = \<lparr>st_id = me_uuid env, st_supplier_id = gs_supplierId input,
                 st_period_start = start, st_period_end = until,
                 st_total_verifications = length us, st_total_amount = total,
                 st_currency = currency_of us, st_breakdown = breakdown, st_status = DRAFT,
                 st_created_at = me_now env, st_finalized_at = None, st_supplier_wallet = None,
                 st_blockchain_status = Some NOT_SUBMITTED, st_tx_hash = None,
                 st_block_number = None, st_chain_submitted_at = None,
                 st_chain_finalized_at = None\<rparr>
           in if \<not> fits 100 (gs_supplierId input) then Inl (db_error ''value too long'')
              else if st_id row \<in> st_id ` set (statements db)
              then Inl (db_error ''duplicate key value violates unique constraint'')
              else Inr (row, db\<lparr>statements := statements db @ [row]\<rparr>)))))"

definition getStatement :: "MeterEnv \<Rightarrow> string \<Rightarrow> MeterDb \<Rightarrow> thrown + SettlementStatement option" where
  "getStatement env key db =
     db_query (me_up env) (with_meter_uuid env key (\<lambda>u. Inr (row_by st_id u (statements db))))"

definition getStatementsBySupplier ::
  "MeterEnv \<Rightarrow> string \<Rightarrow> MeterDb \<Rightarrow> thrown + SettlementStatement list" where
  "getStatementsBySupplier env supplierId db =
     db_query (me_up env) (Inr (order_desc st_period_start
       (filter (\<lambda>s. st_supplier_id s = supplierId) (statements db))))"

definition finalize_row :: "time_ms \<Rightarrow> SettlementStatement \<Rightarrow> SettlementStatement" where
  "finalize_row now s = s\<lparr>st_status := FINALIZED, st_finalized_at := Some now\<rparr>"

definition finalizeStatement ::
  "MeterEnv \<Rightarrow> string \<Rightarrow> MeterDb \<Rightarrow> thrown + SettlementStatement option \<times> MeterDb" where
  "finalizeStatement env key db =
     db_query (me_up env) (with_meter_uuid env key (\<lambda>u.
       case row_by st_id u (statements db) of
         None \<Rightarrow> Inr (None, db)
       | Some s \<Rightarrow>
           if st_status s \<noteq> DRAFT then Inr (None, db)
           else Inr (Some (finalize_row (me_now env) s),
             db\<lparr>statements := update_where (\<lambda>r. st_id r = u \<and> st_status r = DRAFT)
                   (finalize_row (me_now env)) (statements db)\<rparr>)))"

section \<open>On-chain state of statements\<close>

definition chain_status :: "SettlementStatement \<Rightarrow> BlockchainStatus" where
  "chain_status s = js_coalesce (st_blockchain_status s) NOT_SUBMITTED"

definition getStatementWithBlockchain ::
  "MeterEnv \<Rightarrow> string \<Rightarrow> MeterDb \<Rightarrow> thrown + SettlementStatement option" where
  "getStatementWithBlockchain env key db =
     sum_bind (getStatement env key db)
       (\<lambda>found. Inr (map_option (\<lambda>s. s\<lparr>st_blockchain_status := Some (chain_status s)\<rparr>) found))"

definition update_statement ::
  "MeterEnv \<Rightarrow> string \<Rightarrow> (SettlementStatement \<Rightarrow> SettlementStatement) \<Rightarrow> MeterDb \<Rightarrow> thrown + MeterDb" where
  "update_statement env key f db =
     db_query (me_up env) (with_meter_uuid env key (\<lambda>u.
       Inr (db\<lparr>statements := update_where (\<lambda>s. st_id s = u) f (statements db)\<rparr>)))"

definition updateBlockchainStatus ::
  "MeterEnv \<Rightarrow> string \<Rightarrow> BlockchainStatus \<Rightarrow> string option \<Rightarrow> MeterDb \<Rightarrow> thrown + MeterDb" where
  "updateBlockchainStatus env key status supplierWallet db =
     update_statement env key
       (\<lambda>s. (case js_or_null supplierWallet of None \<Rightarrow> s | Some w \<Rightarrow> s\<lparr>st_supplier_wallet := Some w\<rparr>)
              \<lparr>st_blockchain_status := Some status\<rparr>) db"

definition updateBlockchainSubmission ::
  "MeterEnv \<Rightarrow> string \<Rightarrow> string \<Rightarrow> int \<Rightarrow> BlockchainStatus \<Rightarrow> MeterDb \<Rightarrow> thrown + MeterDb" where
  "updateBlockchainSubmission env key txHash blockNumber status db =
     update_statement env key
       (\<lambda>s. s\<lparr>st_blockchain_status := Some status, st_tx_hash := Some txHash,
              st_block_number := Some blockNumber, st_chain_submitted_at := Some (me_now env)\<rparr>) db"

text \<open>The transaction's hash and block are passed but not stored.\<close>

definition updateBlockchainFinalization ::
  "MeterEnv \<Rightarrow> string \<Rightarrow> string \<Rightarrow> int \<Rightarrow> MeterDb \<Rightarrow> thrown + MeterDb" where
  "updateBlockchainFinalization env key txHash blockNumber db =
     update_statement env key
       (\<lambda>s. s\<lparr>st_blockchain_status := Some CHAIN_FINALIZED,
              st_chain_finalized_at := Some (me_now env), st_status := PAID\<rparr>) db"

definition registerSupplierWallet ::
  "MeterEnv \<Rightarrow> string \<Rightarrow> string \<Rightarrow> MeterDb \<Rightarrow> thrown + SupplierWallet \<times> MeterDb" where
  "registerSupplierWallet env supplierId walletAddress db =
     db_query (me_up env)
       (if \<not> (fits 100 supplierId \<and> fits 42 walletAddress) then Inl (db_error ''value too long'')
        else case row_by sw_supplier_id supplierId (wallets db) of
          Some w \<Rightarrow>
            let w' = w\<lparr>sw_wallet_address := js_toLowerCase walletAddress\<rparr>
            in Inr (w', db\<lparr>wallets := update_where (\<lambda>r. sw_supplier_id r = supplierId)
                 (\<lambda>r. r\<lparr>sw_wallet_address := js_toLowerCase walletAddress\<rparr>) (wallets db)\<rparr>)
        | None \<Rightarrow>
            let w = \<lparr>sw_supplier_id = supplierId, sw_wallet_address = js_toLowerCase walletAddress,
                     sw_created_at = me_now env\<rparr>
            in Inr (w, db\<lparr>wallets := wallets db @ [w]\<rparr>))"

definition getSupplierWallet :: "MeterEnv \<Rightarrow> string \<Rightarrow> MeterDb \<Rightarrow> thrown + SupplierWallet option" where
  "getSupplierWallet env supplierId db =
     db_query (me_up env) (Inr (row_by sw_supplier_id supplierId (wallets db)))"

definition meterHealthCheck :: "MeterEnv \<Rightarrow> bool" where
  "meterHealthCheck env = me_up env"

section \<open>Invariant of the tables\<close>

definition meter_wf :: "MeterDb \<Rightarrow> bool" where
  "meter_wf db =
     (unique_on u_id (usages db) \<and> unique_on u_event_id (usages db) \<and>
      unique_on st_id (statements db) \<and> unique_on sw_supplier_id (wallets db))"

lemma recordUsage_Inr:
  assumes "recordUsage env input db = Inr (row, db')"
  shows "db' = db\<lparr>usages := usages db @ [row]\<rparr>" and "u_event_id row = ru_eventId input"
    and "u_event_id row \<notin> u_event_id ` set (usages db)" and "u_id row \<notin> u_id ` set (usages db)"
    and "usage_price (me_registry env) (ru_predicateId input) = Inr (u_price row, u_currency row)"
    and "u_supplier_id row = ru_supplierId input" and "u_predicate_id row = ru_predicateId input"
    and "u_receipt_id row = ru_receiptId input" and "u_brand_id row = js_or_null (ru_brandId input)"
    and "me_readTime env (ru_verifiedAt input) = Some (u_verified_at row)"
  using assms
  by (auto simp: recordUsage_def inr_iff with_time_def usage_row_def Let_def
      split: option.splits if_splits)

lemma recordUsage_duplicate:
  "ru_eventId input \<in> u_event_id ` set (usages db) \<Longrightarrow> \<exists>e. recordUsage env input db = Inl e"
  using recordUsage_Inr(2,3) [of env input db] by (cases "recordUsage env input db") fastforce+

lemma recordUsage_wf: "meter_wf db \<Longrightarrow> recordUsage env input db = Inr (row, db') \<Longrightarrow> meter_wf db'"
  using recordUsage_Inr [of env input db row db'] by (auto simp: meter_wf_def unique_on_append)

lemma generateStatement_Inr:
  assumes "generateStatement env input db = Inr (row, db')"
  shows "db' = db\<lparr>statements := statements db @ [row]\<rparr> \<and> st_id row \<notin> st_id ` set (statements db) \<and>
    st_status row = DRAFT \<and> chain_status row = NOT_SUBMITTED"
  using assms
  by (auto simp: generateStatement_def inr_iff with_time_def Let_def
      chain_status_def js_coalesce_def split: option.splits if_splits)

lemma generateStatement_row:
  assumes "generateStatement env input db = Inr (row, db')"
  obtains start until us where "me_readTime env (gs_periodStart input) = Some start"
    and "me_readTime env (gs_periodEnd input) = Some until"
    and "us = period_usages env (gs_supplierId input) start until db"
    and "st_breakdown row = jm_values (build_breakdown env us)"
    and "st_total_verifications row = length us"
    and "store_numeric env (total_of (jm_values (build_breakdown env us))) = Inr (st_total_amount row)"
    and "st_supplier_id row = gs_supplierId input"
  using assms
  by (auto simp: generateStatement_def inr_iff with_time_def Let_def
      split: option.splits if_splits)

lemma statements_update_wf:
  "(\<And>s. st_id (f s) = st_id s) \<Longrightarrow> meter_wf db \<Longrightarrow>
     meter_wf (db\<lparr>statements := update_where P f (statements db)\<rparr>)"
  by (simp add: meter_wf_def unique_on_update)

lemma finalizeStatement_wf:
  "meter_wf db \<Longrightarrow> finalizeStatement env key db = Inr (s, db') \<Longrightarrow> meter_wf db'"
  by (auto simp: finalizeStatement_def inr_iff with_meter_uuid_def finalize_row_def
      statements_update_wf split: option.splits if_splits)

lemma update_statement_Inr:
  "update_statement env key f db = Inr db' \<longleftrightarrow>
     me_up env \<and> (\<exists>u. me_readUuid env key = Some u \<and>
       db' = db\<lparr>statements := update_where (\<lambda>s. st_id s = u) f (statements db)\<rparr>)"
  by (auto simp: update_statement_def inr_iff with_meter_uuid_def split: option.splits)

lemmas chain_updates = updateBlockchainStatus_def updateBlockchainSubmission_def
  updateBlockchainFinalization_def

lemma chain_update_ids [simp]:
  "st_id ((case w of None \<Rightarrow> s | Some a \<Rightarrow> s\<lparr>st_supplier_wallet := Some a\<rparr>)\<lparr>st_blockchain_status := b\<rparr>) = st_id s"
  by (cases w) simp_all

lemma chain_updates_wf:
  "meter_wf db \<Longrightarrow> updateBlockchainStatus env key b w db = Inr db' \<Longrightarrow> meter_wf db'"
  "meter_wf db \<Longrightarrow> updateBlockchainSubmission env key h n b db = Inr db' \<Longrightarrow> meter_wf db'"
  "meter_wf db \<Longrightarrow> updateBlockchainFinalization env key h n db = Inr db' \<Longrightarrow> meter_wf db'"
  by (auto simp: chain_updates update_statement_Inr statements_update_wf)

lemma registerSupplierWallet_wf:
  "meter_wf db \<Longrightarrow> registerSupplierWallet env supplier addr db = Inr (w, db') \<Longrightarrow> meter_wf db'"
  by (auto simp: registerSupplierWallet_def inr_iff Let_def meter_wf_def unique_on_update
      unique_on_append row_by_None_iff split: option.splits if_splits)

section \<open>Sums over the breakdown\<close>

fun amount_value :: "js_amount \<Rightarrow> int" where
  "amount_value (JsNum n) = n"
| "amount_value (JsStr s) = 0"

fun is_num :: "js_amount \<Rightarrow> bool" where
  "is_num (JsNum n) = True"
| "is_num (JsStr s) = False"

text \<open>The two ways a driver may hand out a \<open>DECIMAL\<close> column.\<close>

definition numeric_driver :: "MeterEnv \<Rightarrow> bool" where
  "numeric_driver env = (me_readNumeric env = JsNum)"

definition text_driver :: "MeterEnv \<Rightarrow> bool" where
  "text_driver env = (me_readNumeric env = (\<lambda>p. JsStr (decimal_text p)))"

lemma breakdown_counts:
  "sum_list (map (\<lambda>b. int (sb_verification_count b)) (jm_values (build_breakdown env us))) = int (length us)"
proof -
  have "sum_list (map ((\<lambda>b. int (sb_verification_count b)) \<circ> snd) (build_breakdown env us)) =
      sum_list (map (\<lambda>u. 1) us)"
    unfolding build_breakdown_def
    by (rule jm.accumulate_sum_empty [where P = "\<lambda>b. True"])
      (simp_all add: new_breakdown_def add_usage_def)
  then show ?thesis by (simp add: jm_values_sum sum_list_triv)
qed

lemma breakdown_amounts:
  assumes "numeric_driver env"
  shows "sum_list (map (\<lambda>b. amount_value (sb_subtotal b)) (jm_values (build_breakdown env us))) =
    sum_list (map u_price us)"
proof -
  have "is_num a \<Longrightarrow> js_plus a (JsNum n) = JsNum (amount_value a + n)" for a n
    by (cases a) simp_all
  then have "sum_list (map ((\<lambda>b. amount_value (sb_subtotal b)) \<circ> snd) (build_breakdown env us)) =
      sum_list (map u_price us)"
    unfolding build_breakdown_def
    by (intro jm.accumulate_sum_empty [where P = "\<lambda>b. is_num (sb_subtotal b)"])
      (use assms in \<open>simp_all add: new_breakdown_def add_usage_def numeric_driver_def\<close>)
  then show ?thesis by (simp add: jm_values_sum)
qed

lemma breakdown_stored:
  assumes "\<And>x v. Q (add_usage env x v)"
  shows "\<forall>b \<in> set (jm_values (build_breakdown env us)). Q b"
  using jm.accumulate_stored [where upd = "add_usage env" and new = "new_breakdown env"
      and key = breakdown_key and xs = us and m = "[]" and Q = Q, OF assms]
  by (auto simp: build_breakdown_def jm_values_def)

lemma breakdown_numeric:
  assumes "numeric_driver env"
  shows "list_all (\<lambda>b. is_num (sb_subtotal b)) (jm_values (build_breakdown env us))"
proof -
  have "\<forall>(k, b) \<in> set (fold (\<lambda>usage m. jm_set m (breakdown_key usage) (add_usage env usage
      (case map_of m (breakdown_key usage) of None \<Rightarrow> new_breakdown env usage | Some b \<Rightarrow> b))) us m).
      is_num (sb_subtotal b)" if "\<forall>(k, b) \<in> set m. is_num (sb_subtotal b)" for m
    using that
  proof (induction us arbitrary: m)
    case Nil
    then show ?case by simp
  next
    case (Cons u us)
    have plus: "is_num a \<Longrightarrow> is_num (js_plus a (JsNum n))" for a n by (cases a) simp_all
    let ?old = "case map_of m (breakdown_key u) of None \<Rightarrow> new_breakdown env u | Some b \<Rightarrow> b"
    have "is_num (sb_subtotal ?old)"
      using Cons.prems by (auto simp: new_breakdown_def split: option.split dest: map_of_SomeD)
    then have "is_num (sb_subtotal (add_usage env u ?old))"
      using assms plus by (simp add: add_usage_def numeric_driver_def)
    then have "\<forall>(k, b) \<in> set (jm_set m (breakdown_key u) (add_usage env u ?old)). is_num (sb_subtotal b)"
      using Cons.prems jm.contents_set_at [of _ _ m "breakdown_key u"] by fastforce
    from Cons.IH [OF this] show ?case by simp
  qed
  from this [of "[]"] show ?thesis by (auto simp: build_breakdown_def jm_values_def list_all_iff)
qed

lemma total_of_numeric:
  "list_all (\<lambda>b. is_num (sb_subtotal b)) bs \<Longrightarrow>
     total_of bs = JsNum (sum_list (map (\<lambda>b. amount_value (sb_subtotal b)) bs))"
proof -
  have "list_all (\<lambda>b. is_num (sb_subtotal b)) bs \<Longrightarrow>
      foldl (\<lambda>t b. js_plus t (sb_subtotal b)) (JsNum n) bs =
        JsNum (n + sum_list (map (\<lambda>b. amount_value (sb_subtotal b)) bs))" for n
  proof (induction bs arbitrary: n)
    case Nil
    then show ?case by simp
  next
    case (Cons b bs)
    then show ?case by (cases "sb_subtotal b") (simp_all add: algebra_simps)
  qed
  then show "list_all (\<lambda>b. is_num (sb_subtotal b)) bs \<Longrightarrow> ?thesis" by (simp add: total_of_def)
qed

section \<open>Sums of texts\<close>

definition dots :: "string \<Rightarrow> nat" where
  "dots s = length (filter (\<lambda>c. c = CHR ''.'') s)"

lemma dots_append [simp]: "dots (a @ b) = dots a + dots b"
  by (simp add: dots_def)

lemma digit_char_dot [simp]: "d < 10 \<Longrightarrow> digit_char d \<noteq> CHR ''.''"
proof
  assume d: "d < 10" and "digit_char d = CHR ''.''"
  then have "(of_char (digit_char d) :: nat) = of_char (CHR ''.'')" by simp
  with d show False by (simp add: digit_char_def)
qed

lemma dots_show_nat [simp]: "dots (show_nat n) = 0"
proof (induction n rule: show_nat.induct)
  case (1 n)
  then show ?case by (simp add: show_nat.simps [of n]) (simp add: dots_def)
qed

lemma dots_decimal [simp]: "dots (decimal_text p) = 1"
  by (simp add: decimal_text_def Let_def four_digits_def) (simp add: dots_def)

lemma num_text_zero: "num_text 0 = ''0''"
  by code_simp

lemma dots_zero [simp]: "dots (num_text 0) = 0"
  by (simp add: num_text_zero dots_def)

lemma js_plus_text: "js_plus a (JsStr s) = JsStr (js_amount_text a @ s)"
  by (cases a) simp_all

lemma breakdown_dots:
  assumes "text_driver env"
  shows "sum_list (map (\<lambda>b. int (dots (js_amount_text (sb_subtotal b)))) (jm_values (build_breakdown env us)))
    = int (length us)"
proof -
  have "sum_list (map ((\<lambda>b. int (dots (js_amount_text (sb_subtotal b)))) \<circ> snd) (build_breakdown env us)) =
      sum_list (map (\<lambda>u. 1) us)"
    unfolding build_breakdown_def
    by (rule jm.accumulate_sum_empty [where P = "\<lambda>b. True"])
      (use assms in \<open>simp_all add: new_breakdown_def add_usage_def text_driver_def js_plus_text\<close>)
  then show ?thesis by (simp add: jm_values_sum sum_list_triv)
qed

lemma total_of_dots:
  assumes "list_all (\<lambda>b. \<not> is_num (sb_subtotal b)) bs"
  shows "int (dots (js_amount_text (total_of bs))) =
    sum_list (map (\<lambda>b. int (dots (js_amount_text (sb_subtotal b)))) bs)"
proof -
  have "list_all (\<lambda>b. \<not> is_num (sb_subtotal b)) bs \<Longrightarrow>
      int (dots (js_amount_text (foldl (\<lambda>t b. js_plus t (sb_subtotal b)) a bs))) =
        int (dots (js_amount_text a)) + sum_list (map (\<lambda>b. int (dots (js_amount_text (sb_subtotal b)))) bs)"
    for a
  proof (induction bs arbitrary: a)
    case Nil
    then show ?case by simp
  next
    case (Cons b bs)
    then obtain s where "sb_subtotal b = JsStr s" by (cases "sb_subtotal b") auto
    with Cons show ?case by (simp add: js_plus_text)
  qed
  with assms show ?thesis by (simp add: total_of_def)
qed

lemma total_of_text:
  assumes "text_driver env" and "us \<noteq> []"
  shows "\<exists>s. total_of (jm_values (build_breakdown env us)) = JsStr s \<and> dots s = length us"
proof -
  let ?bs = "jm_values (build_breakdown env us)"
  have strs: "list_all (\<lambda>b. \<not> is_num (sb_subtotal b)) ?bs"
    unfolding list_all_iff
    by (rule breakdown_stored) (use assms(1) in \<open>simp add: add_usage_def text_driver_def js_plus_text\<close>)
  have "int (dots (js_amount_text (total_of ?bs))) = int (length us)"
    using total_of_dots [OF strs] breakdown_dots [OF assms(1)] by simp
  moreover have "?bs \<noteq> []"
    using breakdown_counts [of env us] assms(2) by auto
  then obtain b bs where "?bs = bs @ [b]" by (metis rev_exhaust)
  then have "\<exists>s. total_of ?bs = JsStr s"
    using strs by (cases "sb_subtotal b") (auto simp: total_of_def js_plus_text)
  ultimately show ?thesis by force
qed

section \<open>Properties of the database\<close>

text \<open>A recorded usage carries the price and currency of the registered predicate (five cents
  for an unknown one), its event had not been recorded before, and a second attempt to record the
  same event fails and changes nothing.\<close>

lemma usage_recorded_once:
  assumes "recordUsage env input db = Inr (row, db')"
  shows "usages db' = usages db @ [row] \<and>
    ru_eventId input \<notin> u_event_id ` set (usages db) \<and>
    (case getPredicateById (me_registry env) (ru_predicateId input) of
       Own p \<Rightarrow> u_price row = perVerification (pd_pricing p) \<and> u_currency row = currency (pd_pricing p)
     | Undefined \<Rightarrow> u_price row = 500 \<and> u_currency row = EUR
     | Inherited \<Rightarrow> False) \<and>
    (case recordUsage env_b (input_b\<lparr>ru_eventId := ru_eventId input\<rparr>) db' of Inl e \<Rightarrow> True | Inr r \<Rightarrow> False)"
proof -
  note r = recordUsage_Inr [OF assms]
  have "ru_eventId (input_b\<lparr>ru_eventId := ru_eventId input\<rparr>) \<in> u_event_id ` set (usages db')"
    using r(1,2) by auto
  then obtain e where "recordUsage env_b (input_b\<lparr>ru_eventId := ru_eventId input\<rparr>) db' = Inl e"
    using recordUsage_duplicate by blast
  with r show ?thesis by (auto simp: usage_price_def split: js_prop.splits)
qed

definition demo_meter_env :: MeterEnv where
  "demo_meter_env = \<lparr>me_up = True, me_uuid = ''m1'', me_now = 7, me_registry = predicates_json,
     me_readUuid = Some, me_readTime = (\<lambda>s. Some (int (length s))), me_readNumeric = JsNum,
     me_parseNumeric = (\<lambda>s. None), me_orderUsage = (\<lambda>us. us), me_month = (\<lambda>t. ''2025-01''),
     me_monthAfter = (\<lambda>s. None)\<rparr>"

definition demo_usage :: "string \<Rightarrow> RecordUsageRequest" where
  "demo_usage event = \<lparr>ru_eventId = event, ru_supplierId = ''s'', ru_brandId = Some ''b'',
     ru_predicateId = ''CERT_VALID_V1'', ru_receiptId = ''r'', ru_verifiedAt = ''xxx''\<rparr>"

definition demo_usage_row :: "string \<Rightarrow> string \<Rightarrow> VerificationUsage" where
  "demo_usage_row key event = \<lparr>u_id = key, u_event_id = event, u_supplier_id = ''s'',
     u_brand_id = Some ''b'', u_predicate_id = ''CERT_VALID_V1'', u_receipt_id = ''r'',
     u_verified_at = 3, u_price = 300, u_currency = EUR, u_recorded_at = 7\<rparr>"

lemma demo_price: "usage_price predicates_json ''CERT_VALID_V1'' = Inr (300, EUR)"
  by (simp add: usage_price_def getPredicateById_def getPredicate_def js_lookup_def predicates_json_def)

lemma demo_record:
  "recordUsage demo_meter_env (demo_usage ''e1'') empty_meter =
     Inr (demo_usage_row ''m1'' ''e1'', empty_meter\<lparr>usages := [demo_usage_row ''m1'' ''e1'']\<rparr>)"
  by (simp add: recordUsage_def demo_meter_env_def demo_usage_def demo_price with_time_def usage_row_def
      Let_def usage_fits_def fits_def js_or_null_def js_truthy_def empty_meter_def demo_usage_row_def)


definition demo_statement_request :: GenerateStatementRequest where
  "demo_statement_request = \<lparr>gs_supplierId = ''s'', gs_periodStart = ''x'', gs_periodEnd = ''xxxxx''\<rparr>"

definition demo_meter :: MeterDb where
  "demo_meter = empty_meter\<lparr>usages := [demo_usage_row ''1'' ''e1'', demo_usage_row ''2'' ''e2'']\<rparr>"

lemma demo_statement:
  "\<exists>row db'. generateStatement demo_meter_env demo_statement_request demo_meter = Inr (row, db')"
proof -
  have "numeric_driver demo_meter_env" by (simp add: numeric_driver_def demo_meter_env_def)
  note num = total_of_numeric [OF breakdown_numeric [OF this]] and sums = breakdown_amounts [OF this]
  show ?thesis
    by (simp add: generateStatement_def demo_statement_request_def with_time_def num sums store_numeric_def)
      (simp add: demo_meter_env_def demo_meter_def empty_meter_def demo_usage_row_def period_usages_def
        fits_def Let_def)
qed


text \<open>When the driver hands amounts out as text, as PostgreSQL's driver does for
  \<open>DECIMAL\<close> columns, the sums of a statement are concatenations: with two or more usages in the
  period the database refuses the total and no statement can be generated.\<close>

lemma text_driver_breaks_statements:
  assumes "text_driver env"
    and "\<And>s. 2 \<le> dots s \<Longrightarrow> me_parseNumeric env s = None"
    and "me_readTime env (gs_periodStart input) = Some start"
    and "me_readTime env (gs_periodEnd input) = Some until"
    and "2 \<le> length (period_usages env (gs_supplierId input) start until db)"
  shows "\<exists>e. generateStatement env input db = Inl e"
proof -
  let ?us = "period_usages env (gs_supplierId input) start until db"
  from assms(5) have "?us \<noteq> []" by auto
  from total_of_text [OF assms(1) this] obtain s
    where "total_of (jm_values (build_breakdown env ?us)) = JsStr s" and "dots s = length ?us" by blast
  with assms(2) [of s] assms(5)
  have "\<exists>e. store_numeric env (total_of (jm_values (build_breakdown env ?us))) = Inl e"
    by (simp add: store_numeric_def)
  with assms(3,4) show ?thesis
    by (auto simp: generateStatement_def db_query_def with_time_def Let_def)
qed

definition text_env :: MeterEnv where
  "text_env = demo_meter_env\<lparr>me_readNumeric := (\<lambda>p. JsStr (decimal_text p)),
     me_parseNumeric := (\<lambda>s. if dots s \<le> 1 then Some 300 else None)\<rparr>"

lemma partition_sum:
  fixes f :: "'r \<Rightarrow> int"
  assumes "distinct ks" and "set (map key rows) \<subseteq> set ks"
  shows "sum_list (map (\<lambda>k. sum_list (map f (filter (\<lambda>r. key r = k) rows))) ks) = sum_list (map f rows)"
  using assms(2)
proof (induction rows)
  case Nil
  then show ?case by (simp add: sum_list_0)
next
  case (Cons r rows)
  have one: "sum_list (map (\<lambda>k. if key r = k then f r else 0) ks) = f r"
    using assms(1) Cons.prems by (simp add: sum_list_distinct_conv_sum_set)
  have "sum_list (map (\<lambda>k. sum_list (map f (filter (\<lambda>x. key x = k) (r # rows)))) ks) =
      sum_list (map (\<lambda>k. (if key r = k then f r else 0) +
        sum_list (map f (filter (\<lambda>x. key x = k) rows))) ks)"
    by (rule arg_cong [where f = sum_list]) (rule map_cong [OF refl], simp)
  with one Cons show ?case by (simp add: sum_list_addf)
qed

text \<open>The monthly report accounts for every usage of the supplier in the period exactly once:
  its counts add up to the number of usages and its amounts to the sum of their prices.\<close>

lemma aggregations_partition:
  assumes "getMonthlyAggregations env supplier None None db = Inr rows"
  shows "sum_list (map ma_total_amount rows) =
      sum_list (map u_price (filter (\<lambda>u. u_supplier_id u = supplier) (usages db))) \<and>
    sum_list (map (\<lambda>r. int (ma_verification_count r)) rows) =
      int (length (filter (\<lambda>u. u_supplier_id u = supplier) (usages db)))"
proof -
  let ?us = "filter (\<lambda>u. u_supplier_id u = supplier) (usages db)"
  let ?ks = "remdups (map (aggregation_key env) ?us)"
  have rows: "rows = map (aggregation_row env supplier ?us) ?ks"
    using assms by (simp add: getMonthlyAggregations_def inr_iff with_month_bounds_def
        with_bound_def js_or_null_def in_period_def Let_def)
  have t: "map ma_total_amount rows =
      map (\<lambda>k. sum_list (map u_price (filter (\<lambda>u. aggregation_key env u = k) ?us))) ?ks"
    and c: "map (\<lambda>r. int (ma_verification_count r)) rows =
      map (\<lambda>k. sum_list (map (\<lambda>u. 1) (filter (\<lambda>u. aggregation_key env u = k) ?us))) ?ks"
    unfolding rows by (simp_all add: aggregation_row_def Let_def split_def sum_list_triv)
  show ?thesis
    unfolding t c by (subst (1 2) partition_sum) (simp_all add: sum_list_triv)
qed

end
