(* ===== verification/MeteringRoutes.thy ===== *)
theory MeteringRoutes
  imports MeteringStore Schemas EventBus
begin

text \<open>
  The metering service above its database: the routes of \<open>routes/usage.ts\<close>,
  \<open>routes/settlements.ts\<close> and \<open>routes/blockchain.ts\<close>, and the subscriber to verification
  events of \<open>index.ts\<close>. The contract client of \<open>@zkdpp/contracts\<close> talks to a chain that is
  not part of the repository: it is the record \<open>chain_client\<close> over a chain state of its own.
  A handler awaits the database several times; each of these calls sees its own availability and
  clock, given by \<open>call_env\<close>.
\<close>

type_synonym 'a reply = "nat \<times> (string + 'a)"

section \<open>Usage routes\<close>

definition postUsage ::
  "MeterEnv \<Rightarrow> RecordUsageRequest \<Rightarrow> MeterDb \<Rightarrow> VerificationUsage reply \<times> MeterDb" where
  "postUsage env body db =
     (case recordUsage env body db of
        Inl e \<Rightarrow> ((500, Inl ''Failed to record usage''), db)
      | Inr (usage, db') \<Rightarrow> ((201, Inr usage), db'))"

record 'n PredicateUsage =
  pu_predicate_id :: string
  pu_count :: nat
  pu_amount :: 'n

record 'n UsageSummary =
  us_supplier_id :: string
  us_period :: string
  us_total_verifications :: nat
  us_total_amount :: 'n
  us_currency :: Currency
  us_by_predicate :: "'n PredicateUsage list"

text \<open>
  The numbers of the summary are of any type with \<open>+\<close>; \<open>price\<close> is
  \<open>parseFloat(String(usage.price_per_verification))\<close>.
\<close>

definition new_predicate_usage :: "VerificationUsage \<Rightarrow> 'n::zero PredicateUsage" where
  "new_predicate_usage usage = \<lparr>pu_predicate_id = u_predicate_id usage, pu_count = 0, pu_amount = 0\<rparr>"

definition add_predicate_usage ::
  "(int \<Rightarrow> 'n::plus) \<Rightarrow> VerificationUsage \<Rightarrow> 'n PredicateUsage \<Rightarrow> 'n PredicateUsage" where
  "add_predicate_usage price usage p =
     p\<lparr>pu_count := Suc (pu_count p), pu_amount := pu_amount p + price (u_price usage)\<rparr>"

definition summary_step ::
  "(int \<Rightarrow> 'n::{zero, plus}) \<Rightarrow> VerificationUsage \<Rightarrow> (string, 'n PredicateUsage) js_map \<times> 'n \<Rightarrow>
     (string, 'n PredicateUsage) js_map \<times> 'n" where
  "summary_step price usage acc =
     (let (byPredicate, total) = acc in
      (jm_set byPredicate (u_predicate_id usage)
         (add_predicate_usage price usage
           (case map_of byPredicate (u_predicate_id usage) of
              None \<Rightarrow> new_predicate_usage usage | Some p \<Rightarrow> p)),
       total + price (u_price usage)))"

definition getUsageSummary ::
  "(int \<Rightarrow> 'n::{zero, plus}) \<Rightarrow> MeterEnv \<Rightarrow> string \<Rightarrow> string option \<Rightarrow> string option \<Rightarrow> MeterDb \<Rightarrow>
     thrown + 'n UsageSummary reply" where
  "getUsageSummary price env supplierId startDate endDate db =
     sum_bind (getUsageBySupplier env supplierId startDate endDate db) (\<lambda>us.
       let (byPredicate, totalAmount) = fold (summary_step price) us ([], 0) in
       Inr (200, Inr
         \<lparr>us_supplier_id = supplierId,
          us_period = (case (js_or_null startDate, js_or_null endDate) of
             (Some s, Some e) \<Rightarrow> s @ '' to '' @ e | _ \<Rightarrow> ''all time''),
          us_total_verifications = length us, us_total_amount = totalAmount,
          us_currency = currency_of us, us_by_predicate = jm_values byPredicate\<rparr>))"

definition getAggregations ::
  "MeterEnv \<Rightarrow> string \<Rightarrow> string option \<Rightarrow> string option \<Rightarrow> MeterDb \<Rightarrow>
     thrown + MonthlyAggregation list reply" where
  "getAggregations env supplierId startMonth endMonth db =
     sum_bind (getMonthlyAggregations env supplierId startMonth endMonth db)
       (\<lambda>rows. Inr (200, Inr rows))"

section \<open>Settlement routes\<close>

definition postSettlement ::
  "MeterEnv \<Rightarrow> GenerateStatementRequest \<Rightarrow> MeterDb \<Rightarrow> SettlementStatement reply \<times> MeterDb" where
  "postSettlement env body db =
     (case generateStatement env body db of
        Inl e \<Rightarrow> ((500, Inl ''Failed to generate statement''), db)
      | Inr (statement, db') \<Rightarrow> ((201, Inr statement), db'))"

definition getSettlement :: "MeterEnv \<Rightarrow> string \<Rightarrow> MeterDb \<Rightarrow> thrown + SettlementStatement reply" where
  "getSettlement env key db =
     sum_bind (getStatement env key db) (\<lambda>found.
       case found of
         None \<Rightarrow> Inr (404, Inl ''Statement not found'') | Some s \<Rightarrow> Inr (200, Inr s))"

definition getSupplierSettlements ::
  "MeterEnv \<Rightarrow> string \<Rightarrow> MeterDb \<Rightarrow> thrown + SettlementStatement list reply" where
  "getSupplierSettlements env supplierId db =
     sum_bind (getStatementsBySupplier env supplierId db) (\<lambda>rows. Inr (200, Inr rows))"

definition postFinalize ::
  "MeterEnv \<Rightarrow> string \<Rightarrow> MeterDb \<Rightarrow> (thrown + SettlementStatement reply) \<times> MeterDb" where
  "postFinalize env key db =
     (case finalizeStatement env key db of
        Inl e \<Rightarrow> (Inl e, db)
      | Inr (None, db') \<Rightarrow> (Inr (404, Inl ''Statement not found or already finalized''), db')
      | Inr (Some s, db') \<Rightarrow> (Inr (200, Inr s), db'))"

section \<open>Blockchain routes\<close>

type_synonym tx = "string \<times> int"

record 'c chain_client =
  ch_get :: "thrown option"
  ch_parseUsdc :: "string \<Rightarrow> thrown + int"
  ch_submit :: "string \<Rightarrow> string \<Rightarrow> int \<Rightarrow> string \<Rightarrow> 'c \<Rightarrow> (thrown + tx) \<times> 'c"
  ch_isFinalizable :: "string \<Rightarrow> 'c \<Rightarrow> thrown + bool"
  ch_remaining :: "string \<Rightarrow> 'c \<Rightarrow> thrown + int"
  ch_finalize :: "string \<Rightarrow> 'c \<Rightarrow> (thrown + tx) \<times> 'c"
  ch_hash :: "SettlementStatement \<Rightarrow> string"

datatype db_call = ReadCall | MarkCall | RecordCall | FailCall

record CallEnv =
  ce_env :: MeterEnv
  ce_up :: "db_call \<Rightarrow> bool"
  ce_now :: "db_call \<Rightarrow> time_ms"

definition call_env :: "CallEnv \<Rightarrow> db_call \<Rightarrow> MeterEnv" where
  "call_env ce call = (ce_env ce)\<lparr>me_up := ce_up ce call, me_now := ce_now ce call\<rparr>"

fun status_text :: "BlockchainStatus \<Rightarrow> string" where
  "status_text NOT_SUBMITTED = ''NOT_SUBMITTED''"
| "status_text PENDING = ''PENDING''"
| "status_text SUBMITTED = ''SUBMITTED''"
| "status_text CHAIN_FINALIZED = ''FINALIZED''"
| "status_text DISPUTED = ''DISPUTED''"
| "status_text CHAIN_PAID = ''PAID''"
| "status_text FAILED = ''FAILED''"

fun error_message :: "thrown \<Rightarrow> string" where
  "error_message (ThrownError name msg) = msg"
| "error_message (ThrownZk e) = err_message e"
| "error_message (ThrownOther s) = ''Unknown error''"

text \<open>From the update to \<open>PENDING\<close> on.\<close>

definition submit_marked ::
  "'c chain_client \<Rightarrow> CallEnv \<Rightarrow> string \<Rightarrow> string \<Rightarrow> SettlementStatement \<Rightarrow> int \<Rightarrow> MeterDb \<Rightarrow> 'c \<Rightarrow>
     (thrown + tx reply) \<times> MeterDb \<times> 'c" where
  "submit_marked client ce key supplierWallet statement amountInUsdc db c =
     (case updateBlockchainStatus (call_env ce MarkCall) key PENDING (Some supplierWallet) db of
        Inl e \<Rightarrow> (Inl e, db, c)
      | Inr db1 \<Rightarrow>
          (case ch_submit client (st_id statement) supplierWallet amountInUsdc
                  (ch_hash client statement) c of
             (Inl e, c') \<Rightarrow> (Inl e, db1, c')
           | (Inr (txHash, blockNumber), c') \<Rightarrow>
               (case updateBlockchainSubmission (call_env ce RecordCall) key txHash blockNumber
                       SUBMITTED db1 of
                  Inl e \<Rightarrow> (Inl e, db1, c')
                | Inr db2 \<Rightarrow> (Inr (200, Inr (txHash, blockNumber)), db2, c'))))"

text \<open>After the checks have let the statement that was read pass.\<close>

definition submit_accepted ::
  "'c chain_client \<Rightarrow> CallEnv \<Rightarrow> string \<Rightarrow> string \<Rightarrow> SettlementStatement \<Rightarrow> MeterDb \<Rightarrow> 'c \<Rightarrow>
     (thrown + tx reply) \<times> MeterDb \<times> 'c" where
  "submit_accepted client ce key supplierWallet statement db c =
     (case ch_get client of
        Some e \<Rightarrow> (Inl e, db, c)
      | None \<Rightarrow>
          (case ch_parseUsdc client
                  (js_amount_text (me_readNumeric (ce_env ce) (st_total_amount statement))) of
             Inl e \<Rightarrow> (Inl e, db, c)
           | Inr amountInUsdc \<Rightarrow>
               submit_marked client ce key supplierWallet statement amountInUsdc db c))"

text \<open>The body of the \<open>try\<close>.\<close>

definition submit_attempt ::
  "'c chain_client \<Rightarrow> CallEnv \<Rightarrow> string \<Rightarrow> string \<Rightarrow> MeterDb \<Rightarrow> 'c \<Rightarrow>
     (thrown + tx reply) \<times> MeterDb \<times> 'c" where
  "submit_attempt client ce key supplierWallet db c =
     (case getStatementWithBlockchain (call_env ce ReadCall) key db of
        Inl e \<Rightarrow> (Inl e, db, c)
      | Inr None \<Rightarrow> (Inr (404, Inl ''Statement not found''), db, c)
      | Inr (Some statement) \<Rightarrow>
          if st_status statement \<noteq> FINALIZED
          then (Inr (400, Inl ''Statement must be finalized before on-chain submission''), db, c)
          else if chain_status statement \<noteq> NOT_SUBMITTED
          then (Inr (400, Inl (''Statement already submitted to blockchain (status: ''
                  @ status_text (chain_status statement) @ '')'')), db, c)
          else submit_accepted client ce key supplierWallet statement db c)"

definition fail_submission ::
  "CallEnv \<Rightarrow> string \<Rightarrow> (thrown + tx reply) \<times> MeterDb \<times> 'c \<Rightarrow>
     (thrown + tx reply) \<times> MeterDb \<times> 'c" where
  "fail_submission ce key attempt =
     (case attempt of
        (Inr reply, db, c) \<Rightarrow> (Inr reply, db, c)
      | (Inl e, db, c) \<Rightarrow>
          (case updateBlockchainStatus (call_env ce FailCall) key FAILED None db of
             Inl e' \<Rightarrow> (Inl e', db, c)
           | Inr db' \<Rightarrow> (Inr (500, Inl (error_message e)), db', c)))"

definition submitOnChain ::
  "'c chain_client \<Rightarrow> CallEnv \<Rightarrow> string \<Rightarrow> string \<Rightarrow> MeterDb \<Rightarrow> 'c \<Rightarrow>
     (thrown + tx reply) \<times> MeterDb \<times> 'c" where
  "submitOnChain client ce key supplierWallet db c =
     fail_submission ce key (submit_attempt client ce key supplierWallet db c)"

definition finalize_accepted ::
  "'c chain_client \<Rightarrow> CallEnv \<Rightarrow> string \<Rightarrow> SettlementStatement \<Rightarrow> MeterDb \<Rightarrow> 'c \<Rightarrow>
     (thrown + tx reply) \<times> MeterDb \<times> 'c" where
  "finalize_accepted client ce key statement db c =
     (case ch_get client of
        Some e \<Rightarrow> (Inl e, db, c)
      | None \<Rightarrow>
          (case ch_isFinalizable client (st_id statement) c of
             Inl e \<Rightarrow> (Inl e, db, c)
           | Inr False \<Rightarrow>
               (case ch_remaining client (st_id statement) c of
                  Inl e \<Rightarrow> (Inl e, db, c)
                | Inr remaining \<Rightarrow>
                    (Inr (400, Inl (''Dispute window not passed. '' @ show_int remaining
                       @ '' seconds remaining.'')), db, c))
           | Inr True \<Rightarrow>
               (case ch_finalize client (st_id statement) c of
                  (Inl e, c') \<Rightarrow> (Inl e, db, c')
                | (Inr (txHash, blockNumber), c') \<Rightarrow>
                    (case updateBlockchainFinalization (call_env ce RecordCall) key txHash
                            blockNumber db of
                       Inl e \<Rightarrow> (Inl e, db, c')
                     | Inr db' \<Rightarrow> (Inr (200, Inr (txHash, blockNumber)), db', c')))))"

definition finalizeOnChain ::
  "'c chain_client \<Rightarrow> CallEnv \<Rightarrow> string \<Rightarrow> MeterDb \<Rightarrow> 'c \<Rightarrow> tx reply \<times> MeterDb \<times> 'c" where
  "finalizeOnChain client ce key db c =
     (case (case getStatementWithBlockchain (call_env ce ReadCall) key db of
              Inl e \<Rightarrow> (Inl e, db, c)
            | Inr None \<Rightarrow> (Inr (404, Inl ''Statement not found''), db, c)
            | Inr (Some statement) \<Rightarrow>
                if chain_status statement \<noteq> SUBMITTED
                then (Inr (400, Inl (''Statement must be submitted to blockchain first (status: ''
                        @ status_text (chain_status statement) @ '')'')), db, c)
                else finalize_accepted client ce key statement db c) of
        (Inr reply, db', c') \<Rightarrow> (reply, db', c')
      | (Inl e, db', c') \<Rightarrow> ((500, Inl (error_message e)), db', c'))"

record BlockchainStatusResponse =
  bs_statementId :: string
  bs_blockchainStatus :: BlockchainStatus
  bs_txHash :: "string option"
  bs_blockNumber :: "int option"
  bs_chainSubmittedAt :: "time_ms option"
  bs_chainFinalizedAt :: "time_ms option"
  bs_isFinalizable :: "bool option"
  bs_remainingDisputeTime :: "int option"

text \<open>The chain is asked only for a submitted statement, and its failure is only logged.\<close>

definition chain_view :: "'c chain_client \<Rightarrow> SettlementStatement \<Rightarrow> 'c \<Rightarrow> bool option \<times> int option" where
  "chain_view client statement c =
     (if chain_status statement \<noteq> SUBMITTED \<or> ch_get client \<noteq> None then (None, None)
      else case ch_isFinalizable client (st_id statement) c of
        Inl e \<Rightarrow> (None, None)
      | Inr f \<Rightarrow>
          (Some f,
           case ch_remaining client (st_id statement) c of Inl e \<Rightarrow> None | Inr t \<Rightarrow> Some t))"

definition getBlockchainStatus ::
  "'c chain_client \<Rightarrow> CallEnv \<Rightarrow> string \<Rightarrow> MeterDb \<Rightarrow> 'c \<Rightarrow> thrown + BlockchainStatusResponse reply" where
  "getBlockchainStatus client ce key db c =
     sum_bind (getStatementWithBlockchain (call_env ce ReadCall) key db) (\<lambda>found.
       case found of
         None \<Rightarrow> Inr (404, Inl ''Statement not found'')
       | Some s \<Rightarrow> Inr (200, Inr
           \<lparr>bs_statementId = st_id s, bs_blockchainStatus = chain_status s, bs_txHash = st_tx_hash s,
            bs_blockNumber = st_block_number s, bs_chainSubmittedAt = st_chain_submitted_at s,
            bs_chainFinalizedAt = st_chain_finalized_at s,
            bs_isFinalizable = fst (chain_view client s c),
            bs_remainingDisputeTime = snd (chain_view client s c)\<rparr>))"

definition postSupplierWallet ::
  "MeterEnv \<Rightarrow> string \<Rightarrow> string \<Rightarrow> MeterDb \<Rightarrow> SupplierWallet reply \<times> MeterDb" where
  "postSupplierWallet env supplierId walletAddress db =
     (case registerSupplierWallet env supplierId walletAddress db of
        Inl e \<Rightarrow> ((400, Inl (case e of ThrownOther s \<Rightarrow> ''Failed to register wallet'' | _ \<Rightarrow> error_message e)), db)
      | Inr (w, db') \<Rightarrow> ((201, Inr w), db'))"

definition getSupplierWalletRoute ::
  "MeterEnv \<Rightarrow> string \<Rightarrow> MeterDb \<Rightarrow> thrown + SupplierWallet option reply" where
  "getSupplierWalletRoute env supplierId db =
     sum_bind (getSupplierWallet env supplierId db) (\<lambda>w. Inr (200, Inr w))"

section \<open>The subscriber\<close>

text \<open>
  \<open>event.timestamp\<close> is ISO text in the event and a time in the model; \<open>toISO\<close> prints it.
\<close>

definition usage_request :: "(time_ms \<Rightarrow> string) \<Rightarrow> VerificationEvent \<Rightarrow> RecordUsageRequest" where
  "usage_request toISO event =
     \<lparr>ru_eventId = ev_eventId event, ru_supplierId = pl_supplierId (ev_payload event),
      ru_brandId = Some (pl_requesterId (ev_payload event)),
      ru_predicateId = canonicalId (pl_predicateId (ev_payload event)),
      ru_receiptId = pl_receiptId (ev_payload event), ru_verifiedAt = toISO (ev_timestamp event)\<rparr>"

text \<open>Recording the event's usage, and the subscriber's handler that catches what it throws.\<close>

fun record_event :: "(time_ms \<Rightarrow> string) \<Rightarrow> (MeterEnv \<times> VerificationEvent, MeterDb) handler" where
  "record_event toISO (env, event) db =
     (case recordUsage env (usage_request toISO event) db of
        Inl e \<Rightarrow> (Some e, db)
      | Inr (row, db') \<Rightarrow> (None, db'))"

fun metering_handle :: "(time_ms \<Rightarrow> string) \<Rightarrow> (MeterEnv \<times> VerificationEvent, MeterDb) handler" where
  "metering_handle toISO (env, event) db = (None, snd (record_event toISO (env, event) db))"

section \<open>Summaries\<close>

lemma summary_split:
  "fold (summary_step price) us (m, t) =
     (fold (\<lambda>usage m. jm_set m (u_predicate_id usage) (add_predicate_usage price usage
        (case map_of m (u_predicate_id usage) of None \<Rightarrow> new_predicate_usage usage | Some p \<Rightarrow> p))) us m,
      foldl (\<lambda>t u. t + price (u_price u)) t us)"
  by (induction us arbitrary: m t) (simp_all add: summary_step_def Let_def)

lemma foldl_sum: "foldl (\<lambda>t u. t + price (u_price u)) t us = (t::'n::ab_group_add) + sum_list (map (price \<circ> u_price) us)"
  by (induction us arbitrary: t) (simp_all add: ac_simps)

text \<open>With exact arithmetic the usage summary adds up: its total is the sum of the prices of the
  usages it counts, the parts per predicate sum to that total and their counts to that number, and a
  predicate's part is what its own usages cost.\<close>

lemma usage_summary_adds_up:
  fixes price :: "int \<Rightarrow> 'n::ab_group_add"
  assumes "getUsageSummary price env supplier startDate endDate db = Inr (200, Inr summary)"
    and "getUsageBySupplier env supplier startDate endDate db = Inr us"
  shows "us_total_verifications summary = length us \<and>
    us_total_amount summary = sum_list (map (price \<circ> u_price) us) \<and>
    sum_list (map pu_amount (us_by_predicate summary)) = us_total_amount summary \<and>
    sum_list (map (\<lambda>p. int (pu_count p)) (us_by_predicate summary)) = int (length us)"
proof -
  let ?m = "fold (\<lambda>usage m. jm_set m (u_predicate_id usage) (add_predicate_usage price usage
        (case map_of m (u_predicate_id usage) of None \<Rightarrow> new_predicate_usage usage | Some p \<Rightarrow> p))) us []"
  have s: "us_total_verifications summary = length us"
    "us_total_amount summary = sum_list (map (price \<circ> u_price) us)"
    "us_by_predicate summary = jm_values ?m"
    using assms by (auto simp: getUsageSummary_def summary_split foldl_sum)
  have "sum_list (map (pu_amount \<circ> snd) ?m) = sum_list (map (price \<circ> u_price) us)"
    by (rule jm.accumulate_sum_empty [where P = "\<lambda>p. True"])
      (simp_all add: new_predicate_usage_def add_predicate_usage_def)
  moreover have "sum_list (map ((\<lambda>p. int (pu_count p)) \<circ> snd) ?m) = sum_list (map (\<lambda>u. 1) us)"
    by (rule jm.accumulate_sum_empty [where P = "\<lambda>p. True"])
      (simp_all add: new_predicate_usage_def add_predicate_usage_def)
  ultimately show ?thesis by (simp add: s jm_values_sum sum_list_triv)
qed

section \<open>Delivery of verification events\<close>

fun usage_reflected :: "MeterDb \<Rightarrow> MeterEnv \<times> VerificationEvent \<Rightarrow> bool" where
  "usage_reflected db (env, event) = (ev_eventId event \<in> u_event_id ` set (usages db))"

lemma record_event_usages:
  "set (usages db) \<subseteq> set (usages (snd (record_event toISO d db)))"
  by (cases d) (auto split: sum.split dest: recordUsage_Inr(1))

lemma record_event_success:
  "record_event toISO (env, event) db = (None, db') \<Longrightarrow> usage_reflected db' (env, event)"
proof -
  assume "record_event toISO (env, event) db = (None, db')"
  then obtain row where "recordUsage env (usage_request toISO event) db = Inr (row, db')"
    by (auto split: sum.splits)
  from recordUsage_Inr(1,2) [OF this] show ?thesis by (auto simp: usage_request_def)
qed

lemma record_event_noop:
  "usage_reflected db (env, event) \<Longrightarrow> \<exists>e. record_event toISO (env, event) db = (Some e, db)"
  using recordUsage_duplicate [of "usage_request toISO event" db env] by (auto simp: usage_request_def)

interpretation usage: acking_handler "record_event toISO" usage_reflected
proof unfold_locales
  fix db :: MeterDb and d d' :: "MeterEnv \<times> VerificationEvent"
  assume "usage_reflected db d"
  then show "usage_reflected (snd (record_event toISO d' db)) d"
    using record_event_usages [of db toISO d'] by (cases d) auto
next
  fix d :: "MeterEnv \<times> VerificationEvent" and db db' :: MeterDb
  assume "record_event toISO d db = (None, db')"
  then show "usage_reflected db' d" by (cases d) (auto dest: record_event_success simp del: record_event.simps)
qed

interpretation metering: redelivery_safe_handler "metering_handle toISO" usage_reflected
proof unfold_locales
  fix db :: MeterDb and d d' :: "MeterEnv \<times> VerificationEvent"
  assume "usage_reflected db d"
  then show "usage_reflected (snd (metering_handle toISO d' db)) d"
    using usage.reflected_stays [of db d toISO d'] by (cases d') simp
next
  fix d :: "MeterEnv \<times> VerificationEvent" and db :: MeterDb
  assume "usage_reflected db d"
  then show "snd (metering_handle toISO d db) = db"
    using record_event_noop [of db "fst d" "snd d" toISO] by (cases d) (auto simp del: record_event.simps)
qed

text \<open>The metering subscriber is idempotent: delivering again any messages whose events have
  already been recorded leaves the database as it is, so no event is billed twice.\<close>

lemma redelivery_bills_nothing:
  assumes "\<forall>m \<in> set msgs. \<forall>env event. parse m = Some (env, event) \<longrightarrow>
      ev_eventId event \<in> u_event_id ` set (usages db)"
  shows "snd (process_messages parse (metering_handle toISO) msgs db) = db"
  by (rule metering.redelivery_noop) (use assms in auto)

lemma metering_handle_wf: "meter_wf db \<Longrightarrow> meter_wf (snd (metering_handle toISO d db))"
  by (cases d) (auto split: sum.split dest: recordUsage_wf)

text \<open>Every message the metering subscriber can read is acknowledged, also when the database
  is down and nothing is recorded: such an event is never delivered again and is not billed.\<close>

lemma metering_acknowledges_everything:
  assumes "parse msg = Some (env, event)"
  shows "fst (process_message parse (metering_handle toISO) msg db) = Ack \<and>
    (me_up env \<or> snd (process_message parse (metering_handle toISO) msg db) = db)"
  using assms
  by (auto simp: process_message_def recordUsage_def sum_bind_def db_query_def split: sum.split)

definition demo_billing_event :: VerificationEvent where
  "demo_billing_event = \<lparr>ev_eventId = ''e1'', ev_eventType = ''proofs.verified'', ev_timestamp = 3,
     ev_payload = \<lparr>pl_receiptId = ''r'', pl_predicateId = \<lparr>pid_name = ''CERT_VALID'', pid_version = ''V1''\<rparr>,
       pl_supplierId = ''s'', pl_requesterId = ''b'', pl_productBinding = None, pl_result = True,
       pl_commitmentRoot = None\<rparr>, ev_gatewayId = None\<rparr>"

end
