(* ===== verification/StatementLife.thy ===== *)
theory StatementLife
  imports MeteringRoutes
begin

text \<open>
  Settlement statements over time: what each route of the metering service does to the status
  and the chain status of a statement, the runs of the service as a step relation over its
  database and the chain, and what holds in every run. The steps of \<open>billing_step\<close> are whole
  requests and whole deliveries; requests that overlap are treated at the end.
\<close>

section \<open>The life of a statement\<close>

text \<open>The pairs of statement status and chain status a route may lead to.\<close>

inductive life ::
  "StatementStatus \<times> BlockchainStatus \<Rightarrow> StatementStatus \<times> BlockchainStatus \<Rightarrow> bool" where
  stay: "life x x"
| finalize: "life (DRAFT, b) (FINALIZED, b)"
| mark: "life (FINALIZED, NOT_SUBMITTED) (FINALIZED, PENDING)"
| submit: "life (FINALIZED, NOT_SUBMITTED) (FINALIZED, SUBMITTED)"
| settle: "life (s, SUBMITTED) (PAID, CHAIN_FINALIZED)"
| fail: "life (s, b) (s, FAILED)"

inductive_cases lifeE: "life (s, b) (s', b')"
inductive_simps life_failed: "life (s, FAILED) (s', b')"

text \<open>Statuses are ordered as a statement passes through them.\<close>

fun status_rank :: "StatementStatus \<Rightarrow> nat" where
  "status_rank DRAFT = 0"
| "status_rank FINALIZED = 1"
| "status_rank PAID = 2"

instantiation StatementStatus :: linorder
begin

definition less_eq_StatementStatus :: "StatementStatus \<Rightarrow> StatementStatus \<Rightarrow> bool" where
  "less_eq_StatementStatus a b = (status_rank a \<le> status_rank b)"

definition less_StatementStatus :: "StatementStatus \<Rightarrow> StatementStatus \<Rightarrow> bool" where
  "less_StatementStatus a b = (status_rank a < status_rank b)"

instance
proof
  fix a b :: StatementStatus
  show "a \<le> b \<Longrightarrow> b \<le> a \<Longrightarrow> a = b" by (cases a; cases b) (simp_all add: less_eq_StatementStatus_def)
qed (auto simp: less_eq_StatementStatus_def less_StatementStatus_def)

end

lemma status_bounds [simp]: "DRAFT \<le> s" "s \<le> PAID"
  by (cases s; simp add: less_eq_StatementStatus_def)+

lemma life_forward: "life (s, b) (s', b') \<Longrightarrow> s \<le> s'"
  by (elim lifeE) auto

lemma life_keeps_failed: "life (s, FAILED) (s', b') \<Longrightarrow> b' = FAILED"
  by (auto simp: life_failed)

definition phase :: "SettlementStatement \<Rightarrow> StatementStatus \<times> BlockchainStatus" where
  "phase s = (st_status s, chain_status s)"

definition same_terms :: "SettlementStatement \<Rightarrow> SettlementStatement \<Rightarrow> bool" where
  "same_terms s s' =
     (st_id s' = st_id s \<and> st_supplier_id s' = st_supplier_id s \<and>
      st_period_start s' = st_period_start s \<and> st_period_end s' = st_period_end s \<and>
      st_total_verifications s' = st_total_verifications s \<and> st_total_amount s' = st_total_amount s \<and>
      st_currency s' = st_currency s \<and> st_breakdown s' = st_breakdown s)"

definition lives_on :: "SettlementStatement \<Rightarrow> SettlementStatement \<Rightarrow> bool" where
  "lives_on s s' = (same_terms s s' \<and> life (phase s) (phase s'))"

lemma lives_on_refl [simp]: "lives_on s s"
  by (simp add: lives_on_def same_terms_def life.stay)

definition set_chain :: "BlockchainStatus \<Rightarrow> string option \<Rightarrow> SettlementStatement \<Rightarrow> SettlementStatement" where
  "set_chain status supplierWallet s =
     (case js_or_null supplierWallet of None \<Rightarrow> s | Some w \<Rightarrow> s\<lparr>st_supplier_wallet := Some w\<rparr>)
       \<lparr>st_blockchain_status := Some status\<rparr>"

lemma set_chain_simps [simp]:
  "st_id (set_chain b w s) = st_id s" "st_status (set_chain b w s) = st_status s"
  "chain_status (set_chain b w s) = b" "same_terms s (set_chain b w s)"
  by (simp_all add: set_chain_def chain_status_def js_coalesce_def same_terms_def split: option.split)

definition set_submitted :: "CallEnv \<Rightarrow> tx \<Rightarrow> SettlementStatement \<Rightarrow> SettlementStatement" where
  "set_submitted ce t s =
     s\<lparr>st_blockchain_status := Some SUBMITTED, st_tx_hash := Some (fst t), st_block_number := Some (snd t),
       st_chain_submitted_at := Some (ce_now ce RecordCall)\<rparr>"

definition set_settled :: "CallEnv \<Rightarrow> SettlementStatement \<Rightarrow> SettlementStatement" where
  "set_settled ce s =
     s\<lparr>st_blockchain_status := Some CHAIN_FINALIZED,
       st_chain_finalized_at := Some (ce_now ce RecordCall), st_status := PAID\<rparr>"

lemma set_submitted_simps [simp]:
  "st_id (set_submitted ce t s) = st_id s" "st_status (set_submitted ce t s) = st_status s"
  "chain_status (set_submitted ce t s) = SUBMITTED" "same_terms s (set_submitted ce t s)"
  by (simp_all add: set_submitted_def chain_status_def js_coalesce_def same_terms_def)

lemma set_settled_simps [simp]:
  "st_id (set_settled ce s) = st_id s" "phase (set_settled ce s) = (PAID, CHAIN_FINALIZED)"
  "same_terms s (set_settled ce s)"
  by (simp_all add: set_settled_def phase_def chain_status_def js_coalesce_def same_terms_def)

definition upd_stmt :: "string \<Rightarrow> (SettlementStatement \<Rightarrow> SettlementStatement) \<Rightarrow> MeterDb \<Rightarrow> MeterDb" where
  "upd_stmt u f db = db\<lparr>statements := update_where (\<lambda>s. st_id s = u) f (statements db)\<rparr>"

lemma call_env_simps [simp]:
  "me_readUuid (call_env ce k) = me_readUuid (ce_env ce)" "me_up (call_env ce k) = ce_up ce k"
  "me_now (call_env ce k) = ce_now ce k"
  by (simp_all add: call_env_def)

lemma chain_update_Inr:
  "updateBlockchainStatus (call_env ce k) key b w db = Inr db' \<longleftrightarrow>
     ce_up ce k \<and> (\<exists>u. me_readUuid (ce_env ce) key = Some u \<and> db' = upd_stmt u (set_chain b w) db)"
  "updateBlockchainSubmission (call_env ce RecordCall) key h n SUBMITTED db = Inr db' \<longleftrightarrow>
     ce_up ce RecordCall \<and> (\<exists>u. me_readUuid (ce_env ce) key = Some u \<and>
       db' = upd_stmt u (set_submitted ce (h, n)) db)"
  "updateBlockchainFinalization (call_env ce RecordCall) key h n db = Inr db' \<longleftrightarrow>
     ce_up ce RecordCall \<and> (\<exists>u. me_readUuid (ce_env ce) key = Some u \<and>
       db' = upd_stmt u (set_settled ce) db)"
  by (auto simp: chain_updates update_statement_Inr upd_stmt_def set_chain_def [abs_def]
      set_submitted_def [abs_def] set_settled_def [abs_def])

lemma upd_stmt_twice:
  "(\<And>s. st_id (f s) = st_id s) \<Longrightarrow> upd_stmt u g (upd_stmt u f db) = upd_stmt u (g \<circ> f) db"
  by (simp add: upd_stmt_def update_where_def)

lemma upd_stmt_lives:
  assumes "meter_wf db" and "row_by st_id u (statements db) = Some s" and "lives_on s (f s)"
  shows "list_all2 lives_on (statements db) (statements (upd_stmt u f db))"
proof -
  have "lives_on q (if st_id q = u then f q else q)" if "q \<in> set (statements db)" for q
    using row_by_unique [of st_id "statements db" q] assms that by (auto simp: meter_wf_def)
  then show ?thesis
    by (simp add: upd_stmt_def update_where_def list.rel_map list.rel_refl_strong)
qed

text \<open>
  What one run of the submission route does to the database and to the chain when it finds the
  statement ready: one chain call at most, and a chain status that is no longer
  \<open>NOT_SUBMITTED\<close>.
\<close>

definition submission ::
  "'c chain_client \<Rightarrow> CallEnv \<Rightarrow> string \<Rightarrow> string \<Rightarrow> MeterDb \<Rightarrow> 'c \<Rightarrow> MeterDb \<Rightarrow> 'c \<Rightarrow> bool" where
  "submission client ce key w db c db' c' =
     (\<exists>u s h amount f. me_readUuid (ce_env ce) key = Some u \<and> row_by st_id u (statements db) = Some s \<and>
       phase s = (FINALIZED, NOT_SUBMITTED) \<and> db' = upd_stmt u f db \<and> (\<forall>q. st_id (f q) = st_id q) \<and>
       (\<forall>q. same_terms q (f q) \<and> st_status (f q) = st_status q) \<and>
       (\<forall>q. chain_status (f q) \<in> {PENDING, SUBMITTED, FAILED}) \<and>
       (c' = c \<or> c' = snd (ch_submit client u w amount h c)))"

definition failure :: "CallEnv \<Rightarrow> string \<Rightarrow> MeterDb \<Rightarrow> MeterDb \<Rightarrow> bool" where
  "failure ce key db db' =
     (db' = db \<or> (\<exists>u. me_readUuid (ce_env ce) key = Some u \<and> db' = upd_stmt u (set_chain FAILED None) db))"

lemma submissionI:
  assumes "me_readUuid (ce_env ce) key = Some u" and "row_by st_id u (statements db) = Some s"
    and "phase s = (FINALIZED, NOT_SUBMITTED)" and "db' = upd_stmt u f db"
    and "\<And>q. st_id (f q) = st_id q \<and> same_terms q (f q) \<and> st_status (f q) = st_status q \<and>
      chain_status (f q) \<in> {PENDING, SUBMITTED, FAILED}"
    and "c' = c \<or> c' = snd (ch_submit client u w amount h c)"
  shows "submission client ce key w db c db' c'"
  unfolding submission_def using assms by blast

lemma fail_submission_cases:
  assumes "fail_submission ce key (res, db1, c1) = (r, db', c')"
  shows "c' = c1 \<and> failure ce key db1 db' \<and> (\<forall>x. res = Inr x \<longrightarrow> db' = db1)"
  using assms by (auto simp: fail_submission_def failure_def chain_update_Inr split: sum.splits)

lemma same_terms_trans: "same_terms a b \<Longrightarrow> same_terms b c \<Longrightarrow> same_terms a c"
  by (simp add: same_terms_def)

lemma submit_marked_effect:
  assumes "submit_marked client ce key w s amount db c = (res, db1, c1)"
    and "me_readUuid (ce_env ce) key = Some u"
  defines "P \<equiv> set_chain PENDING (Some w)"
  shows "db1 = db \<and> c1 = c \<or>
    c1 = snd (ch_submit client (st_id s) w amount (ch_hash client s) c) \<and>
    (db1 = upd_stmt u P db \<or> (\<exists>t x. db1 = upd_stmt u (set_submitted ce t \<circ> P) db \<and> res = Inr x))"
  using assms
  by (auto simp: submit_marked_def chain_update_Inr upd_stmt_twice split: sum.splits prod.splits)

lemma ready_statement:
  assumes "getStatementWithBlockchain (call_env ce k) key db = Inr (Some s0)"
  obtains u s where "me_readUuid (ce_env ce) key = Some u" "row_by st_id u (statements db) = Some s"
    "phase s0 = phase s" "st_id s0 = u"
proof -
  from assms obtain u s where u: "me_readUuid (ce_env ce) key = Some u"
    and s: "row_by st_id u (statements db) = Some s" and s0: "s0 = s\<lparr>st_blockchain_status := Some (chain_status s)\<rparr>"
    by (auto simp: getStatementWithBlockchain_def getStatement_def inr_iff
        with_meter_uuid_def split: option.splits)
  show ?thesis
    by (rule that [OF u s]) (use row_by_Some [OF s] in
      \<open>simp_all add: s0 phase_def chain_status_def js_coalesce_def\<close>)
qed

lemma submit_accepted_effect:
  assumes a: "submit_accepted client ce key w s0 db c = (res, db1, c1)"
    and u: "me_readUuid (ce_env ce) key = Some u" and s: "row_by st_id u (statements db) = Some s"
    and p: "phase s = (FINALIZED, NOT_SUBMITTED)" and sid: "st_id s0 = u"
    and f: "fail_submission ce key (res, db1, c1) = (r, db', c')"
  shows "c' = c \<and> failure ce key db db' \<or> submission client ce key w db c db' c'"
proof (cases "db1 = db \<and> c1 = c")
  case True
  with fail_submission_cases [OF f] show ?thesis by simp
next
  case False
  let ?P = "set_chain PENDING (Some w)"
  from a False obtain amount where "submit_marked client ce key w s0 amount db c = (res, db1, c1)"
    by (auto simp: submit_accepted_def split: option.splits sum.splits)
  from submit_marked_effect [OF this u] False
  have c1: "c1 = snd (ch_submit client u w amount (ch_hash client s0) c)"
    and db1: "db1 = upd_stmt u ?P db \<or> (\<exists>t x. db1 = upd_stmt u (set_submitted ce t \<circ> ?P) db \<and> res = Inr x)"
    by (simp_all add: sid)
  have c': "c' = c \<or> c' = snd (ch_submit client u w amount (ch_hash client s0) c)"
    using fail_submission_cases [OF f] c1 by simp
  note intro = submissionI [OF u s p _ _ c']
  have twice: "same_terms q (set_chain FAILED None (?P q))" "same_terms q (set_submitted ce t (?P q))" for q t
    by (rule same_terms_trans [of q "?P q"]; simp)+
  from db1 show ?thesis
  proof
    assume d: "db1 = upd_stmt u ?P db"
    with fail_submission_cases [OF f] u
    have "db' = upd_stmt u ?P db \<or> db' = upd_stmt u (set_chain FAILED None \<circ> ?P) db"
      by (auto simp: failure_def upd_stmt_twice)
    then show ?thesis
    proof
      assume "db' = upd_stmt u ?P db"
      then show ?thesis by (rule disjI2 [OF intro]) simp
    next
      assume "db' = upd_stmt u (set_chain FAILED None \<circ> ?P) db"
      then show ?thesis by (rule disjI2 [OF intro]) (simp add: twice)
    qed
  next
    assume "\<exists>t x. db1 = upd_stmt u (set_submitted ce t \<circ> ?P) db \<and> res = Inr x"
    then obtain t x where "db1 = upd_stmt u (set_submitted ce t \<circ> ?P) db" "res = Inr x" by blast
    with fail_submission_cases [OF f] have "db' = upd_stmt u (set_submitted ce t \<circ> ?P) db" by simp
    then show ?thesis by (rule disjI2 [OF intro]) (simp add: twice)
  qed
qed

lemma submit_effect:
  assumes "submitOnChain client ce key w db c = (r, db', c')"
  shows "c' = c \<and> failure ce key db db' \<or> submission client ce key w db c db' c'"
proof -
  obtain res db1 c1 where a: "submit_attempt client ce key w db c = (res, db1, c1)"
    by (cases "submit_attempt client ce key w db c") auto
  then have f: "fail_submission ce key (res, db1, c1) = (r, db', c')"
    using assms by (simp add: submitOnChain_def)
  show ?thesis
  proof (cases "db1 = db \<and> c1 = c")
    case True
    with fail_submission_cases [OF f] show ?thesis by simp
  next
    case False
    with a obtain s0 where g: "getStatementWithBlockchain (call_env ce ReadCall) key db = Inr (Some s0)"
      and p0: "phase s0 = (FINALIZED, NOT_SUBMITTED)"
      and acc: "submit_accepted client ce key w s0 db c = (res, db1, c1)"
      by (auto simp: submit_attempt_def phase_def split: sum.splits option.splits if_splits)
    obtain u s where us: "me_readUuid (ce_env ce) key = Some u" "row_by st_id u (statements db) = Some s"
      "phase s0 = phase s" "st_id s0 = u"
      by (rule ready_statement [OF g])
    then show ?thesis
      using submit_accepted_effect [OF acc us(1,2) _ us(4) f] p0 by simp
  qed
qed

text \<open>And what a run of the finalization route does.\<close>

lemma finalize_effect:
  assumes "finalizeOnChain client ce key db c = (r, db', c')"
  shows "db' = db \<or>
    (\<exists>u s. me_readUuid (ce_env ce) key = Some u \<and> row_by st_id u (statements db) = Some s \<and>
       chain_status s = SUBMITTED \<and> db' = upd_stmt u (set_settled ce) db)"
proof (cases "db' = db")
  case False
  with assms obtain s0 where g: "getStatementWithBlockchain (call_env ce ReadCall) key db = Inr (Some s0)"
    and p0: "chain_status s0 = SUBMITTED"
    and upd: "\<exists>h n. updateBlockchainFinalization (call_env ce RecordCall) key h n db = Inr db'"
    by (auto simp: finalizeOnChain_def finalize_accepted_def
        split: sum.splits option.splits if_splits bool.splits prod.splits)
  obtain u s where "me_readUuid (ce_env ce) key = Some u" "row_by st_id u (statements db) = Some s"
    "phase s0 = phase s" "st_id s0 = u"
    by (rule ready_statement [OF g])
  with p0 upd show ?thesis by (auto simp: chain_update_Inr phase_def)
qed simp

section \<open>Runs of the service\<close>

text \<open>
  A step is a request, a delivered event or a change \<open>world\<close> that others make on the chain.
\<close>

inductive billing_step ::
  "(time_ms \<Rightarrow> string) \<Rightarrow> 'c chain_client \<Rightarrow> ('c \<Rightarrow> 'c \<Rightarrow> bool) \<Rightarrow> MeterDb \<times> 'c \<Rightarrow> MeterDb \<times> 'c \<Rightarrow> bool"
  for toISO :: "time_ms \<Rightarrow> string" and client :: "'c chain_client" and world :: "'c \<Rightarrow> 'c \<Rightarrow> bool" where
  usage_route: "postUsage env body db = (r, db') \<Longrightarrow> billing_step toISO client world (db, c) (db', c)"
| usage_event: "metering_handle toISO d db = (r, db') \<Longrightarrow> billing_step toISO client world (db, c) (db', c)"
| settlement_route:
    "postSettlement env request db = (r, db') \<Longrightarrow> billing_step toISO client world (db, c) (db', c)"
| finalize_route: "postFinalize env key db = (r, db') \<Longrightarrow> billing_step toISO client world (db, c) (db', c)"
| submit_route:
    "submitOnChain client ce key w db c = (r, db', c') \<Longrightarrow> billing_step toISO client world (db, c) (db', c')"
| settle_route:
    "finalizeOnChain client ce key db c = (r, db', c') \<Longrightarrow> billing_step toISO client world (db, c) (db', c')"
| wallet_route:
    "postSupplierWallet env supplier addr db = (r, db') \<Longrightarrow> billing_step toISO client world (db, c) (db', c)"
| world_step: "world c c' \<Longrightarrow> billing_step toISO client world (db, c) (db, c')"

text \<open>
  How the list of statements changes in a step: every statement lives on in its place, and new
  ones are drafts.
\<close>

definition evolves :: "MeterDb \<Rightarrow> MeterDb \<Rightarrow> bool" where
  "evolves db db' =
     (\<exists>old new. statements db' = old @ new \<and> list_all2 lives_on (statements db) old \<and>
        (\<forall>s \<in> set new. phase s = (DRAFT, NOT_SUBMITTED)))"

lemma evolves_same: "statements db' = statements db \<Longrightarrow> evolves db db'"
  unfolding evolves_def
  by (rule exI [of _ "statements db"], rule exI [of _ "[]"]) (simp add: list.rel_refl_strong)

lemma evolves_update: "list_all2 lives_on (statements db) (statements db') \<Longrightarrow> evolves db db'"
  unfolding evolves_def by (rule exI [of _ "statements db'"], rule exI [of _ "[]"]) simp

lemma evolves_append:
  "phase s = (DRAFT, NOT_SUBMITTED) \<Longrightarrow> evolves db (db\<lparr>statements := statements db @ [s]\<rparr>)"
  unfolding evolves_def
  by (rule exI [of _ "statements db"], rule exI [of _ "[s]"]) (simp add: list.rel_refl_strong)

lemma upd_stmt_wf: "(\<And>s. st_id (f s) = st_id s) \<Longrightarrow> meter_wf db \<Longrightarrow> meter_wf (upd_stmt u f db)"
  by (simp add: upd_stmt_def statements_update_wf)

lemma upd_stmt_evolves:
  assumes "meter_wf db" and "\<And>s. row_by st_id u (statements db) = Some s \<Longrightarrow> lives_on s (f s)"
    and "\<And>s. st_id (f s) = st_id s"
  shows "meter_wf (upd_stmt u f db) \<and> evolves db (upd_stmt u f db)"
proof (cases "row_by st_id u (statements db)")
  case None
  then have "statements (upd_stmt u f db) = statements db"
    unfolding upd_stmt_def update_where_def
    by (auto simp: row_by_None_iff intro!: map_idI)
  with assms show ?thesis by (simp add: evolves_same upd_stmt_wf)
next
  case (Some s)
  with assms upd_stmt_lives show ?thesis by (simp add: evolves_update upd_stmt_wf)
qed

lemma finalizeStatement_upd:
  assumes "finalizeStatement env key db = Inr (r, db')"
  shows "db' = db \<or> (\<exists>u s. row_by st_id u (statements db) = Some s \<and> st_status s = DRAFT \<and>
    db' = upd_stmt u (\<lambda>q. if st_status q = DRAFT then finalize_row (me_now env) q else q) db)"
proof -
  have eq: "(if st_id q = u \<and> st_status q = DRAFT then f q else q) =
      (if st_id q = u then if st_status q = DRAFT then f q else q else q)" for q u and f :: "SettlementStatement \<Rightarrow> SettlementStatement"
    by simp
  from assms show ?thesis
    by (auto simp: finalizeStatement_def inr_iff with_meter_uuid_def upd_stmt_def
        update_where_def eq split: option.splits if_splits)
qed

lemma failure_evolves: "meter_wf db \<Longrightarrow> failure ce key db db' \<Longrightarrow> meter_wf db' \<and> evolves db db'"
proof -
  have "lives_on s (set_chain FAILED None s)" for s by (simp add: lives_on_def phase_def life.fail)
  then have "meter_wf db \<Longrightarrow> meter_wf (upd_stmt u (set_chain FAILED None) db) \<and>
      evolves db (upd_stmt u (set_chain FAILED None) db)" for u
    by (intro upd_stmt_evolves) simp_all
  then show "meter_wf db \<Longrightarrow> failure ce key db db' \<Longrightarrow> meter_wf db' \<and> evolves db db'"
    by (auto simp: failure_def evolves_same)
qed

lemma submission_evolves:
  assumes "meter_wf db" and "submission client ce key w db c db' c'"
  shows "meter_wf db' \<and> evolves db db'"
proof -
  from assms(2) obtain u s f where s: "row_by st_id u (statements db) = Some s"
    "phase s = (FINALIZED, NOT_SUBMITTED)" and db': "db' = upd_stmt u f db"
    and f: "\<And>q. st_id (f q) = st_id q" "\<And>q. same_terms q (f q) \<and> st_status (f q) = st_status q"
      "\<And>q. chain_status (f q) \<in> {PENDING, SUBMITTED, FAILED}"
    unfolding submission_def by blast
  have "lives_on s (f s)"
    using s(2) f(2,3) [of s] by (auto simp: lives_on_def phase_def intro: life.intros)
  with s(1) f(1) assms(1) show ?thesis
    unfolding db' by (intro upd_stmt_evolves) auto
qed

lemma finalize_row_lives: "st_status s = DRAFT \<Longrightarrow> lives_on s (finalize_row now s)"
  by (simp add: lives_on_def same_terms_def finalize_row_def phase_def chain_status_def life.finalize)

lemma set_settled_lives: "chain_status s = SUBMITTED \<Longrightarrow> lives_on s (set_settled ce s)"
  by (simp add: lives_on_def phase_def [of s] life.settle)

lemma step_evolves:
  assumes "billing_step toISO client world (db, c) (db', c')" and "meter_wf db"
  shows "meter_wf db' \<and> evolves db db'"
  using assms(1)
proof (cases rule: billing_step.cases)
  case (usage_route env body r)
  then show ?thesis
    using assms(2) recordUsage_wf [OF assms(2)]
    by (auto simp: postUsage_def evolves_same dest: recordUsage_Inr(1) split: sum.splits)
next
  case (usage_event d r)
  then have "db' = snd (metering_handle toISO d db)" by simp
  moreover have "statements (snd (metering_handle toISO d db)) = statements db"
    by (cases d) (auto dest: recordUsage_Inr(1) split: sum.split)
  ultimately show ?thesis using metering_handle_wf [OF assms(2)] by (simp add: evolves_same)
next
  case (settlement_route env request r)
  then show ?thesis
    using assms(2)
    by (auto simp: postSettlement_def evolves_same meter_wf_def unique_on_append phase_def
        dest!: generateStatement_Inr intro!: evolves_append split: sum.splits)
next
  case (finalize_route env key r)
  then consider "db' = db" | s where "finalizeStatement env key db = Inr (s, db')"
    by (auto simp: postFinalize_def split: sum.splits option.splits)
  then show ?thesis
  proof cases
    case 2
    from finalizeStatement_upd [OF this] show ?thesis
    proof
      assume "\<exists>u s. row_by st_id u (statements db) = Some s \<and> st_status s = DRAFT \<and>
        db' = upd_stmt u (\<lambda>q. if st_status q = DRAFT then finalize_row (me_now env) q else q) db"
      then show ?thesis
        using upd_stmt_evolves [OF assms(2)] finalize_row_lives by (auto simp: finalize_row_def)
    qed (simp add: assms(2) evolves_same)
  qed (simp add: assms(2) evolves_same)
next
  case (submit_route ce key w r)
  then have "submitOnChain client ce key w db c = (r, db', c')" by simp
  from submit_effect [OF this] show ?thesis
    using failure_evolves [OF assms(2), of ce key db'] submission_evolves [OF assms(2), of client ce key w c db' c']
    by (elim disjE conjE) simp_all
next
  case (settle_route ce key r)
  then have "finalizeOnChain client ce key db c = (r, db', c')" by simp
  from finalize_effect [OF this] consider "db' = db" | u s where
      "row_by st_id u (statements db) = Some s" "chain_status s = SUBMITTED" "db' = upd_stmt u (set_settled ce) db"
    by blast
  then show ?thesis
  proof cases
    case (2 u s)
    with upd_stmt_evolves [OF assms(2), of u "set_settled ce"] show ?thesis
      by (simp add: set_settled_lives)
  qed (simp add: assms(2) evolves_same)
next
  case (wallet_route env supplier addr r)
  then consider "db' = db" | w where "registerSupplierWallet env supplier addr db = Inr (w, db')"
    by (auto simp: postSupplierWallet_def split: sum.splits)
  then show ?thesis
  proof cases
    case 2
    then have "statements db' = statements db"
      by (auto simp: registerSupplierWallet_def inr_iff Let_def split: option.splits if_splits)
    with registerSupplierWallet_wf [OF assms(2) 2] show ?thesis by (simp add: evolves_same)
  qed (simp add: assms(2) evolves_same)
qed (simp add: assms(2) evolves_same)

section \<open>What every run keeps\<close>

definition runs ::
  "(time_ms \<Rightarrow> string) \<Rightarrow> 'c chain_client \<Rightarrow> ('c \<Rightarrow> 'c \<Rightarrow> bool) \<Rightarrow> MeterDb \<times> 'c \<Rightarrow> MeterDb \<times> 'c \<Rightarrow> bool" where
  "runs toISO client world = (billing_step toISO client world)\<^sup>*\<^sup>*"

text \<open>The chain statuses that agree with a status.\<close>

fun agrees :: "StatementStatus \<times> BlockchainStatus \<Rightarrow> bool" where
  "agrees (DRAFT, b) = (b \<in> {NOT_SUBMITTED, FAILED})"
| "agrees (FINALIZED, b) = (b \<in> {NOT_SUBMITTED, PENDING, SUBMITTED, FAILED})"
| "agrees (PAID, b) = (b \<in> {CHAIN_FINALIZED, FAILED})"

lemma life_agrees: "life x y \<Longrightarrow> agrees x \<Longrightarrow> agrees y"
proof (induction rule: life.induct)
  case (fail s b)
  then show ?case by (cases s) simp_all
qed auto

definition succeeds :: "SettlementStatement \<Rightarrow> SettlementStatement \<Rightarrow> bool" where
  "succeeds s s' =
     (same_terms s s' \<and> st_status s \<le> st_status s' \<and>
      (chain_status s = FAILED \<longrightarrow> chain_status s' = FAILED))"

lemma lives_on_succeeds: "lives_on s s' \<Longrightarrow> succeeds s s'"
proof -
  assume "lives_on s s'"
  then have t: "same_terms s s'" and l: "life (st_status s, chain_status s) (st_status s', chain_status s')"
    by (simp_all add: lives_on_def phase_def)
  from l have "st_status s \<le> st_status s'" by (rule life_forward)
  moreover from l have "chain_status s = FAILED \<longrightarrow> chain_status s' = FAILED"
    by (auto dest: life_keeps_failed)
  ultimately show ?thesis using t by (simp add: succeeds_def)
qed

lemma succeeds_trans: "succeeds a b \<Longrightarrow> succeeds b c \<Longrightarrow> succeeds a c"
  by (auto simp: succeeds_def dest: same_terms_trans)

lemma succeeds_keeps:
  "succeeds s q \<Longrightarrow> st_id q = st_id s \<and> (chain_status s = FAILED \<longrightarrow> chain_status q = FAILED)"
  by (simp add: succeeds_def same_terms_def)

lemma evolves_succeeds:
  "evolves db db' \<Longrightarrow> s \<in> set (statements db) \<Longrightarrow> \<exists>s' \<in> set (statements db'). succeeds s s'"
proof -
  assume "evolves db db'" and s: "s \<in> set (statements db)"
  then obtain old new where e: "statements db' = old @ new" and l: "list_all2 lives_on (statements db) old"
    by (auto simp: evolves_def)
  from s obtain i where i: "i < length (statements db)" "s = statements db ! i" by (auto simp: in_set_conv_nth)
  with l have "lives_on s (old ! i)" "old ! i \<in> set old" by (auto simp: list_all2_conv_all_nth)
  with e show ?thesis by (auto dest: lives_on_succeeds)
qed

lemma runs_step_induct:
  assumes "runs toISO client world x y" and "meter_wf (fst x)" and "P x"
    and "\<And>y z. P y \<Longrightarrow> meter_wf (fst y) \<Longrightarrow> evolves (fst y) (fst z) \<Longrightarrow> billing_step toISO client world y z \<Longrightarrow> P z"
  shows "meter_wf (fst y) \<and> P y"
  using assms(1) unfolding runs_def
proof (induction rule: rtranclp_induct)
  case (step y z)
  then have "meter_wf (fst z) \<and> evolves (fst y) (fst z)"
    using step_evolves [of toISO client world "fst y" "snd y" "fst z" "snd z"] by simp
  with step show ?case using assms(4) by blast
qed (use assms in simp)

lemma runs_succeed:
  assumes "runs toISO client world (db, c) (db', c')" and "meter_wf db" and "s \<in> set (statements db)"
  shows "\<exists>s' \<in> set (statements db'). succeeds s s'"
proof -
  have "meter_wf (fst (db', c')) \<and> (\<exists>s' \<in> set (statements (fst (db', c'))). succeeds s s')"
  proof (rule runs_step_induct [OF assms(1)])
    fix y z
    assume "\<exists>s' \<in> set (statements (fst y)). succeeds s s'" and e: "evolves (fst y) (fst z)"
    then show "\<exists>s' \<in> set (statements (fst z)). succeeds s s'"
      using evolves_succeeds [OF e] succeeds_trans by blast
  qed (use assms(2,3) in \<open>auto simp: succeeds_def same_terms_def\<close>)
  then show ?thesis by simp
qed


lemma evolves_agrees:
  assumes "evolves db db'" and "\<forall>s \<in> set (statements db). agrees (phase s)"
  shows "\<forall>s \<in> set (statements db'). agrees (phase s)"
proof -
  from assms(1) obtain old new where e: "statements db' = old @ new"
    and l: "list_all2 lives_on (statements db) old" and n: "\<forall>s \<in> set new. phase s = (DRAFT, NOT_SUBMITTED)"
    by (auto simp: evolves_def)
  have "agrees (phase s')" if "s' \<in> set old" for s'
  proof -
    from that obtain i where i: "i < length old" "s' = old ! i" by (auto simp: in_set_conv_nth)
    with l have "lives_on (statements db ! i) s'" "statements db ! i \<in> set (statements db)"
      by (auto simp: list_all2_conv_all_nth)
    with assms(2) show ?thesis by (auto simp: lives_on_def intro: life_agrees)
  qed
  with e n show ?thesis by auto
qed

text \<open>C5: in every state the metering service can reach from its empty tables, usage events,
  statement ids and suppliers' wallets are unique, and the two statuses of a statement agree: what
  waits for or stands on the chain is finalized, what the chain settled is paid, and nothing is paid
  but what the chain settled (its chain status may have failed since).\<close>

theorem reachable_billing_states:
  assumes "runs toISO client world (empty_meter, c) (db, c')"
  shows "meter_wf db \<and>
    (\<forall>s \<in> set (statements db).
       (chain_status s \<in> {PENDING, SUBMITTED} \<longrightarrow> st_status s = FINALIZED) \<and>
       (chain_status s = CHAIN_FINALIZED \<longrightarrow> st_status s = PAID) \<and>
       (st_status s = PAID \<longrightarrow> chain_status s \<in> {CHAIN_FINALIZED, FAILED}) \<and>
       chain_status s \<notin> {DISPUTED, CHAIN_PAID})"
proof -
  have "meter_wf (fst (db, c')) \<and> (\<forall>s \<in> set (statements (fst (db, c'))). agrees (phase s))"
  proof (rule runs_step_induct [OF assms])
    fix y z
    assume "\<forall>s \<in> set (statements (fst y)). agrees (phase s)" and "evolves (fst y) (fst z)"
    then show "\<forall>s \<in> set (statements (fst z)). agrees (phase s)" by (rule evolves_agrees [rotated])
  qed (simp_all add: empty_meter_def meter_wf_def unique_on_def)
  moreover have "agrees (phase s) \<Longrightarrow>
      (chain_status s \<in> {PENDING, SUBMITTED} \<longrightarrow> st_status s = FINALIZED) \<and>
       (chain_status s = CHAIN_FINALIZED \<longrightarrow> st_status s = PAID) \<and>
       (st_status s = PAID \<longrightarrow> chain_status s \<in> {CHAIN_FINALIZED, FAILED}) \<and>
       chain_status s \<notin> {DISPUTED, CHAIN_PAID}" for s
    by (cases "st_status s") (auto simp: phase_def)
  ultimately show ?thesis by auto
qed

section \<open>Submissions to the chain\<close>

text \<open>The client with a record of the statements its \<open>submitStatement\<close> was called for.\<close>

definition logged :: "'c chain_client \<Rightarrow> ('c \<times> string list) chain_client" where
  "logged client =
     \<lparr>ch_get = ch_get client, ch_parseUsdc = ch_parseUsdc client,
      ch_submit = (\<lambda>u w a h (c, calls).
        let (r, c') = ch_submit client u w a h c in (r, (c', calls @ [u]))),
      ch_isFinalizable = (\<lambda>u (c, calls). ch_isFinalizable client u c),
      ch_remaining = (\<lambda>u (c, calls). ch_remaining client u c),
      ch_finalize = (\<lambda>u (c, calls). let (r, c') = ch_finalize client u c in (r, (c', calls))),
      ch_hash = ch_hash client\<rparr>"

definition logged_world :: "('c \<Rightarrow> 'c \<Rightarrow> bool) \<Rightarrow> 'c \<times> string list \<Rightarrow> 'c \<times> string list \<Rightarrow> bool" where
  "logged_world world x y = (world (fst x) (fst y) \<and> snd y = snd x)"

text \<open>The calls were made once each, for statements that are marked since.\<close>

definition calls_marked :: "MeterDb \<times> 'c \<times> string list \<Rightarrow> bool" where
  "calls_marked x =
     (distinct (snd (snd x)) \<and>
      (\<forall>u \<in> set (snd (snd x)). \<exists>s \<in> set (statements (fst x)). st_id s = u \<and> chain_status s \<noteq> NOT_SUBMITTED))"

lemma life_marked: "life x y \<Longrightarrow> snd x \<noteq> NOT_SUBMITTED \<Longrightarrow> snd y \<noteq> NOT_SUBMITTED"
  by (induction rule: life.induct) auto

lemma evolves_marked:
  assumes "evolves db db'" and "s \<in> set (statements db)" and "chain_status s \<noteq> NOT_SUBMITTED"
  shows "\<exists>s' \<in> set (statements db'). st_id s' = st_id s \<and> chain_status s' \<noteq> NOT_SUBMITTED"
proof -
  from assms(1) obtain old new where e: "statements db' = old @ new"
    and l: "list_all2 lives_on (statements db) old"
    by (auto simp: evolves_def)
  from assms(2) obtain i where i: "i < length (statements db)" "s = statements db ! i"
    by (auto simp: in_set_conv_nth)
  with l have "lives_on s (old ! i)" "old ! i \<in> set old" by (auto simp: list_all2_conv_all_nth)
  then have "st_id (old ! i) = st_id s \<and> chain_status (old ! i) \<noteq> NOT_SUBMITTED"
    using assms(3) life_marked [of "phase s" "phase (old ! i)"]
    by (simp add: lives_on_def same_terms_def phase_def)
  with e \<open>old ! i \<in> set old\<close> show ?thesis by auto
qed

lemma step_calls:
  assumes "billing_step toISO (logged client) (logged_world world) (db, c, calls) (db', c', calls')"
  shows "calls' = calls \<or> (\<exists>ce key w. submission (logged client) ce key w db (c, calls) db' (c', calls'))"
  using assms
proof (cases rule: billing_step.cases)
  case (submit_route ce key w r)
  from submit_effect [OF this] show ?thesis by blast
next
  case (settle_route ce key r)
  then show ?thesis
    by (auto simp: finalizeOnChain_def finalize_accepted_def logged_def Let_def
        split: sum.splits option.splits if_splits bool.splits prod.splits)
qed (auto simp: logged_world_def)

lemma submission_call:
  assumes "submission (logged client) ce key w db (c, calls) db' (c', calls')" and "meter_wf db"
  shows "\<exists>s \<in> set (statements db). chain_status s = NOT_SUBMITTED \<and>
    (calls' = calls \<or> calls' = calls @ [st_id s]) \<and>
    (\<exists>s' \<in> set (statements db'). st_id s' = st_id s \<and> chain_status s' \<noteq> NOT_SUBMITTED)"
proof -
  from assms(1) obtain u s h amount f where s: "row_by st_id u (statements db) = Some s"
    "phase s = (FINALIZED, NOT_SUBMITTED)" and db': "db' = upd_stmt u f db"
    and f: "\<And>q. st_id (f q) = st_id q" "\<And>q. chain_status (f q) \<in> {PENDING, SUBMITTED, FAILED}"
    and c: "(c', calls') = (c, calls) \<or> (c', calls') = snd (ch_submit (logged client) u w amount h (c, calls))"
    unfolding submission_def by blast
  have in_db: "s \<in> set (statements db)" "st_id s = u" using row_by_Some [OF s(1)] by simp_all
  moreover have "chain_status (f s) \<noteq> NOT_SUBMITTED" using f(2) [of s] by auto
  moreover from in_db f(1) have "f s \<in> set (statements db')" "st_id (f s) = st_id s"
    by (auto simp: db' upd_stmt_def update_where_def)
  moreover from c have "calls' = calls \<or> calls' = calls @ [u]"
    by (auto simp: logged_def Let_def split: prod.splits)
  ultimately show ?thesis using s(2) by (auto simp: phase_def)
qed

text \<open>C7: when requests are handled one after another, the service never calls the contract twice to
  submit the same statement, and a statement it has made the call for is no longer marked
  \<open>NOT_SUBMITTED\<close>.\<close>

theorem one_submission_per_statement:
  assumes "runs toISO (logged client) (logged_world world) (empty_meter, c, []) (db, c', calls)"
  shows "distinct calls \<and>
    (\<forall>u \<in> set calls. \<exists>s \<in> set (statements db). st_id s = u \<and> chain_status s \<noteq> NOT_SUBMITTED)"
proof -
  have "meter_wf (fst (db, c', calls)) \<and> calls_marked (db, c', calls)"
  proof (rule runs_step_induct [OF assms])
    fix y z :: "MeterDb \<times> 'a \<times> string list"
    obtain d e l where y: "y = (d, e, l)" by (cases y)
    obtain d' e' l' where z: "z = (d', e', l')" by (cases z)
    assume marked: "calls_marked y" and wf: "meter_wf (fst y)" and ev: "evolves (fst y) (fst z)"
      and step: "billing_step toISO (logged client) (logged_world world) y z"
    have old: "\<exists>s \<in> set (statements d'). st_id s = u \<and> chain_status s \<noteq> NOT_SUBMITTED" if "u \<in> set l" for u
      using marked ev evolves_marked that unfolding y z calls_marked_def by fastforce
    from step_calls [OF step [unfolded y z]] show "calls_marked z"
    proof
      assume "l' = l"
      with old marked show ?thesis by (simp add: calls_marked_def y z)
    next
      assume "\<exists>ce key w. submission (logged client) ce key w d (e, l) d' (e', l')"
      then obtain ce key w where "submission (logged client) ce key w d (e, l) d' (e', l')" by blast
      from submission_call [OF this] wf
      obtain s where s: "s \<in> set (statements d)" "chain_status s = NOT_SUBMITTED"
        "l' = l \<or> l' = l @ [st_id s]"
        and new: "\<exists>s' \<in> set (statements d'). st_id s' = st_id s \<and> chain_status s' \<noteq> NOT_SUBMITTED"
        by (auto simp: y)
      have "st_id s \<notin> set l"
      proof
        assume "st_id s \<in> set l"
        with marked obtain q where q: "q \<in> set (statements d)" "st_id q = st_id s" "chain_status q \<noteq> NOT_SUBMITTED"
          by (auto simp: calls_marked_def y)
        have "row_by st_id (st_id s) (statements d) = Some s" "row_by st_id (st_id q) (statements d) = Some q"
          using wf s(1) q(1) by (simp_all add: y meter_wf_def row_by_unique)
        with q s(2) show False by simp
      qed
      with s(3) marked old new show ?thesis by (auto simp: calls_marked_def y z)
    qed
  qed (simp_all add: empty_meter_def meter_wf_def unique_on_def calls_marked_def)
  then show ?thesis by (simp add: calls_marked_def)
qed

section \<open>Overlapping submissions\<close>

text \<open>
  Two requests may both read a statement before either has marked it. The contract rejects the
  second call for a statement it holds (\<open>StatementAlreadyExists\<close> of \<open>RoyaltySettlement.sol\<close>).
\<close>

lemma submit_accepted_all_up:
  assumes "\<And>k. ce_up ce k" and "me_readUuid (ce_env ce) key = Some u" and "ch_get client = None"
    and "ch_parseUsdc client (js_amount_text (me_readNumeric (ce_env ce) (st_total_amount s))) = Inr amount"
  shows "submit_accepted client ce key w s db c =
    (let db1 = upd_stmt u (set_chain PENDING (Some w)) db in
     case ch_submit client (st_id s) w amount (ch_hash client s) c of
       (Inl e, c') \<Rightarrow> (Inl e, db1, c')
     | (Inr t, c') \<Rightarrow> (Inr (200, Inr t), upd_stmt u (set_submitted ce t) db1, c'))"
proof -
  have "updateBlockchainStatus (call_env ce MarkCall) key PENDING (Some w) d = Inr (upd_stmt u (set_chain PENDING (Some w)) d)"
    "updateBlockchainSubmission (call_env ce RecordCall) key (fst t) (snd t) SUBMITTED d = Inr (upd_stmt u (set_submitted ce t) d)" for d t
    using assms(1,2) by (cases t; auto simp: chain_update_Inr)+
  then show ?thesis
    using assms(3,4)
    by (auto simp: submit_accepted_def submit_marked_def Let_def split: prod.splits sum.splits)
qed


section \<open>Concrete runs\<close>

definition demo_settlement :: SettlementStatement where
  "demo_settlement =
     \<lparr>st_id = ''st1'', st_supplier_id = ''s'', st_period_start = 1, st_period_end = 5,
      st_total_verifications = 2, st_total_amount = 600, st_currency = EUR, st_breakdown = [],
      st_status = FINALIZED, st_created_at = 6, st_finalized_at = Some 7, st_supplier_wallet = None,
      st_blockchain_status = Some NOT_SUBMITTED, st_tx_hash = None, st_block_number = None,
      st_chain_submitted_at = None, st_chain_finalized_at = None\<rparr>"

definition demo_billing_db :: MeterDb where
  "demo_billing_db = empty_meter\<lparr>statements := [demo_settlement]\<rparr>"

text \<open>A chain that holds the ids of the statements it was given.\<close>

definition demo_chain :: "string list chain_client" where
  "demo_chain =
     \<lparr>ch_get = None, ch_parseUsdc = (\<lambda>s. Inr 60000),
      ch_submit = (\<lambda>u w a h c. if u \<in> set c
        then (Inl (ThrownError ''Error'' ''StatementAlreadyExists''), c) else (Inr (''0xt'', 1), c @ [u])),
      ch_isFinalizable = (\<lambda>u c. Inr True), ch_remaining = (\<lambda>u c. Inr 0),
      ch_finalize = (\<lambda>u c. (Inr (''0xf'', 2), c)), ch_hash = st_id\<rparr>"

definition demo_calls :: CallEnv where
  "demo_calls = \<lparr>ce_env = demo_meter_env, ce_up = (\<lambda>call. True), ce_now = (\<lambda>call. 9)\<rparr>"

lemma demo_billing_wf: "meter_wf demo_billing_db"
  by (simp add: meter_wf_def demo_billing_db_def empty_meter_def unique_on_def)

lemma runs_step: "billing_step toISO client world x y \<Longrightarrow> runs toISO client world x y"
  by (simp add: runs_def r_into_rtranclp)

lemma runs_cons:
  "billing_step toISO client world x y \<Longrightarrow> runs toISO client world y z \<Longrightarrow> runs toISO client world x z"
  by (simp add: runs_def converse_rtranclp_into_rtranclp)


theorem reachable_billing_states_witness:
  "\<exists>db. postUsage demo_meter_env (demo_usage ''e1'') empty_meter = ((201, Inr (demo_usage_row ''m1'' ''e1'')), db) \<and>
     meter_wf db"
proof -
  have s: "postUsage demo_meter_env (demo_usage ''e1'') empty_meter =
      ((201, Inr (demo_usage_row ''m1'' ''e1'')), empty_meter\<lparr>usages := [demo_usage_row ''m1'' ''e1'']\<rparr>)"
    by (simp add: postUsage_def demo_record)
  from reachable_billing_states [OF runs_step [OF billing_step.usage_route [OF s,
      of "\<lambda>t. ''xxx''" demo_chain "\<lambda>c c'. c' = c" "[]"]]] s
  show ?thesis by auto
qed

text \<open>An empty statement is generated, finalized and submitted.\<close>

definition demo_draft :: SettlementStatement where
  "demo_draft =
     \<lparr>st_id = ''m1'', st_supplier_id = ''s'', st_period_start = 1, st_period_end = 5,
      st_total_verifications = 0, st_total_amount = 0, st_currency = EUR, st_breakdown = [],
      st_status = DRAFT, st_created_at = 7, st_finalized_at = None, st_supplier_wallet = None,
      st_blockchain_status = Some NOT_SUBMITTED, st_tx_hash = None, st_block_number = None,
      st_chain_submitted_at = None, st_chain_finalized_at = None\<rparr>"

lemma demo_generate:
  "postSettlement demo_meter_env demo_statement_request empty_meter =
     ((201, Inr demo_draft), empty_meter\<lparr>statements := [demo_draft]\<rparr>)"
  by (simp add: postSettlement_def generateStatement_def with_time_def demo_meter_env_def
      demo_statement_request_def empty_meter_def period_usages_def build_breakdown_def jm_values_def
      total_of_def store_numeric_def fits_def currency_of_def demo_draft_def Let_def sum_bind_def)

lemma demo_finalize:
  "postFinalize demo_meter_env ''m1'' (empty_meter\<lparr>statements := [demo_draft]\<rparr>) =
     ((Inr (200, Inr (finalize_row 7 demo_draft))), empty_meter\<lparr>statements := [finalize_row 7 demo_draft]\<rparr>)"
  by (simp add: postFinalize_def finalizeStatement_def with_meter_uuid_def demo_meter_env_def
      empty_meter_def row_by_def demo_draft_def update_where_def)

lemma demo_submit:
  "\<exists>r db. submitOnChain (logged demo_chain) demo_calls ''m1'' ''0xw''
     (empty_meter\<lparr>statements := [finalize_row 7 demo_draft]\<rparr>) ([], []) = (r, db, [''m1''], [''m1''])"
proof -
  let ?s = "(finalize_row 7 demo_draft)\<lparr>st_blockchain_status := Some NOT_SUBMITTED\<rparr>"
  have "getStatementWithBlockchain (call_env demo_calls ReadCall) ''m1''
      (empty_meter\<lparr>statements := [finalize_row 7 demo_draft]\<rparr>) = Inr (Some ?s)"
    by (simp add: getStatementWithBlockchain_def getStatement_def with_meter_uuid_def sum_bind_def
        demo_calls_def call_env_def demo_meter_env_def empty_meter_def row_by_def finalize_row_def
        demo_draft_def chain_status_def js_coalesce_def)
  moreover have "st_status ?s = FINALIZED" "chain_status ?s = NOT_SUBMITTED"
    by (simp_all add: finalize_row_def chain_status_def js_coalesce_def)
  moreover have "ch_submit (logged demo_chain) (st_id ?s) w a h ([], []) = (Inr (''0xt'', 1), [''m1''], [''m1''])" for w a h
    by (simp add: logged_def demo_chain_def finalize_row_def demo_draft_def)
  moreover have "ch_get (logged demo_chain) = None" "ch_parseUsdc (logged demo_chain) = (\<lambda>x. Inr 60000)"
    by (simp_all add: logged_def demo_chain_def)
  moreover have "ce_up demo_calls k" "me_readUuid (ce_env demo_calls) ''m1'' = Some ''m1''" for k
    by (simp_all add: demo_calls_def demo_meter_env_def)
  ultimately show ?thesis
    by (simp add: submitOnChain_def submit_attempt_def fail_submission_def
        submit_accepted_all_up [of demo_calls] Let_def)
qed

theorem one_submission_per_statement_witness:
  "\<exists>db. runs (\<lambda>t. ''xxx'') (logged demo_chain) (logged_world (\<lambda>c c'. c' = c))
      (empty_meter, [], []) (db, [''m1''], [''m1'']) \<and>
     (\<exists>s \<in> set (statements db). st_id s = ''m1'' \<and> chain_status s \<noteq> NOT_SUBMITTED)"
proof -
  obtain r db where s: "submitOnChain (logged demo_chain) demo_calls ''m1'' ''0xw''
     (empty_meter\<lparr>statements := [finalize_row 7 demo_draft]\<rparr>) ([], []) = (r, db, [''m1''], [''m1''])"
    using demo_submit by blast
  let ?runs = "runs (\<lambda>t. ''xxx'') (logged demo_chain) (logged_world (\<lambda>c c'. c' = c))"
  have "?runs (empty_meter\<lparr>statements := [finalize_row 7 demo_draft]\<rparr>, [], []) (db, [''m1''], [''m1''])"
    by (rule runs_step, rule billing_step.submit_route, rule s)
  then have "?runs (empty_meter\<lparr>statements := [demo_draft]\<rparr>, [], []) (db, [''m1''], [''m1''])"
    by (rule runs_cons [rotated]) (rule billing_step.finalize_route, rule demo_finalize)
  then have r: "?runs (empty_meter, [], []) (db, [''m1''], [''m1''])"
    by (rule runs_cons [rotated]) (rule billing_step.settlement_route, rule demo_generate)
  from one_submission_per_statement [OF r] r show ?thesis by auto
qed


end
