(* ===== verification/ChainBridge.thy ===== *)
theory ChainBridge
  imports ContractClient StatementLife
begin

text \<open>
  The metering service on the settlement contract: \<open>getContractClient\<close> of
  \<open>services/metering-billing/src/routes/blockchain.ts\<close>, the client's methods as the chain that
  its routes talk to, and what a node owes them: a transaction whose receipt arrives has been
  executed by the contract at its address (\<open>executes\<close>), and, for a node that is up, a transaction
  the contract accepts is mined (\<open>prompt_node\<close>). The first suffices for safety: in every run of
  the service and of the chain a statement the database holds as submitted stands on the contract,
  to the recorded wallet and for the statement's total, and one it holds as settled is finalised
  there. The second gives that a statement taken through both routes is credited to its supplier.
\<close>

section \<open>The client the routes use\<close>

record BlockchainConfig =
  bc_rpcUrl :: string
  bc_privateKey :: string
  bc_chainId :: "int option"
  bc_contracts :: ContractAddresses

definition config_of :: "BlockchainConfig \<Rightarrow> ClientConfig" where
  "config_of config =
     \<lparr>cf_addresses = bc_contracts config, cf_chainId = bc_chainId config,
      cf_rpcUrl = Some (bc_rpcUrl config)\<rparr>"

text \<open>
  \<open>cache\<close> is the module variable \<open>contractClient\<close>, \<open>imported\<close> what the dynamic import throws, if
  anything. The new client is stored before it is connected.
\<close>

definition getContractClient ::
  "('g, 'w) ethers \<Rightarrow> thrown option \<Rightarrow> BlockchainConfig \<Rightarrow> 'g ContractClient option \<Rightarrow>
     (thrown + 'g ContractClient) \<times> 'g ContractClient option" where
  "getContractClient et imported config cache =
     (case cache of
        Some cl \<Rightarrow> (Inr cl, cache)
      | None \<Rightarrow>
          (case imported of
             Some e \<Rightarrow> (Inl e, None)
           | None \<Rightarrow>
               let cl = newContractClient (config_of config) in
               (case connectWithKey et (bc_privateKey config) cl of
                  Inl e \<Rightarrow> (Inl e, Some cl)
                | Inr cl' \<Rightarrow> (Inr cl', Some cl'))))"

interpretation client_memo: memo "\<lambda>cache. cache" "getContractClient et imported config"
  by unfold_locales (auto simp: getContractClient_def Let_def split: option.splits sum.splits)

text \<open>
  The chain as the routes see it through a client. \<open>parseUsdc\<close> gives the text of the amount and
  \<open>submitStatement\<close> reads it back; the routes' model passes the amount between the two.
\<close>

definition client_chain ::
  "('g, 'w) ethers \<Rightarrow> (SettlementStatement \<Rightarrow> string) \<Rightarrow> 'g ContractClient \<Rightarrow> 'w chain_client" where
  "client_chain et hash cl =
     \<lparr>ch_get = None,
      ch_parseUsdc = (\<lambda>amount. et_parseUnits et amount 6),
      ch_submit = (\<lambda>u wallet amount h w.
        (case client_submitStatement et cl \<lparr>ss_statementId = u, ss_supplier = wallet,
                ss_totalAmount = show_int amount, ss_statementHash = h\<rparr> w of
           (Inl e, w') \<Rightarrow> (Inl e, w')
         | (Inr r, w') \<Rightarrow> (Inr (tr_hash r, tr_blockNumber r), w'))),
      ch_isFinalizable = client_isFinalizable et cl,
      ch_remaining = client_getRemainingDisputeTime et cl,
      ch_finalize = (\<lambda>u w.
        (case client_finalizeStatement et cl u w of
           (Inl e, w') \<Rightarrow> (Inl e, w')
         | (Inr r, w') \<Rightarrow> (Inr (tr_hash r, tr_blockNumber r), w'))),
      ch_hash = hash\<rparr>"

definition route_chain ::
  "('g, 'w) ethers \<Rightarrow> (SettlementStatement \<Rightarrow> string) \<Rightarrow> thrown option \<Rightarrow> BlockchainConfig \<Rightarrow>
     'g ContractClient option \<Rightarrow> 'w chain_client \<times> 'g ContractClient option" where
  "route_chain et hash imported config cache =
     (case getContractClient et imported config cache of
        (Inl e, cache') \<Rightarrow> ((client_chain et hash (newContractClient (config_of config)))\<lparr>ch_get := Some e\<rparr>, cache')
      | (Inr cl, cache') \<Rightarrow> (client_chain et hash cl, cache'))"

lemma parseUsdc_chain:
  "parseUsdc et amount = sum_bind (ch_parseUsdc (client_chain et hash cl) amount) (\<lambda>n. Inr (show_int n))"
  by (simp add: parseUsdc_def client_chain_def)

lemma connected_by_key:
  "et_Wallet et (bc_privateKey config) = Inr g \<Longrightarrow>
     getContractClient et None config None =
       (Inr (connected_client g (config_of config)), Some (connected_client g (config_of config)))"
  by (simp add: getContractClient_def connectWithKey_def connected_client_def Let_def)

text \<open>
  With a key no wallet can be made of, the first request fails and leaves a client without
  signer behind: every later request gets that client, and can read but not write.
\<close>

lemma client_cached_without_signer:
  assumes "et_Wallet et (bc_privateKey config) = Inl e"
  shows "\<exists>cl. getContractClient et None config None = (Inl e, Some cl) \<and>
     getContractClient et None config (Some cl) = (Inr cl, Some cl) \<and>
     client_submitStatement et cl sub w =
       (Inl (ThrownError ''Error'' ''Signer required for write operations. Call connect() first.''), w)"
  using assms
  by (simp add: getContractClient_def connectWithKey_def Let_def client_submitStatement_def
      write_method_def requireSigner_def newContractClient_def)

section \<open>What a node owes the client\<close>

text \<open>ABI encoding of the arguments, for calls that fit the ABI.\<close>

definition hex_value :: "string \<Rightarrow> nat" where
  "hex_value s = (case read_base 16 0 (drop 2 s) of None \<Rightarrow> 0 | Some n \<Rightarrow> n)"

definition bytes32_of :: "string \<Rightarrow> bytes32" where
  "bytes32_of s = word_of_nat (hex_value s)"

definition address_of :: "string \<Rightarrow> address" where
  "address_of s = word_of_nat (hex_value s)"

definition decode_call :: "string \<Rightarrow> abi_value list \<Rightarrow> rs_call option" where
  "decode_call method args =
     (if \<not> well_typed_call RoyaltySettlementABI method args then None
      else case args of
        [VStr i, VStr a, VInt v, VStr h] \<Rightarrow>
          if method = ''submitStatement''
          then Some (SubmitStatement (bytes32_of i) (address_of a) (word_of_int v) (bytes32_of h))
          else None
      | [VStr i] \<Rightarrow>
          if method = ''finalizeStatement'' then Some (FinalizeStatement (bytes32_of i)) else None
      | [VStr i, VStr reason] \<Rightarrow>
          if method = ''disputeStatement'' then Some (DisputeStatement (bytes32_of i) reason) else None
      | [] \<Rightarrow> if method = ''claimPayment'' then Some ClaimPayment else None
      | _ \<Rightarrow> None)"

lemma decode_submit:
  "decode_call ''submitStatement'' [VStr i, VStr a, VInt v, VStr h] = Some call \<longleftrightarrow>
     is_hex_bytes 32 i \<and> is_hex_bytes 20 a \<and> 0 \<le> v \<and> v < 2 ^ 256 \<and> is_hex_bytes 32 h \<and>
     call = SubmitStatement (bytes32_of i) (address_of a) (word_of_int v) (bytes32_of h)"
  by (auto simp: decode_call_def well_typed_call_def settlement_functions)

lemma decode_finalize:
  "decode_call ''finalizeStatement'' [VStr i] = Some call \<longleftrightarrow>
     is_hex_bytes 32 i \<and> call = FinalizeStatement (bytes32_of i)"
  by (auto simp: decode_call_def well_typed_call_def settlement_functions)

text \<open>
  \<open>look\<close> reads the contract and the tokens off the world. Whatever the client does, the contract
  only moves by transactions, its own and others'; and a receipt means that the transaction sent
  has been executed.
\<close>

definition executes ::
  "('g, 'w) ethers \<Rightarrow> 'b openzeppelin \<Rightarrow> 't erc20 \<Rightarrow> ('w \<Rightarrow> 'b Settlement \<times> 't) \<Rightarrow> string \<Rightarrow> bool" where
  "executes et oz tk look address \<longleftrightarrow>
     (\<forall>c method args w. (rs_step oz tk)\<^sup>*\<^sup>* (look w) (look (snd (et_send et c method args w)))) \<and>
     (\<forall>txHash w. (rs_step oz tk)\<^sup>*\<^sup>* (look w) (look (snd (et_wait et txHash w)))) \<and>
     (\<forall>c method args w txHash w1 receipt w2.
        ct_address c = address \<and> et_send et c method args w = (Inr txHash, w1) \<and>
        et_wait et txHash w1 = (Inr (Some receipt), w2) \<longrightarrow>
        (\<exists>call msg st1 st2. decode_call method args = Some call \<and>
           (rs_step oz tk)\<^sup>*\<^sup>* (look w) st1 \<and> rs_exec oz tk msg call st1 = Inr st2 \<and>
           (rs_step oz tk)\<^sup>*\<^sup>* st2 (look w2)))"

lemma executes_send:
  "executes et oz tk look address \<Longrightarrow> et_send et c method args w = (r, w') \<Longrightarrow>
     (rs_step oz tk)\<^sup>*\<^sup>* (look w) (look w')"
  unfolding executes_def by (metis snd_conv)

lemma executes_wait:
  "executes et oz tk look address \<Longrightarrow> et_wait et h w = (r, w') \<Longrightarrow>
     (rs_step oz tk)\<^sup>*\<^sup>* (look w) (look w')"
  unfolding executes_def by (metis snd_conv)

lemma executes_receipt:
  assumes "executes et oz tk look address" and "ct_address c = address"
    and "et_send et c method args w = (Inr h, w1)" and "et_wait et h w1 = (Inr (Some receipt), w2)"
  shows "\<exists>call msg st1 st2. decode_call method args = Some call \<and>
           (rs_step oz tk)\<^sup>*\<^sup>* (look w) st1 \<and> rs_exec oz tk msg call st1 = Inr st2 \<and>
           (rs_step oz tk)\<^sup>*\<^sup>* st2 (look w2)"
  using assms(2-4) by (intro assms(1) [unfolded executes_def, THEN conjunct2, THEN conjunct2, rule_format]) simp

text \<open>The ways a transaction can go.\<close>

lemma transact_cases:
  assumes "transact et c method args w = (r, w')"
  obtains e where "et_send et c method args w = (Inl e, w')" "r = Inl e"
  | h w1 e where "et_send et c method args w = (Inr h, w1)" "et_wait et h w1 = (Inl e, w')" "r = Inl e"
  | h w1 where "et_send et c method args w = (Inr h, w1)" "et_wait et h w1 = (Inr None, w')"
      "r = Inl (ThrownError ''Error'' ''Transaction failed'')"
  | h w1 receipt where "et_send et c method args w = (Inr h, w1)"
      "et_wait et h w1 = (Inr (Some receipt), w')"
      "r = Inr \<lparr>tr_hash = h, tr_receipt = receipt, tr_blockNumber = rc_blockNumber receipt,
         tr_gasUsed = rc_gasUsed receipt\<rparr>"
proof -
  obtain x w1 where send: "et_send et c method args w = (x, w1)" by (cases "et_send et c method args w")
  show thesis
  proof (cases x)
    case (Inl e)
    with send assms show thesis by (intro that(1) [of e]) (simp_all add: transact_def)
  next
    case (Inr h)
    obtain y w2 where wait: "et_wait et h w1 = (y, w2)" by (cases "et_wait et h w1")
    show thesis
    proof (cases y)
      case (Inl e)
      with send wait Inr assms show thesis
        by (intro that(2) [of h w1 e]) (simp_all add: transact_def)
    next
      case (Inr z)
      show thesis
      proof (cases z)
        case None
        with send wait \<open>x = Inr h\<close> Inr assms show thesis
          by (intro that(3) [of h w1]) (simp_all add: transact_def)
      next
        case (Some receipt)
        with send wait \<open>x = Inr h\<close> Inr assms show thesis
          by (intro that(4) [of h w1 receipt]) (simp_all add: transact_def)
      qed
    qed
  qed
qed

lemma transact_moves:
  assumes "executes et oz tk look address" and "transact et c method args w = (r, w')"
  shows "(rs_step oz tk)\<^sup>*\<^sup>* (look w) (look w')"
  by (rule transact_cases [OF assms(2)])
    (use executes_send [OF assms(1)] executes_wait [OF assms(1)] in
      \<open>blast intro: rtranclp_trans\<close>)+

lemma write_method_cases:
  assumes "write_method et cl c method args w = (r, w')"
  shows "w' = w \<and> (\<exists>e. r = Inl e) \<or> (\<exists>vs. args = Inr vs \<and> transact et c method vs w = (r, w'))"
  using assms by (auto simp: write_method_def split: sum.splits)

lemma write_method_moves:
  assumes "executes et oz tk look address" and "write_method et cl c method args w = (r, w')"
  shows "(rs_step oz tk)\<^sup>*\<^sup>* (look w) (look w')"
  using write_method_cases [OF assms(2)] transact_moves [OF assms(1)] by auto

lemma write_method_done:
  assumes "executes et oz tk look address" and "ct_address c = address"
    and "write_method et cl c method args w = (Inr r, w')"
  shows "\<exists>vs call msg st1 st2. args = Inr vs \<and> decode_call method vs = Some call \<and>
     (rs_step oz tk)\<^sup>*\<^sup>* (look w) st1 \<and> rs_exec oz tk msg call st1 = Inr st2 \<and>
     (rs_step oz tk)\<^sup>*\<^sup>* st2 (look w')"
proof -
  from write_method_cases [OF assms(3)] obtain vs where vs: "args = Inr vs"
    and t: "transact et c method vs w = (Inr r, w')" by auto
  from t obtain h w1 receipt where "et_send et c method vs w = (Inr h, w1)"
    and "et_wait et h w1 = (Inr (Some receipt), w')"
    by (cases rule: transact_cases) simp_all
  from executes_receipt [OF assms(1,2) this] vs show ?thesis by auto
qed

section \<open>Statements on the contract\<close>

definition onchain ::
  "('g, 'w) ethers \<Rightarrow> ('w \<Rightarrow> 'b Settlement \<times> 't) \<Rightarrow> string \<Rightarrow> 'w \<Rightarrow> OnChainStatement" where
  "onchain et look u w = rs_statements (fst (look w)) (bytes32_of (toBytes32 et u))"

text \<open>It stands there, for this wallet and amount.\<close>

definition stands ::
  "('g, 'w) ethers \<Rightarrow> ('w \<Rightarrow> 'b Settlement \<times> 't) \<Rightarrow> string \<Rightarrow> string \<Rightarrow> int \<Rightarrow> 'w \<Rightarrow> bool" where
  "stands et look u wallet amount w \<longleftrightarrow>
     os_status (onchain et look u w) \<noteq> NoStatement \<and>
     os_supplier (onchain et look u w) = address_of wallet \<and>
     uint (os_totalAmount (onchain et look u w)) = amount"

lemma stands_later:
  assumes "(rs_step oz tk)\<^sup>*\<^sup>* (look w) (look w')"
  shows "stands et look u wallet amount w \<Longrightarrow> stands et look u wallet amount w'"
    and "os_status (onchain et look u w) = Finalized \<Longrightarrow> os_status (onchain et look u w') = Finalized"
  using rs_steps_terms [OF assms, of "bytes32_of (toBytes32 et u)"]
  by (auto simp: stands_def onchain_def)

lemma client_submit_done:
  assumes "executes et oz tk look (ct_address (cc_settlement cl))"
    and "client_submitStatement et cl sub w = (Inr r, w')" and "js_BigInt (ss_totalAmount sub) = Inr amount"
  shows "stands et look (ss_statementId sub) (ss_supplier sub) amount w' \<and> is_hex_bytes 20 (ss_supplier sub)"
proof -
  from write_method_done [OF assms(1) refl assms(2) [unfolded client_submitStatement_def]]
  obtain vs call msg st1 st2 where vs: "submission_args et sub = Inr vs"
    and call: "decode_call ''submitStatement'' vs = Some call"
    and exec: "rs_exec oz tk msg call st1 = Inr st2" and later: "(rs_step oz tk)\<^sup>*\<^sup>* st2 (look w')"
    by blast
  let ?i = "bytes32_of (toBytes32 et (ss_statementId sub))"
  from vs call assms(3) have dec: "call = SubmitStatement ?i (address_of (ss_supplier sub))
       (word_of_int amount) (bytes32_of (statementHashBytes et (ss_statementHash sub)))"
    and amount: "0 \<le> amount" "amount < 2 ^ 256" and hex: "is_hex_bytes 20 (ss_supplier sub)"
    by (auto simp: submission_args_def decode_submit)
  have u: "uint (word_of_int amount :: uint256) = amount"
    using amount by (simp add: uint_word_of_int)
  obtain s1 t1 where st1: "st1 = (s1, t1)" by (cases st1)
  from exec obtain s2 where st2: "st2 = (s2, t1)"
    and sub: "rs_submitStatement oz msg ?i (address_of (ss_supplier sub)) (word_of_int amount)
      (bytes32_of (statementHashBytes et (ss_statementHash sub))) s1 = Inr s2"
    by (auto simp: rs_exec_def dec st1 on_storage_def sum_bind_Inr_iff)
  have "os_status (rs_statements s2 ?i) \<noteq> NoStatement \<and>
      os_supplier (rs_statements s2 ?i) = address_of (ss_supplier sub) \<and>
      os_totalAmount (rs_statements s2 ?i) = word_of_int amount"
    using sub by (simp add: rs_submitStatement_Inr)
  then show ?thesis
    using rs_steps_terms [OF later, of ?i] u hex by (simp add: stands_def onchain_def st2)
qed

lemma client_finalize_done:
  assumes "executes et oz tk look (ct_address (cc_settlement cl))"
    and "client_finalizeStatement et cl u w = (Inr r, w')"
  shows "os_status (onchain et look u w') = Finalized"
proof -
  let ?i = "bytes32_of (toBytes32 et u)"
  from write_method_done [OF assms(1) refl assms(2) [unfolded client_finalizeStatement_def]]
  obtain call msg st1 st2 where call: "decode_call ''finalizeStatement'' [VStr (toBytes32 et u)] = Some call"
    and exec: "rs_exec oz tk msg call st1 = Inr st2" and later: "(rs_step oz tk)\<^sup>*\<^sup>* st2 (look w')"
    by blast
  from call have dec: "call = FinalizeStatement ?i" by (simp add: decode_finalize)
  obtain s1 t1 where st1: "st1 = (s1, t1)" by (cases st1)
  from exec obtain s2 where st2: "st2 = (s2, t1)" and fin: "rs_finalizeStatement oz msg ?i s1 = Inr s2"
    by (auto simp: rs_exec_def dec st1 on_storage_def sum_bind_Inr_iff)
  have "os_status (rs_statements s2 ?i) = Finalized"
    using fin unfolding rs_finalizeStatement_Inr by auto
  then show ?thesis using rs_steps_terms [OF later, of ?i] by (simp add: onchain_def st2)
qed

text \<open>What the database says of a statement is so on the contract.\<close>

definition row_on_chain ::
  "('g, 'w) ethers \<Rightarrow> ('w \<Rightarrow> 'b Settlement \<times> 't) \<Rightarrow> 'w \<Rightarrow> SettlementStatement \<Rightarrow> bool" where
  "row_on_chain et look w s \<longleftrightarrow>
     (chain_status s \<in> {SUBMITTED, CHAIN_FINALIZED} \<longrightarrow>
        (\<exists>wallet amount (env :: MeterEnv). st_supplier_wallet s = Some wallet \<and>
           et_parseUnits et (js_amount_text (me_readNumeric env (st_total_amount s))) 6 = Inr amount \<and>
           stands et look (st_id s) wallet amount w)) \<and>
     (chain_status s = CHAIN_FINALIZED \<longrightarrow> os_status (onchain et look (st_id s) w) = Finalized)"

lemma row_on_chain_later:
  "(rs_step oz tk)\<^sup>*\<^sup>* (look w) (look w') \<Longrightarrow> row_on_chain et look w s \<Longrightarrow> row_on_chain et look w' s"
  unfolding row_on_chain_def by (blast intro: stands_later)

lemma rows_on_chain_later:
  assumes "(rs_step oz tk)\<^sup>*\<^sup>* (look w) (look w')" and "\<forall>s \<in> S. row_on_chain et look w s"
  shows "\<forall>s \<in> S. row_on_chain et look w' s"
proof
  fix s assume "s \<in> S"
  with assms(2) have "row_on_chain et look w s" by blast
  with assms(1) show "row_on_chain et look w' s" by (rule row_on_chain_later [where look = look])
qed

text \<open>The part of a row this depends on.\<close>

definition same_chain :: "SettlementStatement \<Rightarrow> SettlementStatement \<Rightarrow> bool" where
  "same_chain s s' \<longleftrightarrow> st_id s' = st_id s \<and> st_total_amount s' = st_total_amount s \<and>
     st_supplier_wallet s' = st_supplier_wallet s \<and> chain_status s' = chain_status s"

lemma row_on_chain_same: "same_chain s s' \<Longrightarrow> row_on_chain et look w s \<Longrightarrow> row_on_chain et look w s'"
  by (simp add: row_on_chain_def same_chain_def)

text \<open>A change of the database that makes no row newly submitted or settled.\<close>

definition rows_kept :: "MeterDb \<Rightarrow> MeterDb \<Rightarrow> bool" where
  "rows_kept db db' \<longleftrightarrow> (\<forall>s' \<in> set (statements db').
     chain_status s' \<in> {SUBMITTED, CHAIN_FINALIZED} \<longrightarrow> (\<exists>s \<in> set (statements db). same_chain s s'))"

lemma same_chain_refl [simp]: "same_chain s s"
  by (simp add: same_chain_def)

lemma rows_kept_same: "statements db' = statements db \<Longrightarrow> rows_kept db db'"
  unfolding rows_kept_def by (auto intro: same_chain_refl)

lemma rows_kept_upd:
  assumes "\<And>s. same_chain s (f s) \<or> chain_status (f s) \<notin> {SUBMITTED, CHAIN_FINALIZED}"
  shows "rows_kept db (upd_stmt u f db)"
  unfolding rows_kept_def
proof (intro ballI impI)
  fix s' assume "s' \<in> set (statements (upd_stmt u f db))" and st: "chain_status s' \<in> {SUBMITTED, CHAIN_FINALIZED}"
  then obtain s where s: "s \<in> set (statements db)" and s': "s' = (if st_id s = u then f s else s)"
    by (auto simp: upd_stmt_def update_where_def)
  have "same_chain s s'"
    using assms [of s] st by (auto simp: s' split: if_splits)
  with s show "\<exists>s \<in> set (statements db). same_chain s s'" by blast
qed

lemma rows_kept_append:
  "chain_status s \<notin> {SUBMITTED, CHAIN_FINALIZED} \<Longrightarrow> rows_kept db (db\<lparr>statements := statements db @ [s]\<rparr>)"
  unfolding rows_kept_def by (auto intro: same_chain_refl)

lemma rows_kept_on_chain:
  assumes "rows_kept db db'" and "\<forall>s \<in> set (statements db). row_on_chain et look w s"
  shows "\<forall>s \<in> set (statements db'). row_on_chain et look w s"
proof
  fix s' assume s': "s' \<in> set (statements db')"
  show "row_on_chain et look w s'"
  proof (cases "chain_status s' \<in> {SUBMITTED, CHAIN_FINALIZED}")
    case True
    with assms(1) s' obtain s where "s \<in> set (statements db)" "same_chain s s'"
      unfolding rows_kept_def by blast
    with assms(2) show ?thesis by (blast intro: row_on_chain_same)
  next
    case False
    then show ?thesis by (auto simp: row_on_chain_def)
  qed
qed

text \<open>
  The submission route either makes no row newly submitted, or has submitted the statement it
  read and recorded that.
\<close>

lemma same_chain_unsubmitted:
  "same_chain s (set_chain b w s) \<or> chain_status (set_chain b w s) \<notin> {SUBMITTED, CHAIN_FINALIZED}"
  if "b \<notin> {SUBMITTED, CHAIN_FINALIZED}"
  using that by simp

lemma failure_kept: "failure ce key db db' \<Longrightarrow> rows_kept db db'"
  by (auto simp: failure_def rows_kept_same intro!: rows_kept_upd)

lemma submit_outcome:
  assumes "submitOnChain client ce key w db c = (r, db', c')"
  shows "rows_kept db db' \<and> (c' = c \<or> (\<exists>u a h. c' = snd (ch_submit client u w a h c))) \<or>
    (\<exists>u s t amount h. row_by st_id u (statements db) = Some s \<and>
       ch_parseUsdc client (js_amount_text (me_readNumeric (ce_env ce) (st_total_amount s))) = Inr amount \<and>
       ch_submit client u w amount h c = (Inr t, c') \<and>
       db' = upd_stmt u (set_submitted ce t \<circ> set_chain PENDING (Some w)) db)"
proof -
  obtain res db1 c1 where a: "submit_attempt client ce key w db c = (res, db1, c1)"
    by (cases "submit_attempt client ce key w db c") auto
  then have f: "fail_submission ce key (res, db1, c1) = (r, db', c')"
    using assms by (simp add: submitOnChain_def)
  show ?thesis
  proof (cases "db1 = db \<and> c1 = c")
    case True
    with fail_submission_cases [OF f] show ?thesis by (auto intro: failure_kept)
  next
    case False
    with a obtain s0 where g: "getStatementWithBlockchain (call_env ce ReadCall) key db = Inr (Some s0)"
      and acc: "submit_accepted client ce key w s0 db c = (res, db1, c1)"
      by (auto simp: submit_attempt_def split: sum.splits option.splits if_splits)
    from g obtain u s where u: "me_readUuid (ce_env ce) key = Some u"
      and s: "row_by st_id u (statements db) = Some s" and s0: "s0 = s\<lparr>st_blockchain_status := Some (chain_status s)\<rparr>"
      by (auto simp: getStatementWithBlockchain_def getStatement_def inr_iff
          with_meter_uuid_def split: option.splits)
    have sid: "st_id s0 = u" using row_by_Some [OF s] by (simp add: s0)
    from acc False obtain amount
      where p: "ch_parseUsdc client (js_amount_text (me_readNumeric (ce_env ce) (st_total_amount s))) = Inr amount"
      and m: "submit_marked client ce key w s0 amount db c = (res, db1, c1)"
      by (auto simp: submit_accepted_def s0 split: option.splits sum.splits)
    let ?P = "set_chain PENDING (Some w)"
    from m u False have "db1 = upd_stmt u ?P db \<and> c1 = snd (ch_submit client u w amount (ch_hash client s0) c) \<or>
      (\<exists>t x. ch_submit client u w amount (ch_hash client s0) c = (Inr t, c1) \<and>
         db1 = upd_stmt u (set_submitted ce t \<circ> ?P) db \<and> res = Inr x)"
      by (auto simp: submit_marked_def chain_update_Inr upd_stmt_twice sid split: sum.splits prod.splits)
    then show ?thesis
    proof
      assume d: "db1 = upd_stmt u ?P db \<and> c1 = snd (ch_submit client u w amount (ch_hash client s0) c)"
      with fail_submission_cases [OF f] u
      have "db' = upd_stmt u ?P db \<or> db' = upd_stmt u (set_chain FAILED None \<circ> ?P) db"
        by (auto simp: failure_def upd_stmt_twice)
      then have "rows_kept db db'" by (auto intro!: rows_kept_upd)
      with d fail_submission_cases [OF f] show ?thesis by blast
    next
      assume "\<exists>t x. ch_submit client u w amount (ch_hash client s0) c = (Inr t, c1) \<and>
         db1 = upd_stmt u (set_submitted ce t \<circ> ?P) db \<and> res = Inr x"
      with fail_submission_cases [OF f] s p show ?thesis by blast
    qed
  qed
qed

lemma settle_outcome:
  assumes "finalizeOnChain client ce key db c = (r, db', c')"
  shows "db' = db \<and> (c' = c \<or> (\<exists>u x. ch_finalize client u c = (x, c'))) \<or>
    (\<exists>u s t. row_by st_id u (statements db) = Some s \<and> chain_status s = SUBMITTED \<and>
       ch_finalize client u c = (Inr t, c') \<and> db' = upd_stmt u (set_settled ce) db)"
proof (cases "db' = db")
  case True
  with assms show ?thesis
    by (auto simp: finalizeOnChain_def finalize_accepted_def
        split: sum.splits option.splits if_splits bool.splits prod.splits)
next
  case False
  with assms obtain s0 where g: "getStatementWithBlockchain (call_env ce ReadCall) key db = Inr (Some s0)"
    and p0: "chain_status s0 = SUBMITTED"
    and upd: "\<exists>h n. ch_finalize client (st_id s0) c = (Inr (h, n), c') \<and>
      updateBlockchainFinalization (call_env ce RecordCall) key h n db = Inr db'"
    by (auto simp: finalizeOnChain_def finalize_accepted_def
        split: sum.splits option.splits if_splits bool.splits prod.splits)
  obtain u s where "me_readUuid (ce_env ce) key = Some u" "row_by st_id u (statements db) = Some s"
    "phase s0 = phase s" "st_id s0 = u"
    by (rule ready_statement [OF g])
  moreover from p0 \<open>phase s0 = phase s\<close> have "chain_status s = SUBMITTED" by (simp add: phase_def)
  moreover from upd \<open>st_id s0 = u\<close> \<open>me_readUuid (ce_env ce) key = Some u\<close>
  obtain t where "ch_finalize client u c = (Inr t, c')" "db' = upd_stmt u (set_settled ce) db"
    by (auto simp: chain_update_Inr)
  ultimately show ?thesis by blast
qed

section \<open>The database and the contract agree\<close>

definition chain_world ::
  "'b openzeppelin \<Rightarrow> 't erc20 \<Rightarrow> ('w \<Rightarrow> 'b Settlement \<times> 't) \<Rightarrow> 'w \<Rightarrow> 'w \<Rightarrow> bool" where
  "chain_world oz tk look w w' = (rs_step oz tk)\<^sup>*\<^sup>* (look w) (look w')"

lemma client_chain_moves:
  assumes "executes et oz tk look address"
  shows "(rs_step oz tk)\<^sup>*\<^sup>* (look c) (look (snd (ch_submit (client_chain et hash cl) u w a h c)))"
    and "(rs_step oz tk)\<^sup>*\<^sup>* (look c) (look (snd (ch_finalize (client_chain et hash cl) u c)))"
proof -
  obtain r1 c1 where "client_submitStatement et cl \<lparr>ss_statementId = u, ss_supplier = w,
      ss_totalAmount = show_int a, ss_statementHash = h\<rparr> c = (r1, c1)" by fastforce
  with write_method_moves [OF assms, of cl] show
    "(rs_step oz tk)\<^sup>*\<^sup>* (look c) (look (snd (ch_submit (client_chain et hash cl) u w a h c)))"
    by (fastforce simp: client_chain_def client_submitStatement_def split: sum.split)
  obtain r2 c2 where "client_finalizeStatement et cl u c = (r2, c2)" by fastforce
  with write_method_moves [OF assms, of cl] show
    "(rs_step oz tk)\<^sup>*\<^sup>* (look c) (look (snd (ch_finalize (client_chain et hash cl) u c)))"
    by (fastforce simp: client_chain_def client_finalizeStatement_def split: sum.split)
qed

lemma chain_submit_done:
  assumes "executes et oz tk look (ct_address (cc_settlement cl))"
    and "ch_submit (client_chain et hash cl) u wallet amount h c = (Inr t, c')"
  shows "stands et look u wallet amount c' \<and> is_hex_bytes 20 wallet"
proof -
  let ?sub = "\<lparr>ss_statementId = u, ss_supplier = wallet, ss_totalAmount = show_int amount, ss_statementHash = h\<rparr>"
  from assms(2) obtain r where "client_submitStatement et cl ?sub c = (Inr r, c')"
    by (auto simp: client_chain_def split: prod.splits sum.splits)
  from client_submit_done [OF assms(1) this] show ?thesis by (simp add: js_BigInt_show_int)
qed

lemma chain_finalize_done:
  assumes "executes et oz tk look (ct_address (cc_settlement cl))"
    and "ch_finalize (client_chain et hash cl) u c = (Inr t, c')"
  shows "os_status (onchain et look u c') = Finalized"
proof -
  from assms(2) obtain r where "client_finalizeStatement et cl u c = (Inr r, c')"
    by (auto simp: client_chain_def split: prod.splits sum.splits)
  from client_finalize_done [OF assms(1) this] show ?thesis .
qed

lemma set_submitted_row:
  assumes "is_hex_bytes 20 w"
  shows "st_supplier_wallet (set_submitted ce t (set_chain PENDING (Some w) s)) = Some w \<and>
    st_total_amount (set_submitted ce t (set_chain PENDING (Some w) s)) = st_total_amount s"
proof -
  have "w \<noteq> []" using assms by (auto simp: is_hex_bytes_def)
  then show ?thesis by (simp add: set_submitted_def set_chain_def js_or_null_def js_truthy_def)
qed

lemma submit_agrees:
  assumes ex: "executes et oz tk look (ct_address (cc_settlement cl))"
    and sub: "submitOnChain (client_chain et hash cl) ce key w db c = (r, db', c')"
    and old: "\<forall>s \<in> set (statements db). row_on_chain et look c s" and wf: "meter_wf db"
  shows "\<forall>s \<in> set (statements db'). row_on_chain et look c' s"
  using submit_outcome [OF sub]
proof (elim disjE exE conjE)
  assume kept: "rows_kept db db'" and "c' = c"
  with rows_kept_on_chain [OF kept old] show ?thesis by simp
next
  fix u a h assume kept: "rows_kept db db'" and c': "c' = snd (ch_submit (client_chain et hash cl) u w a h c)"
  have "(rs_step oz tk)\<^sup>*\<^sup>* (look c) (look c')" unfolding c' by (rule client_chain_moves [OF ex])
  then have "\<forall>s \<in> set (statements db). row_on_chain et look c' s"
    using old by (rule rows_on_chain_later)
  from rows_kept_on_chain [OF kept this] show ?thesis .
next
  fix u s t amount h
  assume s: "row_by st_id u (statements db) = Some s"
    and p: "ch_parseUsdc (client_chain et hash cl) (js_amount_text (me_readNumeric (ce_env ce) (st_total_amount s))) = Inr amount"
    and called: "ch_submit (client_chain et hash cl) u w amount h c = (Inr t, c')"
    and db': "db' = upd_stmt u (set_submitted ce t \<circ> set_chain PENDING (Some w)) db"
  let ?f = "set_submitted ce t \<circ> set_chain PENDING (Some w)"
  from chain_submit_done [OF ex called] have st: "stands et look u w amount c'" and hex: "is_hex_bytes 20 w"
    by simp_all
  have moves: "(rs_step oz tk)\<^sup>*\<^sup>* (look c) (look c')"
    using client_chain_moves(1) [OF ex, where u = u and w = w and a = amount and h = h and c = c and hash = hash and cl = cl] called
    by simp
  show ?thesis
  proof
    fix q assume "q \<in> set (statements db')"
    then obtain q0 where q0: "q0 \<in> set (statements db)" and q: "q = (if st_id q0 = u then ?f q0 else q0)"
      by (auto simp: db' upd_stmt_def update_where_def)
    show "row_on_chain et look c' q"
    proof (cases "st_id q0 = u")
      case True
      with row_by_unique [of st_id "statements db" q0] wf q0 s have "q0 = s" by (simp add: meter_wf_def)
      with True have "q = ?f s" and "st_id s = u" by (simp_all add: q)
      then show ?thesis
        using st p set_submitted_row [OF hex, of ce t s]
        by (auto simp: row_on_chain_def client_chain_def)
    next
      case False
      then show ?thesis using rows_on_chain_later [OF moves old] q0 by (simp add: q)
    qed
  qed
qed

lemma settle_agrees:
  assumes ex: "executes et oz tk look (ct_address (cc_settlement cl))"
    and fin: "finalizeOnChain (client_chain et hash cl) ce key db c = (r, db', c')"
    and old: "\<forall>s \<in> set (statements db). row_on_chain et look c s" and wf: "meter_wf db"
  shows "\<forall>s \<in> set (statements db'). row_on_chain et look c' s"
proof -
  have moves: "(rs_step oz tk)\<^sup>*\<^sup>* (look c) (look c')"
    if "ch_finalize (client_chain et hash cl) u c = (x, c')" for u x
    using client_chain_moves(2) [OF ex, where u = u and c = c and hash = hash and cl = cl] that by simp
  from settle_outcome [OF fin] show ?thesis
  proof (elim disjE exE conjE)
    assume "db' = db" and "c' = c"
    with old show ?thesis by simp
  next
    fix u x assume db: "db' = db" and "ch_finalize (client_chain et hash cl) u c = (x, c')"
    from rows_on_chain_later [where look = look, OF moves [OF this(2)] old] show ?thesis by (simp add: db)
  next
    fix u s t
    assume s: "row_by st_id u (statements db) = Some s" and sub: "chain_status s = SUBMITTED"
      and called: "ch_finalize (client_chain et hash cl) u c = (Inr t, c')"
      and db': "db' = upd_stmt u (set_settled ce) db"
    note final = chain_finalize_done [OF ex called]
    show ?thesis
    proof
      fix q assume "q \<in> set (statements db')"
      then obtain q0 where q0: "q0 \<in> set (statements db)" and q: "q = (if st_id q0 = u then set_settled ce q0 else q0)"
        by (auto simp: db' upd_stmt_def update_where_def)
      have on: "row_on_chain et look c' q0"
        using rows_on_chain_later [where look = look, OF moves [OF called] old] q0 by blast
      show "row_on_chain et look c' q"
      proof (cases "st_id q0 = u")
        case True
        with row_by_unique [of st_id "statements db" q0] wf q0 s have "q0 = s" by (simp add: meter_wf_def)
        then show ?thesis
          using on final sub True
          by (auto simp: q row_on_chain_def set_settled_def chain_status_def js_coalesce_def)
      next
        case False
        with on show ?thesis by (simp add: q)
      qed
    qed
  qed
qed

lemma other_steps_kept:
  shows "postUsage env body db = (r, db') \<Longrightarrow> rows_kept db db'"
    and "metering_handle toISO d db = (q, db') \<Longrightarrow> rows_kept db db'"
    and "postSettlement env request db = (p, db') \<Longrightarrow> rows_kept db db'"
    and "postFinalize env key db = (f, db') \<Longrightarrow> rows_kept db db'"
    and "postSupplierWallet env supplier addr db = (v, db') \<Longrightarrow> rows_kept db db'"
proof -
  show "postUsage env body db = (r, db') \<Longrightarrow> rows_kept db db'"
    by (auto simp: postUsage_def rows_kept_same dest: recordUsage_Inr(1) split: sum.splits)
  show "metering_handle toISO d db = (q, db') \<Longrightarrow> rows_kept db db'"
    by (cases d) (auto simp: rows_kept_same dest: recordUsage_Inr(1) split: sum.splits)
  show "postSettlement env request db = (p, db') \<Longrightarrow> rows_kept db db'"
    by (auto simp: postSettlement_def rows_kept_same phase_def
        dest!: generateStatement_Inr intro!: rows_kept_append split: sum.splits)
  show "postSupplierWallet env supplier addr db = (v, db') \<Longrightarrow> rows_kept db db'"
    by (auto simp: postSupplierWallet_def registerSupplierWallet_def inr_iff Let_def
        intro!: rows_kept_same split: sum.splits option.splits if_splits)
  assume "postFinalize env key db = (f, db')"
  then consider "db' = db" | s where "finalizeStatement env key db = Inr (s, db')"
    by (auto simp: postFinalize_def split: sum.splits option.splits)
  then show "rows_kept db db'"
  proof cases
    case 2
    have "same_chain s (if st_status s = DRAFT then finalize_row (me_now env) s else s)" for s
      by (simp add: same_chain_def finalize_row_def chain_status_def)
    then have "rows_kept db (upd_stmt u (\<lambda>q. if st_status q = DRAFT then finalize_row (me_now env) q else q) db)" for u
      by (intro rows_kept_upd) simp
    with finalizeStatement_upd [OF 2] show ?thesis by (auto simp: rows_kept_same)
  qed (simp add: rows_kept_same)
qed

lemma step_agrees:
  assumes ex: "executes et oz tk look (ct_address (cc_settlement cl))"
    and step: "billing_step toISO (client_chain et hash cl) (chain_world oz tk look) (db, c) (db', c')"
    and old: "\<forall>s \<in> set (statements db). row_on_chain et look c s" and wf: "meter_wf db"
  shows "\<forall>s \<in> set (statements db'). row_on_chain et look c' s"
  using step
proof (cases rule: billing_step.cases)
  case (submit_route ce key w r)
  then show ?thesis using submit_agrees [OF ex _ old wf] by blast
next
  case (settle_route ce key r)
  then show ?thesis using settle_agrees [OF ex _ old wf] by blast
next
  case world_step
  then show ?thesis using rows_on_chain_later [where look = look] old by (simp add: chain_world_def)
next
  case (usage_route env body r)
  then show ?thesis using rows_kept_on_chain [OF other_steps_kept(1) old] by simp
next
  case (usage_event d r)
  then show ?thesis using rows_kept_on_chain [OF other_steps_kept(2) old] by blast
next
  case (settlement_route env request r)
  then show ?thesis using rows_kept_on_chain [OF other_steps_kept(3) old] by simp
next
  case (finalize_route env key r)
  then show ?thesis using rows_kept_on_chain [OF other_steps_kept(4) old] by simp
next
  case (wallet_route env supplier addr r)
  then show ?thesis using rows_kept_on_chain [OF other_steps_kept(5) old] by simp
qed


section \<open>A statement is settled\<close>

text \<open>
  A node that is up: a transaction of signer \<open>g\<close>, who acts as address \<open>a\<close>, is executed at the
  time of the world's clock when the contract accepts it, and \<open>isFinalizable\<close> answers as the
  contract does.
\<close>

definition tx_of :: "address \<Rightarrow> address \<Rightarrow> uint256 \<Rightarrow> TxContext" where
  "tx_of a this now = \<lparr>msg_sender = a, block_timestamp = now, this_address = this\<rparr>"

definition prompt_node ::
  "('g, 'w) ethers \<Rightarrow> 'b openzeppelin \<Rightarrow> 't erc20 \<Rightarrow> ('w \<Rightarrow> 'b Settlement \<times> 't) \<Rightarrow> ('w \<Rightarrow> uint256) \<Rightarrow>
     string \<Rightarrow> address \<Rightarrow> 'g \<Rightarrow> address \<Rightarrow> bool" where
  "prompt_node et oz tk look clock address this g a \<longleftrightarrow>
     (\<forall>c method args w call st.
        ct_address c = address \<and> ct_runner c = SignerRunner g \<and> decode_call method args = Some call \<and>
        rs_exec oz tk (tx_of a this (clock w)) call (look w) = Inr st \<longrightarrow>
        (\<exists>txHash w1 receipt w2. et_send et c method args w = (Inr txHash, w1) \<and>
           et_wait et txHash w1 = (Inr (Some receipt), w2) \<and> look w2 = st)) \<and>
     (\<forall>c i w b. ct_address c = address \<and>
        rs_isFinalizable (clock w) (bytes32_of i) (fst (look w)) = Inr b \<longrightarrow>
        et_call et c ''isFinalizable'' [VStr i] w = Inr [VBool b])"

lemma prompt_send:
  assumes "prompt_node et oz tk look clock address this g a" and "ct_address c = address"
    and "ct_runner c = SignerRunner g" and "decode_call method args = Some call"
    and "rs_exec oz tk (tx_of a this (clock w)) call (look w) = Inr st"
  shows "\<exists>t w'. transact et c method args w = (Inr t, w') \<and> look w' = st"
proof -
  have "\<exists>txHash w1 receipt w2. et_send et c method args w = (Inr txHash, w1) \<and>
           et_wait et txHash w1 = (Inr (Some receipt), w2) \<and> look w2 = st"
    using assms(2-5)
    by (intro assms(1) [unfolded prompt_node_def, THEN conjunct1, rule_format]) simp
  then show ?thesis by (auto simp: transact_def)
qed

lemma prompt_read:
  assumes "prompt_node et oz tk look clock address this g a" and "ct_address c = address"
    and "rs_isFinalizable (clock w) (bytes32_of i) (fst (look w)) = Inr b"
  shows "et_call et c ''isFinalizable'' [VStr i] w = Inr [VBool b]"
  using assms(2,3) by (intro assms(1) [unfolded prompt_node_def, THEN conjunct2, rule_format]) simp

lemma connected_settlement:
  "ct_address (cc_settlement (connected_client g config)) = ca_settlement (cf_addresses config)"
  "ct_runner (cc_settlement (connected_client g config)) = SignerRunner g"
  by (simp_all add: connected_client_def client_connect_def contract_connect_def
      newContractClient_def new_contract_def)

lemma row_found:
  assumes "getStatementWithBlockchain (call_env ce k) key db = Inr (Some s)"
  shows "\<exists>q \<in> set (statements db). me_readUuid (ce_env ce) key = Some (st_id s) \<and> st_id q = st_id s"
proof -
  obtain u q where "me_readUuid (ce_env ce) key = Some u" "row_by st_id u (statements db) = Some q" "st_id s = u"
    by (rule ready_statement [OF assms]) auto
  with row_by_Some [OF this(2)] show ?thesis by auto
qed

lemma upd_stmt_row:
  "q \<in> set (statements db) \<Longrightarrow> st_id q = u \<Longrightarrow> f q \<in> set (statements (upd_stmt u f db))"
  by (auto simp: upd_stmt_def update_where_def)

lemma submission_goes_through:
  fixes config :: ClientConfig
  assumes node: "prompt_node et oz tk look clock (ca_settlement (cf_addresses config)) this g a"
    and hashes: "hashes_to_bytes32 et" "id_ok (st_id s)" "hash_ok (hash s)"
    and read: "getStatementWithBlockchain (call_env ce ReadCall) key db = Inr (Some s)"
    and ready: "st_status s = FINALIZED" "chain_status s = NOT_SUBMITTED" and up: "\<And>k. ce_up ce k"
    and amount: "et_parseUnits et (js_amount_text (me_readNumeric (ce_env ce) (st_total_amount s))) 6 = Inr amount"
      "0 < amount" "amount < 2 ^ 256"
    and wallet: "is_hex_bytes 20 wallet" "address_of wallet \<noteq> 0"
    and contract: "oz_onlyOwner oz a (rs_base (fst (look w))) = None"
      "oz_whenNotPaused oz (rs_base (fst (look w))) = None"
      "os_status (onchain et look (st_id s) w) = NoStatement"
  shows "\<exists>t db' w' s1. submitOnChain (client_chain et hash (connected_client g config)) ce key wallet db w =
       (Inr (200, Inr t), db', w') \<and>
     (\<exists>q \<in> set (statements db'). st_id q = st_id s \<and> chain_status q = SUBMITTED) \<and>
     look w' = (s1, snd (look w)) \<and>
     rs_base s1 = rs_base (fst (look w)) \<and> rs_disputeWindow s1 = rs_disputeWindow (fst (look w)) \<and>
     rs_claimable s1 = rs_claimable (fst (look w)) \<and>
     os_status (onchain et look (st_id s) w') = Submitted \<and>
     os_submittedAt (onchain et look (st_id s) w') = clock w \<and> stands et look (st_id s) wallet amount w'"
proof -
  let ?cl = "connected_client g config"
  let ?i = "bytes32_of (toBytes32 et (st_id s))"
  let ?sub = "\<lparr>ss_statementId = st_id s, ss_supplier = wallet, ss_totalAmount = show_int amount,
    ss_statementHash = hash s\<rparr>"
  let ?args = "[VStr (toBytes32 et (st_id s)), VStr wallet, VInt amount, VStr (statementHashBytes et (hash s))]"
  let ?call = "SubmitStatement ?i (address_of wallet) (word_of_int amount) (bytes32_of (statementHashBytes et (hash s)))"
  have args: "submission_args et ?sub = Inr ?args"
    by (simp add: submission_args_def js_BigInt_show_int)
  have dec: "decode_call ''submitStatement'' ?args = Some ?call"
    unfolding decode_submit
    using amount(2,3) wallet(1) toBytes32_fits [OF hashes(1,2)] statementHashBytes_fits [OF hashes(1,3)] by simp
  have u: "uint (word_of_int amount :: uint256) = amount" using amount(2,3) by (simp add: uint_word_of_int)
  then have pos: "(word_of_int amount :: uint256) \<noteq> 0" using amount(2) by auto
  obtain s0 t0 where st: "look w = (s0, t0)" by (cases "look w")
  have "\<exists>s1. rs_submitStatement oz (tx_of a this (clock w)) ?i (address_of wallet) (word_of_int amount)
      (bytes32_of (statementHashBytes et (hash s))) s0 = Inr s1"
    unfolding rs_submitStatement_Inr using contract wallet(2) pos by (simp add: st onchain_def tx_of_def)
  then obtain s1 where s1: "rs_submitStatement oz (tx_of a this (clock w)) ?i (address_of wallet)
      (word_of_int amount) (bytes32_of (statementHashBytes et (hash s))) s0 = Inr s1" by blast
  then have exec: "rs_exec oz tk (tx_of a this (clock w)) ?call (look w) = Inr (s1, t0)"
    by (simp add: rs_exec_def st on_storage_def)
  obtain t w' where t: "transact et (cc_settlement ?cl) ''submitStatement'' ?args w = (Inr t, w')"
    and w': "look w' = (s1, t0)"
    using prompt_send [OF node connected_settlement(1,2) dec exec] by blast
  have "client_submitStatement et ?cl ?sub w = (Inr t, w')"
    by (simp add: client_submitStatement_def write_method_def requireSigner_def args t)
  then have called: "ch_submit (client_chain et hash ?cl) (st_id s) wallet amount (hash s) w =
      (Inr (tr_hash t, tr_blockNumber t), w')"
    by (simp add: client_chain_def)
  from row_found [OF read] obtain q where q: "q \<in> set (statements db)" "st_id q = st_id s"
    and key: "me_readUuid (ce_env ce) key = Some (st_id s)" by blast
  have chain: "ch_get (client_chain et hash ?cl) = None" "ch_hash (client_chain et hash ?cl) = hash"
      "ch_parseUsdc (client_chain et hash ?cl) (js_amount_text (me_readNumeric (ce_env ce) (st_total_amount s))) = Inr amount"
    using amount(1) by (simp_all add: client_chain_def)
  let ?f = "set_submitted ce (tr_hash t, tr_blockNumber t) \<circ> set_chain PENDING (Some wallet)"
  have "submitOnChain (client_chain et hash ?cl) ce key wallet db w =
      (Inr (200, Inr (tr_hash t, tr_blockNumber t)), upd_stmt (st_id s) ?f db, w')"
    using ready called
    by (simp add: submitOnChain_def submit_attempt_def read fail_submission_def
        submit_accepted_all_up [OF up key chain(1,3)] chain(2) Let_def upd_stmt_twice)
  moreover have "\<exists>q \<in> set (statements (upd_stmt (st_id s) ?f db)). st_id q = st_id s \<and> chain_status q = SUBMITTED"
    by (rule bexI [OF _ upd_stmt_row [OF q]]) (simp add: q(2))
  moreover have "rs_base s1 = rs_base s0" "rs_disputeWindow s1 = rs_disputeWindow s0"
    "rs_claimable s1 = rs_claimable s0" "os_status (rs_statements s1 ?i) = Submitted"
    "os_submittedAt (rs_statements s1 ?i) = clock w" "os_supplier (rs_statements s1 ?i) = address_of wallet"
    "os_totalAmount (rs_statements s1 ?i) = word_of_int amount"
    using s1 by (simp_all add: rs_submitStatement_Inr tx_of_def)
  ultimately show ?thesis
    using w' u by (auto simp: onchain_def stands_def st)
qed

lemma settlement_goes_through:
  fixes config :: ClientConfig
  assumes node: "prompt_node et oz tk look clock (ca_settlement (cf_addresses config)) this g a"
    and hashes: "hashes_to_bytes32 et" "id_ok (st_id s)"
    and read: "getStatementWithBlockchain (call_env ce ReadCall) key db = Inr (Some s)"
    and ready: "chain_status s = SUBMITTED" and up: "\<And>k. ce_up ce k"
    and contract: "oz_whenNotPaused oz (rs_base (fst (look w))) = None"
      "os_status (onchain et look (st_id s) w) = Submitted"
      "checked_add (os_submittedAt (onchain et look (st_id s) w)) (rs_disputeWindow (fst (look w))) = Inr windowEnd"
      "windowEnd \<le> clock w"
      "checked_add (rs_claimable (fst (look w)) (os_supplier (onchain et look (st_id s) w)))
         (os_totalAmount (onchain et look (st_id s) w)) = Inr balance"
  shows "\<exists>t db' w'. finalizeOnChain (client_chain et hash (connected_client g config)) ce key db w =
       ((200, Inr t), db', w') \<and>
     (\<exists>q \<in> set (statements db'). st_id q = st_id s \<and> phase q = (PAID, CHAIN_FINALIZED)) \<and>
     os_status (onchain et look (st_id s) w') = Finalized \<and>
     rs_claimable (fst (look w')) (os_supplier (onchain et look (st_id s) w)) = balance"
proof -
  let ?cl = "connected_client g config"
  let ?i = "bytes32_of (toBytes32 et (st_id s))"
  obtain s0 t0 where st: "look w = (s0, t0)" by (cases "look w")
  have dec: "decode_call ''finalizeStatement'' [VStr (toBytes32 et (st_id s))] = Some (FinalizeStatement ?i)"
    unfolding decode_finalize using toBytes32_fits [OF hashes(1,2)] by simp
  have "\<exists>s1. rs_finalizeStatement oz (tx_of a this (clock w)) ?i s0 = Inr s1"
    unfolding rs_finalizeStatement_Inr using contract by (simp add: st onchain_def tx_of_def)
  then obtain s1 where s1: "rs_finalizeStatement oz (tx_of a this (clock w)) ?i s0 = Inr s1" by blast
  then have exec: "rs_exec oz tk (tx_of a this (clock w)) (FinalizeStatement ?i) (look w) = Inr (s1, t0)"
    by (simp add: rs_exec_def st on_storage_def)
  obtain t w' where t: "transact et (cc_settlement ?cl) ''finalizeStatement'' [VStr (toBytes32 et (st_id s))] w = (Inr t, w')"
    and w': "look w' = (s1, t0)"
    using prompt_send [OF node connected_settlement(1,2) dec exec] by blast
  have "client_finalizeStatement et ?cl (st_id s) w = (Inr t, w')"
    by (simp add: client_finalizeStatement_def write_method_def requireSigner_def t)
  then have called: "ch_finalize (client_chain et hash ?cl) (st_id s) w = (Inr (tr_hash t, tr_blockNumber t), w')"
    by (simp add: client_chain_def)
  have "rs_isFinalizable (clock w) ?i (fst (look w)) = Inr True"
    using contract by (simp add: rs_isFinalizable_def Let_def st onchain_def)
  from prompt_read [OF node connected_settlement(1) this]
  have fin: "ch_isFinalizable (client_chain et hash ?cl) (st_id s) w = Inr True"
    by (simp add: client_chain_def client_isFinalizable_def read_bool_def)
  from row_found [OF read] obtain q where q: "q \<in> set (statements db)" "st_id q = st_id s"
    and key: "me_readUuid (ce_env ce) key = Some (st_id s)" by blast
  have upd: "updateBlockchainFinalization (call_env ce RecordCall) key h n db = Inr (upd_stmt (st_id s) (set_settled ce) db)" for h n
    using up key by (auto simp: chain_update_Inr)
  have "ch_get (client_chain et hash ?cl) = None" by (simp add: client_chain_def)
  then have "finalizeOnChain (client_chain et hash ?cl) ce key db w =
      ((200, Inr (tr_hash t, tr_blockNumber t)), upd_stmt (st_id s) (set_settled ce) db, w')"
    using ready by (simp add: finalizeOnChain_def read finalize_accepted_def fin called upd)
  moreover have "\<exists>q \<in> set (statements (upd_stmt (st_id s) (set_settled ce) db)). st_id q = st_id s \<and> phase q = (PAID, CHAIN_FINALIZED)"
    by (rule bexI [OF _ upd_stmt_row [OF q]]) (simp add: q(2))
  moreover have "os_status (rs_statements s1 ?i) = Finalized \<and>
      rs_claimable s1 (os_supplier (rs_statements s0 ?i)) = balance"
    using s1 contract(5) unfolding rs_finalizeStatement_Inr by (auto simp: onchain_def st)
  ultimately show ?thesis using w' by (auto simp: onchain_def st)
qed

text \<open>The chain of a service that is connected.\<close>

definition service_chain ::
  "('g, 'w) ethers \<Rightarrow> (SettlementStatement \<Rightarrow> string) \<Rightarrow> 'g \<Rightarrow> ClientConfig \<Rightarrow> 'w chain_client" where
  "service_chain et hash g config = client_chain et hash (connected_client g config)"

text \<open>A statement that stands undisputed on the contract is settled by its route once the window is over.\<close>

lemma later_settlement:
  fixes config :: ClientConfig
  assumes node: "prompt_node et oz tk look clock (ca_settlement (cf_addresses config)) this g a"
    and hashes: "hashes_to_bytes32 et" "id_ok i" and up: "\<And>k. ce_up ce k"
    and w1: "look w1 = (s1, tokens)" "look w2 = look w1" and running: "oz_whenNotPaused oz (rs_base s1) = None"
    and st: "os_status (onchain et look i w1) = Submitted" "stands et look i wallet amount w1"
    and fits: "uint (os_submittedAt (onchain et look i w1)) + uint (rs_disputeWindow s1) < 2 ^ 256"
      "uint (rs_claimable s1 (address_of wallet)) + amount < 2 ^ 256"
    and late: "os_submittedAt (onchain et look i w1) + rs_disputeWindow s1 \<le> clock w2"
    and read: "getStatementWithBlockchain (call_env ce ReadCall) key db = Inr (Some s2)"
      "st_id s2 = i" "chain_status s2 = SUBMITTED"
  shows "\<exists>t db' w3. finalizeOnChain (service_chain et hash g config) ce key db w2 = ((200, Inr t), db', w3) \<and>
    (\<exists>q \<in> set (statements db'). st_id q = i \<and> phase q = (PAID, CHAIN_FINALIZED)) \<and>
    uint (rs_claimable (fst (look w3)) (address_of wallet)) = uint (rs_claimable s1 (address_of wallet)) + amount"
proof -
  have same: "onchain et look i w2 = onchain et look i w1" by (simp add: onchain_def w1)
  have sup: "os_supplier (onchain et look i w1) = address_of wallet"
    and amt: "uint (os_totalAmount (onchain et look i w1)) = amount"
    using st(2) by (simp_all add: stands_def)
  have add: "checked_add (os_submittedAt (onchain et look (st_id s2) w2)) (rs_disputeWindow (fst (look w2))) =
      Inr (os_submittedAt (onchain et look i w1) + rs_disputeWindow s1)"
    using fits(1) by (simp add: checked_add_def read(2) same w1)
  let ?claim = "rs_claimable s1 (address_of wallet)"
  have bal: "checked_add (rs_claimable (fst (look w2)) (os_supplier (onchain et look (st_id s2) w2)))
      (os_totalAmount (onchain et look (st_id s2) w2)) = Inr (?claim + os_totalAmount (onchain et look i w1))"
    using fits(2) by (simp add: checked_add_def read(2) same sup amt w1)
  have "oz_whenNotPaused oz (rs_base (fst (look w2))) = None" "os_status (onchain et look (st_id s2) w2) = Submitted"
    using running st(1) by (simp_all add: w1 read(2) same)
  from settlement_goes_through [where look = look and hash = hash and w = w2,
      OF node hashes(1) _ read(1,3) up this add late bal] hashes(2)
  have "\<exists>t db' w3. finalizeOnChain (service_chain et hash g config) ce key db w2 = ((200, Inr t), db', w3) \<and>
    (\<exists>q \<in> set (statements db'). st_id q = i \<and> phase q = (PAID, CHAIN_FINALIZED)) \<and>
    rs_claimable (fst (look w3)) (address_of wallet) = ?claim + os_totalAmount (onchain et look i w1)"
    unfolding service_chain_def read(2) same sup by blast
  moreover have "uint (?claim + os_totalAmount (onchain et look i w1)) = uint ?claim + amount"
    using uint_checked_add [OF bal] by (simp add: read(2) same sup amt w1)
  ultimately show ?thesis
    by metis
qed


section \<open>A small node\<close>

text \<open>
  A world of the contract, the balances and the time, in which a transaction is executed at once
  or refused. The hash tells identifiers apart by their length only. Examples use it.
\<close>

type_synonym small_world = "((address \<times> bool \<times> bool) Settlement \<times> (address \<Rightarrow> uint256)) \<times> uint256"

definition pad_hash :: "string \<Rightarrow> string" where
  "pad_hash s = ''0x'' @ replicate 62 (CHR ''0'') @ [CHR ''1'', digit_char (length s mod 10)]"

definition small_node :: "(address, small_world) ethers" where
  "small_node =
     \<lparr>et_Wallet = (\<lambda>key. if key = [] then Inl (ThrownError ''TypeError'' ''invalid private key'') else Inr 1),
      et_send = (\<lambda>c method args w.
        (case (ct_runner c, decode_call method args) of
           (SignerRunner a, Some call) \<Rightarrow>
             if ct_address c = zeros 20
             then (case rs_exec small_oz small_token (tx_of a 900 (snd w)) call (fst w) of
                     Inl e \<Rightarrow> (Inl (ThrownError ''Error'' ''execution reverted''), w)
                   | Inr st \<Rightarrow> (Inr ''0xt'', (st, snd w)))
             else (Inl unexpected, w)
         | _ \<Rightarrow> (Inl unexpected, w))),
      et_wait = (\<lambda>h w. if h = ''0xt'' then (Inr (Some \<lparr>rc_blockNumber = 1, rc_gasUsed = 21000\<rparr>), w)
        else (Inr None, w)),
      et_call = (\<lambda>c method args w.
        (case args of
           [VStr i] \<Rightarrow>
             (case rs_isFinalizable (snd w) (bytes32_of i) (fst (fst w)) of
                Inl e \<Rightarrow> Inl (ThrownError ''Error'' ''execution reverted'')
              | Inr b \<Rightarrow> Inr [VBool b])
         | _ \<Rightarrow> Inl unexpected)),
      et_estimateGas = (\<lambda>c method args w. Inr 21000),
      et_getFeeData = (\<lambda>w. Inr \<lparr>fd_gasPrice = None, fd_maxFeePerGas = None, fd_maxPriorityFeePerGas = None\<rparr>),
      et_keccakUtf8 = pad_hash,
      et_formatUnits = (\<lambda>s n. Inr s),
      et_parseUnits = (\<lambda>s n. Inr 60000)\<rparr>"

lemma small_node_hashes: "hashes_to_bytes32 small_node"
proof -
  have "is_hex (digit_char d)" if "d < 10" for d
    using that by (simp add: is_hex_def digit_char_def Let_def)
  moreover have "is_hex (CHR ''0'')" "is_hex (CHR ''1'')" by (simp_all add: is_hex_def)
  ultimately show ?thesis
    by (simp add: hashes_to_bytes32_def small_node_def pad_hash_def is_hex_bytes_def list_all_iff)
qed

lemma exec_steps: "rs_exec oz tk msg call st = Inr st' \<Longrightarrow> (rs_step oz tk)\<^sup>*\<^sup>* st st'"
  by (rule r_into_rtranclp) (auto simp: rs_step_def)

lemma small_node_executes: "executes small_node small_oz small_token fst (zeros 20)"
proof -
  have "(rs_step small_oz small_token)\<^sup>*\<^sup>* (fst w) (fst (snd (et_send small_node c m args w)))" for c m args w
    by (auto simp: small_node_def split: prod.split runner.split option.split sum.split
        intro: exec_steps)
  moreover have "snd (et_wait small_node h w) = w" for h w
    by (simp add: small_node_def)
  moreover have "\<exists>call msg. decode_call m args = Some call \<and>
      rs_exec small_oz small_token msg call (fst w) = Inr (fst w1)"
    if "et_send small_node c m args w = (Inr h, w1)" for c m args w h w1
    using that by (auto simp: small_node_def split: runner.splits option.splits sum.splits if_splits)
  ultimately show ?thesis unfolding executes_def by (metis rtranclp.rtrancl_refl snd_conv)
qed

lemma small_node_prompt: "prompt_node small_node small_oz small_token fst snd (zeros 20) 900 a a"
  by (auto simp: prompt_node_def small_node_def split: sum.splits)

text \<open>The run of the examples: a statement is generated, finalised and submitted by the contract's owner.\<close>

definition demo_world :: small_world where
  "demo_world = ((demo_contract, demo_funds), 100)"

definition demo_wallet :: string where
  "demo_wallet = ''0x'' @ replicate 39 (CHR ''0'') @ ''2''"

definition ready_db :: MeterDb where
  "ready_db = empty_meter\<lparr>statements := [finalize_row 7 demo_draft]\<rparr>"

definition ready_row :: SettlementStatement where
  "ready_row = (finalize_row 7 demo_draft)\<lparr>st_blockchain_status := Some NOT_SUBMITTED\<rparr>"

lemma demo_wallet_hex: "is_hex_bytes 20 demo_wallet"
proof -
  have "is_hex (CHR ''0'')" "is_hex (CHR ''2'')" by (simp_all add: is_hex_def)
  then show ?thesis by (simp add: is_hex_bytes_def demo_wallet_def list_all_iff)
qed

lemma demo_wallet_address: "address_of demo_wallet = 2"
  by (simp add: address_of_def hex_value_def demo_wallet_def numeral_eq_Suc char_digit_def)

lemma ready_read:
  "getStatementWithBlockchain (call_env demo_calls ReadCall) ''m1'' ready_db = Inr (Some ready_row)"
  by (simp add: getStatementWithBlockchain_def getStatement_def with_meter_uuid_def sum_bind_def
      demo_calls_def call_env_def demo_meter_env_def empty_meter_def row_by_def finalize_row_def
      demo_draft_def chain_status_def js_coalesce_def ready_db_def ready_row_def)

lemma ready_row_simps [simp]:
  "st_id ready_row = ''m1''" "st_status ready_row = FINALIZED" "chain_status ready_row = NOT_SUBMITTED"
  by (simp_all add: ready_row_def finalize_row_def demo_draft_def chain_status_def js_coalesce_def)

lemma demo_world_ready:
  "id_ok ''m1''" "hash_ok (zeros 32)" "ce_up demo_calls k"
  "et_parseUnits small_node x n = Inr 60000"
  "oz_onlyOwner small_oz 1 (rs_base (fst (fst demo_world))) = None"
  "oz_whenNotPaused small_oz (rs_base (fst (fst demo_world))) = None"
  "os_status (onchain small_node fst u demo_world) = NoStatement"
  "rs_claimable (fst (fst demo_world)) b = 0" "rs_disputeWindow (fst (fst demo_world)) = 86400"
  "snd demo_world = 100"
  by (simp_all add: id_ok_def hash_ok_def demo_calls_def small_node_def demo_world_def demo_contract_def
      small_oz_def onchain_def zero_statement_def)

lemma demo_node: "prompt_node small_node small_oz small_token fst snd (ca_settlement (cf_addresses demo_config)) 900 1 1"
  by (simp add: demo_config_def small_node_prompt)



end
