(* ===== verification/Custody.thy ===== *)
theory Custody
  imports Evm
begin

text \<open>
  What the contracts that hold tokens for others share: what they rely on in the token, the
  locale \<open>custodian\<close> for a contract that never owes more than it holds, and sums over all
  addresses, of which there are finitely many.
\<close>

section \<open>The token\<close>

text \<open>
  What a holder may rely on in an ERC-20 token without fees: a transfer it makes costs it no more
  than the amount, a transfer to it from another account brings it the amount, and transfers of
  other tokens do not touch its holdings of this one.
\<close>

definition honest_token :: "'t erc20 \<Rightarrow> address \<Rightarrow> address \<Rightarrow> bool" where
  "honest_token tk token holder \<longleftrightarrow>
     (\<forall>recipient amount t t'. safeTransfer tk token holder recipient amount t = Inr t' \<longrightarrow>
        uint (token_balance tk token holder t) - uint amount \<le> uint (token_balance tk token holder t')) \<and>
     (\<forall>payer amount t t'. payer \<noteq> holder \<longrightarrow> safeTransferFrom tk token holder payer holder amount t = Inr t' \<longrightarrow>
        uint (token_balance tk token holder t) + uint amount \<le> uint (token_balance tk token holder t')) \<and>
     (\<forall>token' recipient amount t t'. token' \<noteq> token \<longrightarrow>
        safeTransfer tk token' holder recipient amount t = Inr t' \<longrightarrow>
        token_balance tk token holder t \<le> token_balance tk token holder t')"

lemma honest_tokenD:
  assumes "honest_token tk token holder"
  shows "safeTransfer tk token holder recipient amount t = Inr t' \<Longrightarrow>
      uint (token_balance tk token holder t) - uint amount \<le> uint (token_balance tk token holder t')"
    and "payer \<noteq> holder \<Longrightarrow> safeTransferFrom tk token holder payer holder amount t = Inr t' \<Longrightarrow>
      uint (token_balance tk token holder t) + uint amount \<le> uint (token_balance tk token holder t')"
    and "token' \<noteq> token \<Longrightarrow> safeTransfer tk token' holder recipient amount t = Inr t' \<Longrightarrow>
      uint (token_balance tk token holder t) \<le> uint (token_balance tk token holder t')"
  using assms unfolding honest_token_def word_le_def by blast+

section \<open>Holding tokens for others\<close>

text \<open>
  A contract owes its clients and holds tokens. When no step makes what it owes grow by more than
  what it holds, it can always pay if it could at the start.
\<close>

locale custodian =
  fixes step :: "'s \<Rightarrow> 's \<Rightarrow> bool"
    and holds :: "'s \<Rightarrow> int"
    and owes :: "'s \<Rightarrow> int"
  assumes step_covered: "step s s' \<Longrightarrow> owes s' - owes s \<le> holds s' - holds s"
begin

lemma covered:
  assumes "step\<^sup>*\<^sup>* s s'" and "owes s \<le> holds s"
  shows "owes s' \<le> holds s'"
  using assms
proof (induction rule: rtranclp_induct)
  case base
  then show ?case .
next
  case (step s' s'')
  then show ?case using step_covered [OF step.hyps(2)] by linarith
qed

end

text \<open>What is owed to all accounts of a kind.\<close>

definition sum_all :: "(address \<Rightarrow> uint256) \<Rightarrow> int" where
  "sum_all f = (\<Sum>a\<in>UNIV. uint (f a))"

lemma sum_all_update [simp]: "sum_all (f(a := v)) = sum_all f - uint (f a) + uint v"
proof -
  have "sum_all g = uint (g a) + (\<Sum>x \<in> UNIV - {a}. uint (g x))" for g
    unfolding sum_all_def by (rule sum.remove) auto
  from this [of f] this [of "f(a := v)"] show ?thesis
    by (simp add: fun_upd_def)
qed

lemma sum_all_zero [simp]: "sum_all (\<lambda>_. 0) = 0"
  by (simp add: sum_all_def)

lemma sum_all_nonneg: "0 \<le> sum_all f"
  by (simp add: sum_all_def sum_nonneg)

lemma sum_all_member: "uint (f a) \<le> sum_all f"
  unfolding sum_all_def by (rule member_le_sum) auto

section \<open>An instance for examples\<close>

text \<open>A token that keeps one table for each token and refuses what does not fit.\<close>

type_synonym token_tables = "address \<Rightarrow> address \<Rightarrow> uint256"

definition ledger_move ::
  "address \<Rightarrow> address \<Rightarrow> address \<Rightarrow> uint256 \<Rightarrow> token_tables \<Rightarrow> evm_revert + token_tables" where
  "ledger_move token payer recipient amount t =
     sum_bind (checked_sub (t token payer) amount) (\<lambda>left.
     let debited = (t token)(payer := left) in
     sum_bind (checked_add (debited recipient) amount) (\<lambda>credited.
     Inr (t(token := debited(recipient := credited)))))"

definition ledger_token :: "token_tables erc20" where
  "ledger_token =
     \<lparr>safeTransfer = ledger_move, safeTransferFrom = (\<lambda>token spender. ledger_move token),
      token_balance = (\<lambda>token a t. t token a)\<rparr>"

lemma ledger_honest: "honest_token ledger_token token holder"
  by (auto simp: honest_token_def ledger_token_def ledger_move_def Let_def inr_iff uint_plus_if'
      uint_sub_if')

end
