(* ===== verification/VerificationEscrow.thy ===== *)
theory VerificationEscrow
  imports Custody
begin

text \<open>
  The contract \<open>src/contracts/src/VerificationEscrow.sol\<close>: its storage as the record \<open>Escrow\<close>, one
  definition per external function and the dispatch \<open>esc_exec\<close>. What the lemmas show: the
  balances of the brands, the pending totals of the suppliers and the pending records of each pair
  are what the emitted events say; no receipt is charged twice; and the escrow never owes more
  than it holds, unless its owner takes the payment token out.
\<close>

datatype esc_event =
    Deposited address uint256
  | VerificationRecorded address address uint256 bytes32
  | TransferredToSettlement address uint256
  | Withdrawn address uint256

record 'b Escrow =
  esc_base :: 'b
  esc_paymentToken :: address
  esc_settlementContract :: address
  esc_brandBalances :: "address \<Rightarrow> uint256"
  esc_pendingRecords :: "address \<Rightarrow> address \<Rightarrow> uint256"
  esc_supplierPendingTotals :: "address \<Rightarrow> uint256"
  esc_recordedReceipts :: "bytes32 \<Rightarrow> bool"
  esc_log :: "esc_event list"

section \<open>The contract\<close>

definition esc_construct :: "'b openzeppelin \<Rightarrow> address \<Rightarrow> address \<Rightarrow> evm_revert + 'b Escrow" where
  "esc_construct oz paymentToken initialOwner =
     sum_bind (oz_construct oz initialOwner) (\<lambda>b. Inr
       \<lparr>esc_base = b, esc_paymentToken = paymentToken, esc_settlementContract = 0,
        esc_brandBalances = (\<lambda>_. 0), esc_pendingRecords = (\<lambda>_ _. 0),
        esc_supplierPendingTotals = (\<lambda>_. 0), esc_recordedReceipts = (\<lambda>_. False), esc_log = []\<rparr>)"

definition esc_setSettlementContract ::
  "'b openzeppelin \<Rightarrow> TxContext \<Rightarrow> address \<Rightarrow> 'b Escrow \<Rightarrow> evm_revert + 'b Escrow" where
  "esc_setSettlementContract oz msg settlementContract s =
     modifier (oz_onlyOwner oz (msg_sender msg) (esc_base s))
     (revert_if (settlementContract = 0) InvalidAddress
     (Inr (s\<lparr>esc_settlementContract := settlementContract\<rparr>)))"

definition esc_deposit ::
  "'b openzeppelin \<Rightarrow> 't erc20 \<Rightarrow> TxContext \<Rightarrow> uint256 \<Rightarrow> 'b Escrow \<times> 't \<Rightarrow> evm_revert + 'b Escrow \<times> 't" where
  "esc_deposit oz tk msg amount st =
     (case st of (s, t) \<Rightarrow>
      modifier (oz_whenNotPaused oz (esc_base s))
     (revert_if (amount = 0) InvalidAmount
     (sum_bind (safeTransferFrom tk (esc_paymentToken s) (this_address msg) (msg_sender msg)
        (this_address msg) amount t) (\<lambda>t'.
      sum_bind (checked_add (esc_brandBalances s (msg_sender msg)) amount) (\<lambda>balance.
      Inr (s\<lparr>esc_brandBalances := (esc_brandBalances s)(msg_sender msg := balance),
             esc_log := esc_log s @ [Deposited (msg_sender msg) amount]\<rparr>, t'))))))"

definition esc_recordVerification ::
  "'b openzeppelin \<Rightarrow> TxContext \<Rightarrow> address \<Rightarrow> address \<Rightarrow> uint256 \<Rightarrow> bytes32 \<Rightarrow> 'b Escrow \<Rightarrow>
     evm_revert + 'b Escrow" where
  "esc_recordVerification oz msg brand supplier amount receiptId s =
     modifier (oz_onlyOwner oz (msg_sender msg) (esc_base s))
     (modifier (oz_whenNotPaused oz (esc_base s))
     (revert_if (brand = 0 \<or> supplier = 0) InvalidAddress
     (revert_if (amount = 0) InvalidAmount
     (revert_if (esc_recordedReceipts s receiptId) (ReceiptAlreadyRecorded receiptId)
     (revert_if (esc_brandBalances s brand < amount)
        (BrandInsufficientBalance brand (esc_brandBalances s brand) amount)
     (sum_bind (checked_sub (esc_brandBalances s brand) amount) (\<lambda>balance.
      sum_bind (checked_add (esc_pendingRecords s brand supplier) amount) (\<lambda>pending.
      sum_bind (checked_add (esc_supplierPendingTotals s supplier) amount) (\<lambda>pending_total.
      Inr (s\<lparr>esc_recordedReceipts := (esc_recordedReceipts s)(receiptId := True),
             esc_brandBalances := (esc_brandBalances s)(brand := balance),
             esc_pendingRecords := (esc_pendingRecords s)
               (brand := (esc_pendingRecords s brand)(supplier := pending)),
             esc_supplierPendingTotals := (esc_supplierPendingTotals s)(supplier := pending_total),
             esc_log := esc_log s @ [VerificationRecorded brand supplier amount receiptId]\<rparr>))))))))))"

definition esc_transferToSettlement ::
  "'b openzeppelin \<Rightarrow> 't erc20 \<Rightarrow> TxContext \<Rightarrow> address \<Rightarrow> uint256 \<Rightarrow> 'b Escrow \<times> 't \<Rightarrow>
     evm_revert + 'b Escrow \<times> 't" where
  "esc_transferToSettlement oz tk msg supplier amount st =
     (case st of (s, t) \<Rightarrow>
      modifier (oz_whenNotPaused oz (esc_base s))
     (revert_if (esc_settlementContract s = 0) SettlementContractNotSet
     (revert_if (msg_sender msg \<noteq> esc_settlementContract s \<and> msg_sender msg \<noteq> oz_owner oz (esc_base s))
        (NotSettlementContract (msg_sender msg))
     (revert_if (supplier = 0) InvalidAddress
     (revert_if (amount = 0) InvalidAmount
     (revert_if (esc_supplierPendingTotals s supplier < amount)
        (InsufficientPendingAmount supplier (esc_supplierPendingTotals s supplier) amount)
     (sum_bind (checked_sub (esc_supplierPendingTotals s supplier) amount) (\<lambda>left.
      sum_bind (safeTransfer tk (esc_paymentToken s) (this_address msg) (esc_settlementContract s) amount t)
        (\<lambda>t'. Inr (s\<lparr>esc_supplierPendingTotals := (esc_supplierPendingTotals s)(supplier := left),
                     esc_log := esc_log s @ [TransferredToSettlement supplier amount]\<rparr>, t'))))))))))"

definition esc_withdraw ::
  "'b openzeppelin \<Rightarrow> 't erc20 \<Rightarrow> TxContext \<Rightarrow> uint256 \<Rightarrow> 'b Escrow \<times> 't \<Rightarrow> evm_revert + 'b Escrow \<times> 't" where
  "esc_withdraw oz tk msg amount st =
     (case st of (s, t) \<Rightarrow>
      sum_bind (oz_nonReentrant_enter oz (esc_base s)) (\<lambda>b.
      modifier (oz_whenNotPaused oz b)
     (revert_if (amount = 0) InvalidAmount
     (revert_if (esc_brandBalances s (msg_sender msg) < amount)
        (BrandInsufficientBalance (msg_sender msg) (esc_brandBalances s (msg_sender msg)) amount)
     (sum_bind (checked_sub (esc_brandBalances s (msg_sender msg)) amount) (\<lambda>balance.
      sum_bind (safeTransfer tk (esc_paymentToken s) (this_address msg) (msg_sender msg) amount t)
        (\<lambda>t'. Inr (s\<lparr>esc_base := oz_nonReentrant_leave oz b,
                     esc_brandBalances := (esc_brandBalances s)(msg_sender msg := balance),
                     esc_log := esc_log s @ [Withdrawn (msg_sender msg) amount]\<rparr>, t'))))))))"

definition esc_emergencyWithdraw ::
  "'b openzeppelin \<Rightarrow> 't erc20 \<Rightarrow> TxContext \<Rightarrow> address \<Rightarrow> address \<Rightarrow> uint256 \<Rightarrow>
     'b Escrow \<times> 't \<Rightarrow> evm_revert + 'b Escrow \<times> 't" where
  "esc_emergencyWithdraw oz tk msg token recipient amount st =
     (case st of (s, t) \<Rightarrow>
      modifier (oz_onlyOwner oz (msg_sender msg) (esc_base s))
     (sum_bind (safeTransfer tk token (this_address msg) recipient amount t) (\<lambda>t'. Inr (s, t'))))"

definition esc_getBrandBalance :: "address \<Rightarrow> 'b Escrow \<Rightarrow> uint256" where
  "esc_getBrandBalance brand s = esc_brandBalances s brand"

definition esc_getPendingAmount :: "address \<Rightarrow> address \<Rightarrow> 'b Escrow \<Rightarrow> uint256" where
  "esc_getPendingAmount brand supplier s = esc_pendingRecords s brand supplier"

definition esc_getSupplierPendingTotal :: "address \<Rightarrow> 'b Escrow \<Rightarrow> uint256" where
  "esc_getSupplierPendingTotal supplier s = esc_supplierPendingTotals s supplier"

definition esc_isReceiptRecorded :: "bytes32 \<Rightarrow> 'b Escrow \<Rightarrow> bool" where
  "esc_isReceiptRecorded receiptId s = esc_recordedReceipts s receiptId"

text \<open>The transactions of the contract and their dispatch.\<close>

datatype esc_call =
    SetSettlementContract address
  | Deposit uint256
  | RecordVerification address address uint256 bytes32
  | TransferToSettlement address uint256
  | Withdraw uint256
  | EscrowEmergencyWithdraw address address uint256
  | EscrowInherited inherited_call

definition esc_exec ::
  "'b openzeppelin \<Rightarrow> 't erc20 \<Rightarrow> TxContext \<Rightarrow> esc_call \<Rightarrow> 'b Escrow \<times> 't \<Rightarrow> evm_revert + 'b Escrow \<times> 't" where
  "esc_exec oz tk msg call st =
     (case st of (s, t) \<Rightarrow>
      (case call of
         SetSettlementContract a \<Rightarrow> sum_bind (esc_setSettlementContract oz msg a s) (\<lambda>s'. Inr (s', t))
       | Deposit amount \<Rightarrow> esc_deposit oz tk msg amount (s, t)
       | RecordVerification brand supplier amount receiptId \<Rightarrow>
           sum_bind (esc_recordVerification oz msg brand supplier amount receiptId s) (\<lambda>s'. Inr (s', t))
       | TransferToSettlement supplier amount \<Rightarrow> esc_transferToSettlement oz tk msg supplier amount (s, t)
       | Withdraw amount \<Rightarrow> esc_withdraw oz tk msg amount (s, t)
       | EscrowEmergencyWithdraw token recipient amount \<Rightarrow>
           esc_emergencyWithdraw oz tk msg token recipient amount (s, t)
       | EscrowInherited c \<Rightarrow>
           sum_bind (inherited_exec oz msg c (esc_base s)) (\<lambda>b. Inr (s\<lparr>esc_base := b\<rparr>, t))))"

lemmas esc_defs = esc_exec_def esc_setSettlementContract_def esc_deposit_def esc_recordVerification_def
  esc_transferToSettlement_def esc_withdraw_def esc_emergencyWithdraw_def

text \<open>
  The escrow at an address, in a world of others: a transaction by anyone else, of those that are
  considered, or the tokens moving without it, which may add to its holdings but not take from
  them.
\<close>

inductive esc_step ::
  "'b openzeppelin \<Rightarrow> 't erc20 \<Rightarrow> address \<Rightarrow> (esc_call \<Rightarrow> bool) \<Rightarrow> 'b Escrow \<times> 't \<Rightarrow> 'b Escrow \<times> 't \<Rightarrow> bool"
  for oz tk self considered where
  transaction:
    "\<lbrakk>this_address msg = self; msg_sender msg \<noteq> self; considered call; esc_exec oz tk msg call st = Inr st'\<rbrakk>
      \<Longrightarrow> esc_step oz tk self considered st st'"
| outside:
    "token_balance tk (esc_paymentToken s) self t \<le> token_balance tk (esc_paymentToken s) self t'
      \<Longrightarrow> esc_step oz tk self considered (s, t) (s, t')"

definition leaves_token :: "address \<Rightarrow> esc_call \<Rightarrow> bool" where
  "leaves_token token call = (case call of EscrowEmergencyWithdraw token' _ _ \<Rightarrow> token' \<noteq> token | _ \<Rightarrow> True)"

section \<open>What a transaction does\<close>

text \<open>A transaction seen from the books: who pays, who is credited, which tokens move.\<close>

definition same_books :: "'b Escrow \<Rightarrow> 'b Escrow \<Rightarrow> bool" where
  "same_books s s' \<longleftrightarrow> esc_brandBalances s' = esc_brandBalances s \<and>
     esc_pendingRecords s' = esc_pendingRecords s \<and>
     esc_supplierPendingTotals s' = esc_supplierPendingTotals s \<and>
     esc_recordedReceipts s' = esc_recordedReceipts s \<and> esc_log s' = esc_log s"

inductive esc_move :: "'t erc20 \<Rightarrow> address \<Rightarrow> esc_call \<Rightarrow> 'b Escrow \<times> 't \<Rightarrow> 'b Escrow \<times> 't \<Rightarrow> bool"
  for tk self where
  idle: "same_books s s' \<Longrightarrow> esc_move tk self call (s, t) (s', t)"
| deposited:
    "\<lbrakk>a \<noteq> self; safeTransferFrom tk (esc_paymentToken s) self a self v t = Inr t';
      checked_add (esc_brandBalances s a) v = Inr b;
      same_books (s\<lparr>esc_brandBalances := (esc_brandBalances s)(a := b),
        esc_log := esc_log s @ [Deposited a v]\<rparr>) s'\<rbrakk>
      \<Longrightarrow> esc_move tk self call (s, t) (s', t')"
| recorded:
    "\<lbrakk>\<not> esc_recordedReceipts s r; checked_sub (esc_brandBalances s a) v = Inr b;
      checked_add (esc_pendingRecords s a c) v = Inr p;
      checked_add (esc_supplierPendingTotals s c) v = Inr q;
      same_books (s\<lparr>esc_recordedReceipts := (esc_recordedReceipts s)(r := True),
        esc_brandBalances := (esc_brandBalances s)(a := b),
        esc_pendingRecords := (esc_pendingRecords s)(a := (esc_pendingRecords s a)(c := p)),
        esc_supplierPendingTotals := (esc_supplierPendingTotals s)(c := q),
        esc_log := esc_log s @ [VerificationRecorded a c v r]\<rparr>) s'\<rbrakk>
      \<Longrightarrow> esc_move tk self call (s, t) (s', t)"
| transferred:
    "\<lbrakk>checked_sub (esc_supplierPendingTotals s c) v = Inr left;
      safeTransfer tk (esc_paymentToken s) self recipient v t = Inr t';
      same_books (s\<lparr>esc_supplierPendingTotals := (esc_supplierPendingTotals s)(c := left),
        esc_log := esc_log s @ [TransferredToSettlement c v]\<rparr>) s'\<rbrakk>
      \<Longrightarrow> esc_move tk self call (s, t) (s', t')"
| withdrawn:
    "\<lbrakk>checked_sub (esc_brandBalances s a) v = Inr b;
      safeTransfer tk (esc_paymentToken s) self a v t = Inr t';
      same_books (s\<lparr>esc_brandBalances := (esc_brandBalances s)(a := b),
        esc_log := esc_log s @ [Withdrawn a v]\<rparr>) s'\<rbrakk>
      \<Longrightarrow> esc_move tk self call (s, t) (s', t')"
| taken:
    "\<lbrakk>same_books s s'; safeTransfer tk token self recipient v t = Inr t';
      call = EscrowEmergencyWithdraw token recipient v\<rbrakk>
      \<Longrightarrow> esc_move tk self call (s, t) (s', t')"

lemma esc_exec_move:
  assumes "esc_exec oz tk msg call (s, t) = Inr (s', t')" and "msg_sender msg \<noteq> this_address msg"
  shows "esc_move tk (this_address msg) call (s, t) (s', t')"
proof (cases call)
  case (SetSettlementContract a)
  with assms show ?thesis
    by (auto simp: esc_defs inr_iff same_books_def intro!: esc_move.idle)
next
  case (Deposit amount)
  with assms show ?thesis
    by (auto simp: esc_exec_def esc_deposit_def sum_bind_Inr_iff modifier_Inr_iff revert_if_Inr_iff
        same_books_def intro!: esc_move.deposited)
next
  case (RecordVerification brand supplier amount receiptId)
  with assms show ?thesis
    by (auto simp: esc_exec_def esc_recordVerification_def sum_bind_Inr_iff modifier_Inr_iff
        revert_if_Inr_iff same_books_def intro!: esc_move.recorded)
next
  case (TransferToSettlement supplier amount)
  with assms show ?thesis
    by (auto simp: esc_exec_def esc_transferToSettlement_def sum_bind_Inr_iff modifier_Inr_iff
        revert_if_Inr_iff same_books_def intro!: esc_move.transferred)
next
  case (Withdraw amount)
  with assms show ?thesis
    by (auto simp: esc_exec_def esc_withdraw_def sum_bind_Inr_iff modifier_Inr_iff
        revert_if_Inr_iff same_books_def intro!: esc_move.withdrawn)
next
  case (EscrowEmergencyWithdraw token recipient amount)
  with assms show ?thesis
    by (auto simp: esc_defs inr_iff same_books_def intro!: esc_move.taken)
next
  case (EscrowInherited c)
  with assms show ?thesis
    by (auto simp: esc_exec_def inr_iff same_books_def intro!: esc_move.idle)
qed

lemma esc_exec_token: "esc_exec oz tk msg call (s, t) = Inr (s', t') \<Longrightarrow> esc_paymentToken s' = esc_paymentToken s"
  by (cases call) (auto simp: esc_defs sum_bind_Inr_iff modifier_Inr_iff revert_if_Inr_iff)

lemma esc_step_token: "esc_step oz tk self considered st st' \<Longrightarrow> esc_paymentToken (fst st') = esc_paymentToken (fst st)"
  by (cases st; cases st') (auto elim!: esc_step.cases dest: esc_exec_token)

section \<open>The books of the escrow\<close>

datatype esc_account = BrandAccount address | SupplierAccount address | PairAccount address address

primrec esc_balance :: "'b Escrow \<Rightarrow> esc_account \<Rightarrow> int" where
  "esc_balance s (BrandAccount a) = uint (esc_getBrandBalance a s)"
| "esc_balance s (SupplierAccount b) = uint (esc_getSupplierPendingTotal b s)"
| "esc_balance s (PairAccount a b) = uint (esc_getPendingAmount a b s)"

fun esc_credit :: "esc_event \<Rightarrow> esc_account \<Rightarrow> int" where
  "esc_credit (Deposited a v) (BrandAccount a') = (if a = a' then uint v else 0)"
| "esc_credit (VerificationRecorded a b v r) (SupplierAccount b') = (if b = b' then uint v else 0)"
| "esc_credit (VerificationRecorded a b v r) (PairAccount a' b') = (if a = a' \<and> b = b' then uint v else 0)"
| "esc_credit _ _ = 0"

fun esc_debit :: "esc_event \<Rightarrow> esc_account \<Rightarrow> int" where
  "esc_debit (Withdrawn a v) (BrandAccount a') = (if a = a' then uint v else 0)"
| "esc_debit (VerificationRecorded a b v r) (BrandAccount a') = (if a = a' then uint v else 0)"
| "esc_debit (TransferredToSettlement b v) (SupplierAccount b') = (if b = b' then uint v else 0)"
| "esc_debit _ _ = 0"

lemmas esc_views = esc_getBrandBalance_def esc_getPendingAmount_def esc_getSupplierPendingTotal_def
  esc_isReceiptRecorded_def

lemma same_books_balance:
  assumes "same_books s s'"
  shows "esc_balance s' a = esc_balance s a" and "esc_log s' = esc_log s"
  using assms by (cases a; simp add: same_books_def esc_views)+

lemma esc_move_balances:
  assumes "esc_move tk self call (s, t) (s', t')"
  shows "\<exists>es. esc_log s' = esc_log s @ es \<and>
     (\<forall>a. esc_balance s' a = esc_balance s a + (\<Sum>e\<leftarrow>es. esc_credit e a) - (\<Sum>e\<leftarrow>es. esc_debit e a))"
  using assms
proof cases
  case idle
  then show ?thesis
    by (intro exI [of _ "[]"]) (simp add: same_books_balance)
next
  case (deposited a v b)
  have "esc_balance s' x = esc_balance s x + esc_credit (Deposited a v) x - esc_debit (Deposited a v) x" for x
    using uint_checked_add [OF deposited(3)] unfolding same_books_balance(1) [OF deposited(4)] by (cases x) (simp_all add: esc_views)
  then show ?thesis
    by (intro exI [of _ "[Deposited a v]"]) (simp add: same_books_balance [OF deposited(4)])
next
  case (recorded r a v b c p q)
  let ?e = "VerificationRecorded a c v r"
  have "esc_balance s' x = esc_balance s x + esc_credit ?e x - esc_debit ?e x" for x
    using uint_checked_sub [OF recorded(3)] uint_checked_add [OF recorded(4)] uint_checked_add [OF recorded(5)]
    unfolding same_books_balance(1) [OF recorded(6)] by (cases x) (simp_all add: esc_views)
  then show ?thesis
    by (intro exI [of _ "[?e]"]) (simp add: same_books_balance [OF recorded(6)])
next
  case (transferred c v left recipient)
  let ?e = "TransferredToSettlement c v"
  have "esc_balance s' x = esc_balance s x + esc_credit ?e x - esc_debit ?e x" for x
    using uint_checked_sub [OF transferred(1)]
    unfolding same_books_balance(1) [OF transferred(3)] by (cases x) (simp_all add: esc_views)
  then show ?thesis
    by (intro exI [of _ "[?e]"]) (simp add: same_books_balance [OF transferred(3)])
next
  case (withdrawn a v b)
  let ?e = "Withdrawn a v"
  have "esc_balance s' x = esc_balance s x + esc_credit ?e x - esc_debit ?e x" for x
    using uint_checked_sub [OF withdrawn(1)]
    unfolding same_books_balance(1) [OF withdrawn(3)] by (cases x) (simp_all add: esc_views)
  then show ?thesis
    by (intro exI [of _ "[?e]"]) (simp add: same_books_balance [OF withdrawn(3)])
next
  case taken
  then show ?thesis
    by (intro exI [of _ "[]"]) (simp add: same_books_balance)
qed

lemma esc_step_move:
  assumes "esc_step oz tk self considered st st'"
  shows "(\<exists>call. considered call \<and> esc_move tk self call st st') \<or>
    fst st' = fst st \<and>
    token_balance tk (esc_paymentToken (fst st)) self (snd st) \<le> token_balance tk (esc_paymentToken (fst st)) self (snd st')"
  using assms
proof cases
  case (transaction msg call)
  then show ?thesis
    using esc_exec_move [of oz tk msg call "fst st" "snd st" "fst st'" "snd st'"] by auto
qed simp

interpretation esc_book: journalled "esc_step oz tk self considered" "esc_log \<circ> fst" "\<lambda>st. esc_balance (fst st)"
  esc_credit esc_debit for oz tk self considered
proof
  fix st st' :: "'a Escrow \<times> 'b"
  assume "esc_step oz tk self considered st st'"
  then consider call where "esc_move tk self call st st'" | "fst st' = fst st"
    using esc_step_move by blast
  then show "\<exists>es. (esc_log \<circ> fst) st' = (esc_log \<circ> fst) st @ es \<and>
      (\<forall>a. esc_balance (fst st') a = esc_balance (fst st) a + (\<Sum>e\<leftarrow>es. esc_credit e a) - (\<Sum>e\<leftarrow>es. esc_debit e a))"
  proof cases
    case 1
    then show ?thesis
      using esc_move_balances [of tk self call "fst st" "snd st" "fst st'" "snd st'"] by simp
  qed simp
qed

text \<open>The receipts that were charged.\<close>

definition receipts :: "esc_event list \<Rightarrow> bytes32 list" where
  "receipts es = concat (map (\<lambda>e. case e of VerificationRecorded a b v r \<Rightarrow> [r] | _ \<Rightarrow> []) es)"

lemma receipts_simps [simp]:
  "receipts [] = []"
  "receipts (es @ es') = receipts es @ receipts es'"
  "receipts [Deposited a v] = []"
  "receipts [VerificationRecorded a b v r] = [r]"
  "receipts [TransferredToSettlement b v] = []"
  "receipts [Withdrawn a v] = []"
  by (simp_all add: receipts_def)

definition receipts_once :: "'b Escrow \<Rightarrow> bool" where
  "receipts_once s \<longleftrightarrow> distinct (receipts (esc_log s)) \<and>
     (\<forall>r. esc_isReceiptRecorded r s \<longleftrightarrow> r \<in> set (receipts (esc_log s)))"

lemma receipts_once_move:
  assumes "esc_move tk self call st st'" and "receipts_once (fst st)"
  shows "receipts_once (fst st')"
  using assms by cases (auto simp: receipts_once_def same_books_def esc_views)

lemma receipts_once_steps:
  assumes "(esc_step oz tk self considered)\<^sup>*\<^sup>* st st'" and "receipts_once (fst st)"
  shows "receipts_once (fst st')"
  using assms
proof (induction rule: rtranclp_induct)
  case base
  then show ?case .
next
  case (step st' st'')
  then show ?case
    using esc_step_move [OF step.hyps(2)] receipts_once_move by metis
qed

section \<open>What the escrow owes\<close>

definition esc_owes :: "'b Escrow \<Rightarrow> int" where
  "esc_owes s = sum_all (esc_brandBalances s) + sum_all (esc_supplierPendingTotals s)"

lemma same_books_owes: "same_books s s' \<Longrightarrow> esc_owes s' = esc_owes s"
  by (simp add: same_books_def esc_owes_def)

lemma esc_move_covered:
  assumes "esc_move tk self call (s, t) (s', t')" and "leaves_token (esc_paymentToken s) call"
    and h: "honest_token tk (esc_paymentToken s) self"
  shows "esc_owes s' - esc_owes s \<le>
    uint (token_balance tk (esc_paymentToken s) self t') - uint (token_balance tk (esc_paymentToken s) self t)"
  using assms(1)
proof cases
  case idle
  then show ?thesis by (simp add: same_books_owes)
next
  case (deposited a v b)
  then show ?thesis
    using honest_tokenD(2) [OF h deposited(1,2)] uint_checked_add [OF deposited(3)]
    by (simp add: same_books_owes [OF deposited(4)]) (simp add: esc_owes_def)
next
  case (recorded r a v b c p q)
  then show ?thesis
    using uint_checked_sub [OF recorded(3)] uint_checked_add [OF recorded(5)]
    by (simp add: same_books_owes [OF recorded(6)]) (simp add: esc_owes_def)
next
  case (transferred c v left recipient)
  then show ?thesis
    using honest_tokenD(1) [OF h transferred(2)] uint_checked_sub [OF transferred(1)]
    by (simp add: same_books_owes [OF transferred(3)]) (simp add: esc_owes_def)
next
  case (withdrawn a v b)
  then show ?thesis
    using honest_tokenD(1) [OF h withdrawn(2)] uint_checked_sub [OF withdrawn(1)]
    by (simp add: same_books_owes [OF withdrawn(3)]) (simp add: esc_owes_def)
next
  case (taken token recipient v)
  then show ?thesis
    using honest_tokenD(3) [OF h _ taken(2)] assms(2) by (simp add: same_books_owes leaves_token_def)
qed

definition esc_holds :: "'t erc20 \<Rightarrow> address \<Rightarrow> 'b Escrow \<times> 't \<Rightarrow> int" where
  "esc_holds tk self st = uint (token_balance tk (esc_paymentToken (fst st)) self (snd st))"

text \<open>A step that leaves the payment token to an honest token contract.\<close>

definition esc_covered_step ::
  "'b openzeppelin \<Rightarrow> 't erc20 \<Rightarrow> address \<Rightarrow> 'b Escrow \<times> 't \<Rightarrow> 'b Escrow \<times> 't \<Rightarrow> bool" where
  "esc_covered_step oz tk self st st' \<longleftrightarrow> honest_token tk (esc_paymentToken (fst st)) self \<and>
     esc_step oz tk self (leaves_token (esc_paymentToken (fst st))) st st'"

interpretation escrow_funds: custodian "esc_covered_step oz tk self" "esc_holds tk self" "esc_owes \<circ> fst"
  for oz tk self
proof
  fix st st' :: "'a Escrow \<times> 'b"
  assume "esc_covered_step oz tk self st st'"
  then have h: "honest_token tk (esc_paymentToken (fst st)) self"
    and step: "esc_step oz tk self (leaves_token (esc_paymentToken (fst st))) st st'"
    by (simp_all add: esc_covered_step_def)
  from esc_step_move [OF step] show "(esc_owes \<circ> fst) st' - (esc_owes \<circ> fst) st \<le> esc_holds tk self st' - esc_holds tk self st"
  proof (elim disjE exE conjE)
    fix call
    assume "leaves_token (esc_paymentToken (fst st)) call" "esc_move tk self call st st'"
    then show ?thesis
      using esc_move_covered [of tk self call "fst st" "snd st" "fst st'" "snd st'"] h esc_step_token [OF step]
      by (simp add: esc_holds_def)
  next
    assume "fst st' = fst st" "token_balance tk (esc_paymentToken (fst st)) self (snd st)
      \<le> token_balance tk (esc_paymentToken (fst st)) self (snd st')"
    then show ?thesis by (simp add: esc_holds_def word_le_def)
  qed
qed

lemma esc_steps_covered:
  assumes "(esc_step oz tk self (leaves_token token))\<^sup>*\<^sup>* st st'"
    and "honest_token tk token self" and "esc_paymentToken (fst st) = token"
  shows "(esc_covered_step oz tk self)\<^sup>*\<^sup>* st st' \<and> esc_paymentToken (fst st') = token"
  using assms
proof (induction rule: rtranclp_induct)
  case base
  then show ?case by simp
next
  case (step st' st'')
  then have "esc_covered_step oz tk self st' st''"
    by (simp add: esc_covered_step_def)
  then show ?case
    using step esc_step_token [OF step.hyps(2)] by (auto intro: rtranclp.rtrancl_into_rtrancl)
qed

section \<open>An example\<close>

text \<open>An escrow at address 901 for the token at 800, owned by 1: brand 7 deposits 100, and a
  verification for supplier 2 is recorded at 30.\<close>

definition demo_call :: "address \<Rightarrow> TxContext" where
  "demo_call a = \<lparr>msg_sender = a, block_timestamp = 0, this_address = 901\<rparr>"

definition demo_escrow :: "(address \<times> bool \<times> bool) Escrow" where
  "demo_escrow = \<lparr>esc_base = (1, False, False), esc_paymentToken = 800, esc_settlementContract = 0,
     esc_brandBalances = (\<lambda>_. 0), esc_pendingRecords = (\<lambda>_ _. 0), esc_supplierPendingTotals = (\<lambda>_. 0),
     esc_recordedReceipts = (\<lambda>_. False), esc_log = []\<rparr>"

definition demo_deposited :: "(address \<times> bool \<times> bool) Escrow" where
  "demo_deposited = demo_escrow\<lparr>esc_brandBalances := (\<lambda>_. 0)(7 := 100), esc_log := [Deposited 7 100]\<rparr>"

definition demo_recorded :: "(address \<times> bool \<times> bool) Escrow" where
  "demo_recorded = demo_escrow
     \<lparr>esc_brandBalances := (\<lambda>_. 0)(7 := 70), esc_pendingRecords := (\<lambda>_ _. 0)(7 := (\<lambda>_. 0)(2 := 30)),
      esc_supplierPendingTotals := (\<lambda>_. 0)(2 := 30), esc_recordedReceipts := (\<lambda>_. False)(55 := True),
      esc_log := [Deposited 7 100, VerificationRecorded 7 2 30 55]\<rparr>"

definition demo_tokens :: token_tables where
  "demo_tokens = (\<lambda>_ _. 0)(800 := (\<lambda>_. 0)(7 := 500))"

definition demo_paid_tokens :: token_tables where
  "demo_paid_tokens = (\<lambda>_ _. 0)(800 := (\<lambda>_. 0)(7 := 400, 901 := 100))"

lemma demo_escrow_construct: "esc_construct small_oz 800 1 = Inr demo_escrow"
  by (simp add: esc_construct_def small_oz_def demo_escrow_def)

lemma demo_paid_in:
  "esc_exec small_oz ledger_token (demo_call 7) (Deposit 100) (demo_escrow, demo_tokens) =
     Inr (demo_deposited, demo_paid_tokens)"
  by (simp add: esc_exec_def esc_deposit_def modifier_def revert_if_def small_oz_def demo_escrow_def demo_call_def
      ledger_token_def ledger_move_def demo_tokens_def checked_sub_def checked_add_def Let_def
      demo_deposited_def demo_paid_tokens_def)

lemma demo_charge:
  "esc_exec small_oz ledger_token (demo_call 1) (RecordVerification 7 2 30 55) (demo_deposited, t) =
     Inr (demo_recorded, t)"
  by (simp add: esc_exec_def esc_recordVerification_def modifier_def revert_if_def small_oz_def demo_escrow_def
      demo_call_def checked_sub_def checked_add_def demo_deposited_def demo_recorded_def)

lemma demo_escrow_run:
  assumes "considered (Deposit 100)" and "considered (RecordVerification 7 2 30 55)"
  shows "(esc_step small_oz ledger_token 901 considered)\<^sup>*\<^sup>*
    (demo_escrow, demo_tokens) (demo_recorded, demo_paid_tokens)"
proof -
  have "esc_step small_oz ledger_token 901 considered (demo_escrow, demo_tokens) (demo_deposited, demo_paid_tokens)"
    by (rule esc_step.transaction [where considered = considered and call = "Deposit 100", OF _ _ assms(1) demo_paid_in]) (simp_all add: demo_call_def)
  moreover have "esc_step small_oz ledger_token 901 considered (demo_deposited, demo_paid_tokens)
      (demo_recorded, demo_paid_tokens)"
    by (rule esc_step.transaction [where considered = considered and call = "RecordVerification 7 2 30 55", OF _ _ assms(2) demo_charge]) (simp_all add: demo_call_def)
  ultimately show ?thesis by (rule converse_rtranclp_into_rtranclp [OF _ r_into_rtranclp])
qed

section \<open>Properties\<close>

lemma sum_over_addresses: "(\<Sum>a\<in>UNIV. \<Sum>e\<leftarrow>es. f e (a :: address)) = (\<Sum>e\<leftarrow>es. \<Sum>a\<in>UNIV. (f e a :: int))"
  by (induction es) (simp_all add: sum.distrib)

lemma credit_of_pairs: "(\<Sum>a\<in>UNIV. esc_credit e (PairAccount a b)) = esc_credit e (SupplierAccount b)"
  by (cases e) (auto simp: sum.delta)

text \<open>C36: In every state of the escrow the balance of each brand is what it deposited less what it
  withdrew and was charged, the pending total of each supplier is what was charged for it less what
  was transferred, and no receipt is charged twice. The pending record of a brand and a supplier
  is everything ever charged, transferred or not: the records of a supplier exceed its total
  by exactly what was transferred.\<close>

theorem escrow_books:
  assumes "esc_construct oz token owner = Inr s0"
    and "(esc_step oz tk self (\<lambda>_. True))\<^sup>*\<^sup>* (s0, t0) (s, t)"
  shows "(\<forall>a. esc_balance s a = (\<Sum>e\<leftarrow>esc_log s. esc_credit e a) - (\<Sum>e\<leftarrow>esc_log s. esc_debit e a)) \<and>
    distinct (receipts (esc_log s)) \<and>
    (\<forall>r. esc_isReceiptRecorded r s \<longleftrightarrow> r \<in> set (receipts (esc_log s))) \<and>
    (\<forall>b. (\<Sum>a\<in>UNIV. uint (esc_getPendingAmount a b s)) =
       uint (esc_getSupplierPendingTotal b s) + (\<Sum>e\<leftarrow>esc_log s. esc_debit e (SupplierAccount b)))"
proof -
  have start: "esc_balance s0 a = 0" "esc_log s0 = []" "receipts_once s0" for a
    using assms(1) by (auto simp: esc_construct_def inr_iff esc_views receipts_once_def intro: esc_account.induct)
  have books: "esc_balance s a = (\<Sum>e\<leftarrow>esc_log s. esc_credit e a) - (\<Sum>e\<leftarrow>esc_log s. esc_debit e a)" for a
    using esc_book.books_balance [OF assms(2), of a] start by simp
  moreover have "receipts_once s"
    using receipts_once_steps [OF assms(2)] start(3) by simp
  moreover have "(\<Sum>a\<in>UNIV. uint (esc_getPendingAmount a b s)) =
       uint (esc_getSupplierPendingTotal b s) + (\<Sum>e\<leftarrow>esc_log s. esc_debit e (SupplierAccount b))" for b
  proof -
    have "esc_debit e (PairAccount a b) = 0" for e a
      by (cases e) simp_all
    then have "uint (esc_getPendingAmount a b s) = (\<Sum>e\<leftarrow>esc_log s. esc_credit e (PairAccount a b))" for a
      using books [of "PairAccount a b"] by simp
    then show ?thesis
      using books [of "SupplierAccount b"] by (simp add: sum_over_addresses credit_of_pairs)
  qed
  ultimately show ?thesis
    by (simp add: receipts_once_def)
qed

theorem escrow_books_witness:
  "esc_isReceiptRecorded 55 demo_recorded \<and>
     esc_balance demo_recorded (BrandAccount 7) = 70 \<and> esc_log demo_recorded \<noteq> [] \<and>
     (\<Sum>a\<in>UNIV. uint (esc_getPendingAmount a 2 demo_recorded)) = 30"
  using escrow_books [OF demo_escrow_construct demo_escrow_run [of "\<lambda>_. True"]]
  by (simp add: demo_recorded_def esc_views)

text \<open>C35: The escrow can always pay: as long as its owner does not take the payment token out and the
  token is honest, the balances of all brands and the pending totals of all suppliers are together
  no more than the tokens it holds.\<close>

theorem escrow_solvent:
  assumes "esc_construct oz token owner = Inr s0" and "honest_token tk token self"
    and "(esc_step oz tk self (leaves_token token))\<^sup>*\<^sup>* (s0, t0) (s, t)"
  shows "sum_all (esc_brandBalances s) + sum_all (esc_supplierPendingTotals s) \<le> uint (token_balance tk token self t)"
proof -
  have start: "esc_paymentToken s0 = token" "esc_owes s0 = 0"
    using assms(1) by (auto simp: esc_construct_def inr_iff esc_owes_def)
  then have run: "(esc_covered_step oz tk self)\<^sup>*\<^sup>* (s0, t0) (s, t)" and token: "esc_paymentToken s = token"
    using esc_steps_covered [OF assms(3,2)] by simp_all
  from escrow_funds.covered [OF run] show ?thesis
    by (simp add: start token esc_owes_def [of s] esc_holds_def)
qed

theorem escrow_solvent_witness:
  "sum_all (esc_brandBalances demo_recorded) + sum_all (esc_supplierPendingTotals demo_recorded) \<le> 100 \<and>
     sum_all (esc_brandBalances demo_recorded) = 70"
  using escrow_solvent [OF demo_escrow_construct ledger_honest demo_escrow_run]
  by (simp add: leaves_token_def ledger_token_def demo_paid_tokens_def) (simp add: demo_recorded_def)

end
