(* ===== verification/PaymentDistributor.thy ===== *)
theory PaymentDistributor
  imports Custody
begin

text \<open>
  The contract \<open>src/contracts/src/PaymentDistributor.sol\<close>: its storage as the record \<open>Distributor\<close>,
  one definition per external function and the dispatch \<open>dst_exec\<close>. What the lemmas show: the fees
  never exceed a tenth of a payment and the split loses nothing, when computing it overflows, and
  that the fees accumulated are always covered by the tokens held.
\<close>

datatype dst_event =
    PaymentDistributed address address uint256 uint256 uint256
  | FeesUpdated uint256 uint256
  | TreasuryUpdated address address
  | ProtocolFeesClaimed address uint256
  | GatewayFeesClaimed address uint256

record 'b Distributor =
  dst_base :: 'b
  dst_paymentToken :: address
  dst_protocolTreasury :: address
  dst_protocolFeeBps :: uint256
  dst_gatewayFeeBps :: uint256
  dst_accumulatedProtocolFees :: uint256
  dst_accumulatedGatewayFees :: "address \<Rightarrow> uint256"
  dst_log :: "dst_event list"

definition MAX_TOTAL_FEE_BPS :: uint256 where
  "MAX_TOTAL_FEE_BPS = 1000"

definition BPS_DENOMINATOR :: uint256 where
  "BPS_DENOMINATOR = 10000"

definition DEFAULT_PROTOCOL_FEE_BPS :: uint256 where
  "DEFAULT_PROTOCOL_FEE_BPS = 200"

definition DEFAULT_GATEWAY_FEE_BPS :: uint256 where
  "DEFAULT_GATEWAY_FEE_BPS = 50"

section \<open>The contract\<close>

definition dst_construct ::
  "'b openzeppelin \<Rightarrow> address \<Rightarrow> address \<Rightarrow> address \<Rightarrow> evm_revert + 'b Distributor" where
  "dst_construct oz paymentToken protocolTreasury initialOwner =
     sum_bind (oz_construct oz initialOwner) (\<lambda>b.
     revert_if (protocolTreasury = 0) InvalidAddress
     (Inr \<lparr>dst_base = b, dst_paymentToken = paymentToken, dst_protocolTreasury = protocolTreasury,
       dst_protocolFeeBps = DEFAULT_PROTOCOL_FEE_BPS, dst_gatewayFeeBps = DEFAULT_GATEWAY_FEE_BPS,
       dst_accumulatedProtocolFees = 0, dst_accumulatedGatewayFees = (\<lambda>_. 0), dst_log = []\<rparr>))"

definition dst_calculateFees :: "uint256 \<Rightarrow> 'b Distributor \<Rightarrow> evm_revert + uint256 \<times> uint256 \<times> uint256" where
  "dst_calculateFees totalAmount s =
     sum_bind (checked_mul totalAmount (dst_protocolFeeBps s)) (\<lambda>p.
     let protocolFee = p div BPS_DENOMINATOR in
     sum_bind (checked_mul totalAmount (dst_gatewayFeeBps s)) (\<lambda>g.
     let gatewayFee = g div BPS_DENOMINATOR in
     sum_bind (checked_sub totalAmount protocolFee) (\<lambda>rest.
     sum_bind (checked_sub rest gatewayFee) (\<lambda>supplierAmount.
     Inr (supplierAmount, protocolFee, gatewayFee)))))"

definition dst_distribute ::
  "'b openzeppelin \<Rightarrow> 't erc20 \<Rightarrow> TxContext \<Rightarrow> address \<Rightarrow> uint256 \<Rightarrow> address \<Rightarrow> 'b Distributor \<times> 't \<Rightarrow>
     evm_revert + 'b Distributor \<times> 't" where
  "dst_distribute oz tk msg supplier totalAmount gateway st =
     (case st of (s, t) \<Rightarrow>
      sum_bind (oz_nonReentrant_enter oz (dst_base s)) (\<lambda>b.
      modifier (oz_whenNotPaused oz b)
     (revert_if (supplier = 0) InvalidAddress
     (revert_if (totalAmount = 0) InvalidAmount
     (sum_bind (dst_calculateFees totalAmount s) (\<lambda>(supplierAmount, protocolFee, gatewayFee).
      sum_bind (safeTransferFrom tk (dst_paymentToken s) (this_address msg) (msg_sender msg)
        (this_address msg) totalAmount t) (\<lambda>t1.
      sum_bind (safeTransfer tk (dst_paymentToken s) (this_address msg) supplier supplierAmount t1) (\<lambda>t2.
      sum_bind (checked_add (dst_accumulatedProtocolFees s) protocolFee) (\<lambda>protocol.
      sum_bind (if gateway \<noteq> 0 \<and> 0 < gatewayFee
        then sum_bind (checked_add (dst_accumulatedGatewayFees s gateway) gatewayFee) (\<lambda>fees.
             Inr (s\<lparr>dst_accumulatedProtocolFees := protocol,
                    dst_accumulatedGatewayFees := (dst_accumulatedGatewayFees s)(gateway := fees)\<rparr>))
        else sum_bind (checked_add protocol gatewayFee) (\<lambda>fees.
             Inr (s\<lparr>dst_accumulatedProtocolFees := fees\<rparr>))) (\<lambda>s'.
      Inr (s'\<lparr>dst_base := oz_nonReentrant_leave oz b,
              dst_log := dst_log s @
                [PaymentDistributed supplier gateway supplierAmount protocolFee gatewayFee]\<rparr>, t2)))))))))))"

definition dst_setFees ::
  "'b openzeppelin \<Rightarrow> TxContext \<Rightarrow> uint256 \<Rightarrow> uint256 \<Rightarrow> 'b Distributor \<Rightarrow> evm_revert + 'b Distributor" where
  "dst_setFees oz msg protocolFeeBps gatewayFeeBps s =
     modifier (oz_onlyOwner oz (msg_sender msg) (dst_base s))
     (sum_bind (checked_add protocolFeeBps gatewayFeeBps) (\<lambda>combined.
      revert_if (MAX_TOTAL_FEE_BPS < combined) (FeesTooHigh combined MAX_TOTAL_FEE_BPS)
     (Inr (s\<lparr>dst_protocolFeeBps := protocolFeeBps, dst_gatewayFeeBps := gatewayFeeBps,
             dst_log := dst_log s @ [FeesUpdated protocolFeeBps gatewayFeeBps]\<rparr>))))"

definition dst_setProtocolTreasury ::
  "'b openzeppelin \<Rightarrow> TxContext \<Rightarrow> address \<Rightarrow> 'b Distributor \<Rightarrow> evm_revert + 'b Distributor" where
  "dst_setProtocolTreasury oz msg newTreasury s =
     modifier (oz_onlyOwner oz (msg_sender msg) (dst_base s))
     (revert_if (newTreasury = 0) InvalidAddress
     (Inr (s\<lparr>dst_protocolTreasury := newTreasury,
             dst_log := dst_log s @ [TreasuryUpdated (dst_protocolTreasury s) newTreasury]\<rparr>)))"

definition dst_claimProtocolFees ::
  "'b openzeppelin \<Rightarrow> 't erc20 \<Rightarrow> TxContext \<Rightarrow> 'b Distributor \<times> 't \<Rightarrow> evm_revert + 'b Distributor \<times> 't" where
  "dst_claimProtocolFees oz tk msg st =
     (case st of (s, t) \<Rightarrow>
      sum_bind (oz_nonReentrant_enter oz (dst_base s)) (\<lambda>b.
      let amount = dst_accumulatedProtocolFees s in
      revert_if (amount = 0) NothingToClaim
     (sum_bind (safeTransfer tk (dst_paymentToken s) (this_address msg) (dst_protocolTreasury s) amount t)
        (\<lambda>t'. Inr (s\<lparr>dst_base := oz_nonReentrant_leave oz b, dst_accumulatedProtocolFees := 0,
                     dst_log := dst_log s @ [ProtocolFeesClaimed (dst_protocolTreasury s) amount]\<rparr>, t')))))"

definition dst_claimGatewayFees ::
  "'b openzeppelin \<Rightarrow> 't erc20 \<Rightarrow> TxContext \<Rightarrow> 'b Distributor \<times> 't \<Rightarrow> evm_revert + 'b Distributor \<times> 't" where
  "dst_claimGatewayFees oz tk msg st =
     (case st of (s, t) \<Rightarrow>
      sum_bind (oz_nonReentrant_enter oz (dst_base s)) (\<lambda>b.
      let amount = dst_accumulatedGatewayFees s (msg_sender msg) in
      revert_if (amount = 0) NothingToClaim
     (sum_bind (safeTransfer tk (dst_paymentToken s) (this_address msg) (msg_sender msg) amount t)
        (\<lambda>t'. Inr (s\<lparr>dst_base := oz_nonReentrant_leave oz b,
                     dst_accumulatedGatewayFees := (dst_accumulatedGatewayFees s)(msg_sender msg := 0),
                     dst_log := dst_log s @ [GatewayFeesClaimed (msg_sender msg) amount]\<rparr>, t')))))"

definition dst_emergencyWithdraw ::
  "'b openzeppelin \<Rightarrow> 't erc20 \<Rightarrow> TxContext \<Rightarrow> address \<Rightarrow> address \<Rightarrow> uint256 \<Rightarrow>
     'b Distributor \<times> 't \<Rightarrow> evm_revert + 'b Distributor \<times> 't" where
  "dst_emergencyWithdraw oz tk msg token recipient amount st =
     (case st of (s, t) \<Rightarrow>
      modifier (oz_onlyOwner oz (msg_sender msg) (dst_base s))
     (sum_bind (safeTransfer tk token (this_address msg) recipient amount t) (\<lambda>t'. Inr (s, t'))))"

definition dst_getFees :: "'b Distributor \<Rightarrow> uint256 \<times> uint256" where
  "dst_getFees s = (dst_protocolFeeBps s, dst_gatewayFeeBps s)"

definition dst_getAccumulatedProtocolFees :: "'b Distributor \<Rightarrow> uint256" where
  "dst_getAccumulatedProtocolFees s = dst_accumulatedProtocolFees s"

definition dst_getAccumulatedGatewayFees :: "address \<Rightarrow> 'b Distributor \<Rightarrow> uint256" where
  "dst_getAccumulatedGatewayFees gateway s = dst_accumulatedGatewayFees s gateway"

text \<open>The transactions of the contract and their dispatch.\<close>

datatype dst_call =
    Distribute address uint256 address
  | SetFees uint256 uint256
  | SetProtocolTreasury address
  | ClaimProtocolFees
  | ClaimGatewayFees
  | DistributorEmergencyWithdraw address address uint256
  | DistributorInherited inherited_call

definition dst_exec ::
  "'b openzeppelin \<Rightarrow> 't erc20 \<Rightarrow> TxContext \<Rightarrow> dst_call \<Rightarrow> 'b Distributor \<times> 't \<Rightarrow>
     evm_revert + 'b Distributor \<times> 't" where
  "dst_exec oz tk msg call st =
     (case st of (s, t) \<Rightarrow>
      (case call of
         Distribute supplier amount gateway \<Rightarrow> dst_distribute oz tk msg supplier amount gateway (s, t)
       | SetFees p g \<Rightarrow> sum_bind (dst_setFees oz msg p g s) (\<lambda>s'. Inr (s', t))
       | SetProtocolTreasury a \<Rightarrow> sum_bind (dst_setProtocolTreasury oz msg a s) (\<lambda>s'. Inr (s', t))
       | ClaimProtocolFees \<Rightarrow> dst_claimProtocolFees oz tk msg (s, t)
       | ClaimGatewayFees \<Rightarrow> dst_claimGatewayFees oz tk msg (s, t)
       | DistributorEmergencyWithdraw token recipient amount \<Rightarrow>
           dst_emergencyWithdraw oz tk msg token recipient amount (s, t)
       | DistributorInherited c \<Rightarrow>
           sum_bind (inherited_exec oz msg c (dst_base s)) (\<lambda>b. Inr (s\<lparr>dst_base := b\<rparr>, t))))"

text \<open>The distributor at an address: a transaction by anyone else that takes no payment tokens out
  past the books, or the tokens moving without it.\<close>

definition leaves_fees :: "address \<Rightarrow> dst_call \<Rightarrow> bool" where
  "leaves_fees token call = (case call of DistributorEmergencyWithdraw token' _ _ \<Rightarrow> token' \<noteq> token | _ \<Rightarrow> True)"

inductive dst_step ::
  "'b openzeppelin \<Rightarrow> 't erc20 \<Rightarrow> address \<Rightarrow> (dst_call \<Rightarrow> bool) \<Rightarrow> 'b Distributor \<times> 't \<Rightarrow>
     'b Distributor \<times> 't \<Rightarrow> bool"
  for oz tk self considered where
  transaction:
    "\<lbrakk>this_address msg = self; msg_sender msg \<noteq> self; considered call; dst_exec oz tk msg call st = Inr st'\<rbrakk>
      \<Longrightarrow> dst_step oz tk self considered st st'"
| outside:
    "token_balance tk (dst_paymentToken s) self t \<le> token_balance tk (dst_paymentToken s) self t'
      \<Longrightarrow> dst_step oz tk self considered (s, t) (s, t')"

lemmas dst_defs = dst_exec_def dst_distribute_def dst_setFees_def dst_setProtocolTreasury_def
  dst_claimProtocolFees_def dst_claimGatewayFees_def dst_emergencyWithdraw_def

section \<open>Fees\<close>

definition fees_bounded :: "'b Distributor \<Rightarrow> bool" where
  "fees_bounded s \<longleftrightarrow> uint (dst_protocolFeeBps s) + uint (dst_gatewayFeeBps s) \<le> 1000"

lemma calculateFees_Inr:
  assumes "dst_calculateFees v s = Inr (a, p, g)"
  shows "uint a + uint p + uint g = uint v"
    and "uint p = uint v * uint (dst_protocolFeeBps s) div 10000"
    and "uint g = uint v * uint (dst_gatewayFeeBps s) div 10000"
  using assms
  by (auto simp: dst_calculateFees_def Let_def sum_bind_Inr_iff BPS_DENOMINATOR_def uint_div
      dest!: uint_checked)

lemma tenth:
  assumes "x + y \<le> 1000 * (v :: int)"
  shows "10 * (x div 10000 + y div 10000) \<le> v"
proof -
  have "10000 * (n div 10000) \<le> n" for n :: int
    using pos_mod_sign [of 10000 n] by (simp add: minus_mod_eq_mult_div [symmetric])
  moreover have "10 * (a + b) \<le> v" if "10000 * a \<le> x" "10000 * b \<le> y" for a b
    using that assms by auto
  ultimately show ?thesis by blast
qed

lemma split_fits: "10 * (x + y) \<le> (v :: int) \<Longrightarrow> 0 \<le> x \<Longrightarrow> 0 \<le> y \<Longrightarrow> x \<le> v \<and> y \<le> v - x"
  by auto

lemma floors_within:
  assumes "p + g \<le> (1000 :: int)" and "0 \<le> v"
  shows "10 * (v * p div 10000 + v * g div 10000) \<le> v"
  using mult_left_mono [OF assms] by (intro tenth) (simp add: algebra_simps)

text \<open>With bounded fees the split is computed unless a product does not fit a word.\<close>

lemma fees_computed_iff:
  assumes "fees_bounded s"
  shows "(\<exists>split. dst_calculateFees v s = Inr split) \<longleftrightarrow>
    uint v * uint (dst_protocolFeeBps s) < 2 ^ 256 \<and> uint v * uint (dst_gatewayFeeBps s) < 2 ^ 256"
proof -
  let ?p = "uint v * uint (dst_protocolFeeBps s)" and ?g = "uint v * uint (dst_gatewayFeeBps s)"
  have within: "10 * (?p div 10000 + ?g div 10000) \<le> uint v"
    using floors_within assms by (simp add: fees_bounded_def)
  moreover have "0 \<le> ?p div 10000" "0 \<le> ?g div 10000"
    by (simp_all add: pos_imp_zdiv_nonneg_iff)
  ultimately have "?p div 10000 \<le> uint v \<and> ?g div 10000 \<le> uint v - ?p div 10000"
    using split_fits by blast
  then show ?thesis
    using uint_mult_lem [of v "dst_protocolFeeBps s"] uint_mult_lem [of v "dst_gatewayFeeBps s"]
    by (auto simp: dst_calculateFees_def Let_def sum_bind_def checked_mul_def checked_sub_def
        BPS_DENOMINATOR_def uint_div uint_sub_if' split: if_splits sum.splits)
qed

section \<open>What a transaction does\<close>

definition dst_owes :: "'b Distributor \<Rightarrow> int" where
  "dst_owes s = uint (dst_accumulatedProtocolFees s) + sum_all (dst_accumulatedGatewayFees s)"

text \<open>A distribution: what it splits the payment into and where the parts go.\<close>

lemma dst_distribute_Inr:
  assumes "dst_distribute oz tk msg supplier v gateway (s, t) = Inr (s', t')"
  obtains a p g t1 where "dst_calculateFees v s = Inr (a, p, g)"
    and "safeTransferFrom tk (dst_paymentToken s) (this_address msg) (msg_sender msg) (this_address msg) v t = Inr t1"
    and "safeTransfer tk (dst_paymentToken s) (this_address msg) supplier a t1 = Inr t'"
    and "uint (dst_accumulatedProtocolFees s') = uint (dst_accumulatedProtocolFees s) + uint p +
      (if gateway = 0 then uint g else 0)"
    and "\<forall>x. uint (dst_accumulatedGatewayFees s' x) = uint (dst_accumulatedGatewayFees s x) +
      (if x = gateway \<and> gateway \<noteq> 0 then uint g else 0)"
    and "dst_owes s' = dst_owes s + uint p + uint g"
    and "dst_log s' = dst_log s @ [PaymentDistributed supplier gateway a p g]"
    and "dst_paymentToken s' = dst_paymentToken s" and "dst_protocolFeeBps s' = dst_protocolFeeBps s"
    and "dst_gatewayFeeBps s' = dst_gatewayFeeBps s"
proof -
  obtain b a p g t1 protocol s1 where e: "dst_calculateFees v s = Inr (a, p, g)"
    "safeTransferFrom tk (dst_paymentToken s) (this_address msg) (msg_sender msg) (this_address msg) v t = Inr t1"
    "safeTransfer tk (dst_paymentToken s) (this_address msg) supplier a t1 = Inr t'"
    "checked_add (dst_accumulatedProtocolFees s) p = Inr protocol"
    "(if gateway \<noteq> 0 \<and> 0 < g
        then sum_bind (checked_add (dst_accumulatedGatewayFees s gateway) g) (\<lambda>fees.
             Inr (s\<lparr>dst_accumulatedProtocolFees := protocol,
                    dst_accumulatedGatewayFees := (dst_accumulatedGatewayFees s)(gateway := fees)\<rparr>))
        else sum_bind (checked_add protocol g) (\<lambda>fees.
             Inr (s\<lparr>dst_accumulatedProtocolFees := fees\<rparr>))) = Inr s1"
    "s' = s1\<lparr>dst_base := b, dst_log := dst_log s @ [PaymentDistributed supplier gateway a p g]\<rparr>"
    using assms by (auto simp: dst_distribute_def sum_bind_Inr_iff modifier_Inr_iff revert_if_Inr_iff)
  note protocol = uint_checked_add [OF e(4)]
  show thesis
  proof (cases "gateway \<noteq> 0 \<and> 0 < g")
    case True
    then obtain fees where "checked_add (dst_accumulatedGatewayFees s gateway) g = Inr fees"
      and "s1 = s\<lparr>dst_accumulatedProtocolFees := protocol,
        dst_accumulatedGatewayFees := (dst_accumulatedGatewayFees s)(gateway := fees)\<rparr>"
      using e(5) by (auto simp: sum_bind_Inr_iff)
    with True e protocol show thesis
      by (intro that [of a p g t1]) (auto simp: dst_owes_def dest: uint_checked_add)
  next
    case False
    then obtain fees where "checked_add protocol g = Inr fees" and "s1 = s\<lparr>dst_accumulatedProtocolFees := fees\<rparr>"
      using e(5) by (auto simp: sum_bind_Inr_iff simp del: checked_add_Inr_iff split: if_splits)
    moreover have "gateway = 0 \<or> g = 0"
      using False by (simp add: word_gt_0)
    ultimately show thesis
      using e protocol by (intro that [of a p g t1]) (auto simp: dst_owes_def dest: uint_checked_add)
  qed
qed

lemma dst_exec_fees:
  assumes "dst_exec oz tk msg call (s, t) = Inr (s', t')" and "fees_bounded s"
  shows "fees_bounded s' \<and> dst_paymentToken s' = dst_paymentToken s"
proof (cases call)
  case (Distribute supplier v gateway)
  with assms show ?thesis
    by (auto simp: dst_exec_def fees_bounded_def elim!: dst_distribute_Inr)
next
  case (SetFees p g)
  with assms show ?thesis
    by (auto simp: dst_exec_def dst_setFees_def fees_bounded_def sum_bind_Inr_iff modifier_Inr_iff
        revert_if_Inr_iff MAX_TOTAL_FEE_BPS_def word_less_def not_less dest: uint_checked_add)
qed (use assms in \<open>auto simp: dst_defs Let_def fees_bounded_def inr_iff\<close>)

lemma dst_step_fees:
  assumes "dst_step oz tk self considered st st'" and "fees_bounded (fst st)"
  shows "fees_bounded (fst st') \<and> dst_paymentToken (fst st') = dst_paymentToken (fst st)"
  using assms(1)
proof cases
  case (transaction msg call)
  then show ?thesis
    using dst_exec_fees [of oz tk msg call "fst st" "snd st" "fst st'" "snd st'"] assms(2) by simp
qed (use assms(2) in simp)

lemma dst_steps_fees:
  assumes "(dst_step oz tk self considered)\<^sup>*\<^sup>* st st'" and "fees_bounded (fst st)"
  shows "fees_bounded (fst st') \<and> dst_paymentToken (fst st') = dst_paymentToken (fst st)"
  using assms by (induction rule: rtranclp_induct) (auto dest: dst_step_fees)

section \<open>The fees are there\<close>

definition dst_holds :: "'t erc20 \<Rightarrow> address \<Rightarrow> 'b Distributor \<times> 't \<Rightarrow> int" where
  "dst_holds tk self st = uint (token_balance tk (dst_paymentToken (fst st)) self (snd st))"

lemma dst_exec_covered:
  assumes "dst_exec oz tk msg call (s, t) = Inr (s', t')" and "msg_sender msg \<noteq> this_address msg"
    and "leaves_fees (dst_paymentToken s) call" and h: "honest_token tk (dst_paymentToken s) (this_address msg)"
  shows "dst_owes s' - dst_owes s \<le> uint (token_balance tk (dst_paymentToken s) (this_address msg) t') -
    uint (token_balance tk (dst_paymentToken s) (this_address msg) t)"
proof (cases call)
  case (Distribute supplier v gateway)
  then have "dst_distribute oz tk msg supplier v gateway (s, t) = Inr (s', t')"
    using assms(1) by (simp add: dst_exec_def)
  then show ?thesis
  proof (rule dst_distribute_Inr)
    fix a p g t1
    assume "dst_calculateFees v s = Inr (a, p, g)" "dst_owes s' = dst_owes s + uint p + uint g"
      and "safeTransferFrom tk (dst_paymentToken s) (this_address msg) (msg_sender msg) (this_address msg) v t = Inr t1"
      and "safeTransfer tk (dst_paymentToken s) (this_address msg) supplier a t1 = Inr t'"
    then show ?thesis
      using calculateFees_Inr(1) honest_tokenD(1,2) [OF h] assms(2) by fastforce
  qed
next
  case ClaimProtocolFees
  with assms(1) show ?thesis
    by (auto simp: dst_exec_def dst_claimProtocolFees_def Let_def sum_bind_Inr_iff revert_if_Inr_iff dst_owes_def
        dest!: honest_tokenD(1) [OF h])
next
  case ClaimGatewayFees
  with assms(1) show ?thesis
    by (auto simp: dst_exec_def dst_claimGatewayFees_def Let_def sum_bind_Inr_iff revert_if_Inr_iff dst_owes_def
        dest!: honest_tokenD(1) [OF h])
next
  case (DistributorEmergencyWithdraw token recipient v)
  with assms(1,3) have "s' = s" and "token \<noteq> dst_paymentToken s"
    and "safeTransfer tk token (this_address msg) recipient v t = Inr t'"
    by (auto simp: dst_exec_def dst_emergencyWithdraw_def sum_bind_Inr_iff modifier_Inr_iff leaves_fees_def)
  then show ?thesis
    using honest_tokenD(3) [OF h] by simp
qed (use assms(1) in \<open>auto simp: dst_defs inr_iff dst_owes_def\<close>)

text \<open>A step that leaves the payment token to an honest token contract.\<close>

definition dst_covered_step ::
  "'b openzeppelin \<Rightarrow> 't erc20 \<Rightarrow> address \<Rightarrow> 'b Distributor \<times> 't \<Rightarrow> 'b Distributor \<times> 't \<Rightarrow> bool" where
  "dst_covered_step oz tk self st st' \<longleftrightarrow> honest_token tk (dst_paymentToken (fst st)) self \<and>
     fees_bounded (fst st) \<and> dst_step oz tk self (leaves_fees (dst_paymentToken (fst st))) st st'"

interpretation fee_funds: custodian "dst_covered_step oz tk self" "dst_holds tk self" "dst_owes \<circ> fst"
  for oz tk self
proof
  fix st st' :: "'a Distributor \<times> 'b"
  assume "dst_covered_step oz tk self st st'"
  then have h: "honest_token tk (dst_paymentToken (fst st)) self" and fees: "fees_bounded (fst st)"
    and step: "dst_step oz tk self (leaves_fees (dst_paymentToken (fst st))) st st'"
    by (simp_all add: dst_covered_step_def)
  have token: "dst_paymentToken (fst st') = dst_paymentToken (fst st)"
    using dst_step_fees [OF step fees] ..
  from step show "(dst_owes \<circ> fst) st' - (dst_owes \<circ> fst) st \<le> dst_holds tk self st' - dst_holds tk self st"
  proof cases
    case (transaction msg call)
    then show ?thesis
      using dst_exec_covered [of oz tk msg call "fst st" "snd st" "fst st'" "snd st'"] h
      by (simp add: dst_holds_def token)
  next
    case outside
    then show ?thesis by (simp add: dst_holds_def word_le_def)
  qed
qed

lemma dst_steps_covered:
  assumes "(dst_step oz tk self (leaves_fees token))\<^sup>*\<^sup>* st st'" and "fees_bounded (fst st)"
    and "honest_token tk token self" and "dst_paymentToken (fst st) = token"
  shows "(dst_covered_step oz tk self)\<^sup>*\<^sup>* st st'"
  using assms(1)
proof (induction rule: rtranclp_induct)
  case base
  then show ?case ..
next
  case (step st' st'')
  have "dst_covered_step oz tk self st' st''"
    using step.hyps dst_steps_fees [OF step.hyps(1) assms(2)] assms(3,4) by (simp add: dst_covered_step_def)
  with step.IH show ?case ..
qed

section \<open>Properties\<close>

lemma constructed_fees:
  "dst_construct oz token treasury owner = Inr s \<Longrightarrow> fees_bounded s \<and> dst_paymentToken s = token \<and> dst_owes s = 0"
  by (auto simp: dst_construct_def inr_iff fees_bounded_def dst_owes_def DEFAULT_PROTOCOL_FEE_BPS_def
      DEFAULT_GATEWAY_FEE_BPS_def)

text \<open>C37: Whatever fees were set before, a distribution splits the payment without loss: the supplier
  gets at least nine tenths of it, and what it does not get is accumulated, the gateway's fee for
  the gateway and the protocol's, with that of a missing gateway, for the protocol.\<close>

theorem distribution_splits_payment:
  assumes "dst_construct oz token treasury owner = Inr s0"
    and "(dst_step oz tk self (\<lambda>_. True))\<^sup>*\<^sup>* (s0, t0) (s, t)"
    and "dst_distribute oz tk msg supplier amount gateway (s, t) = Inr (s', t')"
  shows "\<exists>a p g t1. uint a + uint p + uint g = uint amount \<and> 10 * uint a \<ge> 9 * uint amount \<and>
    uint p = uint amount * uint (dst_protocolFeeBps s) div 10000 \<and>
    uint g = uint amount * uint (dst_gatewayFeeBps s) div 10000 \<and>
    safeTransfer tk token (this_address msg) supplier a t1 = Inr t' \<and>
    dst_log s' = dst_log s @ [PaymentDistributed supplier gateway a p g] \<and>
    uint (dst_getAccumulatedProtocolFees s') =
      uint (dst_getAccumulatedProtocolFees s) + uint p + (if gateway = 0 then uint g else 0) \<and>
    (\<forall>x. uint (dst_getAccumulatedGatewayFees x s') =
      uint (dst_getAccumulatedGatewayFees x s) + (if x = gateway \<and> gateway \<noteq> 0 then uint g else 0))"
  using assms(3)
proof (rule dst_distribute_Inr)
  fix a p g t1
  assume split: "dst_calculateFees amount s = Inr (a, p, g)"
    and paid: "safeTransfer tk (dst_paymentToken s) (this_address msg) supplier a t1 = Inr t'"
    and rest: "dst_log s' = dst_log s @ [PaymentDistributed supplier gateway a p g]"
      "uint (dst_accumulatedProtocolFees s') = uint (dst_accumulatedProtocolFees s) + uint p +
        (if gateway = 0 then uint g else 0)"
      "\<forall>x. uint (dst_accumulatedGatewayFees s' x) = uint (dst_accumulatedGatewayFees s x) +
        (if x = gateway \<and> gateway \<noteq> 0 then uint g else 0)"
  have s: "fees_bounded s" "dst_paymentToken s = token"
    using dst_steps_fees [OF assms(2)] constructed_fees [OF assms(1)] by simp_all
  note parts = calculateFees_Inr [OF split]
  have "10 * (uint p + uint g) \<le> uint amount"
    unfolding parts(2,3) using s(1) by (intro floors_within) (simp_all add: fees_bounded_def)
  then have "9 * uint amount \<le> 10 * uint a"
    using parts(1) by auto
  then show ?thesis
    using parts paid rest s(2)
    by (intro exI [of _ a] exI [of _ p] exI [of _ g] exI [of _ t1])
      (simp add: dst_getAccumulatedProtocolFees_def dst_getAccumulatedGatewayFees_def)
qed

text \<open>C38: The fees can always be claimed: as long as the owner does not take the payment token out and
  the token is honest, the accumulated fees of the protocol and of all gateways are together no
  more than the tokens the distributor holds.\<close>

theorem distributor_solvent:
  assumes "dst_construct oz token treasury owner = Inr s0" and "honest_token tk token self"
    and "(dst_step oz tk self (leaves_fees token))\<^sup>*\<^sup>* (s0, t0) (s, t)"
  shows "uint (dst_accumulatedProtocolFees s) + sum_all (dst_accumulatedGatewayFees s)
    \<le> uint (token_balance tk token self t)"
proof -
  note start = constructed_fees [OF assms(1)]
  have run: "(dst_covered_step oz tk self)\<^sup>*\<^sup>* (s0, t0) (s, t)"
    using dst_steps_covered [OF assms(3) _ assms(2)] start by simp
  have "dst_paymentToken s = token"
    using dst_steps_fees [OF assms(3)] start by simp
  with fee_funds.covered [OF run] start show ?thesis
    by (simp add: dst_owes_def [of s] dst_holds_def)
qed

section \<open>An example\<close>

text \<open>A distributor at address 902 for the token at 800, owned by 1, with the treasury at 3: a payment
  of 10000 by 7 to supplier 2 over gateway 4.\<close>

definition demo_distributor :: "(address \<times> bool \<times> bool) Distributor" where
  "demo_distributor = \<lparr>dst_base = (1, False, False), dst_paymentToken = 800, dst_protocolTreasury = 3,
     dst_protocolFeeBps = 200, dst_gatewayFeeBps = 50, dst_accumulatedProtocolFees = 0,
     dst_accumulatedGatewayFees = (\<lambda>_. 0), dst_log = []\<rparr>"

definition demo_distributed :: "(address \<times> bool \<times> bool) Distributor" where
  "demo_distributed = demo_distributor\<lparr>dst_accumulatedProtocolFees := 200,
     dst_accumulatedGatewayFees := (\<lambda>_. 0)(4 := 50), dst_log := [PaymentDistributed 2 4 9750 200 50]\<rparr>"

definition payer_tokens :: token_tables where
  "payer_tokens = (\<lambda>_ _. 0)(800 := (\<lambda>_. 0)(7 := 12000))"

definition supplier_tokens :: token_tables where
  "supplier_tokens = (\<lambda>_ _. 0)(800 := (\<lambda>_. 0)(7 := 2000, 902 := 250, 2 := 9750))"

definition demo_payment :: TxContext where
  "demo_payment = \<lparr>msg_sender = 7, block_timestamp = 0, this_address = 902\<rparr>"

lemma demo_distributor_construct: "dst_construct small_oz 800 3 1 = Inr demo_distributor"
  by (simp add: dst_construct_def small_oz_def demo_distributor_def revert_if_def
      DEFAULT_PROTOCOL_FEE_BPS_def DEFAULT_GATEWAY_FEE_BPS_def)

lemma demo_fees: "dst_calculateFees 10000 demo_distributor = Inr (9750, 200, 50)"
  by (simp add: dst_calculateFees_def demo_distributor_def Let_def checked_mul_def checked_sub_def BPS_DENOMINATOR_def)

lemma demo_distribute:
  "dst_distribute small_oz ledger_token demo_payment 2 10000 4 (demo_distributor, payer_tokens) =
     Inr (demo_distributed, supplier_tokens)"
  by (simp add: dst_distribute_def modifier_def revert_if_def demo_fees)
    (simp add: small_oz_def demo_distributor_def demo_payment_def ledger_token_def ledger_move_def
      payer_tokens_def supplier_tokens_def checked_sub_def checked_add_def Let_def demo_distributed_def
      fun_upd_twist demo_fees [unfolded demo_distributor_def])

theorem distribution_splits_payment_witness:
  "\<exists>a p g. uint a + uint p + uint g = uint (10000 :: uint256) \<and>
     dst_log demo_distributed = [PaymentDistributed 2 4 a p g] \<and> 10 * uint a \<ge> 90000 \<and>
     uint (dst_getAccumulatedGatewayFees 4 demo_distributed) = uint g"
  using distribution_splits_payment [OF demo_distributor_construct rtranclp.rtrancl_refl demo_distribute]
  by (auto simp: demo_distributor_def dst_getAccumulatedGatewayFees_def)

theorem distributor_solvent_witness:
  "uint (dst_accumulatedProtocolFees demo_distributed) + sum_all (dst_accumulatedGatewayFees demo_distributed) \<le> 250 \<and>
     sum_all (dst_accumulatedGatewayFees demo_distributed) = 50"
proof -
  have "dst_step small_oz ledger_token 902 (leaves_fees 800) (demo_distributor, payer_tokens)
      (demo_distributed, supplier_tokens)"
    by (rule dst_step.transaction [where call = "Distribute 2 10000 4" and msg = demo_payment])
      (simp_all add: demo_payment_def leaves_fees_def dst_exec_def demo_distribute [unfolded demo_payment_def])
  then have "(dst_step small_oz ledger_token 902 (leaves_fees 800))\<^sup>*\<^sup>* (demo_distributor, payer_tokens)
      (demo_distributed, supplier_tokens)" ..
  from distributor_solvent [OF demo_distributor_construct ledger_honest this] show ?thesis
    by (simp add: ledger_token_def supplier_tokens_def) (simp add: demo_distributed_def demo_distributor_def)
qed

end
