(* ===== verification/Generator.thy ===== *)
theory Generator
  imports Predicates
begin

text \<open>
  The predicate generator of \<open>packages/predicate-lib/src/generator.ts\<close> and the eight battery
  predicates of \<open>generate-battery-predicates.ts\<close>: configurations as a datatype with the base
  fields as a record, the substitution of template variables as JavaScript's \<open>replace\<close> does it,
  one generator per template, and the files and the registry it writes, over a record of the
  files it sees. Reading back the registry's JSON gives what was written. The lemmas show that the
  variables are filled in simultaneously when values hold no \<open>{{\<close>, that the loop of replacements
  ends, that a generated predicate is found in the registry with its circuit at the registered
  path, and that the shipped registry is what the battery configurations generate.
\<close>

section \<open>Configurations\<close>

datatype RangeComparison = RangeGte | RangeLte
datatype MembershipType = Membership | NonMembership
datatype ValueType = U32 | U64

record BasePredicateConfig =
  bp_name :: string
  bp_version :: string
  bp_description :: string
  bp_claimType :: string
  bp_accessGroups :: "AccessGroup list"
  bp_pricing :: PredicatePricing

record RangePredicateConfig =
  rg_comparison :: RangeComparison
  rg_unit :: string
  rg_valueType :: ValueType
  rg_thresholdDescription :: string
  rg_rangeValidation :: string
  rg_failMessage :: string
  rg_validValue :: nat
  rg_validThreshold :: nat
  rg_invalidValue :: nat
  rg_invalidThreshold :: nat
  rg_exactValue :: nat

record SetMembershipConfig =
  sm_membershipType :: MembershipType
  sm_setDescription :: string
  sm_setElementDescription :: string
  sm_maxSetSize :: nat
  sm_domainSeparator :: string
  sm_failMessage :: string
  sm_setElements :: string
  sm_setSize :: nat
  sm_validValue :: string
  sm_invalidValue :: string
  sm_membershipTestDesc :: string

record DualRangeConfig =
  dr_unit :: string
  dr_valueType :: ValueType
  dr_rangeValidation :: string
  dr_minThreshold :: nat
  dr_maxThreshold :: nat
  dr_validValue :: nat
  dr_belowMinValue :: nat
  dr_aboveMaxValue :: nat

record LifecycleConfig =
  lc_metric :: string
  lc_unit :: string
  lc_numStages :: nat
  lc_stageNames :: string
  lc_stageValidation :: string
  lc_threshold :: nat
  lc_validStages :: string
  lc_invalidStages :: string
  lc_claimTypeHashes :: string
  lc_unitHashes :: string

datatype PredicateConfig =
    RangeConfig BasePredicateConfig RangePredicateConfig
  | SetConfig BasePredicateConfig SetMembershipConfig
  | TimestampConfig BasePredicateConfig string
  | DualRangeConfig BasePredicateConfig DualRangeConfig
  | LifecycleConfig BasePredicateConfig LifecycleConfig

fun base_config :: "PredicateConfig \<Rightarrow> BasePredicateConfig" where
  "base_config (RangeConfig b r) = b"
| "base_config (SetConfig b s) = b"
| "base_config (TimestampConfig b credentialType) = b"
| "base_config (DualRangeConfig b d) = b"
| "base_config (LifecycleConfig b l) = b"

section \<open>Substitution\<close>

text \<open>
  The replacement text of \<open>replace\<close>: \<open>$$\<close>, \<open>$&\<close>, \<open>$`\<close> and \<open>$'\<close> stand for a dollar sign, the
  match, what precedes and what follows it; the pattern has no groups, so any other use of the
  sign is literal.
\<close>

fun js_expand :: "string \<Rightarrow> string \<Rightarrow> string \<Rightarrow> string \<Rightarrow> string" where
  "js_expand (c # d # cs) before match after =
     (if c = CHR ''$'' \<and> d = CHR ''$'' then CHR ''$'' # js_expand cs before match after
      else if c = CHR ''$'' \<and> d = CHR ''&'' then match @ js_expand cs before match after
      else if c = CHR ''$'' \<and> d = CHR 0x60 then before @ js_expand cs before match after
      else if c = CHR ''$'' \<and> d = CHR 0x27 then after @ js_expand cs before match after
      else c # js_expand (d # cs) before match after)"
| "js_expand cs before match after = cs"

text \<open>
  \<open>s.replace(regex, value)\<close> with a global regular expression that is the literal text \<open>p\<close>: the
  matches from left to right; \<open>before\<close> is what has been passed.
\<close>

function js_replace_all :: "string \<Rightarrow> string \<Rightarrow> string \<Rightarrow> string \<Rightarrow> string" where
  "js_replace_all p v before [] = []"
| "js_replace_all p v before (c # cs) =
     (if js_startsWith (c # cs) p
      then (let after = drop (length p - 1) cs in
            js_expand v before p after @ js_replace_all p v (before @ p) after)
      else c # js_replace_all p v (before @ [c]) cs)"
  by pat_completeness auto

termination js_replace_all
  by (relation "measure (\<lambda>(p, v, before, s). length s)") auto

definition placeholder :: "string \<Rightarrow> string" where
  "placeholder key = ''{{'' @ key @ ''}}''"

definition applySubstitutions :: "string \<Rightarrow> (string \<times> string) list \<Rightarrow> string" where
  "applySubstitutions template substitutions =
     foldl (\<lambda>result (key, val). js_replace_all (placeholder key) val [] result)
       template substitutions"

section \<open>Code fragments\<close>

fun valueTypeText :: "ValueType \<Rightarrow> string" where
  "valueTypeText U32 = ''u32''"
| "valueTypeText U64 = ''u64''"

fun generateRangeAssertion :: "RangeComparison \<Rightarrow> string \<Rightarrow> string" where
  "generateRangeAssertion RangeGte failMessage =
     ''assert(actual_value >= threshold, \"'' @ failMessage @ ''\");''"
| "generateRangeAssertion RangeLte failMessage =
     ''assert(actual_value <= threshold, \"'' @ failMessage @ ''\");''"

fun generatePredicateAssertion :: "RangeComparison \<Rightarrow> string" where
  "generatePredicateAssertion RangeGte = ''actual_value >= threshold''"
| "generatePredicateAssertion RangeLte = ''actual_value <= threshold''"

definition generateMembershipCheck :: "MembershipType \<Rightarrow> string \<Rightarrow> string" where
  "generateMembershipCheck membershipType failMessage =
     js_join [CHR 0x0A]
       [''    let mut found = false;'',
        ''    for i in 0..MAX_SET_SIZE {'',
        ''        if (i as u32) < set_size {'',
        ''            if bytes_equal(actual_value, set_elements[i]) {'',
        ''                found = true;'',
        ''            }'',
        ''        }'',
        ''    }'',
        (case membershipType of Membership \<Rightarrow> ''    assert(found, \"''
         | NonMembership \<Rightarrow> ''    assert(!found, \"'') @ failMessage @ ''\");'']"

fun membershipText :: "MembershipType \<Rightarrow> string" where
  "membershipText Membership = ''membership''"
| "membershipText NonMembership = ''non_membership''"

section \<open>Templates\<close>

text \<open>The files the generator sees: templates by name, what it writes, and the registry.\<close>

record GenFiles =
  gf_templates :: "string \<Rightarrow> string option"
  gf_dirs :: "string list"
  gf_written :: "(string, string) js_map"
  gf_registry :: "PredicateRegistry option"

text \<open>What is thrown here is text: the paths of the templates are relative to their directory.\<close>

definition readTemplate :: "GenFiles \<Rightarrow> string \<Rightarrow> string + string" where
  "readTemplate fs templateName =
     (case gf_templates fs templateName of
        None \<Rightarrow> Inl (''Template not found: '' @ templateName)
      | Some t \<Rightarrow> Inr t)"

definition range_substitutions ::
  "BasePredicateConfig \<Rightarrow> RangePredicateConfig \<Rightarrow> (string \<times> string) list" where
  "range_substitutions b c =
     [(''PREDICATE_NAME'', bp_name b), (''VERSION'', bp_version b),
      (''DESCRIPTION'', bp_description b), (''THRESHOLD_DESCRIPTION'', rg_thresholdDescription c),
      (''CLAIM_TYPE'', bp_claimType b), (''UNIT'', rg_unit c),
      (''VALUE_TYPE'', valueTypeText (rg_valueType c)),
      (''PREDICATE_ASSERTION'', generatePredicateAssertion (rg_comparison c)),
      (''ASSERTION_CODE'', generateRangeAssertion (rg_comparison c) (rg_failMessage c)),
      (''RANGE_VALIDATION'', rg_rangeValidation c), (''FAIL_MESSAGE'', rg_failMessage c),
      (''TEST_VALID_VALUE'', show_nat (rg_validValue c)),
      (''TEST_VALID_THRESHOLD'', show_nat (rg_validThreshold c)),
      (''TEST_INVALID_VALUE'', show_nat (rg_invalidValue c)),
      (''TEST_INVALID_THRESHOLD'', show_nat (rg_invalidThreshold c)),
      (''TEST_EXACT_VALUE'', show_nat (rg_exactValue c))]"

definition generateRangePredicate ::
  "GenFiles \<Rightarrow> BasePredicateConfig \<Rightarrow> RangePredicateConfig \<Rightarrow> string + string" where
  "generateRangePredicate fs b c =
     sum_bind (readTemplate fs ''range_predicate.nr.tmpl'')
       (\<lambda>template. Inr (applySubstitutions template (range_substitutions b c)))"

definition set_substitutions ::
  "BasePredicateConfig \<Rightarrow> SetMembershipConfig \<Rightarrow> (string \<times> string) list" where
  "set_substitutions b c =
     [(''PREDICATE_NAME'', bp_name b), (''VERSION'', bp_version b),
      (''DESCRIPTION'', bp_description b), (''SET_DESCRIPTION'', sm_setDescription c),
      (''SET_ELEMENT_DESCRIPTION'', sm_setElementDescription c), (''CLAIM_TYPE'', bp_claimType b),
      (''MAX_SET_SIZE'', show_nat (sm_maxSetSize c)), (''DOMAIN_SEPARATOR'', sm_domainSeparator c),
      (''MEMBERSHIP_TYPE'', membershipText (sm_membershipType c)),
      (''MEMBERSHIP_CHECK_CODE'', generateMembershipCheck (sm_membershipType c) (sm_failMessage c)),
      (''FAIL_MESSAGE'', sm_failMessage c), (''TEST_SET_ELEMENTS'', sm_setElements c),
      (''TEST_SET_SIZE'', show_nat (sm_setSize c)), (''TEST_VALID_VALUE'', sm_validValue c),
      (''TEST_INVALID_VALUE'', sm_invalidValue c),
      (''MEMBERSHIP_TEST_DESCRIPTION'', sm_membershipTestDesc c)]"

definition generateSetMembershipPredicate ::
  "GenFiles \<Rightarrow> BasePredicateConfig \<Rightarrow> SetMembershipConfig \<Rightarrow> string + string" where
  "generateSetMembershipPredicate fs b c =
     sum_bind (readTemplate fs ''set_membership.nr.tmpl'')
       (\<lambda>template. Inr (applySubstitutions template (set_substitutions b c)))"

definition timestamp_substitutions :: "BasePredicateConfig \<Rightarrow> string \<Rightarrow> (string \<times> string) list" where
  "timestamp_substitutions b credentialType =
     [(''PREDICATE_NAME'', bp_name b), (''VERSION'', bp_version b),
      (''DESCRIPTION'', bp_description b), (''CLAIM_TYPE'', bp_claimType b),
      (''CREDENTIAL_TYPE'', credentialType)]"

definition generateTimestampPredicate ::
  "GenFiles \<Rightarrow> BasePredicateConfig \<Rightarrow> string \<Rightarrow> string + string" where
  "generateTimestampPredicate fs b credentialType =
     sum_bind (readTemplate fs ''timestamp_validity.nr.tmpl'')
       (\<lambda>template. Inr (applySubstitutions template (timestamp_substitutions b credentialType)))"

definition dual_range_substitutions ::
  "BasePredicateConfig \<Rightarrow> DualRangeConfig \<Rightarrow> (string \<times> string) list" where
  "dual_range_substitutions b c =
     [(''PREDICATE_NAME'', bp_name b), (''VERSION'', bp_version b),
      (''DESCRIPTION'', bp_description b), (''CLAIM_TYPE'', bp_claimType b),
      (''UNIT'', dr_unit c), (''VALUE_TYPE'', valueTypeText (dr_valueType c)),
      (''RANGE_VALIDATION'', dr_rangeValidation c),
      (''TEST_MIN_THRESHOLD'', show_nat (dr_minThreshold c)),
      (''TEST_MAX_THRESHOLD'', show_nat (dr_maxThreshold c)),
      (''TEST_VALID_VALUE'', show_nat (dr_validValue c)),
      (''TEST_BELOW_MIN'', show_nat (dr_belowMinValue c)),
      (''TEST_ABOVE_MAX'', show_nat (dr_aboveMaxValue c))]"

definition generateDualRangePredicate ::
  "GenFiles \<Rightarrow> BasePredicateConfig \<Rightarrow> DualRangeConfig \<Rightarrow> string + string" where
  "generateDualRangePredicate fs b c =
     sum_bind (readTemplate fs ''dual_range.nr.tmpl'')
       (\<lambda>template. Inr (applySubstitutions template (dual_range_substitutions b c)))"

definition lifecycle_substitutions ::
  "BasePredicateConfig \<Rightarrow> LifecycleConfig \<Rightarrow> (string \<times> string) list" where
  "lifecycle_substitutions b c =
     [(''PREDICATE_NAME'', bp_name b), (''VERSION'', bp_version b),
      (''DESCRIPTION'', bp_description b), (''METRIC'', lc_metric c), (''UNIT'', lc_unit c),
      (''NUM_STAGES'', show_nat (lc_numStages c)), (''STAGE_NAMES'', lc_stageNames c),
      (''STAGE_VALIDATION'', lc_stageValidation c), (''TEST_THRESHOLD'', show_nat (lc_threshold c)),
      (''TEST_VALID_STAGES'', lc_validStages c), (''TEST_INVALID_STAGES'', lc_invalidStages c),
      (''TEST_CLAIM_TYPE_HASHES'', lc_claimTypeHashes c), (''TEST_UNIT_HASHES'', lc_unitHashes c)]"

definition generateLifecyclePredicate ::
  "GenFiles \<Rightarrow> BasePredicateConfig \<Rightarrow> LifecycleConfig \<Rightarrow> string + string" where
  "generateLifecyclePredicate fs b c =
     sum_bind (readTemplate fs ''lifecycle_aggregation.nr.tmpl'')
       (\<lambda>template. Inr (applySubstitutions template (lifecycle_substitutions b c)))"

definition generateNargoToml :: "GenFiles \<Rightarrow> string \<Rightarrow> string + string" where
  "generateNargoToml fs circuitName =
     sum_bind (readTemplate fs ''Nargo.toml.tmpl'')
       (\<lambda>template. Inr (applySubstitutions template [(''CIRCUIT_NAME'', circuitName)]))"

section \<open>Files and registry\<close>

text \<open>Paths are relative to the directory of the circuits; \<open>mkdirSync\<close> only when missing.\<close>

definition ensure_dir :: "string \<Rightarrow> GenFiles \<Rightarrow> GenFiles" where
  "ensure_dir d fs = (if d \<in> set (gf_dirs fs) then fs else fs\<lparr>gf_dirs := gf_dirs fs @ [d]\<rparr>)"

definition write_file :: "string \<Rightarrow> string \<Rightarrow> GenFiles \<Rightarrow> GenFiles" where
  "write_file path content fs = fs\<lparr>gf_written := jm_set (gf_written fs) path content\<rparr>"

definition writeCircuitFiles :: "string \<Rightarrow> string \<Rightarrow> string \<Rightarrow> GenFiles \<Rightarrow> GenFiles" where
  "writeCircuitFiles circuitName mainNr nargoToml fs =
     (let srcDir = circuitName @ ''/src'' in
      write_file (circuitName @ ''/Nargo.toml'') nargoToml
        (write_file (srcDir @ ''/main.nr'') mainNr
          (ensure_dir srcDir (ensure_dir circuitName fs))))"

definition config_id :: "PredicateConfig \<Rightarrow> string" where
  "config_id config = bp_name (base_config config) @ ''_'' @ bp_version (base_config config)"

definition circuit_name :: "PredicateConfig \<Rightarrow> string" where
  "circuit_name config = js_toLowerCase (bp_name (base_config config)) @ ''_'' @
     js_toLowerCase (bp_version (base_config config))"

fun config_comparison :: "PredicateConfig \<Rightarrow> ComparisonType" where
  "config_comparison (RangeConfig b c) =
     (case rg_comparison c of RangeGte \<Rightarrow> Gte | RangeLte \<Rightarrow> Lte)"
| "config_comparison (SetConfig b c) =
     (case sm_membershipType c of Membership \<Rightarrow> SetMembership | NonMembership \<Rightarrow> SetNonMembership)"
| "config_comparison (TimestampConfig b c) = TimestampBeforeExpiry"
| "config_comparison (DualRangeConfig b c) = RangeCmp"
| "config_comparison (LifecycleConfig b c) = LifecycleAggregate"

fun config_publicInputs :: "PredicateConfig \<Rightarrow> string list" where
  "config_publicInputs (RangeConfig b c) =
     [''threshold'', ''commitment_root'', ''product_binding'', ''requester_binding'']"
| "config_publicInputs (SetConfig b c) =
     [''set_hash'', ''commitment_root'', ''product_binding'', ''requester_binding'']"
| "config_publicInputs (TimestampConfig b c) =
     [''current_timestamp'', ''commitment_root'', ''product_binding'', ''requester_binding'']"
| "config_publicInputs (DualRangeConfig b c) =
     [''min_threshold'', ''max_threshold'', ''commitment_root'', ''product_binding'',
      ''requester_binding'']"
| "config_publicInputs (LifecycleConfig b c) =
     [''threshold'', ''commitment_root'', ''product_binding'', ''requester_binding'']"

definition registry_entry :: "PredicateConfig \<Rightarrow> PredicateDefinition" where
  "registry_entry config =
     \<lparr>pd_name = bp_name (base_config config), pd_version = bp_version (base_config config),
      pd_description = bp_description (base_config config), pd_circuitPath = circuit_name config,
      pd_publicInputs = config_publicInputs config,
      pd_accessGroups = bp_accessGroups (base_config config),
      pd_pricing = bp_pricing (base_config config), pd_claimType = bp_claimType (base_config config),
      pd_comparison = config_comparison config\<rparr>"

definition updateRegistry :: "PredicateConfig \<Rightarrow> GenFiles \<Rightarrow> GenFiles" where
  "updateRegistry config fs =
     (let registry = (case gf_registry fs of None \<Rightarrow> [] | Some r \<Rightarrow> r) in
      fs\<lparr>gf_registry := Some (jm_set registry (config_id config) (registry_entry config))\<rparr>)"

fun generateMainNr :: "GenFiles \<Rightarrow> PredicateConfig \<Rightarrow> string + string" where
  "generateMainNr fs (RangeConfig b c) = generateRangePredicate fs b c"
| "generateMainNr fs (SetConfig b c) = generateSetMembershipPredicate fs b c"
| "generateMainNr fs (TimestampConfig b c) = generateTimestampPredicate fs b c"
| "generateMainNr fs (DualRangeConfig b c) = generateDualRangePredicate fs b c"
| "generateMainNr fs (LifecycleConfig b c) = generateLifecyclePredicate fs b c"

definition generatePredicate :: "PredicateConfig \<Rightarrow> GenFiles \<Rightarrow> string + GenFiles" where
  "generatePredicate config fs =
     sum_bind (generateMainNr fs config) (\<lambda>mainNr.
     sum_bind (generateNargoToml fs (circuit_name config)) (\<lambda>nargoToml.
       Inr (updateRegistry config (writeCircuitFiles (circuit_name config) mainNr nargoToml fs))))"

text \<open>The batch stops at the first predicate that throws; what was written before stays.\<close>

fun generatePredicates :: "PredicateConfig list \<Rightarrow> GenFiles \<Rightarrow> string option \<times> GenFiles" where
  "generatePredicates [] fs = (None, fs)"
| "generatePredicates (config # configs) fs =
     (case generatePredicate config fs of
        Inl e \<Rightarrow> (Some e, fs)
      | Inr fs' \<Rightarrow> generatePredicates configs fs')"

section \<open>The battery predicates\<close>

definition battery_capacity_gte_config :: PredicateConfig where
  "battery_capacity_gte_config = RangeConfig
      \<lparr>bp_name = ''BATTERY_CAPACITY_GTE'', bp_version = ''V1'',
       bp_description = ''Proves battery capacity (Wh) is greater than or equal to declared minimum'',
       bp_claimType = ''battery_capacity'', bp_accessGroups = [LEGIT_INTEREST, AUTHORITY],
       bp_pricing = \<lparr>perVerification = 500, currency = EUR\<rparr>\<rparr>
      \<lparr>rg_comparison = RangeGte, rg_unit = ''Wh'', rg_valueType = U64,
       rg_thresholdDescription = ''minimum battery capacity required (Wh)'',
       rg_rangeValidation = js_join [CHR 0x0A]
        [''    // Battery capacity range: 0 < capacity <= 1,000,000 Wh (1 MWh max)'',
         ''    assert(actual_value > 0, \"Capacity must be positive\");'',
         ''    assert(actual_value <= 1000000, \"Capacity exceeds 1 MWh maximum\");''],
       rg_failMessage = ''Battery capacity below threshold'',
       rg_validValue = 75000, rg_validThreshold = 50000, rg_invalidValue = 45000, rg_invalidThreshold = 50000,
       rg_exactValue = 50000\<rparr>"

definition battery_chemistry_in_set_config :: PredicateConfig where
  "battery_chemistry_in_set_config = SetConfig
      \<lparr>bp_name = ''BATTERY_CHEMISTRY_IN_SET'', bp_version = ''V1'',
       bp_description = ''Proves battery chemistry is one of the allowed types (LFP, NMC, NCA, LTO, Na-ion)'',
       bp_claimType = ''battery_chemistry'', bp_accessGroups = [LEGIT_INTEREST, AUTHORITY],
       bp_pricing = \<lparr>perVerification = 500, currency = EUR\<rparr>\<rparr>
      \<lparr>sm_membershipType = Membership, sm_setDescription = ''allowed battery chemistry types'',
       sm_setElementDescription = ''chemistry type hashes'', sm_maxSetSize = 16,
       sm_domainSeparator = ''[0x42, 0x43, 0x48, 0x4D]'',
       sm_failMessage = ''Battery chemistry not in allowed set'',
       sm_setElements = ''[[0x4C, 0x46, 0x50, 0x00, 0, 0, 0, 0, 0, 0, 0, 0, 0, 0, 0, 0, 0, 0, 0, 0, 0, 0, 0, 0, 0, 0, 0, 0, 0, 0, 0, 0], [0x4E, 0x4D, 0x43, 0x00, 0, 0, 0, 0, 0, 0, 0, 0, 0, 0, 0, 0, 0, 0, 0, 0, 0, 0, 0, 0, 0, 0, 0, 0, 0, 0, 0, 0], [0; 32], [0; 32], [0; 32], [0; 32], [0; 32], [0; 32], [0; 32], [0; 32], [0; 32], [0; 32], [0; 32], [0; 32], [0; 32], [0; 32]]'',
       sm_setSize = 2,
       sm_validValue = ''[0x4C, 0x46, 0x50, 0x00, 0, 0, 0, 0, 0, 0, 0, 0, 0, 0, 0, 0, 0, 0, 0, 0, 0, 0, 0, 0, 0, 0, 0, 0, 0, 0, 0, 0]'',
       sm_invalidValue = ''[0x4C, 0x43, 0x4F, 0x00, 0, 0, 0, 0, 0, 0, 0, 0, 0, 0, 0, 0, 0, 0, 0, 0, 0, 0, 0, 0, 0, 0, 0, 0, 0, 0, 0, 0]'',
       sm_membershipTestDesc = ''is in allowed set''\<rparr>"

definition cobalt_origin_not_in_config :: PredicateConfig where
  "cobalt_origin_not_in_config = SetConfig
      \<lparr>bp_name = ''COBALT_ORIGIN_NOT_IN'', bp_version = ''V1'',
       bp_description = ''Proves cobalt origin is NOT from conflict regions (OECD Due Diligence compliance)'',
       bp_claimType = ''cobalt_origin_country'', bp_accessGroups = [LEGIT_INTEREST, AUTHORITY],
       bp_pricing = \<lparr>perVerification = 800, currency = EUR\<rparr>\<rparr>
      \<lparr>sm_membershipType = NonMembership, sm_setDescription = ''blocked conflict regions'',
       sm_setElementDescription = ''ISO 3166-1 alpha-3 country code hashes'', sm_maxSetSize = 32,
       sm_domainSeparator = ''[0x43, 0x4F, 0x42, 0x4C]'',
       sm_failMessage = ''Cobalt origin is from blocked conflict region'',
       sm_setElements = ''[[0x43, 0x4F, 0x44, 0x00, 0, 0, 0, 0, 0, 0, 0, 0, 0, 0, 0, 0, 0, 0, 0, 0, 0, 0, 0, 0, 0, 0, 0, 0, 0, 0, 0, 0], [0; 32], [0; 32], [0; 32], [0; 32], [0; 32], [0; 32], [0; 32], [0; 32], [0; 32], [0; 32], [0; 32], [0; 32], [0; 32], [0; 32], [0; 32], [0; 32], [0; 32], [0; 32], [0; 32], [0; 32], [0; 32], [0; 32], [0; 32], [0; 32], [0; 32], [0; 32], [0; 32], [0; 32], [0; 32], [0; 32], [0; 32]]'',
       sm_setSize = 1,
       sm_validValue = ''[0x41, 0x55, 0x53, 0x00, 0, 0, 0, 0, 0, 0, 0, 0, 0, 0, 0, 0, 0, 0, 0, 0, 0, 0, 0, 0, 0, 0, 0, 0, 0, 0, 0, 0]'',
       sm_invalidValue = ''[0x43, 0x4F, 0x44, 0x00, 0, 0, 0, 0, 0, 0, 0, 0, 0, 0, 0, 0, 0, 0, 0, 0, 0, 0, 0, 0, 0, 0, 0, 0, 0, 0, 0, 0]'',
       sm_membershipTestDesc = ''is NOT in blocked set''\<rparr>"

definition due_diligence_valid_config :: PredicateConfig where
  "due_diligence_valid_config = TimestampConfig
      \<lparr>bp_name = ''DUE_DILIGENCE_VALID'', bp_version = ''V1'',
       bp_description = ''Proves supply chain due diligence certification is valid (not expired)'',
       bp_claimType = ''due_diligence_cert'', bp_accessGroups = [LEGIT_INTEREST, AUTHORITY],
       bp_pricing = \<lparr>perVerification = 300, currency = EUR\<rparr>\<rparr>
      ''Due diligence certification''"

definition energy_density_range_config :: PredicateConfig where
  "energy_density_range_config = DualRangeConfig
      \<lparr>bp_name = ''ENERGY_DENSITY_RANGE'', bp_version = ''V1'',
       bp_description = ''Proves battery energy density (Wh/kg) is within declared range'',
       bp_claimType = ''energy_density'', bp_accessGroups = [LEGIT_INTEREST, AUTHORITY],
       bp_pricing = \<lparr>perVerification = 500, currency = EUR\<rparr>\<rparr>
      \<lparr>dr_unit = ''Wh/kg'', dr_valueType = U32,
       dr_rangeValidation = js_join [CHR 0x0A]
        [''    // Energy density physical limits: 50-500 Wh/kg (current technology)'',
         ''    assert(actual_value >= 50, \"Energy density below physical minimum\");'',
         ''    assert(actual_value <= 500, \"Energy density above physical maximum\");''],
       dr_minThreshold = 200, dr_maxThreshold = 300, dr_validValue = 250, dr_belowMinValue = 180,
       dr_aboveMaxValue = 350\<rparr>"

definition state_of_health_gte_config :: PredicateConfig where
  "state_of_health_gte_config = RangeConfig
      \<lparr>bp_name = ''STATE_OF_HEALTH_GTE'', bp_version = ''V1'',
       bp_description = ''Proves battery state of health (SOH) percentage is at or above threshold'',
       bp_claimType = ''state_of_health'', bp_accessGroups = [LEGIT_INTEREST, AUTHORITY],
       bp_pricing = \<lparr>perVerification = 500, currency = EUR\<rparr>\<rparr>
      \<lparr>rg_comparison = RangeGte, rg_unit = ''percent'', rg_valueType = U32,
       rg_thresholdDescription = ''minimum SOH percentage (0-100)'',
       rg_rangeValidation = js_join [CHR 0x0A]
        [''    // SOH is a percentage: 0-100'',
         ''    assert(actual_value <= 100, \"SOH exceeds 100%\");''],
       rg_failMessage = ''State of health below threshold'',
       rg_validValue = 85, rg_validThreshold = 80, rg_invalidValue = 65, rg_invalidThreshold = 80,
       rg_exactValue = 80\<rparr>"

definition recycling_efficiency_gte_config :: PredicateConfig where
  "recycling_efficiency_gte_config = RangeConfig
      \<lparr>bp_name = ''RECYCLING_EFFICIENCY_GTE'', bp_version = ''V1'',
       bp_description = ''Proves recycling process efficiency meets EU Battery Regulation thresholds (65% by 2025, 70% by 2030)'',
       bp_claimType = ''recycling_efficiency'', bp_accessGroups = [LEGIT_INTEREST, AUTHORITY],
       bp_pricing = \<lparr>perVerification = 500, currency = EUR\<rparr>\<rparr>
      \<lparr>rg_comparison = RangeGte, rg_unit = ''percent'', rg_valueType = U32,
       rg_thresholdDescription = ''minimum recycling efficiency percentage'',
       rg_rangeValidation = js_join [CHR 0x0A]
        [''    // Recycling efficiency is a percentage: 0-100'',
         ''    assert(actual_value <= 100, \"Efficiency exceeds 100%\");''],
       rg_failMessage = ''Recycling efficiency below threshold'',
       rg_validValue = 72, rg_validThreshold = 65, rg_invalidValue = 60, rg_invalidThreshold = 65,
       rg_exactValue = 70\<rparr>"

definition carbon_footprint_lifecycle_config :: PredicateConfig where
  "carbon_footprint_lifecycle_config = LifecycleConfig
      \<lparr>bp_name = ''CARBON_FOOTPRINT_LIFECYCLE'', bp_version = ''V1'',
       bp_description = ''Proves total lifecycle carbon footprint across all stages is within threshold'',
       bp_claimType = ''carbon_footprint_lifecycle'', bp_accessGroups = [LEGIT_INTEREST, AUTHORITY],
       bp_pricing = \<lparr>perVerification = 1000, currency = EUR\<rparr>\<rparr>
      \<lparr>lc_metric = ''carbon footprint'', lc_unit = ''kg CO2e/kWh'', lc_numStages = 5,
       lc_stageNames = ''raw materials, manufacturing, transport, use phase, end-of-life'',
       lc_stageValidation = js_join [CHR 0x0A]
        [''    // Each stage must be non-negative (already enforced by u64)'',
         ''    // Maximum single stage: 1,000,000 kg CO2e/kWh (sanity check)'',
         ''    for i in 0..NUM_STAGES {'',
         ''        assert(stage_values[i] <= 1000000, \"Single stage exceeds maximum\");'',
         ''    }''],
       lc_threshold = 50, lc_validStages = ''[8, 8, 8, 8, 8]'', lc_invalidStages = ''[15, 15, 15, 15, 15]'',
       lc_claimTypeHashes = ''[[0x11; 32], [0x11; 32], [0x11; 32], [0x11; 32], [0x11; 32]]'',
       lc_unitHashes = ''[[0x20; 32], [0x20; 32], [0x20; 32], [0x20; 32], [0x20; 32]]''\<rparr>"

definition batteryPredicates :: "PredicateConfig list" where
  "batteryPredicates =
     [battery_capacity_gte_config,
      battery_chemistry_in_set_config,
      cobalt_origin_not_in_config,
      due_diligence_valid_config,
      energy_density_range_config,
      state_of_health_gte_config,
      recycling_efficiency_gte_config,
      carbon_footprint_lifecycle_config]"

section \<open>Templates as text with holes\<close>

datatype piece = Text string | Hole string

fun piece_text :: "piece \<Rightarrow> string" where
  "piece_text (Text t) = t"
| "piece_text (Hole key) = placeholder key"

definition unparse :: "piece list \<Rightarrow> string" where
  "unparse ps = concat (map piece_text ps)"

text \<open>Text that neither holds \<open>{{\<close> nor ends in a brace that the next piece could complete.\<close>

fun brace_free :: "string \<Rightarrow> bool" where
  "brace_free [] = True"
| "brace_free (c # cs) =
     ((c = CHR ''{'' \<longrightarrow> (case cs of [] \<Rightarrow> False | d # ds \<Rightarrow> d \<noteq> CHR ''{'')) \<and> brace_free cs)"

definition plain_key :: "string \<Rightarrow> bool" where
  "plain_key key = (CHR ''{'' \<notin> set key \<and> CHR ''}'' \<notin> set key)"

definition plain_value :: "string \<Rightarrow> bool" where
  "plain_value v = (brace_free v \<and> CHR ''$'' \<notin> set v)"

fun piece_ok :: "piece \<Rightarrow> bool" where
  "piece_ok (Text t) = brace_free t"
| "piece_ok (Hole key) = plain_key key"

fun fill :: "(string \<Rightarrow> string option) \<Rightarrow> piece \<Rightarrow> piece" where
  "fill \<sigma> (Text t) = Text t"
| "fill \<sigma> (Hole key) = (case \<sigma> key of None \<Rightarrow> Hole key | Some v \<Rightarrow> Text v)"

definition render :: "(string \<Rightarrow> string option) \<Rightarrow> piece list \<Rightarrow> string" where
  "render \<sigma> ps = unparse (map (fill \<sigma>) ps)"

lemma js_expand_plain: "CHR ''$'' \<notin> set v \<Longrightarrow> js_expand v b m a = v"
  by (induction v b m a rule: js_expand.induct) auto

lemma starts_placeholder:
  "js_startsWith s (placeholder key) \<Longrightarrow> \<exists>t. s = CHR ''{'' # CHR ''{'' # t"
  by (auto simp: js_startsWith_iff placeholder_def)

lemma replace_past_text:
  assumes "brace_free t"
  shows "\<exists>b'. js_replace_all (placeholder key) v b (t @ s) =
    t @ js_replace_all (placeholder key) v b' s"
  using assms
proof (induction t arbitrary: b)
  case Nil
  then show ?case by auto
next
  case (Cons c cs)
  have "\<not> js_startsWith (c # cs @ s) (placeholder key)"
  proof
    assume "js_startsWith (c # cs @ s) (placeholder key)"
    then obtain u where "c # cs @ s = CHR ''{'' # CHR ''{'' # u"
      using starts_placeholder by blast
    then show False
      using Cons.prems by (cases cs) simp_all
  qed
  moreover obtain b' where "js_replace_all (placeholder key) v (b @ [c]) (cs @ s) =
      cs @ js_replace_all (placeholder key) v b' s"
    using Cons.IH [of "b @ [c]"] Cons.prems by auto
  ultimately have "js_replace_all (placeholder key) v b ((c # cs) @ s) =
      (c # cs) @ js_replace_all (placeholder key) v b' s"
    by simp
  then show ?case ..
qed

lemma brace_free_no_brace: "CHR ''{'' \<notin> set t \<Longrightarrow> brace_free t"
  by (induction t) auto

lemma brace_free_after:
  assumes "plain_key key"
  shows "brace_free (CHR ''{'' # key @ ''}}'')"
proof -
  have "brace_free (key @ ''}}'')"
    using assms by (intro brace_free_no_brace) (simp add: plain_key_def)
  then show ?thesis
    using assms by (cases key) (auto simp: plain_key_def)
qed

lemma key_prefix:
  assumes "plain_key key" and "plain_key key'" and "key @ CHR ''}'' # s = key' @ CHR ''}'' # s'"
  shows "key = key'"
proof -
  have "takeWhile (\<lambda>c. c \<noteq> CHR ''}'') (k @ CHR ''}'' # u) = k" if "plain_key k" for k u
    using that by (subst takeWhile_append2) (auto simp: plain_key_def)
  then show ?thesis
    using assms by metis
qed

lemma replace_past_hole:
  assumes "plain_key key" and "plain_key key'" and "key \<noteq> key'"
  shows "\<exists>b'. js_replace_all (placeholder key) v b (placeholder key' @ s) =
    placeholder key' @ js_replace_all (placeholder key) v b' s"
proof -
  have "\<not> js_startsWith (placeholder key' @ s) (placeholder key)"
    using key_prefix [OF assms(2) assms(1)] assms(3)
    by (auto simp: js_startsWith_iff placeholder_def)
  moreover obtain b' where "js_replace_all (placeholder key) v (b @ ''{'')
      ((CHR ''{'' # key' @ ''}}'') @ s) =
      (CHR ''{'' # key' @ ''}}'') @ js_replace_all (placeholder key) v b' s"
    using replace_past_text [OF brace_free_after [OF assms(2)]] by blast
  ultimately show ?thesis
    by (auto simp: placeholder_def)
qed

lemma replace_at_hole:
  assumes "CHR ''$'' \<notin> set v"
  shows "\<exists>b'. js_replace_all (placeholder key) v b (placeholder key @ s) =
    v @ js_replace_all (placeholder key) v b' s"
proof -
  have "js_startsWith (CHR ''{'' # (CHR ''{'' # key @ ''}}'') @ s) (placeholder key)"
    by (simp add: js_startsWith_iff placeholder_def)
  then have "js_replace_all (placeholder key) v b (CHR ''{'' # (CHR ''{'' # key @ ''}}'') @ s) =
      v @ js_replace_all (placeholder key) v (b @ placeholder key) s"
    using assms by (simp add: js_expand_plain Let_def) (simp add: placeholder_def)
  then show ?thesis
    by (auto simp: placeholder_def)
qed

lemma replace_piece:
  assumes "plain_key key" and "CHR ''$'' \<notin> set v" and "piece_ok p"
  shows "\<exists>b'. js_replace_all (placeholder key) v b (piece_text p @ s) =
    piece_text (fill [key \<mapsto> v] p) @ js_replace_all (placeholder key) v b' s"
proof (cases p)
  case (Text t)
  then show ?thesis
    using assms(3) replace_past_text by simp
next
  case (Hole key')
  then show ?thesis
    using assms replace_past_hole [of key key'] replace_at_hole [of v] by auto
qed

lemma replace_fills:
  assumes "plain_key key" and "CHR ''$'' \<notin> set v" and "list_all piece_ok ps"
  shows "js_replace_all (placeholder key) v b (unparse ps) = render [key \<mapsto> v] ps"
  using assms(3)
proof (induction ps arbitrary: b)
  case Nil
  then show ?case by (simp add: unparse_def render_def)
next
  case (Cons p ps)
  obtain b' where "js_replace_all (placeholder key) v b (piece_text p @ unparse ps) =
      piece_text (fill [key \<mapsto> v] p) @ js_replace_all (placeholder key) v b' (unparse ps)"
    using replace_piece [OF assms(1,2)] Cons.prems by fastforce
  also have "js_replace_all (placeholder key) v b' (unparse ps) = render [key \<mapsto> v] ps"
    using Cons.prems by (intro Cons.IH) simp
  finally show ?case
    unfolding render_def unparse_def list.map concat.simps .
qed

lemma fill_keeps_ok:
  "list_all piece_ok ps \<Longrightarrow> (\<And>key v. \<sigma> key = Some v \<Longrightarrow> brace_free v) \<Longrightarrow>
   list_all piece_ok (map (fill \<sigma>) ps)"
  by (induction ps) (auto elim!: piece_ok.elims split: option.splits)

lemma fill_empty: "fill Map.empty p = p"
  by (cases p) simp_all

lemma fill_twice:
  "map (fill \<tau>) (map (fill \<sigma>) ps) = map (fill (\<tau> ++ \<sigma>)) ps"
proof -
  have "fill \<tau> (fill \<sigma> p) = fill (\<tau> ++ \<sigma>) p" for p
    by (cases p) (auto simp: map_add_def split: option.splits)
  then show ?thesis
    by simp
qed

lemma substitutions_fill:
  assumes "list_all piece_ok ps"
    and "\<forall>(key, v) \<in> set substitutions. plain_key key \<and> plain_value v"
  shows "applySubstitutions (unparse ps) substitutions = render (map_of substitutions) ps"
  using assms
proof (induction substitutions arbitrary: ps)
  case Nil
  have "map (fill Map.empty) ps = ps"
    by (simp add: fill_empty map_idI)
  then show ?case
    by (simp add: applySubstitutions_def render_def)
next
  case (Cons kv substitutions)
  obtain key v where kv: "kv = (key, v)"
    by (cases kv)
  let ?ps = "map (fill [key \<mapsto> v]) ps"
  have "list_all piece_ok ?ps"
    using Cons.prems by (intro fill_keeps_ok) (auto simp: kv plain_value_def split: if_splits)
  then have "applySubstitutions (unparse ?ps) substitutions = render (map_of substitutions) ?ps"
    using Cons.prems by (intro Cons.IH) auto
  moreover have "js_replace_all (placeholder key) v [] (unparse ps) = unparse ?ps"
    using replace_fills [of key v ps "[]"] Cons.prems by (simp add: kv plain_value_def render_def)
  ultimately show ?case
    unfolding applySubstitutions_def render_def fill_twice kv foldl.simps map_of.simps
    by (simp only: prod.case fst_conv snd_conv map_add_upd map_add_empty)
qed

lemma filled_is_final:
  assumes "list_all piece_ok ps"
    and "\<forall>(key, v) \<in> set substitutions. plain_key key \<and> plain_value v"
    and "\<forall>key. Hole key \<in> set ps \<longrightarrow> key \<in> fst ` set substitutions"
    and "\<forall>(key, v) \<in> set extra. plain_key key \<and> plain_value v"
  shows "applySubstitutions (render (map_of substitutions) ps) extra = render (map_of substitutions) ps"
proof -
  let ?ps = "map (fill (map_of substitutions)) ps"
  have "list_all piece_ok ?ps"
    using assms(1,2) by (intro fill_keeps_ok) (auto simp: plain_value_def dest!: map_of_SomeD)
  then have "applySubstitutions (unparse ?ps) extra = render (map_of extra) ?ps"
    using substitutions_fill assms(4) by blast
  moreover have "fill (map_of extra ++ map_of substitutions) p = fill (map_of substitutions) p"
    if "p \<in> set ps" for p
  proof (cases p)
    case (Hole key)
    then have "map_of substitutions key \<noteq> None"
      using that assms(3) by (simp add: map_of_eq_None_iff)
    then show ?thesis
      by (auto simp: Hole map_add_def)
  qed simp
  ultimately show ?thesis
    unfolding render_def fill_twice by (simp cong: map_cong)
qed


definition nargo_template :: "piece list" where
  "nargo_template =
     [Text (''[package]'' @ [CHR 0x0A] @ ''name = \"''), Hole ''CIRCUIT_NAME'',
      Text (''\"'' @ [CHR 0x0A] @ ''type = \"bin\"'' @ [CHR 0x0A] @
        ''authors = [\"ZK-DPP Team\"]'' @ [CHR 0x0A] @ ''compiler_version = \">=0.30.0\"'' @
        [CHR 0x0A, CHR 0x0A] @ ''[dependencies]'' @ [CHR 0x0A] @
        ''zkdpp_lib = { path = \"../../lib\" }'' @ [CHR 0x0A])]"

lemma nargo_template_ok: "list_all piece_ok nargo_template"
  by (simp add: nargo_template_def plain_key_def)


section \<open>What a generated predicate is\<close>

fun config_template :: "PredicateConfig \<Rightarrow> string" where
  "config_template (RangeConfig b c) = ''range_predicate.nr.tmpl''"
| "config_template (SetConfig b c) = ''set_membership.nr.tmpl''"
| "config_template (TimestampConfig b c) = ''timestamp_validity.nr.tmpl''"
| "config_template (DualRangeConfig b c) = ''dual_range.nr.tmpl''"
| "config_template (LifecycleConfig b c) = ''lifecycle_aggregation.nr.tmpl''"

fun config_substitutions :: "PredicateConfig \<Rightarrow> (string \<times> string) list" where
  "config_substitutions (RangeConfig b c) = range_substitutions b c"
| "config_substitutions (SetConfig b c) = set_substitutions b c"
| "config_substitutions (TimestampConfig b c) = timestamp_substitutions b c"
| "config_substitutions (DualRangeConfig b c) = dual_range_substitutions b c"
| "config_substitutions (LifecycleConfig b c) = lifecycle_substitutions b c"

abbreviation main_path :: "PredicateConfig \<Rightarrow> string" where
  "main_path config \<equiv> circuit_name config @ ''/src/main.nr''"

abbreviation toml_path :: "PredicateConfig \<Rightarrow> string" where
  "toml_path config \<equiv> circuit_name config @ ''/Nargo.toml''"

abbreviation registered :: "GenFiles \<Rightarrow> PredicateRegistry" where
  "registered fs \<equiv> (case gf_registry fs of None \<Rightarrow> [] | Some r \<Rightarrow> r)"

lemma config_template_known:
  "config_template config \<in> {''range_predicate.nr.tmpl'', ''set_membership.nr.tmpl'',
    ''timestamp_validity.nr.tmpl'', ''dual_range.nr.tmpl'', ''lifecycle_aggregation.nr.tmpl''}"
  by (cases config) simp_all

lemma main_not_toml [simp]: "main_path a \<noteq> toml_path b"
  by (rule notI, drule arg_cong [of _ _ last]) simp

lemma generateMainNr_template:
  "generateMainNr fs config = sum_bind (readTemplate fs (config_template config))
     (\<lambda>template. Inr (applySubstitutions template (config_substitutions config)))"
  by (cases config) (simp_all add: generateRangePredicate_def generateSetMembershipPredicate_def
      generateTimestampPredicate_def generateDualRangePredicate_def generateLifecyclePredicate_def)

lemma config_keys_plain: "(key, v) \<in> set (config_substitutions config) \<Longrightarrow> plain_key key"
  by (cases config) (auto simp: plain_key_def range_substitutions_def set_substitutions_def
      timestamp_substitutions_def dual_range_substitutions_def lifecycle_substitutions_def)

lemma generate_with_templates:
  assumes "gf_templates fs (config_template config) = Some template"
    and "gf_templates fs ''Nargo.toml.tmpl'' = Some toml"
  shows "generatePredicate config fs = Inr (updateRegistry config
    (writeCircuitFiles (circuit_name config)
      (applySubstitutions template (config_substitutions config))
      (applySubstitutions toml [(''CIRCUIT_NAME'', circuit_name config)]) fs))"
  using assms by (simp add: generatePredicate_def generateMainNr_template generateNargoToml_def
      readTemplate_def)

lemma ensure_dir_fields [simp]:
  "gf_templates (ensure_dir d fs) = gf_templates fs"
  "gf_written (ensure_dir d fs) = gf_written fs"
  "gf_registry (ensure_dir d fs) = gf_registry fs"
  by (simp_all add: ensure_dir_def)

lemma write_file_fields [simp]:
  "gf_templates (write_file p t fs) = gf_templates fs"
  "gf_written (write_file p t fs) = jm_set (gf_written fs) p t"
  "gf_registry (write_file p t fs) = gf_registry fs"
  by (simp_all add: write_file_def)

lemma generated_files:
  assumes "generatePredicate config fs = Inr fs'"
  shows "gf_templates fs' = gf_templates fs"
    and "gf_registry fs' = Some (jm_set (registered fs) (config_id config) (registry_entry config))"
    and "\<exists>template toml. gf_templates fs (config_template config) = Some template \<and>
      gf_templates fs ''Nargo.toml.tmpl'' = Some toml \<and>
      map_of (gf_written fs') = (map_of (gf_written fs))
        (main_path config \<mapsto> applySubstitutions template (config_substitutions config),
         toml_path config \<mapsto> applySubstitutions toml [(''CIRCUIT_NAME'', circuit_name config)])"
proof -
  obtain template toml where t: "gf_templates fs (config_template config) = Some template"
      "gf_templates fs ''Nargo.toml.tmpl'' = Some toml"
    using assms by (auto simp: generatePredicate_def generateMainNr_template generateNargoToml_def
      readTemplate_def inr_iff split: option.splits)
  note fs' = assms [unfolded generate_with_templates [OF t] sum.inject, symmetric]
  show "gf_templates fs' = gf_templates fs"
    by (simp add: fs' updateRegistry_def writeCircuitFiles_def Let_def)
  show "gf_registry fs' = Some (jm_set (registered fs) (config_id config) (registry_entry config))"
    by (simp add: fs' updateRegistry_def writeCircuitFiles_def Let_def)
  have "map_of (gf_written fs') = (map_of (gf_written fs))
        (main_path config \<mapsto> applySubstitutions template (config_substitutions config),
         toml_path config \<mapsto> applySubstitutions toml [(''CIRCUIT_NAME'', circuit_name config)])"
    by (simp add: fs' updateRegistry_def writeCircuitFiles_def Let_def map_of_jm_set fun_eq_iff)
  with t show "\<exists>template toml. gf_templates fs (config_template config) = Some template \<and>
      gf_templates fs ''Nargo.toml.tmpl'' = Some toml \<and>
      map_of (gf_written fs') = (map_of (gf_written fs))
        (main_path config \<mapsto> applySubstitutions template (config_substitutions config),
         toml_path config \<mapsto> applySubstitutions toml [(''CIRCUIT_NAME'', circuit_name config)])"
    by blast
qed

text \<open>A predicate generated from clean templates and a clean configuration (no dollar sign,
  \<open>{{\<close> or final brace in its values) is complete: the circuit and its package file hold the
  templates with every hole filled, the registry finds its entry under name and version, whose
  circuit path is the directory written, the identifier parses back to name and version when the
  version has no underscore, and no other file or entry changes.
\<close>

lemma generated_predicate:
  assumes "gf_templates fs (config_template config) = Some (unparse ps)"
    and "gf_templates fs ''Nargo.toml.tmpl'' = Some (unparse qs)"
    and "list_all piece_ok ps" and "list_all piece_ok qs"
    and "\<forall>v \<in> snd ` set (config_substitutions config). plain_value v"
    and "plain_value (circuit_name config)"
    and "CHR ''_'' \<notin> set (bp_version (base_config config))"
  shows "\<exists>fs' registry entry. generatePredicate config fs = Inr fs' \<and>
    gf_registry fs' = Some registry \<and>
    getPredicateById registry (config_id config) = Own entry \<and>
    parseId (config_id config) = Inr \<lparr>pid_name = pd_name entry, pid_version = pd_version entry\<rparr> \<and>
    map_of (gf_written fs') = (map_of (gf_written fs))
      (pd_circuitPath entry @ ''/src/main.nr'' \<mapsto> render (map_of (config_substitutions config)) ps,
       pd_circuitPath entry @ ''/Nargo.toml'' \<mapsto>
         render [''CIRCUIT_NAME'' \<mapsto> circuit_name config] qs) \<and>
    (\<forall>other. other \<noteq> config_id config \<longrightarrow> map_of registry other = map_of (registered fs) other)"
proof -
  obtain fs' where fs': "generatePredicate config fs = Inr fs'"
    using generate_with_templates [OF assms(1,2)] by blast
  have keys: "\<forall>(key, v) \<in> set (config_substitutions config). plain_key key \<and> plain_value v"
    using assms(5) config_keys_plain by fastforce
  have toml: "\<forall>(key, v) \<in> set [(''CIRCUIT_NAME'', circuit_name config)].
      plain_key key \<and> plain_value v"
    using assms(6) by (simp add: plain_key_def)
  have "map_of (gf_written fs') = (map_of (gf_written fs))
      (main_path config \<mapsto> render (map_of (config_substitutions config)) ps,
       toml_path config \<mapsto> render [''CIRCUIT_NAME'' \<mapsto> circuit_name config] qs)"
    using generated_files(3) [OF fs'] assms(1,2) substitutions_fill [OF assms(3) keys]
      substitutions_fill [OF assms(4) toml] by simp
  moreover have "parseId (config_id config) =
      Inr \<lparr>pid_name = pd_name (registry_entry config), pid_version = pd_version (registry_entry config)\<rparr>"
    using parseId_canonical [of "\<lparr>pid_name = bp_name (base_config config),
        pid_version = bp_version (base_config config)\<rparr>"] assms(7)
    by (simp add: canonicalId_def config_id_def registry_entry_def)
  moreover have "pd_circuitPath (registry_entry config) = circuit_name config"
    by (simp add: registry_entry_def)
  ultimately show ?thesis
    using fs' generated_files(2) [OF fs']
    by (intro exI [of _ fs'] exI [of _ "registry_entry config"] exI [of _
          "jm_set (registered fs) (config_id config) (registry_entry config)"])
      (simp add: getPredicateById_Own_iff map_of_jm_set)
qed

definition small_templates :: GenFiles where
  "small_templates =
     \<lparr>gf_templates = [''timestamp_validity.nr.tmpl'' \<mapsto> unparse [Text ''// '', Hole ''PREDICATE_NAME''],
        ''Nargo.toml.tmpl'' \<mapsto> unparse nargo_template],
      gf_dirs = [], gf_written = [], gf_registry = None\<rparr>"

lemmas lower_eval = js_toLowerCase_def lower_char_def char_of_def bit_0

text \<open>The batch stops at the first configuration whose template is missing.\<close>

lemma batch_stops_at_missing_template:
  "generatePredicates configs fs = (Some e, fs') \<Longrightarrow>
   \<exists>before config after. configs = before @ config # after \<and>
     generatePredicates before fs = (None, fs') \<and> generatePredicate config fs' = Inl e \<and>
     (\<exists>name \<in> {config_template config, ''Nargo.toml.tmpl''}.
       gf_templates fs name = None \<and> e = ''Template not found: '' @ name)"
proof (induction configs arbitrary: fs)
  case Nil
  then show ?case by simp
next
  case (Cons config configs)
  show ?case
  proof (cases "generatePredicate config fs")
    case (Inl e')
    then have "\<exists>name \<in> {config_template config, ''Nargo.toml.tmpl''}.
        gf_templates fs name = None \<and> e' = ''Template not found: '' @ name"
      by (auto simp: generatePredicate_def generateMainNr_template generateNargoToml_def
          readTemplate_def split: option.splits)
    with Inl Cons.prems show ?thesis
      by (intro exI [of _ "[]"] exI [of _ config] exI [of _ configs]) simp
  next
    case (Inr fs1)
    from Cons.IH [of fs1] Cons.prems Inr obtain before config' after
      where "configs = before @ config' # after" "generatePredicates before fs1 = (None, fs')"
        "generatePredicate config' fs' = Inl e"
        "\<exists>name \<in> {config_template config', ''Nargo.toml.tmpl''}.
          gf_templates fs1 name = None \<and> e = ''Template not found: '' @ name"
      by auto
    then show ?thesis
      using Inr generated_files(1) [OF Inr]
      by (intro exI [of _ "config # before"] exI [of _ config'] exI [of _ after]) simp
  qed
qed

section \<open>The shipped battery predicates\<close>

lemma jm_set_same: "map_of m k = Some v \<Longrightarrow> jm_set m k v = m"
  by (drule jm_set_old [where v = v]) auto

definition shipped :: "PredicateRegistry \<Rightarrow> PredicateConfig \<Rightarrow> bool" where
  "shipped registry config = (map_of registry (config_id config) = Some (registry_entry config))"

lemma batch_of_shipped:
  assumes "\<forall>config \<in> set configs. gf_templates fs (config_template config) \<noteq> None"
    and "gf_templates fs ''Nargo.toml.tmpl'' \<noteq> None"
    and "gf_registry fs = Some registry" and "\<forall>config \<in> set configs. shipped registry config"
  shows "\<exists>fs'. generatePredicates configs fs = (None, fs') \<and> gf_registry fs' = Some registry \<and>
    (\<forall>path. path \<notin> main_path ` set configs \<union> toml_path ` set configs \<longrightarrow>
      map_of (gf_written fs') path = map_of (gf_written fs) path) \<and>
    (distinct (map circuit_name configs) \<longrightarrow> (\<forall>config \<in> set configs.
      map_of (gf_written fs') (main_path config) = Some (applySubstitutions
        (the (gf_templates fs (config_template config))) (config_substitutions config))))"
  using assms
proof (induction configs arbitrary: fs)
  case Nil
  then show ?case by simp
next
  case (Cons config configs)
  obtain fs1 where fs1: "generatePredicate config fs = Inr fs1"
    using Cons.prems(1,2) generate_with_templates [of fs config] by fastforce
  note files = generated_files [OF fs1]
  have reg: "gf_registry fs1 = Some registry"
    using files(2) Cons.prems(3,4) by (simp add: shipped_def jm_set_same)
  obtain fs' where fs': "generatePredicates configs fs1 = (None, fs')"
      "gf_registry fs' = Some registry"
      "\<forall>path. path \<notin> main_path ` set configs \<union> toml_path ` set configs \<longrightarrow>
        map_of (gf_written fs') path = map_of (gf_written fs1) path"
      "distinct (map circuit_name configs) \<longrightarrow> (\<forall>config \<in> set configs.
        map_of (gf_written fs') (main_path config) = Some (applySubstitutions
          (the (gf_templates fs (config_template config))) (config_substitutions config)))"
    using Cons.IH [of fs1] Cons.prems reg files(1) by auto
  have new: "map_of (gf_written fs1) (main_path config) = Some (applySubstitutions
      (the (gf_templates fs (config_template config))) (config_substitutions config))"
    using files(3) by auto
  have kept: "map_of (gf_written fs') (main_path config) = map_of (gf_written fs1) (main_path config)"
    if "circuit_name config \<notin> circuit_name ` set configs"
    using that by (intro fs'(3) [rule_format]) auto
  have others: "map_of (gf_written fs1) path = map_of (gf_written fs) path"
    if "path \<noteq> main_path config" and "path \<noteq> toml_path config" for path
    using files(3) that by auto
  show ?case
    using fs'(1,2) fs'(3) others fs'(4) kept new by (simp add: fs1)
qed

lemmas battery_configs = battery_capacity_gte_config_def battery_chemistry_in_set_config_def
  cobalt_origin_not_in_config_def due_diligence_valid_config_def energy_density_range_config_def
  state_of_health_gte_config_def recycling_efficiency_gte_config_def
  carbon_footprint_lifecycle_config_def

lemma battery_circuits_distinct: "distinct (map circuit_name batteryPredicates)"
  by (simp add: batteryPredicates_def battery_configs circuit_name_def lower_eval)

lemma battery_shipped: "\<forall>config \<in> set batteryPredicates. shipped predicates_json config"
  unfolding batteryPredicates_def list.set ball_simps
  by (simp add: shipped_def predicates_json_def config_id_def battery_configs registry_entry_def
      circuit_name_def lower_eval)

text \<open>The shipped registry is what the shipped configurations generate: with the templates in
  place the batch of the eight battery predicates ends without an error, leaves the registry file
  as it is, writes for each the circuit from its own template, and touches no file outside the
  circuits' directories.
\<close>

lemma battery_registry_reproduced:
  assumes "\<forall>name \<in> {''range_predicate.nr.tmpl'', ''set_membership.nr.tmpl'',
      ''timestamp_validity.nr.tmpl'', ''dual_range.nr.tmpl'', ''lifecycle_aggregation.nr.tmpl'',
      ''Nargo.toml.tmpl''}. gf_templates fs name \<noteq> None"
    and "gf_registry fs = Some predicates_json"
  shows "\<exists>fs'. generatePredicates batteryPredicates fs = (None, fs') \<and>
    gf_registry fs' = Some predicates_json \<and>
    (\<forall>config \<in> set batteryPredicates.
      getPredicateById predicates_json (config_id config) = Own (registry_entry config) \<and>
      map_of (gf_written fs') (circuit_name config @ ''/src/main.nr'') = Some (applySubstitutions
        (the (gf_templates fs (config_template config))) (config_substitutions config))) \<and>
    (\<forall>path. (\<forall>config \<in> set batteryPredicates. \<not> js_startsWith path (circuit_name config)) \<longrightarrow>
      map_of (gf_written fs') path = map_of (gf_written fs) path)"
proof -
  have "\<forall>config \<in> set batteryPredicates. gf_templates fs (config_template config) \<noteq> None"
    using assms(1) config_template_known by blast
  then obtain fs' where fs': "generatePredicates batteryPredicates fs = (None, fs')"
      "gf_registry fs' = Some predicates_json"
      "\<forall>path. path \<notin> main_path ` set batteryPredicates \<union> toml_path ` set batteryPredicates \<longrightarrow>
        map_of (gf_written fs') path = map_of (gf_written fs) path"
      "\<forall>config \<in> set batteryPredicates. map_of (gf_written fs') (main_path config) =
        Some (applySubstitutions (the (gf_templates fs (config_template config)))
          (config_substitutions config))"
    using batch_of_shipped [OF _ _ assms(2) battery_shipped] assms(1) battery_circuits_distinct
    by auto
  moreover have "path \<notin> main_path ` set batteryPredicates \<union> toml_path ` set batteryPredicates"
    if "\<forall>config \<in> set batteryPredicates. \<not> js_startsWith path (circuit_name config)" for path
    using that by auto
  ultimately show ?thesis
    using battery_shipped
    by (intro exI [of _ fs']) (simp add: shipped_def getPredicateById_Own_iff)
qed

end
