(* ===== verification/AuthClient.thy ===== *)
theory AuthClient
  imports Auth Predicates
begin

text \<open>
  The Keycloak client of \<open>packages/auth-client\<close>: its configuration, the OpenID endpoints and the
  service token it keeps, and every request it makes. What answers is third-party: \<open>fetch\<close> is an
  argument, one operation per type the reply is cast to, over a state \<open>'w\<close> that also has the
  clock. A call that rejects, a reply that is not \<open>ok\<close> and a body that is not JSON are separate
  outcomes. The query of the authorization URL is serialised as \<open>URLSearchParams\<close> does it; a
  text is there the bytes of its UTF-8 encoding, one per character.

  The lemmas show that the endpoints are fetched once, how long and for whom a service token is
  reused, and that the authorization URL carries exactly the parameters it is asked for.
\<close>

section \<open>Types\<close>

record KeycloakConfig =
  kg_baseUrl :: string
  kg_realm :: string
  kg_clientId :: string
  kg_clientSecret :: "string option"

record TokenResponse =
  tk_access_token :: string
  tk_expires_in :: int
  tk_refresh_expires_in :: int
  tk_refresh_token :: "string option"
  tk_token_type :: string
  tk_scope :: string

datatype audience = OneAudience string | Audiences "string list"

record IntrospectionResponse =
  in_active :: bool
  in_sub :: "string option"
  in_client_id :: "string option"
  in_username :: "string option"
  in_token_type :: "string option"
  in_exp :: "int option"
  in_iat :: "int option"
  in_nbf :: "int option"
  in_aud :: "audience option"
  in_iss :: "string option"
  in_scope :: "string option"
  in_realm_access :: "string list option"
  in_resource_access :: "(string \<times> string list) list option"

record UserInfoResponse =
  ui_sub :: string
  ui_email :: "string option"
  ui_email_verified :: "bool option"
  ui_preferred_username :: "string option"
  ui_name :: "string option"
  ui_given_name :: "string option"
  ui_family_name :: "string option"
  ui_groups :: "string list option"

record ServiceAccountCredentials =
  sa_clientId :: string
  sa_clientSecret :: string

record OpenIdConfiguration =
  oc_issuer :: string
  oc_authorization_endpoint :: string
  oc_token_endpoint :: string
  oc_userinfo_endpoint :: string
  oc_jwks_uri :: string
  oc_introspection_endpoint :: string
  oc_end_session_endpoint :: string

section \<open>What answers\<close>

type_synonym search_params = "(string \<times> string) list"

record http_request =
  hr_method :: string
  hr_url :: string
  hr_headers :: "(string \<times> string) list"
  hr_body :: "search_params option"

text \<open>A reply: \<open>ok\<close>, what \<open>text()\<close> gives and what \<open>json()\<close> gives.\<close>

datatype 'a reply = Rejected thrown | Reply bool "thrown + string" "thrown + 'a"

record 'w fetcher =
  ft_clock :: "'w \<Rightarrow> time_ms"
  ft_openid :: "http_request \<Rightarrow> 'w \<Rightarrow> OpenIdConfiguration reply \<times> 'w"
  ft_token :: "http_request \<Rightarrow> 'w \<Rightarrow> TokenResponse reply \<times> 'w"
  ft_introspection :: "http_request \<Rightarrow> 'w \<Rightarrow> IntrospectionResponse reply \<times> 'w"
  ft_userinfo :: "http_request \<Rightarrow> 'w \<Rightarrow> UserInfoResponse reply \<times> 'w"
  ft_plain :: "http_request \<Rightarrow> 'w \<Rightarrow> unit reply \<times> 'w"

text \<open>\<open>new URLSearchParams({...})\<close> keeps the order; \<open>set\<close> replaces or appends.\<close>

definition params_set :: "search_params \<Rightarrow> string \<Rightarrow> string \<Rightarrow> search_params" where
  "params_set params key val = jm_set params key val"

definition http_get :: "string \<Rightarrow> (string \<times> string) list \<Rightarrow> http_request" where
  "http_get url headers =
     \<lparr>hr_method = ''GET'', hr_url = url, hr_headers = headers, hr_body = None\<rparr>"

definition form_post :: "string \<Rightarrow> search_params \<Rightarrow> http_request" where
  "form_post url params =
     \<lparr>hr_method = ''POST'', hr_url = url,
      hr_headers = [(''Content-Type'', ''application/x-www-form-urlencoded'')],
      hr_body = Some params\<rparr>"

section \<open>The client\<close>

record KeycloakClient =
  kc_config :: KeycloakConfig
  kc_openIdConfig :: "OpenIdConfiguration option"
  kc_serviceToken :: "TokenResponse option"
  kc_tokenExpiresAt :: int

definition newKeycloakClient :: "KeycloakConfig \<Rightarrow> KeycloakClient" where
  "newKeycloakClient config =
     \<lparr>kc_config = config, kc_openIdConfig = None, kc_serviceToken = None, kc_tokenExpiresAt = 0\<rparr>"

text \<open>An \<open>async\<close> method: its outcome, the client and the world after it.\<close>

type_synonym ('w, 'a) kc_call = "KeycloakClient \<times> 'w \<Rightarrow> (thrown + 'a) \<times> (KeycloakClient \<times> 'w)"

definition kc_return :: "'a \<Rightarrow> ('w, 'a) kc_call" where
  "kc_return a = (\<lambda>s. (Inr a, s))"

definition kc_bind :: "('w, 'a) kc_call \<Rightarrow> ('a \<Rightarrow> ('w, 'b) kc_call) \<Rightarrow> ('w, 'b) kc_call" where
  "kc_bind f g = (\<lambda>s. case f s of (Inl e, s') \<Rightarrow> (Inl e, s') | (Inr a, s') \<Rightarrow> g a s')"

definition kc_throw :: "'w fetcher \<Rightarrow> string \<Rightarrow> ErrorCode \<Rightarrow> ('w, 'a) kc_call" where
  "kc_throw ft message code =
     (\<lambda>(c, w). (Inl (ThrownZk (mkAuthenticationError (ft_clock ft w) message code)), (c, w)))"

definition kc_fetch ::
  "(http_request \<Rightarrow> 'w \<Rightarrow> 'a reply \<times> 'w) \<Rightarrow> http_request \<Rightarrow>
     ('w, bool \<times> (thrown + string) \<times> (thrown + 'a)) kc_call" where
  "kc_fetch send request =
     (\<lambda>(c, w). case send request w of
        (Rejected e, w') \<Rightarrow> (Inl e, (c, w'))
      | (Reply ok body json, w') \<Rightarrow> (Inr (ok, body, json), (c, w')))"

definition kc_await :: "thrown + 'a \<Rightarrow> ('w, 'a) kc_call" where
  "kc_await x = (\<lambda>s. (x, s))"

definition realmUrl :: "KeycloakConfig \<Rightarrow> string" where
  "realmUrl config = kg_baseUrl config @ ''/realms/'' @ kg_realm config"

definition getOpenIdConfiguration :: "'w fetcher \<Rightarrow> ('w, OpenIdConfiguration) kc_call" where
  "getOpenIdConfiguration ft = (\<lambda>(c, w).
     case kc_openIdConfig c of
       Some oc \<Rightarrow> (Inr oc, (c, w))
     | None \<Rightarrow>
         kc_bind (kc_fetch (ft_openid ft)
             (http_get (realmUrl (kc_config c) @ ''/.well-known/openid-configuration'') []))
           (\<lambda>(ok, body, json).
              if \<not> ok
              then kc_throw ft ''Failed to fetch OpenID configuration'' AUTHENTICATION_REQUIRED
              else kc_bind (kc_await json)
                (\<lambda>oc (c, w). (Inr oc, (c\<lparr>kc_openIdConfig := Some oc\<rparr>, w))))
           (c, w))"

definition service_clientId ::
  "KeycloakConfig \<Rightarrow> ServiceAccountCredentials option \<Rightarrow> string" where
  "service_clientId config credentials =
     js_or_opt (map_option sa_clientId credentials) (kg_clientId config)"

definition service_clientSecret ::
  "KeycloakConfig \<Rightarrow> ServiceAccountCredentials option \<Rightarrow> string option" where
  "service_clientSecret config credentials =
     (case js_or_null (map_option sa_clientSecret credentials) of
        Some secret \<Rightarrow> Some secret
      | None \<Rightarrow> js_or_null (kg_clientSecret config))"

definition token_valid :: "KeycloakClient \<Rightarrow> time_ms \<Rightarrow> bool" where
  "token_valid c now = (kc_serviceToken c \<noteq> None \<and> now < kc_tokenExpiresAt c - 30000)"

text \<open>The part of \<open>getServiceToken\<close> after the cache; \<open>now\<close> was read before it.\<close>

definition requestServiceToken ::
  "'w fetcher \<Rightarrow> string \<Rightarrow> string \<Rightarrow> time_ms \<Rightarrow> ('w, string) kc_call" where
  "requestServiceToken ft clientId clientSecret now =
     kc_bind (getOpenIdConfiguration ft) (\<lambda>oc.
     kc_bind (kc_fetch (ft_token ft) (form_post (oc_token_endpoint oc)
         [(''grant_type'', ''client_credentials''), (''client_id'', clientId),
          (''client_secret'', clientSecret)]))
       (\<lambda>(ok, body, json).
          if \<not> ok
          then kc_bind (kc_await body) (\<lambda>error.
            kc_throw ft (''Failed to obtain service token: '' @ error) AUTHENTICATION_REQUIRED)
          else kc_bind (kc_await json)
            (\<lambda>tk (c, w). (Inr (tk_access_token tk),
               (c\<lparr>kc_serviceToken := Some tk, kc_tokenExpiresAt := now + tk_expires_in tk * 1000\<rparr>,
                w)))))"

definition getServiceToken ::
  "'w fetcher \<Rightarrow> ServiceAccountCredentials option \<Rightarrow> ('w, string) kc_call" where
  "getServiceToken ft credentials = (\<lambda>(c, w).
     case service_clientSecret (kc_config c) credentials of
       None \<Rightarrow>
         kc_throw ft ''Client secret required for service account token''
           AUTHENTICATION_REQUIRED (c, w)
     | Some clientSecret \<Rightarrow>
         let now = ft_clock ft w in
         (case kc_serviceToken c of
            Some tk \<Rightarrow>
              if now < kc_tokenExpiresAt c - 30000 then (Inr (tk_access_token tk), (c, w))
              else requestServiceToken ft (service_clientId (kc_config c) credentials)
                     clientSecret now (c, w)
          | None \<Rightarrow>
              requestServiceToken ft (service_clientId (kc_config c) credentials)
                clientSecret now (c, w)))"

text \<open>Adding the secret, when the configuration has one.\<close>

definition with_secret :: "KeycloakConfig \<Rightarrow> search_params \<Rightarrow> search_params" where
  "with_secret config params =
     (case js_or_null (kg_clientSecret config) of
        None \<Rightarrow> params | Some secret \<Rightarrow> params_set params ''client_secret'' secret)"

definition exchangeCode ::
  "'w fetcher \<Rightarrow> string \<Rightarrow> string \<Rightarrow> string option \<Rightarrow> ('w, TokenResponse) kc_call" where
  "exchangeCode ft code redirectUri codeVerifier =
     kc_bind (getOpenIdConfiguration ft) (\<lambda>oc (c, w).
       let params = with_secret (kc_config c)
             [(''grant_type'', ''authorization_code''), (''client_id'', kg_clientId (kc_config c)),
              (''code'', code), (''redirect_uri'', redirectUri)];
           params = (case js_or_null codeVerifier of
             None \<Rightarrow> params | Some v \<Rightarrow> params_set params ''code_verifier'' v) in
       kc_bind (kc_fetch (ft_token ft) (form_post (oc_token_endpoint oc) params))
         (\<lambda>(ok, body, json).
            if \<not> ok
            then kc_bind (kc_await body) (\<lambda>error.
              kc_throw ft (''Token exchange failed: '' @ error) INVALID_TOKEN)
            else kc_await json)
         (c, w))"

definition refreshToken :: "'w fetcher \<Rightarrow> string \<Rightarrow> ('w, TokenResponse) kc_call" where
  "refreshToken ft token =
     kc_bind (getOpenIdConfiguration ft) (\<lambda>oc (c, w).
       kc_bind (kc_fetch (ft_token ft) (form_post (oc_token_endpoint oc)
           (with_secret (kc_config c)
             [(''grant_type'', ''refresh_token''), (''client_id'', kg_clientId (kc_config c)),
              (''refresh_token'', token)])))
         (\<lambda>(ok, body, json).
            if \<not> ok then kc_throw ft ''Token refresh failed'' TOKEN_EXPIRED else kc_await json)
         (c, w))"

definition introspectToken :: "'w fetcher \<Rightarrow> string \<Rightarrow> ('w, IntrospectionResponse) kc_call" where
  "introspectToken ft token =
     kc_bind (getOpenIdConfiguration ft) (\<lambda>oc (c, w).
       case js_or_null (kg_clientSecret (kc_config c)) of
         None \<Rightarrow>
           kc_throw ft ''Client secret required for token introspection''
             AUTHENTICATION_REQUIRED (c, w)
       | Some secret \<Rightarrow>
           kc_bind (kc_fetch (ft_introspection ft) (form_post (oc_introspection_endpoint oc)
               [(''token'', token), (''client_id'', kg_clientId (kc_config c)),
                (''client_secret'', secret)]))
             (\<lambda>(ok, body, json).
                if \<not> ok then kc_throw ft ''Token introspection failed'' INVALID_TOKEN
                else kc_await json)
             (c, w))"

definition getUserInfo :: "'w fetcher \<Rightarrow> string \<Rightarrow> ('w, UserInfoResponse) kc_call" where
  "getUserInfo ft accessToken =
     kc_bind (getOpenIdConfiguration ft) (\<lambda>oc.
       kc_bind (kc_fetch (ft_userinfo ft) (http_get (oc_userinfo_endpoint oc)
           [(''Authorization'', ''Bearer '' @ accessToken)]))
         (\<lambda>(ok, body, json).
            if \<not> ok then kc_throw ft ''Failed to get user info'' INVALID_TOKEN
            else kc_await json))"

section \<open>Query strings\<close>

text \<open>
  \<open>URLSearchParams.toString\<close>: letters, digits and \<open>*-._\<close> stand for themselves, a space is \<open>+\<close>,
  any other byte is a percent sign and two hexadecimal digits.
\<close>

definition form_safe :: "char \<Rightarrow> bool" where
  "form_safe c = (let n = (of_char c :: nat) in
     48 \<le> n \<and> n \<le> 57 \<or> 65 \<le> n \<and> n \<le> 90 \<or> 97 \<le> n \<and> n \<le> 122 \<or>
     n = 42 \<or> n = 45 \<or> n = 46 \<or> n = 95)"

definition upper_hex :: "nat \<Rightarrow> char" where
  "upper_hex n = (if n < 10 then char_of (48 + n) else char_of (55 + n))"

definition form_char :: "char \<Rightarrow> string" where
  "form_char c =
     (if form_safe c then [c]
      else if c = CHR '' '' then ''+''
      else [CHR ''%'', upper_hex (of_char c div 16), upper_hex (of_char c mod 16)])"

definition form_text :: "string \<Rightarrow> string" where
  "form_text s = concat (map form_char s)"

definition params_toString :: "search_params \<Rightarrow> string" where
  "params_toString params =
     js_join ''&'' (map (\<lambda>(key, val). form_text key @ ''='' @ form_text val) params)"

definition getAuthorizationUrl ::
  "'w fetcher \<Rightarrow> string \<Rightarrow> string \<Rightarrow> string option \<Rightarrow> string option \<Rightarrow> ('w, string) kc_call" where
  "getAuthorizationUrl ft redirectUri state codeChallenge scope =
     kc_bind (getOpenIdConfiguration ft) (\<lambda>oc (c, w).
       let params = [(''client_id'', kg_clientId (kc_config c)), (''redirect_uri'', redirectUri),
             (''response_type'', ''code''),
             (''scope'', js_coalesce scope ''openid email profile''), (''state'', state)];
           params = (case js_or_null codeChallenge of
             None \<Rightarrow> params
           | Some ch \<Rightarrow> params_set (params_set params ''code_challenge'' ch)
               ''code_challenge_method'' ''S256'') in
       (Inr (oc_authorization_endpoint oc @ ''?'' @ params_toString params), (c, w)))"

definition logout :: "'w fetcher \<Rightarrow> string option \<Rightarrow> ('w, unit) kc_call" where
  "logout ft token =
     kc_bind (getOpenIdConfiguration ft) (\<lambda>oc (c, w).
       case js_or_null token of
         None \<Rightarrow> (Inr (), (c, w))
       | Some t \<Rightarrow>
           kc_bind (kc_fetch (ft_plain ft) (form_post (oc_end_session_endpoint oc)
               (with_secret (kc_config c)
                 [(''client_id'', kg_clientId (kc_config c)), (''refresh_token'', t)])))
             (\<lambda>_. kc_return ())
             (c, w))"

definition getJwksUri :: "'w fetcher \<Rightarrow> ('w, string) kc_call" where
  "getJwksUri ft = kc_bind (getOpenIdConfiguration ft) (\<lambda>oc. kc_return (oc_jwks_uri oc))"

definition createKeycloakClient :: "(string \<Rightarrow> string option) \<Rightarrow> KeycloakClient" where
  "createKeycloakClient env = newKeycloakClient
     \<lparr>kg_baseUrl = js_or_opt (env ''KEYCLOAK_URL'') ''http://localhost:8080'',
      kg_realm = js_or_opt (env ''KEYCLOAK_REALM'') ''zkdpp'',
      kg_clientId = js_or_opt (env ''KEYCLOAK_CLIENT_ID'') ''zkdpp-services'',
      kg_clientSecret = env ''KEYCLOAK_CLIENT_SECRET''\<rparr>"

definition createKeycloakClientWithConfig :: "KeycloakConfig \<Rightarrow> KeycloakClient" where
  "createKeycloakClientWithConfig config = newKeycloakClient config"

section \<open>Reading a query string\<close>

definition hex_value :: "char \<Rightarrow> nat option" where
  "hex_value c = (let n = (of_char c :: nat) in
     if 48 \<le> n \<and> n \<le> 57 then Some (n - 48)
     else if 65 \<le> n \<and> n \<le> 70 then Some (n - 55)
     else if 97 \<le> n \<and> n \<le> 102 then Some (n - 87) else None)"

fun form_decode :: "string \<Rightarrow> string" where
  "form_decode [] = []"
| "form_decode (c # cs) =
     (if c = CHR ''+'' then CHR '' '' # form_decode cs
      else if c = CHR ''%'' then
        (case cs of
           a # b # ds \<Rightarrow>
             (case (hex_value a, hex_value b) of
                (Some h, Some l) \<Rightarrow> char_of (16 * h + l) # form_decode ds
              | _ \<Rightarrow> c # form_decode cs)
         | _ \<Rightarrow> c # form_decode cs)
      else c # form_decode cs)"

definition parse_pair :: "string \<Rightarrow> string \<times> string" where
  "parse_pair s = (form_decode (takeWhile (\<lambda>c. c \<noteq> CHR ''='') s),
     form_decode (drop 1 (dropWhile (\<lambda>c. c \<noteq> CHR ''='') s)))"

definition parse_query :: "string \<Rightarrow> search_params" where
  "parse_query q = map parse_pair (filter (\<lambda>s. s \<noteq> []) (js_split (CHR ''&'') q))"

lemma hex_value_upper: "n < 16 \<Longrightarrow> hex_value (upper_hex n) = Some n"
  by (auto simp: hex_value_def upper_hex_def Let_def)

lemma of_char_less: "(of_char c :: nat) < 256"
  by (metis of_char_mod_256 mod_less_divisor zero_less_numeral)

lemma high_half: "(of_char c :: nat) div 16 < 16"
  using of_char_less [of c] by linarith

lemma decode_form_char: "form_decode (form_char c @ s) = c # form_decode s"
proof (cases "form_safe c")
  case True
  then have "c \<noteq> CHR ''+''" and "c \<noteq> CHR ''%''"
    by (auto simp: form_safe_def)
  with True show ?thesis
    by (simp add: form_char_def)
next
  case False
  have "char_of (16 * (of_char c div 16) + of_char c mod 16 :: nat) = c"
    by simp
  with False show ?thesis
    by (simp add: form_char_def hex_value_upper high_half)
qed

lemma decode_form_text: "form_decode (form_text s) = s"
  by (induction s) (simp_all add: form_text_def decode_form_char)

lemma upper_hex_plain: "n < 16 \<Longrightarrow> upper_hex n \<noteq> CHR ''&'' \<and> upper_hex n \<noteq> CHR ''=''"
  using hex_value_upper [of n] by (auto simp: hex_value_def)

lemma form_char_plain: "CHR ''&'' \<notin> set (form_char c) \<and> CHR ''='' \<notin> set (form_char c)"
  using upper_hex_plain [OF high_half [of c]] upper_hex_plain [of "of_char c mod 16"]
  by (auto simp: form_char_def form_safe_def)

lemma form_text_plain: "CHR ''&'' \<notin> set (form_text s)" "CHR ''='' \<notin> set (form_text s)"
  using form_char_plain by (auto simp: form_text_def)

lemma parse_pair_text: "parse_pair (form_text key @ CHR ''='' # form_text val) = (key, val)"
proof -
  have "takeWhile (\<lambda>c. c \<noteq> CHR ''='') (form_text key @ CHR ''='' # form_text val) = form_text key"
    using form_text_plain by (subst takeWhile_append2) auto
  moreover have "dropWhile (\<lambda>c. c \<noteq> CHR ''='') (form_text key @ CHR ''='' # form_text val) =
      CHR ''='' # form_text val"
    using form_text_plain by (subst dropWhile_append2) auto
  ultimately show ?thesis
    by (simp add: parse_pair_def decode_form_text)
qed

lemma js_split_plain: "c \<notin> set s \<Longrightarrow> js_split c (s @ c # t) = s # js_split c t"
  by (induction s) auto

lemma js_split_whole: "c \<notin> set s \<Longrightarrow> js_split c s = [s]"
  by (induction s) auto

lemma js_split_join:
  "parts \<noteq> [] \<Longrightarrow> \<forall>s \<in> set parts. c \<notin> set s \<Longrightarrow> js_split c (js_join [c] parts) = parts"
  by (induction "[c]" parts rule: js_join.induct) (simp_all add: js_split_plain js_split_whole)

lemma parse_query_toString: "parse_query (params_toString params) = params"
proof (cases "params = []")
  case False
  have "js_split (CHR ''&'') (params_toString params) =
      map (\<lambda>(key, val). form_text key @ ''='' @ form_text val) params"
    unfolding params_toString_def using False form_text_plain(1) by (intro js_split_join) auto
  moreover have "filter (\<lambda>s. s \<noteq> []) (map (\<lambda>(key, val). form_text key @ ''='' @ form_text val) params) =
      map (\<lambda>(key, val). form_text key @ ''='' @ form_text val) params"
    by (auto simp: filter_id_conv)
  ultimately show ?thesis
    by (simp add: parse_query_def case_prod_unfold comp_def parse_pair_text)
qed (simp add: parse_query_def params_toString_def)

section \<open>What the methods keep\<close>

interpretation openid_memo: memo "\<lambda>(c, w). kc_openIdConfig c" "getOpenIdConfiguration ft"
  by unfold_locales (auto simp: getOpenIdConfiguration_def kc_bind_def kc_fetch_def kc_throw_def
      kc_await_def split: option.splits prod.splits reply.splits if_splits sum.splits)

text \<open>Requests take time: an answer never comes before the question.\<close>

definition steady :: "'w fetcher \<Rightarrow> bool" where
  "steady ft =
     ((\<forall>q w. ft_clock ft w \<le> ft_clock ft (snd (ft_openid ft q w))) \<and>
      (\<forall>q w. ft_clock ft w \<le> ft_clock ft (snd (ft_token ft q w))) \<and>
      (\<forall>q w. ft_clock ft w \<le> ft_clock ft (snd (ft_introspection ft q w))) \<and>
      (\<forall>q w. ft_clock ft w \<le> ft_clock ft (snd (ft_userinfo ft q w))) \<and>
      (\<forall>q w. ft_clock ft w \<le> ft_clock ft (snd (ft_plain ft q w))))"

text \<open>
  What holds from one state to a later one of every method: a preorder on states that sending a
  request and keeping the endpoints respect; with the last law, keeping a service token as well.
\<close>

definition along :: "('s \<Rightarrow> 's \<Rightarrow> bool) \<Rightarrow> 's \<Rightarrow> 'r \<times> 's \<Rightarrow> bool" where
  "along R s x = R s (snd x)"

locale call_frame =
  fixes R :: "KeycloakClient \<times> 'w \<Rightarrow> KeycloakClient \<times> 'w \<Rightarrow> bool"
    and ft :: "'w fetcher"
  assumes refl: "R s s"
    and trans: "R s t \<Longrightarrow> R t u \<Longrightarrow> R s u"
    and send: "send \<in> {\<lambda>q w. snd (ft_openid ft q w), \<lambda>q w. snd (ft_token ft q w),
      \<lambda>q w. snd (ft_introspection ft q w), \<lambda>q w. snd (ft_userinfo ft q w),
      \<lambda>q w. snd (ft_plain ft q w)} \<Longrightarrow> R (c, w) (c, send q w)"
    and store_endpoints:
      "kc_openIdConfig c = None \<Longrightarrow> R (c, w) (c\<lparr>kc_openIdConfig := Some oc\<rparr>, w)"
begin

lemma here: "along R s (r, s)"
  by (simp add: along_def refl)

lemma bind: "along R s (f s) \<Longrightarrow> (\<And>a t. along R t (g a t)) \<Longrightarrow> along R s (kc_bind f g s)"
  unfolding along_def kc_bind_def
  by (auto split: prod.splits sum.splits) (metis trans snd_conv)

lemma throws: "along R s (kc_throw ft m code s)"
  by (cases s) (simp add: along_def kc_throw_def refl)

lemma awaits: "along R s (kc_await x s)"
  by (simp add: along_def kc_await_def refl)

lemma returns: "along R s (kc_return a s)"
  by (simp add: along_def kc_return_def refl)

lemma fetches:
  "along R s (kc_fetch (ft_openid ft) q s)" "along R s (kc_fetch (ft_token ft) q s)"
  "along R s (kc_fetch (ft_introspection ft) q s)" "along R s (kc_fetch (ft_userinfo ft) q s)"
  "along R s (kc_fetch (ft_plain ft) q s)"
proof -
  have sent: "along R s (kc_fetch f q s)" if "\<And>c w. R (c, w) (c, snd (f q w))"
    for f :: "http_request \<Rightarrow> 'w \<Rightarrow> 'x reply \<times> 'w"
    using that [of "fst s" "snd s"]
    by (auto simp: along_def kc_fetch_def split: prod.splits reply.splits)
  show "along R s (kc_fetch (ft_openid ft) q s)" "along R s (kc_fetch (ft_token ft) q s)"
    "along R s (kc_fetch (ft_introspection ft) q s)" "along R s (kc_fetch (ft_userinfo ft) q s)"
    "along R s (kc_fetch (ft_plain ft) q s)"
    using send by (auto intro!: sent)
qed

lemma openid: "along R s (getOpenIdConfiguration ft s)"
proof -
  obtain c w where s: "s = (c, w)"
    by (cases s)
  show ?thesis
  proof (cases "kc_openIdConfig c")
    case None
    let ?q = "http_get (realmUrl (kc_config c) @ ''/.well-known/openid-configuration'') []"
    obtain x w' where sent: "ft_openid ft ?q w = (x, w')"
      by (cases "ft_openid ft ?q w")
    have "R (c, w) (c, w')"
      using send [of "\<lambda>q w. snd (ft_openid ft q w)" c w ?q] sent by simp
    then show ?thesis
      using None sent trans store_endpoints [OF None, of w']
      by (auto simp: s along_def getOpenIdConfiguration_def kc_bind_def kc_fetch_def kc_throw_def
          kc_await_def split: reply.splits sum.splits)
  qed (simp add: s along_def getOpenIdConfiguration_def refl)
qed

lemmas steps = here bind throws awaits returns fetches openid

lemma methods:
  "along R s (exchangeCode ft code uri verifier s)"
  "along R s (refreshToken ft t s)"
  "along R s (introspectToken ft t s)"
  "along R s (getUserInfo ft t s)"
  "along R s (getAuthorizationUrl ft uri state ch scope s)"
  "along R s (logout ft t' s)"
  "along R s (getJwksUri ft s)"
  by (auto simp: exchangeCode_def refreshToken_def introspectToken_def getUserInfo_def
      getAuthorizationUrl_def logout_def getJwksUri_def Let_def
      split: option.splits prod.splits intro!: steps)

end

locale token_call_frame = call_frame +
  assumes store_token:
    "R (c, w) (c\<lparr>kc_serviceToken := Some tk, kc_tokenExpiresAt := n\<rparr>, w)"
begin

lemma stores: "along R (c, w) (r, (c\<lparr>kc_serviceToken := Some tk, kc_tokenExpiresAt := n\<rparr>, w))"
  by (simp add: along_def store_token)

lemma request: "along R s (requestServiceToken ft cid secret now s)"
  by (auto simp: requestServiceToken_def split: prod.splits intro!: steps stores)

lemma service_token: "along R s (getServiceToken ft credentials s)"
  by (auto simp: getServiceToken_def Let_def split: prod.splits option.splits
      intro!: steps request)

end

text \<open>From one state to a later one nothing happens to the service token.\<close>

definition token_kept :: "'w fetcher \<Rightarrow> KeycloakClient \<times> 'w \<Rightarrow> KeycloakClient \<times> 'w \<Rightarrow> bool" where
  "token_kept ft s t =
     (kc_config (fst t) = kc_config (fst s) \<and>
      kc_serviceToken (fst t) = kc_serviceToken (fst s) \<and>
      kc_tokenExpiresAt (fst t) = kc_tokenExpiresAt (fst s) \<and>
      (steady ft \<longrightarrow> ft_clock ft (snd s) \<le> ft_clock ft (snd t)))"

definition endpoints_kept :: "KeycloakClient \<times> 'w \<Rightarrow> KeycloakClient \<times> 'w \<Rightarrow> bool" where
  "endpoints_kept s t =
     (kc_config (fst t) = kc_config (fst s) \<and>
      (\<forall>oc. kc_openIdConfig (fst s) = Some oc \<longrightarrow> kc_openIdConfig (fst t) = Some oc))"

interpretation token_frame: call_frame "token_kept ft" ft
  by unfold_locales (auto simp: token_kept_def steady_def)

interpretation endpoint_frame: token_call_frame endpoints_kept ft
  by unfold_locales (auto simp: endpoints_kept_def)

section \<open>The methods in any order\<close>

datatype kc_op =
    OpOpenId
  | OpServiceToken "ServiceAccountCredentials option"
  | OpExchange string string "string option"
  | OpRefresh string
  | OpIntrospect string
  | OpUserInfo string
  | OpAuthorizationUrl string string "string option" "string option"
  | OpLogout "string option"
  | OpJwksUri

definition forget :: "('w, 'a) kc_call \<Rightarrow> ('w, unit) kc_call" where
  "forget f = kc_bind f (\<lambda>_. kc_return ())"

fun kc_exec :: "'w fetcher \<Rightarrow> kc_op \<Rightarrow> ('w, unit) kc_call" where
  "kc_exec ft OpOpenId = forget (getOpenIdConfiguration ft)"
| "kc_exec ft (OpServiceToken credentials) = forget (getServiceToken ft credentials)"
| "kc_exec ft (OpExchange code uri verifier) = forget (exchangeCode ft code uri verifier)"
| "kc_exec ft (OpRefresh t) = forget (refreshToken ft t)"
| "kc_exec ft (OpIntrospect t) = forget (introspectToken ft t)"
| "kc_exec ft (OpUserInfo t) = forget (getUserInfo ft t)"
| "kc_exec ft (OpAuthorizationUrl uri state ch scope) =
     forget (getAuthorizationUrl ft uri state ch scope)"
| "kc_exec ft (OpLogout t) = forget (logout ft t)"
| "kc_exec ft OpJwksUri = forget (getJwksUri ft)"

text \<open>A run: methods called one after the other, and time going on between them.\<close>

inductive kc_run :: "'w fetcher \<Rightarrow> KeycloakClient \<times> 'w \<Rightarrow> KeycloakClient \<times> 'w \<Rightarrow> bool" for ft where
  kc_start: "kc_run ft s s"
| kc_step: "kc_run ft s t \<Longrightarrow> kc_exec ft operation t = (r, u) \<Longrightarrow> kc_run ft s u"
| kc_wait: "kc_run ft s (c, w) \<Longrightarrow> ft_clock ft w \<le> ft_clock ft w' \<Longrightarrow> kc_run ft s (c, w')"

lemma along_exec:
  "kc_exec ft operation s = (r, t) \<Longrightarrow> along R s (kc_exec ft operation s) \<Longrightarrow> R s t"
  by (simp add: along_def)

context call_frame
begin

lemma exec:
  assumes "\<forall>credentials. operation \<noteq> OpServiceToken credentials"
  shows "along R s (kc_exec ft operation s)"
  using assms by (cases operation) (auto simp: forget_def intro!: steps methods)

end

context token_call_frame
begin

lemma exec_any: "along R s (kc_exec ft operation s)"
proof (cases "\<exists>credentials. operation = OpServiceToken credentials")
  case True
  then show ?thesis
    by (auto simp: forget_def intro!: steps service_token)
next
  case False
  then show ?thesis
    by (intro exec) simp
qed

end

lemma endpoints_kept_run: "kc_run ft s t \<Longrightarrow> endpoints_kept s t"
proof (induction rule: kc_run.induct)
  case (kc_step s t operation r u)
  then show ?case
    using along_exec [OF _ endpoint_frame.exec_any] endpoint_frame.trans by blast
next
  case (kc_wait s c w w')
  then show ?case
    by (auto simp: endpoints_kept_def)
qed (simp add: endpoints_kept_def)

lemma openid_cached:
  "kc_openIdConfig c = Some oc \<Longrightarrow> getOpenIdConfiguration ft (c, w) = (Inr oc, (c, w))"
  by (rule openid_memo.hit) simp

lemma bind_cached:
  "kc_openIdConfig c = Some oc \<Longrightarrow> kc_bind (getOpenIdConfiguration ft) g (c, w) = g oc (c, w)"
  by (simp add: kc_bind_def openid_cached)

lemma fetcher_irrelevant [simp]:
  "ft_clock (ft\<lparr>ft_openid := x\<rparr>) = ft_clock ft" "ft_token (ft\<lparr>ft_openid := x\<rparr>) = ft_token ft"
  "ft_introspection (ft\<lparr>ft_openid := x\<rparr>) = ft_introspection ft"
  by simp_all

lemma throw_irrelevant: "kc_throw (ft\<lparr>ft_openid := x\<rparr>) = kc_throw ft"
  by (intro ext) (simp add: kc_throw_def)

lemma forget_cong: "f s = g s \<Longrightarrow> forget f s = forget g s"
  by (simp add: forget_def kc_bind_def)

lemma no_discovery:
  assumes "kc_openIdConfig c = Some oc"
  shows "kc_exec ft operation (c, w) = kc_exec (ft\<lparr>ft_openid := x\<rparr>) operation (c, w)"
  by (cases operation; simp; rule forget_cong)
    (simp_all add: exchangeCode_def refreshToken_def introspectToken_def getUserInfo_def
      getAuthorizationUrl_def logout_def getJwksUri_def getServiceToken_def requestServiceToken_def
      bind_cached [OF assms] openid_cached [OF assms] throw_irrelevant Let_def
      cong: option.case_cong if_cong)

section \<open>Properties\<close>

definition clock_kept :: "'w fetcher \<Rightarrow> KeycloakClient \<times> 'w \<Rightarrow> KeycloakClient \<times> 'w \<Rightarrow> bool" where
  "clock_kept ft s t = (steady ft \<longrightarrow> ft_clock ft (snd s) \<le> ft_clock ft (snd t))"

interpretation clock_frame: token_call_frame "clock_kept ft" ft
  by unfold_locales (auto simp: clock_kept_def steady_def)

lemma clock_exec:
  "steady ft \<Longrightarrow> kc_exec ft operation s = (r, t) \<Longrightarrow> ft_clock ft (snd s) \<le> ft_clock ft (snd t)"
  by (drule along_exec [OF _ clock_frame.exec_any]) (simp add: clock_kept_def)

lemma service_token_hit:
  assumes "kc_serviceToken c = Some tk" and "ft_clock ft w < kc_tokenExpiresAt c - 30000"
    and "service_clientSecret (kc_config c) credentials \<noteq> None"
  shows "getServiceToken ft credentials (c, w) = (Inr (tk_access_token tk), (c, w))"
  using assms by (auto simp: getServiceToken_def Let_def)

lemma service_token_hit_state:
  assumes "kc_serviceToken c = Some tk" and "ft_clock ft w < kc_tokenExpiresAt c - 30000"
  shows "snd (getServiceToken ft credentials (c, w)) = (c, w)"
  using assms by (auto simp: getServiceToken_def Let_def kc_throw_def split: option.splits)

lemma service_token_miss:
  assumes "\<not> token_valid c (ft_clock ft w)"
    and "service_clientSecret (kc_config c) credentials = Some secret"
  shows "getServiceToken ft credentials (c, w) = requestServiceToken ft
    (service_clientId (kc_config c) credentials) secret (ft_clock ft w) (c, w)"
  using assms by (auto simp: getServiceToken_def token_valid_def Let_def split: option.splits)

lemma request_stores:
  assumes "requestServiceToken ft cid secret now (c, w) = (Inr tok, (c', w'))"
  shows "\<exists>tk. kc_serviceToken c' = Some tk \<and> tok = tk_access_token tk \<and>
    kc_tokenExpiresAt c' = now + tk_expires_in tk * 1000"
  using assms by (auto simp: requestServiceToken_def kc_bind_def kc_await_def kc_throw_def
      split: prod.splits sum.splits if_splits)

lemma service_token_fresh:
  assumes "getServiceToken ft credentials (c, w) = (Inr tok, (c1, w1))"
    and "\<not> token_valid c (ft_clock ft w)"
  obtains tk where "kc_serviceToken c1 = Some tk" and "tok = tk_access_token tk"
    and "kc_tokenExpiresAt c1 = ft_clock ft w + tk_expires_in tk * 1000"
    and "kc_config c1 = kc_config c"
proof -
  have "along endpoints_kept (c, w) (getServiceToken ft credentials (c, w))"
    by (rule endpoint_frame.service_token)
  then have "kc_config c1 = kc_config c"
    by (simp add: assms(1) along_def endpoints_kept_def)
  moreover obtain secret where "service_clientSecret (kc_config c) credentials = Some secret"
    using assms(1) by (cases "service_clientSecret (kc_config c) credentials")
      (auto simp: getServiceToken_def kc_throw_def)
  ultimately show thesis
    using that request_stores [of ft _ secret] assms(1) service_token_miss [OF assms(2)] by metis
qed

lemma token_outlives_run:
  assumes "kc_run ft s t" and "steady ft"
    and "kc_serviceToken (fst s) = Some tk" and "ft_clock ft (snd t) < kc_tokenExpiresAt (fst s) - 30000"
  shows "kc_serviceToken (fst t) = Some tk \<and> kc_tokenExpiresAt (fst t) = kc_tokenExpiresAt (fst s) \<and>
    kc_config (fst t) = kc_config (fst s)"
  using assms(1,3,4)
proof (induction rule: kc_run.induct)
  case (kc_step s t operation r u)
  have "ft_clock ft (snd t) \<le> ft_clock ft (snd u)"
    using clock_exec [OF assms(2) kc_step.hyps(2)] .
  then have t: "kc_serviceToken (fst t) = Some tk" "kc_config (fst t) = kc_config (fst s)"
      "kc_tokenExpiresAt (fst t) = kc_tokenExpiresAt (fst s)"
      "ft_clock ft (snd t) < kc_tokenExpiresAt (fst t) - 30000"
    using kc_step by auto
  show ?case
  proof (cases "\<exists>credentials. operation = OpServiceToken credentials")
    case True
    then obtain credentials where op: "operation = OpServiceToken credentials" ..
    have "snd (getServiceToken ft credentials (fst t, snd t)) = (fst t, snd t)"
      using t by (intro service_token_hit_state) auto
    then have "u = t"
      using kc_step.hyps(2)
      by (auto simp: op forget_def kc_bind_def kc_return_def split: prod.splits sum.splits)
    with t show ?thesis by simp
  next
    case False
    then have "token_kept ft t u"
      using along_exec [OF kc_step.hyps(2) token_frame.exec] by blast
    with t show ?thesis by (simp add: token_kept_def)
  qed
next
  case (kc_wait s c w w')
  then show ?case by auto
qed simp

text \<open>C33: A service token obtained from the server at a time is returned again, by every call of
  a run that follows and whatever methods ran in between, up to thirty seconds before the lifetime
  counted from the request is over, without another request and \<^emph>\<open>whichever credentials are
  given\<close>; from then on the client asks the server with the credentials given.\<close>

theorem service_token_reuse:
  assumes "getServiceToken ft credentials (c, w) = (Inr tok, (c1, w1))"
    and "\<not> token_valid c (ft_clock ft w)" and "steady ft"
  shows "\<exists>tk. kc_serviceToken c1 = Some tk \<and> tok = tk_access_token tk \<and>
    (let reusable_until = ft_clock ft w + tk_expires_in tk * 1000 - 30000 in
      (\<forall>c2 w2 other. kc_run ft (c1, w1) (c2, w2) \<and> ft_clock ft w2 < reusable_until \<and>
          service_clientSecret (kc_config c) other \<noteq> None \<longrightarrow>
        getServiceToken ft other (c2, w2) = (Inr tok, (c2, w2))) \<and>
      (\<forall>w2 other secret. reusable_until \<le> ft_clock ft w2 \<and>
          service_clientSecret (kc_config c) other = Some secret \<longrightarrow>
        getServiceToken ft other (c1, w2) = requestServiceToken ft
          (service_clientId (kc_config c) other) secret (ft_clock ft w2) (c1, w2)))"
proof -
  obtain tk where tk: "kc_serviceToken c1 = Some tk" "tok = tk_access_token tk"
      "kc_tokenExpiresAt c1 = ft_clock ft w + tk_expires_in tk * 1000" "kc_config c1 = kc_config c"
    using service_token_fresh [OF assms(1,2)] .
  have "getServiceToken ft other (c2, w2) = (Inr tok, (c2, w2))"
    if "kc_run ft (c1, w1) (c2, w2)" and "ft_clock ft w2 < kc_tokenExpiresAt c1 - 30000"
      and "service_clientSecret (kc_config c) other \<noteq> None" for c2 w2 other
    using token_outlives_run [OF that(1) assms(3), of tk] that tk service_token_hit [of c2 tk ft w2 other]
    by simp
  moreover have "getServiceToken ft other (c1, w2) = requestServiceToken ft
      (service_clientId (kc_config c) other) secret (ft_clock ft w2) (c1, w2)"
    if "kc_tokenExpiresAt c1 - 30000 \<le> ft_clock ft w2"
      and "service_clientSecret (kc_config c) other = Some secret" for w2 other secret
    using service_token_miss [of c1 ft w2 other secret] that tk by (simp add: token_valid_def)
  ultimately show ?thesis
    unfolding Let_def tk(3) [symmetric] using tk by (intro exI [of _ tk]) (simp add: tk(3))
qed

text \<open>The endpoints are discovered once: after a successful discovery every later state of the
  client has them, and no method asks for them again, so that what a discovery would answer from
  then on makes no difference to any method.\<close>

lemma endpoints_fetched_once:
  assumes "getOpenIdConfiguration ft s = (Inr oc, t)" and "kc_run ft t (c, w)"
  shows "kc_openIdConfig c = Some oc \<and> getJwksUri ft (c, w) = (Inr (oc_jwks_uri oc), (c, w)) \<and>
    (\<forall>operation x. kc_exec ft operation (c, w) = kc_exec (ft\<lparr>ft_openid := x\<rparr>) operation (c, w))"
proof -
  have "kc_openIdConfig (fst t) = Some oc"
    using openid_memo.filled [OF assms(1)] by (simp add: case_prod_unfold)
  then have oc: "kc_openIdConfig c = Some oc"
    using endpoints_kept_run [OF assms(2)] by (simp add: endpoints_kept_def)
  moreover have "getJwksUri ft (c, w) = (Inr (oc_jwks_uri oc), (c, w))"
    unfolding getJwksUri_def kc_return_def by (rule bind_cached [OF oc])
  ultimately show ?thesis
    using oc by (intro conjI allI no_discovery [OF oc])
qed

text \<open>The authorization URL is the discovered endpoint followed by a query that reads back as
  exactly the parameters of the request, whatever characters they hold, with the code challenge
  and its algorithm when one is given.\<close>

lemma authorization_url_roundtrip:
  assumes "getAuthorizationUrl ft redirectUri state codeChallenge scope (c, w) = (Inr url, (c', w'))"
  shows "\<exists>oc q. kc_openIdConfig c' = Some oc \<and> url = oc_authorization_endpoint oc @ ''?'' @ q \<and>
    parse_query q =
      [(''client_id'', kg_clientId (kc_config c)), (''redirect_uri'', redirectUri),
       (''response_type'', ''code''), (''scope'', js_coalesce scope ''openid email profile''),
       (''state'', state)] @
      (case js_or_null codeChallenge of
         None \<Rightarrow> []
       | Some ch \<Rightarrow> [(''code_challenge'', ch), (''code_challenge_method'', ''S256'')])"
proof -
  obtain oc c1 w1 where oc: "getOpenIdConfiguration ft (c, w) = (Inr oc, (c1, w1))"
    using assms by (auto simp: getAuthorizationUrl_def kc_bind_def split: prod.splits sum.splits)
  have "kc_openIdConfig c1 = Some oc"
    using openid_memo.filled [OF oc] by simp
  moreover have "kc_config c1 = kc_config c"
    using endpoint_frame.openid [of "(c, w)" ft] by (simp add: oc along_def endpoints_kept_def)
  ultimately show ?thesis
    using assms oc
    by (auto simp: getAuthorizationUrl_def kc_bind_def Let_def parse_query_toString params_set_def
        jm_set_def split: option.splits)
qed

text \<open>
  Client and verifier (theory Auth) read the same variables: the realm the client talks to issues
  the tokens the verifier accepts, for the client's own identifier as audience.
\<close>

lemma client_and_verifier_agree:
  "realmUrl (kc_config (createKeycloakClient env)) = auth_issuer (getKeycloakConfig env)"
  "Some (kg_clientId (kc_config (createKeycloakClient env))) = auth_audience (getKeycloakConfig env)"
  by (simp_all add: realmUrl_def createKeycloakClient_def newKeycloakClient_def
      getKeycloakConfig_def Let_def)

section \<open>Examples\<close>

definition demo_openid :: OpenIdConfiguration where
  "demo_openid =
     \<lparr>oc_issuer = ''https://kc/realms/zkdpp'', oc_authorization_endpoint = ''https://kc/auth'',
      oc_token_endpoint = ''https://kc/token'', oc_userinfo_endpoint = ''https://kc/userinfo'',
      oc_jwks_uri = ''https://kc/certs'', oc_introspection_endpoint = ''https://kc/introspect'',
      oc_end_session_endpoint = ''https://kc/logout''\<rparr>"

definition demo_token :: TokenResponse where
  "demo_token =
     \<lparr>tk_access_token = ''first'', tk_expires_in = 300, tk_refresh_expires_in = 0,
      tk_refresh_token = None, tk_token_type = ''Bearer'', tk_scope = ''email''\<rparr>"

text \<open>A server whose state is the time, and which answers at once.\<close>

definition demo_fetcher :: "int fetcher" where
  "demo_fetcher =
     \<lparr>ft_clock = (\<lambda>w. w), ft_openid = (\<lambda>q w. (Reply True (Inr []) (Inr demo_openid), w)),
      ft_token = (\<lambda>q w. (Reply True (Inr []) (Inr demo_token), w)),
      ft_introspection = (\<lambda>q w. (Reply False (Inr []) (Inl (ThrownOther [])), w)),
      ft_userinfo = (\<lambda>q w. (Reply False (Inr []) (Inl (ThrownOther [])), w)),
      ft_plain = (\<lambda>q w. (Reply True (Inr []) (Inr ()), w))\<rparr>"

definition demo_client :: KeycloakClient where
  "demo_client = createKeycloakClient
     [''KEYCLOAK_URL'' \<mapsto> ''https://kc'', ''KEYCLOAK_CLIENT_SECRET'' \<mapsto> ''secret'']"

definition demo_client' :: KeycloakClient where
  "demo_client' = demo_client\<lparr>kc_openIdConfig := Some demo_openid, kc_serviceToken := Some demo_token,
     kc_tokenExpiresAt := 300000\<rparr>"

lemmas demo_eval = kc_bind_def kc_fetch_def kc_await_def kc_throw_def kc_return_def
  demo_fetcher_def demo_client_def createKeycloakClient_def newKeycloakClient_def
  getOpenIdConfiguration_def getServiceToken_def requestServiceToken_def
  service_clientSecret_def service_clientId_def js_or_null_def js_truthy_def

theorem service_token_reuse_witness:
  "getServiceToken demo_fetcher (Some \<lparr>sa_clientId = ''other'', sa_clientSecret = ''s''\<rparr>)
     (demo_client', 269999) = (Inr ''first'', (demo_client', 269999)) \<and>
   getServiceToken demo_fetcher None (demo_client', 270000) = requestServiceToken demo_fetcher
     ''zkdpp-services'' ''secret'' 270000 (demo_client', 270000)"
proof -
  have issued: "getServiceToken demo_fetcher None (demo_client, 0) = (Inr ''first'', (demo_client', 0))"
    by (simp add: demo_eval demo_client'_def demo_token_def)
  have "kc_run demo_fetcher (demo_client', 0) (demo_client', 269999)"
    by (rule kc_wait [OF kc_start]) (simp add: demo_fetcher_def)
  then show ?thesis
    using service_token_reuse [OF issued]
    by (force simp: Let_def demo_client'_def demo_token_def token_valid_def steady_def demo_eval
        js_or_opt_def js_or_def)
qed

end
