(* ===== verification/RateLimit.thy ===== *)
theory RateLimit
  imports Auth
begin

text \<open>
  The rate limits of \<open>packages/shared/src/middleware/rate-limit.ts\<close>: the presets, the key a
  request is counted under, the options given to the plugin and the reply it builds. The plugin
  \<open>@fastify/rate-limit\<close> that counts is third-party: it is the record \<open>limiter\<close>, and what its
  documentation says of it is \<open>counts_per_key\<close>. The set of exempt addresses is explicit state.
\<close>

section \<open>Presets and options\<close>

record RateLimitWindow =
  rw_max :: int
  rw_timeWindow :: int

datatype RateLimitPreset =
  PresetPublic | PresetAuthenticated | PresetVerification | PresetDpp | PresetSettlement | PresetStrict

fun RateLimitPresets :: "RateLimitPreset \<Rightarrow> RateLimitWindow" where
  "RateLimitPresets PresetPublic = \<lparr>rw_max = 100, rw_timeWindow = 60000\<rparr>"
| "RateLimitPresets PresetAuthenticated = \<lparr>rw_max = 1000, rw_timeWindow = 60000\<rparr>"
| "RateLimitPresets PresetVerification = \<lparr>rw_max = 100, rw_timeWindow = 60000\<rparr>"
| "RateLimitPresets PresetDpp = \<lparr>rw_max = 500, rw_timeWindow = 60000\<rparr>"
| "RateLimitPresets PresetSettlement = \<lparr>rw_max = 50, rw_timeWindow = 60000\<rparr>"
| "RateLimitPresets PresetStrict = \<lparr>rw_max = 10, rw_timeWindow = 60000\<rparr>"

record RateLimitConfig =
  rl_max :: "int option"
  rl_timeWindow :: "int option"
  rl_keyGenerator :: "(HttpRequest \<Rightarrow> string) option"
  rl_skipAuth :: "bool option"

definition defaultKeyGenerator :: "HttpRequest \<Rightarrow> string" where
  "defaultKeyGenerator request = js_or_opt (map_option user_id (req_user request)) (req_ip request)"

section \<open>What is registered\<close>

text \<open>The names of the headers and whether they are added.\<close>

record PluginOptions =
  po_max :: int
  po_timeWindow :: int
  po_keyGenerator :: "HttpRequest \<Rightarrow> string"
  po_errorResponseBuilder :: "time_ms \<Rightarrow> int \<Rightarrow> int \<Rightarrow> ErrorBody"
  po_addHeadersOnExceeding :: "(string \<times> bool) list"
  po_addHeaders :: "(string \<times> bool) list"

text \<open>\<open>Math.ceil(ttl / 1000)\<close>; the context holds the limit and the time to live.\<close>

definition ceil_seconds :: "int \<Rightarrow> int" where
  "ceil_seconds ttl = - ((- ttl) div 1000)"

definition errorResponseBuilder :: "time_ms \<Rightarrow> int \<Rightarrow> int \<Rightarrow> ErrorBody" where
  "errorResponseBuilder now limit ttl =
     \<lparr>body_error = ''RateLimitError'', body_code = ''ZKDPP-RL-800'',
      body_message = ''Rate limit exceeded. Try again in '' @ show_int (ceil_seconds ttl) @ '' seconds.'',
      body_details = Some [(''limit'', DNum limit), (''remaining'', DNum 0), (''retryAfterMs'', DNum ttl)],
      body_timestamp = now\<rparr>"

definition registerRateLimit :: "RateLimitConfig \<Rightarrow> PluginOptions" where
  "registerRateLimit config =
     \<lparr>po_max = js_coalesce (rl_max config) (rw_max (RateLimitPresets PresetPublic)),
      po_timeWindow =
        js_coalesce (rl_timeWindow config) (rw_timeWindow (RateLimitPresets PresetPublic)),
      po_keyGenerator = js_coalesce (rl_keyGenerator config) defaultKeyGenerator,
      po_errorResponseBuilder = errorResponseBuilder,
      po_addHeadersOnExceeding =
        [(''x-ratelimit-limit'', True), (''x-ratelimit-remaining'', True), (''x-ratelimit-reset'', True)],
      po_addHeaders =
        [(''x-ratelimit-limit'', True), (''x-ratelimit-remaining'', True), (''x-ratelimit-reset'', True),
         (''retry-after'', True)]\<rparr>"

definition createRouteRateLimit :: "RateLimitPreset \<Rightarrow> RateLimitWindow" where
  "createRouteRateLimit preset = RateLimitPresets preset"

definition createCustomRouteRateLimit :: "int \<Rightarrow> int \<Rightarrow> RateLimitWindow" where
  "createCustomRouteRateLimit m timeWindowMs = \<lparr>rw_max = m, rw_timeWindow = timeWindowMs\<rparr>"

section \<open>Exempt addresses\<close>

definition ipWhitelist :: "string list" where
  "ipWhitelist = [''127.0.0.1'', ''::1'']"

definition addToWhitelist :: "string \<Rightarrow> string list \<Rightarrow> string list" where
  "addToWhitelist ip whitelist = js_set_add whitelist ip"

definition isWhitelisted :: "string list \<Rightarrow> string \<Rightarrow> bool" where
  "isWhitelisted whitelist ip = (ip \<in> set whitelist)"

definition whitelistAwareKeyGenerator :: "string list \<Rightarrow> HttpRequest \<Rightarrow> string" where
  "whitelistAwareKeyGenerator whitelist request =
     (if isWhitelisted whitelist (req_ip request) then ''__whitelisted__''
      else defaultKeyGenerator request)"

section \<open>The plugin\<close>

text \<open>
  A hit, at a time and under a key: \<^const>\<open>None\<close> lets the request through, otherwise the time to live of the
  window. The documentation: within a window requests of a key are let through up to the maximum,
  counted for each key alone.
\<close>

record 'l limiter =
  lm_hit :: "int \<Rightarrow> int \<Rightarrow> string \<Rightarrow> time_ms \<Rightarrow> 'l \<Rightarrow> int option \<times> 'l"

definition counts_per_key :: "'l limiter \<Rightarrow> ('l \<Rightarrow> string \<Rightarrow> time_ms \<Rightarrow> int) \<Rightarrow> int \<Rightarrow> int \<Rightarrow> bool" where
  "counts_per_key lm used m window =
     (\<forall>key now l. (fst (lm_hit lm m window key now l) = None \<longleftrightarrow> used l key now < m) \<and>
        (\<forall>other. used (snd (lm_hit lm m window key now l)) other now =
          used l other now + (if other = key then 1 else 0)))"

text \<open>Hits of one key at one moment: all are let through up to the maximum, none after it.\<close>

definition hits :: "'l limiter \<Rightarrow> int \<Rightarrow> int \<Rightarrow> time_ms \<Rightarrow> string list \<Rightarrow> 'l \<Rightarrow> 'l" where
  "hits lm m window now keys l = fold (\<lambda>key l. snd (lm_hit lm m window key now l)) keys l"

lemma hits_used:
  assumes "counts_per_key lm used m window"
  shows "used (hits lm m window now keys l) key now = used l key now + int (count_list keys key)"
  using assms
  by (induction keys arbitrary: l) (auto simp: hits_def counts_per_key_def)

lemma exempt_addresses_share_a_key:
  "isWhitelisted wl (req_ip r1) \<Longrightarrow> isWhitelisted wl (req_ip r2) \<Longrightarrow>
   whitelistAwareKeyGenerator wl r1 = whitelistAwareKeyGenerator wl r2"
  by (simp add: whitelistAwareKeyGenerator_def)

lemma rate_limit_reply_is_the_error:
  "body_error (errorResponseBuilder now limit ttl) = body_error (toJSON (mkRateLimitError now m t))"
  "body_code (errorResponseBuilder now limit ttl) = body_code (toJSON (mkRateLimitError now m t))"
  by (simp_all add: errorResponseBuilder_def toJSON_def mkRateLimitError_def mkZkDppError_def)

lemma ceil_seconds_bounds: "ttl \<le> ceil_seconds ttl * 1000 \<and> ceil_seconds ttl * 1000 < ttl + 1000"
  unfolding ceil_seconds_def by linarith

end
