(* ===== verification/Observability.thy ===== *)
theory Observability
  imports Complex_Main ErrorCodes
begin

text \<open>
  Metrics and logging of \<open>packages/shared/src\<close> (\<open>metrics/index.ts\<close>, \<open>logging/index.ts\<close>,
  \<open>logging/context.ts\<close>). A metric is its declaration; the registry counts increments and keeps
  observations by metric and labels, and refuses a label that was not declared, as prom-client
  does. Request contexts are objects that several functions may share, so they are kept in a
  heap, and \<open>AsyncLocalStorage\<close> is the address of the current one. A logger is its bindings;
  what it is handed is appended to a list. Formatting the text of either is third-party.
\<close>

section \<open>Metrics\<close>

type_synonym labels = "(string \<times> string) list"

datatype MetricKind = Counter | Histogram "rat list" | Gauge

record Metric =
  mt_name :: string
  mt_help :: string
  mt_labelNames :: "string list"
  mt_kind :: MetricKind

definition httpRequestsTotal :: Metric where
  "httpRequestsTotal = \<lparr>mt_name = ''http_requests_total'', mt_help = ''Total number of HTTP requests'',
     mt_labelNames = [''method'', ''route'', ''status_code''], mt_kind = Counter\<rparr>"

definition httpRequestDuration :: Metric where
  "httpRequestDuration = \<lparr>mt_name = ''http_request_duration_seconds'',
     mt_help = ''HTTP request duration in seconds'',
     mt_labelNames = [''method'', ''route'', ''status_code''],
     mt_kind = Histogram [1/1000, 5/1000, 1/100, 5/100, 1/10, 5/10, 1, 2, 5]\<rparr>"

definition verificationRequestsTotal :: Metric where
  "verificationRequestsTotal = \<lparr>mt_name = ''verification_requests_total'',
     mt_help = ''Total number of verification requests'',
     mt_labelNames = [''predicate'', ''status''], mt_kind = Counter\<rparr>"

definition verificationDuration :: Metric where
  "verificationDuration = \<lparr>mt_name = ''verification_duration_seconds'',
     mt_help = ''Proof verification duration in seconds'', mt_labelNames = [''predicate''],
     mt_kind = Histogram [1/100, 5/100, 1/10, 25/100, 5/10, 1, 25/10, 5, 10]\<rparr>"

definition proofVerificationSuccess :: Metric where
  "proofVerificationSuccess = \<lparr>mt_name = ''proof_verification_success_total'',
     mt_help = ''Total number of successful proof verifications'',
     mt_labelNames = [''predicate''], mt_kind = Counter\<rparr>"

definition proofVerificationFailure :: Metric where
  "proofVerificationFailure = \<lparr>mt_name = ''proof_verification_failure_total'',
     mt_help = ''Total number of failed proof verifications'',
     mt_labelNames = [''predicate'', ''reason''], mt_kind = Counter\<rparr>"

definition databaseQueryDuration :: Metric where
  "databaseQueryDuration = \<lparr>mt_name = ''database_query_duration_seconds'',
     mt_help = ''Database query duration in seconds'', mt_labelNames = [''operation'', ''table''],
     mt_kind = Histogram [1/1000, 5/1000, 1/100, 25/1000, 5/100, 1/10, 25/100, 5/10, 1]\<rparr>"

definition eventBusMessagesTotal :: Metric where
  "eventBusMessagesTotal = \<lparr>mt_name = ''event_bus_messages_total'',
     mt_help = ''Total number of event bus messages'',
     mt_labelNames = [''subject'', ''direction''], mt_kind = Counter\<rparr>"

definition activeConnections :: Metric where
  "activeConnections = \<lparr>mt_name = ''active_connections'', mt_help = ''Number of active connections'',
     mt_labelNames = [''type''], mt_kind = Gauge\<rparr>"

definition dppViewsTotal :: Metric where
  "dppViewsTotal = \<lparr>mt_name = ''dpp_views_total'', mt_help = ''Total number of DPP views'',
     mt_labelNames = [''view_type'', ''product_id''], mt_kind = Counter\<rparr>"

definition meteringEventsTotal :: Metric where
  "meteringEventsTotal = \<lparr>mt_name = ''metering_events_total'',
     mt_help = ''Total number of metered events'',
     mt_labelNames = [''predicate'', ''supplier_id''], mt_kind = Counter\<rparr>"

record MetricsRegistry =
  mr_defaultLabels :: labels
  mr_collects :: nat
  mr_counts :: "string \<Rightarrow> labels \<Rightarrow> nat"
  mr_observed :: "string \<Rightarrow> labels \<Rightarrow> rat list"

definition newRegistry :: MetricsRegistry where
  "newRegistry = \<lparr>mr_defaultLabels = [], mr_collects = 0, mr_counts = (\<lambda>_ _. 0), mr_observed = (\<lambda>_ _. [])\<rparr>"

definition initMetrics :: "string \<Rightarrow> MetricsRegistry \<Rightarrow> MetricsRegistry" where
  "initMetrics serviceName r =
     r\<lparr>mr_defaultLabels := [(''service'', serviceName)], mr_collects := Suc (mr_collects r)\<rparr>"

definition check_labels :: "Metric \<Rightarrow> labels \<Rightarrow> 'a \<Rightarrow> thrown + 'a" where
  "check_labels metric labels x =
     (case filter (\<lambda>l. fst l \<notin> set (mt_labelNames metric)) labels of
        [] \<Rightarrow> Inr x
      | (key, v) # _ \<Rightarrow> Inl (ThrownError ''Error'' (''Added label '' @ key @ '' is not included in initial labelset'')))"

definition metric_inc :: "Metric \<Rightarrow> labels \<Rightarrow> MetricsRegistry \<Rightarrow> thrown + MetricsRegistry" where
  "metric_inc metric labels r = check_labels metric labels
     (r\<lparr>mr_counts := (\<lambda>n l. mr_counts r n l + (if n = mt_name metric \<and> l = labels then 1 else 0))\<rparr>)"

definition metric_observe :: "Metric \<Rightarrow> labels \<Rightarrow> rat \<Rightarrow> MetricsRegistry \<Rightarrow> thrown + MetricsRegistry" where
  "metric_observe metric labels v r = check_labels metric labels
     (r\<lparr>mr_observed := (\<lambda>n l. mr_observed r n l @ (if n = mt_name metric \<and> l = labels then [v] else []))\<rparr>)"

definition recordHttpRequest ::
  "string \<Rightarrow> string \<Rightarrow> nat \<Rightarrow> rat \<Rightarrow> MetricsRegistry \<Rightarrow> thrown + MetricsRegistry" where
  "recordHttpRequest verb route statusCode durationSeconds r =
     (let labels = [(''method'', verb), (''route'', route), (''status_code'', show_nat statusCode)] in
      sum_bind (metric_inc httpRequestsTotal labels r)
        (metric_observe httpRequestDuration labels durationSeconds))"

definition recordVerificationMetrics ::
  "string \<Rightarrow> bool \<Rightarrow> rat \<Rightarrow> string option \<Rightarrow> MetricsRegistry \<Rightarrow> thrown + MetricsRegistry" where
  "recordVerificationMetrics predicate success durationSeconds failureReason r =
     sum_bind (metric_inc verificationRequestsTotal
         [(''predicate'', predicate), (''status'', if success then ''success'' else ''failure'')] r) (\<lambda>r.
     sum_bind (metric_observe verificationDuration [(''predicate'', predicate)] durationSeconds r) (\<lambda>r.
       if success then metric_inc proofVerificationSuccess [(''predicate'', predicate)] r
       else metric_inc proofVerificationFailure
         [(''predicate'', predicate), (''reason'', js_or_opt failureReason ''unknown'')] r))"

definition recordDatabaseQuery ::
  "string \<Rightarrow> string \<Rightarrow> rat \<Rightarrow> MetricsRegistry \<Rightarrow> thrown + MetricsRegistry" where
  "recordDatabaseQuery operation tableName durationSeconds r =
     metric_observe databaseQueryDuration [(''operation'', operation), (''table'', tableName)]
       durationSeconds r"

section \<open>Request contexts\<close>

record RequestContext =
  cx_correlationId :: string
  cx_userId :: "string option"
  cx_service :: string
  cx_operation :: "string option"
  cx_startTime :: time_ms

record ContextUpdates =
  cu_correlationId :: "string option"
  cu_userId :: "string option option"
  cu_service :: "string option"
  cu_operation :: "string option option"
  cu_startTime :: "time_ms option"

text \<open>Objects by address, and the one that is current.\<close>

record ContextStore =
  cs_objects :: "nat \<Rightarrow> RequestContext option"
  cs_current :: "nat option"

text \<open>\<open>run\<close> makes a context current for a function; what is thrown passes through.\<close>

definition runWithContext ::
  "nat \<Rightarrow> (ContextStore \<Rightarrow> (thrown + 'a) \<times> ContextStore) \<Rightarrow> ContextStore \<Rightarrow> (thrown + 'a) \<times> ContextStore" where
  "runWithContext context fn s =
     (let (r, s') = fn (s\<lparr>cs_current := Some context\<rparr>) in (r, s'\<lparr>cs_current := cs_current s\<rparr>))"

definition getContext :: "ContextStore \<Rightarrow> RequestContext option" where
  "getContext s = (case cs_current s of None \<Rightarrow> None | Some a \<Rightarrow> cs_objects s a)"

definition getCorrelationId :: "ContextStore \<Rightarrow> string option" where
  "getCorrelationId s = map_option cx_correlationId (getContext s)"

definition getUserId :: "ContextStore \<Rightarrow> string option" where
  "getUserId s = (case getContext s of None \<Rightarrow> None | Some c \<Rightarrow> cx_userId c)"

definition object_assign :: "ContextUpdates \<Rightarrow> RequestContext \<Rightarrow> RequestContext" where
  "object_assign u c =
     \<lparr>cx_correlationId = js_coalesce (cu_correlationId u) (cx_correlationId c),
      cx_userId = js_coalesce (cu_userId u) (cx_userId c),
      cx_service = js_coalesce (cu_service u) (cx_service c),
      cx_operation = js_coalesce (cu_operation u) (cx_operation c),
      cx_startTime = js_coalesce (cu_startTime u) (cx_startTime c)\<rparr>"

definition updateContext :: "ContextUpdates \<Rightarrow> ContextStore \<Rightarrow> ContextStore" where
  "updateContext updates s =
     (case (cs_current s, getContext s) of
        (Some a, Some c) \<Rightarrow> s\<lparr>cs_objects := (cs_objects s)(a \<mapsto> object_assign updates c)\<rparr>
      | _ \<Rightarrow> s)"

text \<open>Numerals in base 36; the random fraction is given by its text \<open>0.\<dots>\<close> in that base.\<close>

definition digit36 :: "nat \<Rightarrow> char" where
  "digit36 d = (if d < 10 then char_of (48 + d) else char_of (87 + d))"

fun show36 :: "nat \<Rightarrow> string" where
  "show36 n = (if n < 36 then [digit36 n] else show36 (n div 36) @ [digit36 (n mod 36)])"

definition generateCorrelationId :: "nat \<Rightarrow> string \<Rightarrow> string" where
  "generateCorrelationId now random36 = show36 now @ ''-'' @ take 9 (drop 2 random36)"

definition getDurationMs :: "time_ms \<Rightarrow> ContextStore \<Rightarrow> int" where
  "getDurationMs now s = (case getContext s of None \<Rightarrow> 0 | Some c \<Rightarrow> now - cx_startTime c)"

section \<open>Loggers\<close>

record LoggerConfig =
  lg_name :: string
  lg_level :: "string option"
  lg_pretty :: "bool option"

record Logger =
  lo_name :: string
  lo_level :: string
  lo_pretty :: bool
  lo_bindings :: "(string \<times> string) list"

definition createLogger :: "(string \<Rightarrow> string option) \<Rightarrow> LoggerConfig \<Rightarrow> Logger" where
  "createLogger env config =
     \<lparr>lo_name = lg_name config,
      lo_level = js_coalesce (lg_level config) (js_or_opt (env ''LOG_LEVEL'') ''info''),
      lo_pretty = js_coalesce (lg_pretty config) (env ''NODE_ENV'' \<noteq> Some ''production''),
      lo_bindings = []\<rparr>"

text \<open>\<open>mixin\<close>: what every entry is given from the current context; empty text is left out.\<close>

definition log_mixin :: "Logger \<Rightarrow> ContextStore \<Rightarrow> (string \<times> string) list" where
  "log_mixin logger s =
     (let field = (\<lambda>key v. case js_or_null v of None \<Rightarrow> [] | Some t \<Rightarrow> [(key, t)]) in
      (''service'', lo_name logger) #
      field ''correlationId'' (getCorrelationId s) @ field ''userId'' (getUserId s) @
      field ''operation'' (case getContext s of None \<Rightarrow> None | Some c \<Rightarrow> cx_operation c))"

text \<open>The fields of an entry: a value, or the name, message and stack of an error.\<close>

datatype log_value = LogDetail detail | LogError string string string

record LogEntry =
  le_level :: string
  le_fields :: "(string \<times> log_value) list"
  le_message :: string

definition spread :: "(string \<times> log_value) list \<Rightarrow> (string \<times> log_value) list \<Rightarrow> (string \<times> log_value) list" where
  "spread obj meta = foldl (\<lambda>acc (key, v). jm_set acc key v) obj meta"

definition logOperation ::
  "time_ms \<Rightarrow> ContextStore \<Rightarrow> string \<Rightarrow> (string \<times> log_value) list \<Rightarrow> LogEntry" where
  "logOperation now s operation meta =
     \<lparr>le_level = ''info'',
      le_fields = spread [(''operation'', LogDetail (DStr operation)),
        (''durationMs'', LogDetail (DNum (getDurationMs now s)))] meta,
      le_message = operation @ '' completed''\<rparr>"

text \<open>The error by its name, message and stack.\<close>

definition logError ::
  "time_ms \<Rightarrow> ContextStore \<Rightarrow> string \<times> string \<times> string \<Rightarrow> string option \<Rightarrow> (string \<times> log_value) list \<Rightarrow>
     LogEntry" where
  "logError now s error operation meta =
     (let (ename, message, stack) = error in
      \<lparr>le_level = ''error'',
       le_fields = spread [(''error'', LogError ename message stack),
         (''operation'', LogDetail (case operation of None \<Rightarrow> DUndef | Some op \<Rightarrow> DStr op)),
         (''durationMs'', LogDetail (DNum (getDurationMs now s)))] meta,
       le_message = ''Error in '' @ js_coalesce operation ''unknown operation'' @ '': '' @ message\<rparr>)"

definition childLogger :: "Logger \<Rightarrow> (string \<times> string) list \<Rightarrow> Logger" where
  "childLogger logger bindings = logger\<lparr>lo_bindings := lo_bindings logger @ bindings\<rparr>"

section \<open>Contexts and identifiers\<close>

lemma context_restored: "cs_current (snd (runWithContext a fn s)) = cs_current s"
  by (simp add: runWithContext_def case_prod_unfold Let_def)

lemma context_updated:
  "getContext s = Some c \<Longrightarrow> getContext (updateContext u s) = Some (object_assign u c)"
  by (auto simp: getContext_def updateContext_def split: option.splits)

lemma other_contexts_untouched:
  "cs_current s \<noteq> Some a \<Longrightarrow> cs_objects (updateContext u s) a = cs_objects s a"
  by (auto simp: updateContext_def split: option.splits)

lemma digit36_inj: "d < 36 \<Longrightarrow> e < 36 \<Longrightarrow> digit36 d = digit36 e \<Longrightarrow> d = e"
  by (auto simp: digit36_def char_of_eq_iff of_char_of take_bit_eq_mod split: if_splits
      dest!: arg_cong [of _ _ "of_char :: char \<Rightarrow> nat"])

lemma show36_inj: "show36 m = show36 n \<Longrightarrow> m = n"
proof (induction m arbitrary: n rule: show36.induct)
  case (1 m)
  have snoc: "show36 k = (if k < 36 then [] else show36 (k div 36)) @ [digit36 (k mod 36)]" for k
    by (subst show36.simps) simp
  have nonempty: "show36 k \<noteq> []" for k
    by (subst show36.simps) simp
  have low: "m mod 36 = n mod 36"
    using "1.prems" snoc [of m] snoc [of n] by (intro digit36_inj) (simp_all del: show36.simps)
  have "(if m < 36 then [] else show36 (m div 36)) = (if n < 36 then [] else show36 (n div 36))"
    using "1.prems" snoc [of m] snoc [of n] by (simp del: show36.simps)
  then have "m div 36 = n div 36"
    using "1.IH" [of "n div 36"] nonempty nonempty [symmetric]
    by (auto simp del: show36.simps split: if_splits)
  with low show ?case
    by (metis div_mult_mod_eq)
qed

section \<open>Metrics add up\<close>

text \<open>Labels other than those declared are refused; the recording functions use no others.\<close>

lemma recordVerification_total:
  "\<exists>r'. recordVerificationMetrics p ok d reason r = Inr r'"
  by (simp add: recordVerificationMetrics_def metric_inc_def metric_observe_def check_labels_def
      verificationRequestsTotal_def verificationDuration_def proofVerificationSuccess_def
      proofVerificationFailure_def)

record VerificationCall =
  vc_predicate :: string
  vc_success :: bool
  vc_duration :: rat
  vc_reason :: "string option"

fun record_all :: "VerificationCall list \<Rightarrow> MetricsRegistry \<Rightarrow> thrown + MetricsRegistry" where
  "record_all [] r = Inr r"
| "record_all (c # cs) r = sum_bind
     (recordVerificationMetrics (vc_predicate c) (vc_success c) (vc_duration c) (vc_reason c) r)
     (record_all cs)"

abbreviation reason_of :: "VerificationCall \<Rightarrow> string" where
  "reason_of c \<equiv> js_or_opt (vc_reason c) ''unknown''"

lemma record_all_counts:
  "\<exists>r'. record_all cs r = Inr r' \<and>
    (\<forall>p. mr_counts r' ''verification_requests_total'' [(''predicate'', p), (''status'', ''success'')] =
        mr_counts r ''verification_requests_total'' [(''predicate'', p), (''status'', ''success'')] +
        length (filter (\<lambda>c. vc_predicate c = p \<and> vc_success c) cs)) \<and>
    (\<forall>p. mr_counts r' ''verification_requests_total'' [(''predicate'', p), (''status'', ''failure'')] =
        mr_counts r ''verification_requests_total'' [(''predicate'', p), (''status'', ''failure'')] +
        length (filter (\<lambda>c. vc_predicate c = p \<and> \<not> vc_success c) cs)) \<and>
    (\<forall>p. mr_counts r' ''proof_verification_success_total'' [(''predicate'', p)] =
        mr_counts r ''proof_verification_success_total'' [(''predicate'', p)] +
        length (filter (\<lambda>c. vc_predicate c = p \<and> vc_success c) cs)) \<and>
    (\<forall>p reason. mr_counts r' ''proof_verification_failure_total'' [(''predicate'', p), (''reason'', reason)] =
        mr_counts r ''proof_verification_failure_total'' [(''predicate'', p), (''reason'', reason)] +
        length (filter (\<lambda>c. vc_predicate c = p \<and> \<not> vc_success c \<and> reason_of c = reason) cs)) \<and>
    (\<forall>p. mr_observed r' ''verification_duration_seconds'' [(''predicate'', p)] =
        mr_observed r ''verification_duration_seconds'' [(''predicate'', p)] @
        map vc_duration (filter (\<lambda>c. vc_predicate c = p) cs))"
proof (induction cs arbitrary: r)
  case Nil
  then show ?case by simp
next
  case (Cons c cs)
  obtain r1 where r1: "recordVerificationMetrics (vc_predicate c) (vc_success c) (vc_duration c)
      (vc_reason c) r = Inr r1"
    using recordVerification_total by blast
  show ?case
    using Cons.IH [of r1] r1
    by (auto simp: recordVerificationMetrics_def metric_inc_def metric_observe_def check_labels_def
        verificationRequestsTotal_def verificationDuration_def proofVerificationSuccess_def
        proofVerificationFailure_def split: if_splits)
qed

lemma length_filter_by_reason:
  assumes "finite R" and "\<forall>c \<in> set cs. P c \<longrightarrow> f c \<in> R"
  shows "(\<Sum>x\<in>R. length (filter (\<lambda>c. P c \<and> f c = x) cs)) = length (filter P cs)"
  using assms(2)
proof (induction cs)
  case (Cons c cs)
  have "(\<Sum>x\<in>R. length (filter (\<lambda>c. P c \<and> f c = x) (c # cs))) =
      (\<Sum>x\<in>R. (if P c \<and> f c = x then 1 else 0) + length (filter (\<lambda>c. P c \<and> f c = x) cs))"
    by (intro sum.cong) auto
  also have "\<dots> = (if P c then 1 else 0) + length (filter P cs)"
    using Cons assms(1) by (simp add: sum.distrib)
  finally show ?case by simp
qed simp

text \<open>Recording verifications never fails, and the metrics add up whatever is recorded: per
  predicate the requests that succeeded are the successes, those that failed are the failures
  over all reasons, and there is one observation of the duration for each request, in order.\<close>

lemma verification_metrics_add_up:
  "\<exists>r. record_all calls newRegistry = Inr r \<and>
    (\<forall>p. mr_counts r ''verification_requests_total'' [(''predicate'', p), (''status'', ''success'')] =
        mr_counts r ''proof_verification_success_total'' [(''predicate'', p)] \<and>
      mr_counts r ''verification_requests_total'' [(''predicate'', p), (''status'', ''failure'')] =
        (\<Sum>reason \<in> reason_of ` set calls. mr_counts r ''proof_verification_failure_total''
          [(''predicate'', p), (''reason'', reason)]) \<and>
      mr_observed r ''verification_duration_seconds'' [(''predicate'', p)] =
        map vc_duration (filter (\<lambda>c. vc_predicate c = p) calls))"
proof -
  obtain r where r: "record_all calls newRegistry = Inr r"
    and counts: "\<And>p. mr_counts r ''verification_requests_total'' [(''predicate'', p), (''status'', ''success'')] =
        length (filter (\<lambda>c. vc_predicate c = p \<and> vc_success c) calls)"
      "\<And>p. mr_counts r ''verification_requests_total'' [(''predicate'', p), (''status'', ''failure'')] =
        length (filter (\<lambda>c. vc_predicate c = p \<and> \<not> vc_success c) calls)"
      "\<And>p. mr_counts r ''proof_verification_success_total'' [(''predicate'', p)] =
        length (filter (\<lambda>c. vc_predicate c = p \<and> vc_success c) calls)"
      "\<And>p reason. mr_counts r ''proof_verification_failure_total'' [(''predicate'', p), (''reason'', reason)] =
        length (filter (\<lambda>c. vc_predicate c = p \<and> \<not> vc_success c \<and> reason_of c = reason) calls)"
      "\<And>p. mr_observed r ''verification_duration_seconds'' [(''predicate'', p)] =
        map vc_duration (filter (\<lambda>c. vc_predicate c = p) calls)"
    using record_all_counts [of calls newRegistry] by (auto simp: newRegistry_def)
  have "length (filter (\<lambda>c. vc_predicate c = p \<and> \<not> vc_success c) calls) =
      (\<Sum>reason \<in> reason_of ` set calls. length (filter (\<lambda>c. (vc_predicate c = p \<and> \<not> vc_success c) \<and>
        reason_of c = reason) calls))" for p
    by (rule length_filter_by_reason [symmetric]) auto
  then show ?thesis
    using r counts by (intro exI [of _ r]) (simp add: conj_assoc)
qed

end
