(* ===== verification/Merkle.thy ===== *)
theory Merkle
  imports Prelude "HOL-Library.Word" "HOL-Library.While_Combinator" "HOL-Library.Log_Nat"
begin

text \<open>
  The commitments crate (\<open>crates/commitments/src\<close>): Merkle trees over claim hashes, their proofs and
  the verification of a proof. BLAKE3 is not under \<open>src\<close>: it is the argument \<open>H\<close> of every definition,
  from bytes to bytes. What a theorem needs of it is that its digests have 32 bytes.

  The lemmas show how the tree grows, that its loop ends and within which depth, that every proof
  the tree gives verifies, and that a proof of anything else at a position of the tree gives away
  two different inputs of the hash with one digest, which \<open>find_collision\<close> computes.
\<close>

section \<open>Hashes\<close>

type_synonym bytes = "8 word list"

type_synonym hash = "bytes \<Rightarrow> bytes"

definition digests :: "hash \<Rightarrow> bool" where
  "digests H = (\<forall>data. length (H data) = 32)"

text \<open>The comment upper \<open>hash_pair\<close> has the nodes sorted; the code concatenates them as they come.\<close>

definition hash_pair :: "hash \<Rightarrow> bytes \<Rightarrow> bytes \<Rightarrow> bytes" where
  "hash_pair H left right = H (left @ right)"

section \<open>The tree\<close>

datatype CommitmentError = EmptyClaims | DepthExceeded nat

definition MAX_DEPTH :: nat where
  "MAX_DEPTH = 32"

record MerkleTree =
  mt_nodes :: "bytes list list"
  mt_leaves :: "bytes list"

record MerkleProof =
  mp_leaf :: bytes
  mp_path :: "bytes list"
  mp_indices :: "8 word list"

fun next_level :: "hash \<Rightarrow> bytes list \<Rightarrow> bytes list" where
  "next_level H [] = []"
| "next_level H [a] = [hash_pair H a a]"
| "next_level H (a # b # rest) = hash_pair H a b # next_level H rest"

text \<open>
  The loop of \<open>build\<close>. A loop that does not end is \<open>None\<close>; the depth of a level of \<open>n\<close> nodes is
  \<open>(n as f64).log2().ceil()\<close>, which is exact for every length that has a tree.
\<close>

definition build_loop :: "hash \<Rightarrow> bytes list list \<Rightarrow> bytes list list option" where
  "build_loop H = while_option (\<lambda>nodes. length (last nodes) > 1)
     (\<lambda>nodes. nodes @ [next_level H (last nodes)])"

definition build :: "hash \<Rightarrow> bytes list \<Rightarrow> (CommitmentError + MerkleTree) option" where
  "build H claim_hashes =
     (if claim_hashes = [] then Some (Inl EmptyClaims)
      else if ceillog2 (length claim_hashes) > MAX_DEPTH then Some (Inl (DepthExceeded MAX_DEPTH))
      else map_option (\<lambda>nodes. Inr \<lparr>mt_nodes = nodes, mt_leaves = claim_hashes\<rparr>)
             (build_loop H [claim_hashes]))"

definition root :: "MerkleTree \<Rightarrow> bytes" where
  "root t = hd (last (mt_nodes t))"

definition leaf_count :: "MerkleTree \<Rightarrow> nat" where
  "leaf_count t = length (mt_leaves t)"

section \<open>Proofs\<close>

definition sibling_index :: "nat \<Rightarrow> nat \<Rightarrow> nat" where
  "sibling_index n i = (if odd i then i - 1 else if i + 1 < n then i + 1 else i)"

text \<open>One turn per level below the root: the sibling, the side, and the index of the parent.\<close>

fun prove_loop :: "bytes list list \<Rightarrow> nat \<Rightarrow> bytes list \<Rightarrow> 8 word list \<Rightarrow> bytes list \<times> 8 word list" where
  "prove_loop [] i path indices = (path, indices)"
| "prove_loop (level # levels) i path indices =
     prove_loop levels (i div 2) (path @ [level ! sibling_index (length level) i])
       (indices @ [if odd i then 1 else 0])"

text \<open>\<open>None\<close> is the panic of an index out of bounds.\<close>

definition prove :: "MerkleTree \<Rightarrow> nat \<Rightarrow> MerkleProof option" where
  "prove t i =
     (if i < length (mt_leaves t) then
        let (path, indices) = prove_loop (butlast (mt_nodes t)) i [] []
        in Some \<lparr>mp_leaf = mt_leaves t ! i, mp_path = path, mp_indices = indices\<rparr>
      else None)"

fun recompute :: "hash \<Rightarrow> bytes \<Rightarrow> (bytes \<times> 8 word) list \<Rightarrow> bytes" where
  "recompute H current [] = current"
| "recompute H current ((sibling, index) # steps) =
     recompute H (if index = 0 then hash_pair H current sibling else hash_pair H sibling current) steps"

definition verify_merkle_proof :: "hash \<Rightarrow> bytes \<Rightarrow> bytes list \<Rightarrow> 8 word list \<Rightarrow> bytes \<Rightarrow> bool" where
  "verify_merkle_proof H leaf path indices expected_root =
     (length path = length indices \<and> recompute H leaf (zip path indices) = expected_root)"

definition verify_in_tree :: "hash \<Rightarrow> MerkleTree \<Rightarrow> MerkleProof \<Rightarrow> bool" where
  "verify_in_tree H t p = verify_merkle_proof H (mp_leaf p) (mp_path p) (mp_indices p) (root t)"

section \<open>Levels\<close>

lemma length_next_level: "length (next_level H level) = (length level + 1) div 2"
  by (induction H level rule: next_level.induct) auto

text \<open>The levels from one level to the root, without the ones before it.\<close>

function levels :: "hash \<Rightarrow> bytes list \<Rightarrow> bytes list list" where
  "levels H level = (if length level \<le> 1 then [level] else level # levels H (next_level H level))"
  by pat_completeness auto

termination levels
  by (relation "measure (\<lambda>(H, level). length level)") (auto simp: length_next_level)

declare levels.simps [simp del]

lemma levels_small: "length level \<le> 1 \<Longrightarrow> levels H level = [level]"
  by (simp add: levels.simps)

lemma levels_grow: "length level > 1 \<Longrightarrow> levels H level = level # levels H (next_level H level)"
  by (subst levels.simps) simp

lemma levels_not_Nil [simp]: "levels H level \<noteq> []"
  by (simp add: levels.simps [of H level])

lemma build_loop_levels: "build_loop H (before @ [level]) = Some (before @ levels H level)"
proof (induction H level arbitrary: before rule: levels.induct)
  case (1 H level)
  show ?case
  proof (cases "length level \<le> 1")
    case True
    then show ?thesis
      by (simp add: build_loop_def while_option_unfold levels_small)
  next
    case False
    have "build_loop H (before @ [level]) = build_loop H ((before @ [level]) @ [next_level H level])"
      using False unfolding build_loop_def by (subst while_option_unfold) simp
    then show ?thesis
      using "1.IH" [OF False, of "before @ [level]"] False by (simp add: levels_grow)
  qed
qed

text \<open>What is hashed for the next level: each node with its neighbour, or twice when it has none.\<close>

fun level_inputs :: "bytes list \<Rightarrow> bytes list" where
  "level_inputs [] = []"
| "level_inputs [a] = [a @ a]"
| "level_inputs (a # b # rest) = (a @ b) # level_inputs rest"

lemma next_level_inputs: "next_level H level = map H (level_inputs level)"
  by (induction level rule: level_inputs.induct) (simp_all add: hash_pair_def)

lemma length_level_inputs [simp]: "length (level_inputs level) = (length level + 1) div 2"
  by (induction level rule: level_inputs.induct) auto

lemma nth_level_inputs:
  "i < length level \<Longrightarrow> level_inputs level ! (i div 2) = level ! (2 * (i div 2)) @
     (if 2 * (i div 2) + 1 < length level then level ! (2 * (i div 2) + 1) else level ! (2 * (i div 2)))"
proof (induction level arbitrary: i rule: level_inputs.induct)
  case (3 a b rest)
  show ?case
  proof (cases "i < 2")
    case True
    then show ?thesis by (auto simp: less_2_cases_iff)
  next
    case False
    then obtain j where j: "i = j + 2"
      by (metis add.commute le_Suc_ex not_less)
    then show ?thesis
      using "3.IH" [of j] "3.prems" by simp
  qed
qed auto

text \<open>Above a node stands the hash of its two children, or of its only child twice.\<close>

lemma nth_next_level:
  assumes "p < (length level + 1) div 2"
  shows "2 * p < length level"
    and "level_inputs level ! p = level ! (2 * p) @ level ! min (2 * p + 1) (length level - 1)"
    and "next_level H level ! p = hash_pair H (level ! (2 * p)) (level ! min (2 * p + 1) (length level - 1))"
proof -
  show p: "2 * p < length level"
    using assms by simp
  have m: "min (2 * p + 1) (length level - 1) = (if 2 * p + 1 < length level then 2 * p + 1 else 2 * p)"
    using p by (auto simp: min_def)
  show inputs: "level_inputs level ! p = level ! (2 * p) @ level ! min (2 * p + 1) (length level - 1)"
    unfolding m using nth_level_inputs [OF p] by (simp add: if_distrib [of "(!) level"])
  show "next_level H level ! p = hash_pair H (level ! (2 * p)) (level ! min (2 * p + 1) (length level - 1))"
    using assms inputs by (simp add: next_level_inputs hash_pair_def)
qed

lemma length_levels:
  "length level \<ge> 1 \<Longrightarrow> length (levels H level) = Suc (ceillog2 (length level))"
proof (induction H level rule: levels.induct)
  case (1 H level)
  show ?case
  proof (cases "length level \<le> 1")
    case True
    then have "length level = 1" using "1.prems" by simp
    then show ?thesis by (simp add: levels_small)
  next
    case False
    then show ?thesis
      using "1.IH" "1.prems" ceillog2_rec [of "length level"]
      by (simp add: levels_grow length_next_level)
  qed
qed

lemma last_level_root: "length level \<ge> 1 \<Longrightarrow> length (last (levels H level)) = 1"
proof (induction H level rule: levels.induct)
  case (1 H level)
  then show ?case
    by (cases "length level \<le> 1") (auto simp: levels_small levels_grow length_next_level)
qed

lemma nth_levels:
  "k < length (levels H level) \<Longrightarrow> length level \<ge> 1 \<Longrightarrow>
   length (levels H level ! k) = (length level + 2 ^ k - 1) div 2 ^ k"
proof (induction H level arbitrary: k rule: levels.induct)
  case (1 H level)
  show ?case
  proof (cases "length level \<le> 1 \<or> k = 0")
    case True
    then show ?thesis
      using "1.prems" by (cases "length level \<le> 1") (auto simp: levels_small levels_grow)
  next
    case False
    then obtain j where j: "k = Suc j" by (cases k) auto
    have "((length level + 1) div 2 + 2 ^ j - 1) div 2 ^ j = (length level + 1 + 2 * 2 ^ j - 2) div 2 div 2 ^ j"
      by (rule arg_cong [of _ _ "\<lambda>x. x div 2 ^ j"]) (use one_le_power [of 2 j] in linarith)
    also have "\<dots> = (length level + 2 ^ k - 1) div 2 ^ k"
      by (simp add: j div_mult2_eq)
    finally show ?thesis
      using "1.IH" [of j] "1.prems" False by (simp add: j levels_grow length_next_level)
  qed
qed

section \<open>Building always ends\<close>

lemma build_cases:
  "build H leaves =
     (if leaves = [] then Some (Inl EmptyClaims)
      else if length leaves > 2 ^ 32 then Some (Inl (DepthExceeded 32))
      else Some (Inr \<lparr>mt_nodes = levels H leaves, mt_leaves = leaves\<rparr>))"
  using build_loop_levels [of H "[]" leaves] ceillog2_le_iff [of "length leaves" 32]
  by (auto simp: build_def MAX_DEPTH_def not_le [symmetric])

lemma build_Inr:
  assumes "build H leaves = Some (Inr t)"
  shows "mt_nodes t = levels H leaves" "mt_leaves t = leaves" "leaves \<noteq> []" "length leaves \<ge> 1"
  using assms by (auto simp: build_cases Suc_le_eq split: if_splits)

text \<open>C19: Building a tree always returns: an error for no leaves or more than two to the 32nd of
  them, and otherwise a tree of at most 33 levels, the first of which holds the leaves, each the
  half, rounded up, of the one below, and the last the root alone.\<close>

theorem build_returns:
  "\<exists>result. build H leaves = Some result \<and>
     (case result of
        Inl e \<Rightarrow> (e = EmptyClaims \<and> leaves = []) \<or> (e = DepthExceeded 32 \<and> length leaves > 2 ^ 32)
      | Inr t \<Rightarrow> leaves \<noteq> [] \<and> length leaves \<le> 2 ^ 32 \<and> mt_leaves t = leaves \<and>
          hd (mt_nodes t) = leaves \<and> last (mt_nodes t) = [root t] \<and>
          length (mt_nodes t) = Suc (ceillog2 (length leaves)) \<and> length (mt_nodes t) \<le> 33 \<and>
          map length (mt_nodes t) =
            map (\<lambda>k. (length leaves + 2 ^ k - 1) div 2 ^ k) [0..<Suc (ceillog2 (length leaves))])"
proof (cases "leaves = [] \<or> length leaves > 2 ^ 32")
  case True
  then show ?thesis by (auto simp: build_cases)
next
  case False
  then have n: "length leaves \<ge> 1" by (simp add: Suc_le_eq)
  let ?t = "\<lparr>mt_nodes = levels H leaves, mt_leaves = leaves\<rparr>"
  have "build H leaves = Some (Inr ?t)"
    using False by (simp add: build_cases)
  moreover have "last (levels H leaves) = [root ?t]"
    using last_level_root [OF n, of H] by (cases "last (levels H leaves)") (auto simp: root_def)
  moreover have "hd (levels H leaves) = leaves"
    by (simp add: levels.simps [of H leaves])
  moreover have "map length (levels H leaves) =
      map (\<lambda>k. (length leaves + 2 ^ k - 1) div 2 ^ k) [0..<Suc (ceillog2 (length leaves))]"
    using length_levels [OF n, of H] nth_levels [OF _ n, of _ H]
    by (intro nth_equalityI) (auto simp del: upt_Suc)
  moreover have "ceillog2 (length leaves) \<le> 32"
    using False by (simp add: ceillog2_le_iff)
  ultimately show ?thesis
    using False length_levels [OF n, of H] by (auto simp del: upt_Suc)
qed

section \<open>The path of a position\<close>

text \<open>
  A list of sides names a position, lowest level first. Beyond the leaves a position repeats the
  last node of some level, as building does; \<open>real_index\<close> is the leaf it stands for, and
  \<open>position_steps\<close> are its siblings, over the levels below the root.
\<close>

fun position :: "8 word list \<Rightarrow> nat" where
  "position [] = 0"
| "position (b # bs) = (if b = 0 then 0 else 1) + 2 * position bs"

fun real_index :: "bytes list list \<Rightarrow> nat \<Rightarrow> nat" where
  "real_index [] i = 0"
| "real_index (level # upper) i = min (2 * real_index upper (i div 2) + i mod 2) (length level - 1)"

fun position_steps :: "bytes list list \<Rightarrow> nat \<Rightarrow> (bytes \<times> 8 word) list" where
  "position_steps [] i = []"
| "position_steps (level # upper) i =
     (level ! min (2 * real_index upper (i div 2) + (1 - i mod 2)) (length level - 1),
      if odd i then 1 else 0) # position_steps upper (i div 2)"

abbreviation below_root :: "hash \<Rightarrow> bytes list \<Rightarrow> bytes list list" where
  "below_root H level \<equiv> butlast (levels H level)"

lemma below_root_grow:
  "length level > 1 \<Longrightarrow> below_root H level = level # below_root H (next_level H level)"
  by (simp add: levels_grow)

lemma real_index_less: "level \<noteq> [] \<Longrightarrow> real_index (below_root H level) i < length level"
  by (cases "length level > 1") (auto simp: below_root_grow levels_small)

lemma real_index_leaf: "i < length level \<Longrightarrow> real_index (below_root H level) i = i"
proof (induction H level arbitrary: i rule: levels.induct)
  case (1 H level)
  show ?case
  proof (cases "length level > 1")
    case True
    have "i div 2 < length (next_level H level)"
      using "1.prems" by (simp add: length_next_level)
    then have "real_index (below_root H (next_level H level)) (i div 2) = i div 2"
      using "1.IH" True by simp
    then show ?thesis
      using "1.prems" True by (simp add: below_root_grow min_def)
  next
    case False
    then show ?thesis using "1.prems" by (simp add: levels_small)
  qed
qed

lemma prove_loop_steps:
  "i < length level \<Longrightarrow> prove_loop (below_root H level) i path indices =
     (path @ map fst (position_steps (below_root H level) i),
      indices @ map snd (position_steps (below_root H level) i))"
proof (induction H level arbitrary: i path indices rule: levels.induct)
  case (1 H level)
  show ?case
  proof (cases "length level > 1")
    case True
    have next_i: "i div 2 < length (next_level H level)"
      using "1.prems" by (simp add: length_next_level)
    have "min (2 * (i div 2) + (1 - i mod 2)) (length level - 1) = sibling_index (length level) i"
      using "1.prems" by (cases "odd i") (auto simp: sibling_index_def min_def elim!: oddE evenE)
    then show ?thesis
      using "1.IH" [OF _ next_i] True real_index_leaf [OF next_i]
      by (simp add: below_root_grow)
  next
    case False
    then show ?thesis by (simp add: levels_small)
  qed
qed

text \<open>Whatever the position, its leaf and its siblings give the root.\<close>

lemma recompute_position:
  "level \<noteq> [] \<Longrightarrow> recompute H (level ! real_index (below_root H level) i)
     (position_steps (below_root H level) i) = hd (last (levels H level))"
proof (induction H level arbitrary: i rule: levels.induct)
  case (1 H level)
  show ?case
  proof (cases "length level > 1")
    case True
    let ?up = "below_root H (next_level H level)"
    let ?p = "real_index ?up (i div 2)"
    have ne: "next_level H level \<noteq> []"
      using True length_next_level [of H level] by auto
    have p: "?p < length (next_level H level)"
      using ne by (rule real_index_less)
    then have p2: "2 * ?p < length level"
        "next_level H level ! ?p = hash_pair H (level ! (2 * ?p)) (level ! min (2 * ?p + 1) (length level - 1))"
      using nth_next_level(1) [of ?p level] nth_next_level(3) [of ?p level H] by (simp_all add: length_next_level)
    then have "(if even i then hash_pair H (level ! min (2 * ?p + i mod 2) (length level - 1))
            (level ! min (2 * ?p + (1 - i mod 2)) (length level - 1))
          else hash_pair H (level ! min (2 * ?p + (1 - i mod 2)) (length level - 1))
            (level ! min (2 * ?p + i mod 2) (length level - 1))) = next_level H level ! ?p"
      using p2(1) by (auto simp: min_absorb1 odd_iff_mod_2_eq_one)
    then show ?thesis
      using "1.IH" [OF _ ne, of "i div 2"] True by (auto simp: below_root_grow levels_grow split: if_splits)
  next
    case False
    then show ?thesis using "1.prems" by (cases level) (auto simp: levels_small)
  qed
qed

section \<open>Every proof of the tree verifies\<close>

lemma prove_Some:
  assumes "build H leaves = Some (Inr t)" and "i < length leaves"
  shows "prove t i = Some \<lparr>mp_leaf = leaves ! i,
    mp_path = map fst (position_steps (below_root H leaves) i),
    mp_indices = map snd (position_steps (below_root H leaves) i)\<rparr>"
  using assms(2) build_Inr [OF assms(1)] prove_loop_steps [OF assms(2), of H "[]" "[]"]
  by (simp add: prove_def)

lemma length_position_steps: "length (position_steps ls i) = length ls"
  by (induction ls arbitrary: i) auto

text \<open>C17: For every leaf of a tree there is a proof, as long as the tree is deep, that names the
  leaf and verifies against the root; for an index beyond the leaves there is none.\<close>

theorem proofs_verify:
  assumes "build H leaves = Some (Inr t)"
  shows "case prove t i of
      Some p \<Rightarrow> i < length leaves \<and> mp_leaf p = leaves ! i \<and>
        length (mp_path p) = ceillog2 (length leaves) \<and> verify_in_tree H t p
    | None \<Rightarrow> i \<ge> length leaves"
proof (cases "i < length leaves")
  case True
  then show ?thesis
    using prove_Some [OF assms True] build_Inr [OF assms] recompute_position [of leaves H i]
      real_index_leaf [OF True, of H] length_levels [of leaves H]
    by (simp add: verify_in_tree_def verify_merkle_proof_def root_def zip_map_fst_snd length_position_steps)
next
  case False
  then show ?thesis
    using build_Inr [OF assms] by (simp add: prove_def)
qed

text \<open>A hash with digests of 32 bytes that is easy to compute with: the first 32 bytes.\<close>

definition demo_hash :: hash where
  "demo_hash data = take 32 (data @ replicate 32 0)"

lemma demo_hash_digests: "digests demo_hash"
  by (auto simp: digests_def demo_hash_def min_def)

lemma demo_hash_pair: "length l = 32 \<Longrightarrow> demo_hash (l @ r) = l"
  by (simp add: demo_hash_def)

definition demo_leaf :: "8 word \<Rightarrow> bytes" where
  "demo_leaf b = replicate 32 b"

lemma length_demo_leaf [simp]: "length (demo_leaf b) = 32"
  by (simp add: demo_leaf_def)

lemma demo_leaf_eq [simp]: "demo_leaf a = demo_leaf b \<longleftrightarrow> a = b"
  by (simp add: demo_leaf_def)

definition demo_leaves :: "bytes list" where
  "demo_leaves = [demo_leaf 1, demo_leaf 2, demo_leaf 3]"

definition demo_tree :: MerkleTree where
  "demo_tree = \<lparr>mt_nodes = [demo_leaves, [demo_leaf 1, demo_leaf 3], [demo_leaf 1]], mt_leaves = demo_leaves\<rparr>"

lemma demo_build: "build demo_hash demo_leaves = Some (Inr demo_tree)"
  by (simp add: build_cases demo_leaves_def demo_tree_def levels.simps hash_pair_def demo_hash_pair)

theorem proofs_verify_witness:
  "case prove demo_tree 2 of Some p \<Rightarrow> mp_leaf p = demo_leaf 3 \<and> verify_in_tree demo_hash demo_tree p | None \<Rightarrow> False"
  using proofs_verify [OF demo_build, of 2]
  by (auto simp: demo_leaves_def nth_Cons split: option.splits)

section \<open>Nothing else verifies\<close>

text \<open>
  Two recomputations over the same sides with one result: the first inputs that differ and have
  the same digest.
\<close>

definition pair_input :: "8 word \<Rightarrow> bytes \<Rightarrow> bytes \<Rightarrow> bytes" where
  "pair_input index current sibling = (if index = 0 then current @ sibling else sibling @ current)"

fun find_collision ::
  "hash \<Rightarrow> bytes \<Rightarrow> (bytes \<times> 8 word) list \<Rightarrow> bytes \<Rightarrow> (bytes \<times> 8 word) list \<Rightarrow> (bytes \<times> bytes) option"
where
  "find_collision H current ((s, b) # steps) current' ((s', b') # steps') =
     (let x = pair_input b current s; y = pair_input b' current' s'
      in if x \<noteq> y \<and> H x = H y then Some (x, y)
         else find_collision H (H x) steps (H y) steps')"
| "find_collision H current steps current' steps' = None"

lemma recompute_Cons: "recompute H current ((s, b) # steps) = recompute H (H (pair_input b current s)) steps"
  by (simp add: hash_pair_def pair_input_def)

definition sides :: "(bytes \<times> 8 word) list \<Rightarrow> bool list" where
  "sides steps = map (\<lambda>(s, b). b = 0) steps"

lemma sides_Cons: "sides ((s, b) # steps) = (b = 0) # sides steps"
  by (simp add: sides_def)

lemma find_collision_Some:
  "digests H \<Longrightarrow> sides steps = sides steps' \<Longrightarrow> length current = length current' \<Longrightarrow> current \<noteq> current' \<Longrightarrow>
    recompute H current steps = recompute H current' steps' \<Longrightarrow>
    \<exists>x y. find_collision H current steps current' steps' = Some (x, y) \<and> x \<noteq> y \<and> H x = H y"
proof (induction H current steps current' steps' rule: find_collision.induct)
  case (1 H current s b steps current' s' b' steps')
  let ?x = "pair_input b current s" and ?y = "pair_input b' current' s'"
  have differ: "?x \<noteq> ?y"
    using "1.prems" by (auto simp: pair_input_def sides_Cons)
  show ?case
  proof (cases "H ?x = H ?y")
    case True
    then show ?thesis using differ by simp
  next
    case False
    have "length (H ?x) = length (H ?y)"
      using "1.prems"(1) by (simp add: digests_def)
    then show ?thesis
      using "1.IH" [OF refl refl] "1.prems" False
      by (simp add: sides_Cons recompute_Cons del: recompute.simps(2))
  qed
qed (auto simp: sides_def)

text \<open>
  Both inputs are among those hashed on the way: the first in checking the forged path, the second
  in building the tree.
\<close>

fun inputs_of :: "hash \<Rightarrow> bytes \<Rightarrow> (bytes \<times> 8 word) list \<Rightarrow> bytes list" where
  "inputs_of H current [] = []"
| "inputs_of H current ((s, b) # steps) =
     (let x = pair_input b current s in x # inputs_of H (H x) steps)"

definition tree_inputs :: "hash \<Rightarrow> bytes list \<Rightarrow> bytes list" where
  "tree_inputs H level = concat (map level_inputs (below_root H level))"

lemma find_collision_inputs:
  "find_collision H current steps current' steps' = Some (x, y) \<Longrightarrow>
   x \<in> set (inputs_of H current steps) \<and> y \<in> set (inputs_of H current' steps')"
  by (induction H current steps current' steps' rule: find_collision.induct)
    (auto simp: Let_def split: if_splits)

lemma inputs_of_position:
  "level \<noteq> [] \<Longrightarrow> set (inputs_of H (level ! real_index (below_root H level) i)
     (position_steps (below_root H level) i)) \<subseteq> set (tree_inputs H level)"
proof (induction H level arbitrary: i rule: levels.induct)
  case (1 H level)
  show ?case
  proof (cases "length level > 1")
    case True
    let ?up = "below_root H (next_level H level)"
    let ?p = "real_index ?up (i div 2)" and ?n = "length level - 1"
    let ?x = "pair_input (if odd i then 1 else 0) (level ! min (2 * ?p + i mod 2) ?n)
        (level ! min (2 * ?p + (1 - i mod 2)) ?n)"
    have ne: "next_level H level \<noteq> []"
      using True length_next_level [of H level] by auto
    have p: "?p < (length level + 1) div 2"
      using real_index_less [OF ne, of H] by (simp add: length_next_level)
    have x: "?x = level_inputs level ! ?p"
      using nth_next_level(1,2) [OF p]
      by (auto simp: pair_input_def min_absorb1 odd_iff_mod_2_eq_one)
    have "H ?x = next_level H level ! ?p"
      using p by (subst x) (simp add: next_level_inputs)
    moreover have "?x \<in> set (level_inputs level)"
      unfolding x using p by simp
    ultimately show ?thesis
      using "1.IH" [OF _ ne, of "i div 2"] True
      by (auto simp: below_root_grow tree_inputs_def Let_def)
  next
    case False
    then show ?thesis by (simp add: levels_small)
  qed
qed

text \<open>The honest path to the position the sides name, and the collision a forged one gives.\<close>

definition collision_of :: "hash \<Rightarrow> MerkleTree \<Rightarrow> bytes \<Rightarrow> bytes list \<Rightarrow> 8 word list \<Rightarrow> (bytes \<times> bytes) option" where
  "collision_of H t leaf path indices =
     (let ls = butlast (mt_nodes t); i = position indices
      in find_collision H leaf (zip path indices) (mt_leaves t ! real_index ls i) (position_steps ls i))"

lemma sides_position:
  "length indices = length ls \<Longrightarrow> sides (position_steps ls (position indices)) = map (\<lambda>b. b = 0) indices"
proof (induction indices arbitrary: ls)
  case (Cons b indices)
  then obtain level upper where "ls = level # upper" "length indices = length upper"
    by (cases ls) auto
  then show ?case
    using Cons.IH [of upper] by (simp add: sides_def)
qed (simp add: sides_def)

lemma sides_zip: "length path = length indices \<Longrightarrow> sides (zip path indices) = map (\<lambda>b. b = 0) indices"
  by (induction path indices rule: list_induct2) (auto simp: sides_def)

text \<open>C18: A proof with as many levels as the tree has proves nothing but a leaf of the tree: if it
  verifies against the root for any other digest, two different inputs with the same digest can
  be computed from it.\<close>

theorem forged_leaf_gives_collision:
  assumes "digests H" and "build H leaves = Some (Inr t)"
    and "\<forall>l \<in> set leaves. length l = 32" and "length leaf = 32"
    and "verify_merkle_proof H leaf path indices (root t)" and "length path = ceillog2 (length leaves)"
  shows "leaf = leaves ! real_index (butlast (mt_nodes t)) (position indices) \<and> leaf \<in> set leaves \<or>
    (\<exists>x y. collision_of H t leaf path indices = Some (x, y) \<and> x \<noteq> y \<and> H x = H y)"
proof -
  note t = build_Inr [OF assms(2)]
  let ?ls = "below_root H leaves" and ?i = "position indices"
  let ?real = "leaves ! real_index ?ls ?i"
  have real: "?real \<in> set leaves"
    using real_index_less [OF t(3)] by simp
  have n: "length indices = length ?ls" "length path = length indices"
    using assms(5,6) length_levels [OF t(4), of H] by (auto simp: verify_merkle_proof_def)
  have "recompute H leaf (zip path indices) = recompute H ?real (position_steps ?ls ?i)"
    using assms(5) recompute_position [OF t(3), of H ?i] t(1)
    by (simp add: verify_merkle_proof_def root_def)
  moreover have "sides (zip path indices) = sides (position_steps ?ls ?i)"
    using n by (simp add: sides_zip sides_position)
  moreover have "length leaf = length ?real"
    using assms(3,4) real by simp
  ultimately show ?thesis
    using find_collision_Some [OF assms(1), of "zip path indices" "position_steps ?ls ?i" leaf ?real] real t
    by (auto simp: collision_of_def Let_def)
qed

theorem forged_leaf_gives_collision_witness:
  "\<exists>x y. collision_of demo_hash demo_tree (demo_leaf 9) [demo_leaf 1, demo_leaf 3] [1, 0] = Some (x, y) \<and>
     x \<noteq> y \<and> demo_hash x = demo_hash y"
proof -
  have "verify_merkle_proof demo_hash (demo_leaf 9) [demo_leaf 1, demo_leaf 3] [1, 0] (root demo_tree)"
    by (simp add: verify_merkle_proof_def hash_pair_def demo_hash_pair root_def demo_tree_def)
  moreover have "ceillog2 (length demo_leaves) = 2"
    by (rule ceillog2_eqI) (auto simp: demo_leaves_def)
  moreover have "demo_leaf 9 \<notin> set demo_leaves"
    by (simp add: demo_leaves_def)
  ultimately show ?thesis
    using forged_leaf_gives_collision [OF demo_hash_digests demo_build, of "demo_leaf 9" "[demo_leaf 1, demo_leaf 3]" "[1, 0]"]
    by (auto simp: demo_leaves_def)
qed

section \<open>Repeating the last leaf\<close>

lemma next_level_repeat:
  "odd (length level) \<Longrightarrow> next_level H (level @ [last level]) = next_level H level"
  by (induction H level rule: next_level.induct) auto

text \<open>A commitment to an odd number of claims, three or more, has the root of the commitment
  that repeats the last claim: the root does not tell how many claims there are.\<close>

lemma repeated_leaf_same_root:
  assumes "odd (length leaves)" and "1 < length leaves" and "length leaves < 2 ^ 32"
  shows "\<exists>t t'. build H leaves = Some (Inr t) \<and> build H (leaves @ [last leaves]) = Some (Inr t') \<and>
    root t = root t' \<and> leaf_count t' = leaf_count t + 1"
proof -
  let ?up = "levels H (next_level H leaves)"
  have "levels H (leaves @ [last leaves]) = (leaves @ [last leaves]) # ?up"
    using assms(1,2) by (subst levels_grow) (auto simp: next_level_repeat)
  moreover have "levels H leaves = leaves # ?up"
    using assms(2) by (rule levels_grow)
  moreover have "leaves \<noteq> []" "\<not> length leaves > 2 ^ 32" "\<not> length (leaves @ [last leaves]) > 2 ^ 32"
    using assms(2,3) by auto
  ultimately show ?thesis
    by (simp add: build_cases [of H leaves] build_cases [of H "leaves @ [last leaves]"] root_def leaf_count_def)
qed

end
