(* ===== verification/EdgeStore.thy ===== *)
theory EdgeStore
  imports Tables Merkle
begin

text \<open>
  The edge agent's storage (\<open>apps/edge-agent/src-tauri/src/storage/mod.rs\<close>): evidence, claims,
  commitments, keypairs and settings in a local SQLite database, and how secret keys and documents
  are encoded before they are stored. A table is the list of its rows, as in theory Tables; instants
  are stored as text and read back, and that text orders as the instants do.

  SQLite fails with the error of the environment, if it has one, and on a duplicate key. AES, hex
  and base64 are the library's: \<open>codec\<close> stands for them. A JSON number is an unsigned or negative
  integer or a double, and doubles are the machine's: the type variable \<open>'f\<close>.
\<close>

section \<open>Rows\<close>

datatype 'f Value =
  VNull
| VBool bool
| VUInt "64 word"
| VNegInt int
| VFloat 'f
| VString string
| VArray "'f Value list"
| VObject "(string \<times> 'f Value) list"

record EvidenceRow =
  er_id :: string
  er_evidence_type :: string
  er_original_filename :: "string option"
  er_mime_type :: "string option"
  er_content_hash :: string
  er_extracted_text :: "string option"
  er_issuer_name :: "string option"
  er_issuer_type :: "string option"
  er_valid_from :: "time_ms option"
  er_valid_until :: "time_ms option"
  er_created_at :: time_ms

record 'f ClaimRow =
  cl_id :: string
  cl_claim_type :: string
  cl_value :: "'f Value"
  cl_unit :: string
  cl_product_id :: string
  cl_evidence_ids :: "string list"
  cl_confidence :: "'f option"
  cl_verified :: bool
  cl_metadata :: "'f Value"
  cl_created_at :: time_ms
  cl_updated_at :: time_ms

record CommitmentRow =
  cm_id :: string
  cm_root :: string
  cm_claim_count :: nat
  cm_claim_ids :: "string list"
  cm_public_key :: string
  cm_signature :: string
  cm_valid_from :: "time_ms option"
  cm_valid_until :: "time_ms option"
  cm_revoked :: bool
  cm_revoked_at :: "time_ms option"
  cm_revoked_reason :: "string option"
  cm_created_at :: time_ms

record StoredKeypair =
  kp_id :: string
  kp_public_key :: string
  kp_secret_key_encrypted :: string
  kp_created_at :: time_ms
  kp_is_active :: bool

record 'f EdgeDb =
  db_evidence :: "(EvidenceRow \<times> bytes option) list"
  db_claims :: "'f ClaimRow list"
  db_commitments :: "CommitmentRow list"
  db_keypairs :: "StoredKeypair list"
  db_settings :: "(string \<times> string) list"

section \<open>Secret keys and documents\<close>

record codec =
  lib_hex_encode :: "bytes \<Rightarrow> string"
  lib_hex_decode :: "string \<Rightarrow> string + bytes"
  b64_encode :: "bytes \<Rightarrow> string"
  b64_decode :: "string \<Rightarrow> string + bytes"
  aes_encrypt :: "bytes \<Rightarrow> bytes \<Rightarrow> bytes \<Rightarrow> string + bytes"
  aes_decrypt :: "bytes \<Rightarrow> bytes \<Rightarrow> bytes \<Rightarrow> string + bytes"
  trim_text :: "string \<Rightarrow> string"

definition KEY_PREFIX_ENC :: string where "KEY_PREFIX_ENC = ''enc:''"
definition KEY_PREFIX_RAW :: string where "KEY_PREFIX_RAW = ''raw:''"

definition BLOB_PREFIX :: bytes where
  "BLOB_PREFIX = map of_char ''ENC1''"

text \<open>\<open>with_context(m)\<close>: the message of an error is \<open>m\<close>.\<close>

definition or_message :: "string \<Rightarrow> 'e + 'a \<Rightarrow> string + 'a" where
  "or_message message r = (case r of Inl e \<Rightarrow> Inl message | Inr x \<Rightarrow> Inr x)"

definition load_master_key :: "codec \<Rightarrow> (string \<Rightarrow> string option) \<Rightarrow> string + bytes option" where
  "load_master_key lib vars =
     (case vars ''EDGE_AGENT_MASTER_KEY'' of
        None \<Rightarrow> Inr None
      | Some key \<Rightarrow>
          sum_bind (or_message ''EDGE_AGENT_MASTER_KEY must be 64 hex chars'' (lib_hex_decode lib (trim_text lib key)))
            (\<lambda>key_bytes. if length key_bytes \<noteq> 32 then Inl ''EDGE_AGENT_MASTER_KEY must be 32 bytes''
               else Inr (Some key_bytes)))"

definition encrypt_bytes :: "codec \<Rightarrow> bytes \<Rightarrow> bytes \<Rightarrow> bytes \<Rightarrow> string + bytes" where
  "encrypt_bytes lib nonce key plaintext =
     sum_bind (or_message ''Encryption failed'' (aes_encrypt lib key nonce plaintext))
       (\<lambda>sealed. Inr (nonce @ sealed))"

definition decrypt_bytes :: "codec \<Rightarrow> bytes \<Rightarrow> bytes \<Rightarrow> string + bytes" where
  "decrypt_bytes lib key ciphertext =
     (if length ciphertext < 12 then Inl ''Ciphertext too short''
      else or_message ''Decryption failed'' (aes_decrypt lib key (take 12 ciphertext) (drop 12 ciphertext)))"

definition encode_secret_key :: "codec \<Rightarrow> (string \<Rightarrow> string option) \<Rightarrow> bytes \<Rightarrow> bytes \<Rightarrow> string + string" where
  "encode_secret_key lib vars nonce secret =
     sum_bind (load_master_key lib vars) (\<lambda>master.
       case master of
         Some key \<Rightarrow> sum_bind (encrypt_bytes lib nonce key secret)
           (\<lambda>encrypted. Inr (KEY_PREFIX_ENC @ b64_encode lib encrypted))
       | None \<Rightarrow>
           if vars ''ALLOW_PLAINTEXT_KEYS'' = Some ''true'' then Inr (KEY_PREFIX_RAW @ lib_hex_encode lib secret)
           else Inl ''EDGE_AGENT_MASTER_KEY is required unless ALLOW_PLAINTEXT_KEYS=true'')"

definition strip_prefix :: "string \<Rightarrow> string \<Rightarrow> string option" where
  "strip_prefix prefix s = (if js_startsWith s prefix then Some (drop (length prefix) s) else None)"

definition decode_secret_key :: "codec \<Rightarrow> (string \<Rightarrow> string option) \<Rightarrow> string \<Rightarrow> string + bytes" where
  "decode_secret_key lib vars encoded =
     (let plaintext_allowed = (vars ''ALLOW_PLAINTEXT_KEYS'' = Some ''true'') in
      case strip_prefix KEY_PREFIX_ENC encoded of
        Some rest \<Rightarrow>
          sum_bind (load_master_key lib vars) (\<lambda>master.
            case master of
              None \<Rightarrow> Inl ''EDGE_AGENT_MASTER_KEY required to decrypt''
            | Some key \<Rightarrow> sum_bind (or_message ''Invalid encrypted key data'' (b64_decode lib rest))
                (decrypt_bytes lib key))
      | None \<Rightarrow>
          (case strip_prefix KEY_PREFIX_RAW encoded of
             Some rest \<Rightarrow>
               if plaintext_allowed then or_message ''Invalid raw key hex'' (lib_hex_decode lib rest)
               else Inl ''Plaintext keys disabled''
           | None \<Rightarrow>
               if plaintext_allowed then or_message ''Invalid legacy key hex'' (lib_hex_decode lib encoded)
               else Inl ''Unrecognized key encoding''))"

definition maybe_encrypt_blob ::
  "codec \<Rightarrow> (string \<Rightarrow> string option) \<Rightarrow> bytes \<Rightarrow> bytes \<Rightarrow> string + bytes option" where
  "maybe_encrypt_blob lib vars nonce raw =
     sum_bind (load_master_key lib vars) (\<lambda>master.
       case master of
         Some key \<Rightarrow> sum_bind (encrypt_bytes lib nonce key raw) (\<lambda>encrypted. Inr (Some (BLOB_PREFIX @ encrypted)))
       | None \<Rightarrow> Inr (if vars ''ALLOW_PLAINTEXT_EVIDENCE'' = Some ''true'' then Some raw else None))"

section \<open>Statements\<close>

text \<open>What a call draws from outside: the clock, identifiers, random bytes, variables, SQLite's state.\<close>

record EdgeEnv =
  ee_now :: time_ms
  ee_uuid :: "nat \<Rightarrow> string"
  ee_random :: "nat \<Rightarrow> bytes"
  ee_vars :: "string \<Rightarrow> string option"
  ee_sqlite :: "string option"

definition sqlite :: "EdgeEnv \<Rightarrow> string + 'a \<Rightarrow> string + 'a" where
  "sqlite env r = (case ee_sqlite env of Some e \<Rightarrow> Inl e | None \<Rightarrow> r)"

definition insert_row :: "('r \<Rightarrow> string) \<Rightarrow> string \<Rightarrow> 'r \<Rightarrow> 'r list \<Rightarrow> string + 'r list" where
  "insert_row key column row rows =
     (if key row \<in> key ` set rows then Inl (''UNIQUE constraint failed: '' @ column) else Inr (rows @ [row]))"

definition insert_evidence ::
  "codec \<Rightarrow> EdgeEnv \<Rightarrow> EvidenceRow \<Rightarrow> bytes option \<Rightarrow> 'f EdgeDb \<Rightarrow> string + 'f EdgeDb" where
  "insert_evidence lib env evidence raw_content db =
     sum_bind (case raw_content of
          Some raw \<Rightarrow> maybe_encrypt_blob lib (ee_vars env) (ee_random env 0) raw | None \<Rightarrow> Inr None)
       (\<lambda>stored. sqlite env (sum_bind (insert_row (er_id \<circ> fst) ''evidence.id'' (evidence, stored) (db_evidence db))
          (\<lambda>rows. Inr (db\<lparr>db_evidence := rows\<rparr>))))"

definition store_list_evidence :: "EdgeEnv \<Rightarrow> 'f EdgeDb \<Rightarrow> string + EvidenceRow list" where
  "store_list_evidence env db = sqlite env (Inr (order_desc er_created_at (map fst (db_evidence db))))"

definition store_get_evidence :: "EdgeEnv \<Rightarrow> string \<Rightarrow> 'f EdgeDb \<Rightarrow> string + EvidenceRow option" where
  "store_get_evidence env rid db = sqlite env (Inr (row_by er_id rid (map fst (db_evidence db))))"

text \<open>\<open>DELETE ... WHERE id = ?\<close> answers whether a row was there.\<close>

definition delete_row :: "('r \<Rightarrow> string) \<Rightarrow> string \<Rightarrow> 'r list \<Rightarrow> bool \<times> 'r list" where
  "delete_row key rid rows = (rid \<in> key ` set rows, filter (\<lambda>r. key r \<noteq> rid) rows)"

definition store_delete_evidence :: "EdgeEnv \<Rightarrow> string \<Rightarrow> 'f EdgeDb \<Rightarrow> (string + bool) \<times> 'f EdgeDb" where
  "store_delete_evidence env rid db =
     (case ee_sqlite env of
        Some e \<Rightarrow> (Inl e, db)
      | None \<Rightarrow> let (found, rows) = delete_row (er_id \<circ> fst) rid (db_evidence db)
                in (Inr found, db\<lparr>db_evidence := rows\<rparr>))"

definition insert_claim :: "EdgeEnv \<Rightarrow> 'f ClaimRow \<Rightarrow> 'f EdgeDb \<Rightarrow> string + 'f EdgeDb" where
  "insert_claim env claim db =
     sqlite env (sum_bind (insert_row cl_id ''claims.id'' claim (db_claims db))
       (\<lambda>rows. Inr (db\<lparr>db_claims := rows\<rparr>)))"

definition store_list_claims :: "EdgeEnv \<Rightarrow> string option \<Rightarrow> 'f EdgeDb \<Rightarrow> string + 'f ClaimRow list" where
  "store_list_claims env product_id db =
     sqlite env (Inr (order_desc cl_created_at
       (case product_id of
          Some pid \<Rightarrow> filter (\<lambda>c. cl_product_id c = pid) (db_claims db)
        | None \<Rightarrow> db_claims db)))"

definition store_get_claim :: "EdgeEnv \<Rightarrow> string \<Rightarrow> 'f EdgeDb \<Rightarrow> string + 'f ClaimRow option" where
  "store_get_claim env rid db = sqlite env (Inr (row_by cl_id rid (db_claims db)))"

text \<open>The creation time stays; the time of the update is the clock's, not the claim's.\<close>

definition store_update_claim :: "EdgeEnv \<Rightarrow> 'f ClaimRow \<Rightarrow> 'f EdgeDb \<Rightarrow> (string + bool) \<times> 'f EdgeDb" where
  "store_update_claim env claim db =
     (case ee_sqlite env of
        Some e \<Rightarrow> (Inl e, db)
      | None \<Rightarrow>
          (Inr (cl_id claim \<in> cl_id ` set (db_claims db)),
           db\<lparr>db_claims := update_where (\<lambda>c. cl_id c = cl_id claim)
             (\<lambda>c. claim\<lparr>cl_created_at := cl_created_at c, cl_updated_at := ee_now env\<rparr>) (db_claims db)\<rparr>))"

definition store_delete_claim :: "EdgeEnv \<Rightarrow> string \<Rightarrow> 'f EdgeDb \<Rightarrow> (string + bool) \<times> 'f EdgeDb" where
  "store_delete_claim env rid db =
     (case ee_sqlite env of
        Some e \<Rightarrow> (Inl e, db)
      | None \<Rightarrow> let (found, rows) = delete_row cl_id rid (db_claims db)
                in (Inr found, db\<lparr>db_claims := rows\<rparr>))"

definition insert_commitment :: "EdgeEnv \<Rightarrow> CommitmentRow \<Rightarrow> 'f EdgeDb \<Rightarrow> string + 'f EdgeDb" where
  "insert_commitment env commitment db =
     sqlite env (sum_bind (insert_row cm_id ''commitments.id''
         (commitment\<lparr>cm_revoked_at := None, cm_revoked_reason := None\<rparr>) (db_commitments db))
       (\<lambda>rows. Inr (db\<lparr>db_commitments := rows\<rparr>)))"

definition store_list_commitments :: "EdgeEnv \<Rightarrow> 'f EdgeDb \<Rightarrow> string + CommitmentRow list" where
  "store_list_commitments env db = sqlite env (Inr (order_desc cm_created_at (db_commitments db)))"

definition store_get_commitment :: "EdgeEnv \<Rightarrow> string \<Rightarrow> 'f EdgeDb \<Rightarrow> string + CommitmentRow option" where
  "store_get_commitment env rid db = sqlite env (Inr (row_by cm_id rid (db_commitments db)))"

definition store_revoke_commitment ::
  "EdgeEnv \<Rightarrow> string \<Rightarrow> string \<Rightarrow> 'f EdgeDb \<Rightarrow> (string + bool) \<times> 'f EdgeDb" where
  "store_revoke_commitment env rid reason db =
     (case ee_sqlite env of
        Some e \<Rightarrow> (Inl e, db)
      | None \<Rightarrow>
          (Inr (rid \<in> cm_id ` set (db_commitments db)),
           db\<lparr>db_commitments := update_where (\<lambda>c. cm_id c = rid)
             (\<lambda>c. c\<lparr>cm_revoked := True, cm_revoked_at := Some (ee_now env), cm_revoked_reason := Some reason\<rparr>)
             (db_commitments db)\<rparr>))"

definition get_active_keypair :: "EdgeEnv \<Rightarrow> 'f EdgeDb \<Rightarrow> string + StoredKeypair option" where
  "get_active_keypair env db = sqlite env (Inr (find kp_is_active (db_keypairs db)))"

text \<open>Two statements and no transaction: the others are deactivated even when the insert fails.\<close>

definition insert_keypair :: "EdgeEnv \<Rightarrow> StoredKeypair \<Rightarrow> 'f EdgeDb \<Rightarrow> (string + unit) \<times> 'f EdgeDb" where
  "insert_keypair env keypair db =
     (case ee_sqlite env of
        Some e \<Rightarrow> (Inl e, db)
      | None \<Rightarrow>
          let rows = (if kp_is_active keypair then map (\<lambda>k. k\<lparr>kp_is_active := False\<rparr>) (db_keypairs db)
                      else db_keypairs db)
          in if kp_id keypair \<in> kp_id ` set rows then
               (Inl ''UNIQUE constraint failed: keypairs.id'', db\<lparr>db_keypairs := rows\<rparr>)
             else if kp_public_key keypair \<in> kp_public_key ` set rows then
               (Inl ''UNIQUE constraint failed: keypairs.public_key'', db\<lparr>db_keypairs := rows\<rparr>)
             else (Inr (), db\<lparr>db_keypairs := rows @ [keypair]\<rparr>))"

definition get_setting :: "EdgeEnv \<Rightarrow> string \<Rightarrow> 'f EdgeDb \<Rightarrow> string + string option" where
  "get_setting env key db = sqlite env (Inr (map_of (db_settings db) key))"

definition set_setting :: "EdgeEnv \<Rightarrow> string \<Rightarrow> string \<Rightarrow> 'f EdgeDb \<Rightarrow> string + 'f EdgeDb" where
  "set_setting env key value db =
     sqlite env (Inr (db\<lparr>db_settings := AList.update key value (db_settings db)\<rparr>))"

section \<open>Invariant\<close>

text \<open>Keys are unique and at most one keypair is active.\<close>

definition edge_ok :: "'f EdgeDb \<Rightarrow> bool" where
  "edge_ok db = (unique_on (er_id \<circ> fst) (db_evidence db) \<and> unique_on cl_id (db_claims db) \<and>
     unique_on cm_id (db_commitments db) \<and> unique_on kp_id (db_keypairs db) \<and>
     unique_on kp_public_key (db_keypairs db) \<and> length (filter kp_is_active (db_keypairs db)) \<le> 1)"

lemma sqlite_Inr_iff [inr_iff]: "sqlite env r = Inr x \<longleftrightarrow> ee_sqlite env = None \<and> r = Inr x"
  by (simp add: sqlite_def split: option.splits)

lemma sqlite_up [simp]: "ee_sqlite env = None \<Longrightarrow> sqlite env r = r"
  by (simp add: sqlite_def)

lemma insert_row_Inr_iff [inr_iff]:
  "insert_row key column row rows = Inr rows' \<longleftrightarrow> key row \<notin> key ` set rows \<and> rows' = rows @ [row]"
  by (auto simp: insert_row_def)

lemma unique_on_filter: "unique_on key rows \<Longrightarrow> unique_on key (filter P rows)"
  by (simp add: unique_on_def distinct_map_filter)

lemma insert_evidence_ok: "insert_evidence lib env e raw db = Inr db' \<Longrightarrow> edge_ok db \<Longrightarrow> edge_ok db'"
  by (auto simp: insert_evidence_def inr_iff edge_ok_def unique_on_append)

lemma insert_claim_ok: "insert_claim env c db = Inr db' \<Longrightarrow> edge_ok db \<Longrightarrow> edge_ok db'"
  by (auto simp: insert_claim_def inr_iff edge_ok_def unique_on_append)

lemma insert_commitment_ok: "insert_commitment env c db = Inr db' \<Longrightarrow> edge_ok db \<Longrightarrow> edge_ok db'"
  by (auto simp: insert_commitment_def inr_iff edge_ok_def unique_on_append)

lemma delete_ok:
  "edge_ok db \<Longrightarrow> edge_ok (snd (store_delete_evidence env rid db))"
  "edge_ok db \<Longrightarrow> edge_ok (snd (store_delete_claim env rid db))"
  by (auto simp: store_delete_evidence_def store_delete_claim_def delete_row_def edge_ok_def
      unique_on_filter split: option.splits)

lemma update_ok:
  "edge_ok db \<Longrightarrow> edge_ok (snd (store_update_claim env claim db))"
  "edge_ok db \<Longrightarrow> edge_ok (snd (store_revoke_commitment env rid reason db))"
  by (auto simp: store_update_claim_def store_revoke_commitment_def edge_ok_def
      intro: unique_on_update split: option.splits)

lemma deactivated:
  "unique_on kp_id (map (\<lambda>k. k\<lparr>kp_is_active := False\<rparr>) ks) \<longleftrightarrow> unique_on kp_id ks"
  "unique_on kp_public_key (map (\<lambda>k. k\<lparr>kp_is_active := False\<rparr>) ks) \<longleftrightarrow> unique_on kp_public_key ks"
  "filter kp_is_active (map (\<lambda>k. k\<lparr>kp_is_active := False\<rparr>) ks) = []"
  by (simp_all add: unique_on_def comp_def)

lemma insert_keypair_ok:
  assumes "edge_ok db"
  shows "edge_ok (snd (insert_keypair env kp db))"
proof (cases "kp_is_active kp")
  case True
  then show ?thesis
    using assms
    by (auto simp: insert_keypair_def edge_ok_def deactivated unique_on_append Let_def split: option.splits)
next
  case False
  then show ?thesis
    using assms
    by (auto simp: insert_keypair_def edge_ok_def unique_on_append Let_def split: option.splits)
qed

lemma set_setting_ok: "set_setting env k v db = Inr db' \<Longrightarrow> edge_ok db \<Longrightarrow> edge_ok db'"
  by (auto simp: set_setting_def inr_iff edge_ok_def)

text \<open>A secret key that was stored is read back, whatever its encoding, in the same environment.\<close>

lemma secret_key_roundtrip:
  assumes "encode_secret_key lib vars nonce secret = Inr encoded"
    and "lib_hex_decode lib (lib_hex_encode lib secret) = Inr secret"
    and "\<And>data. b64_decode lib (b64_encode lib data) = Inr data"
    and "\<And>key sealed. aes_encrypt lib key nonce secret = Inr sealed \<Longrightarrow> aes_decrypt lib key nonce sealed = Inr secret"
    and "length nonce = 12"
  shows "decode_secret_key lib vars encoded = Inr secret"
proof (cases "load_master_key lib vars")
  case (Inr master)
  show ?thesis
  proof (cases master)
    case None
    then show ?thesis
      using assms(1,2) Inr
      by (auto simp: encode_secret_key_def decode_secret_key_def strip_prefix_def KEY_PREFIX_ENC_def
          KEY_PREFIX_RAW_def or_message_def js_startsWith_def split: if_splits)
  next
    case (Some key)
    then obtain sealed where sealed: "aes_encrypt lib key nonce secret = Inr sealed"
        and e: "encoded = ''enc:'' @ b64_encode lib (nonce @ sealed)"
      using assms(1) Inr
      by (auto simp: encode_secret_key_def encrypt_bytes_def KEY_PREFIX_ENC_def or_message_def inr_iff
          split: sum.splits)
    have "decode_secret_key lib vars encoded =
        sum_bind (or_message ''Invalid encrypted key data'' (b64_decode lib (b64_encode lib (nonce @ sealed))))
          (decrypt_bytes lib key)"
      using Inr Some by (simp add: decode_secret_key_def strip_prefix_def KEY_PREFIX_ENC_def e js_startsWith_def)
    then show ?thesis
      using assms(4) [OF sealed] assms(3,5) by (simp add: or_message_def decrypt_bytes_def)
  qed
qed (use assms(1) in \<open>simp add: encode_secret_key_def\<close>)

end
