(* ===== verification/Circuits.thy ===== *)
theory Circuits
  imports Merkle
begin

text \<open>
  The Noir circuits (\<open>circuits/noir\<close>): the shared library and the twelve predicates. A circuit is
  the conjunction of its assertions over its public and private inputs; a proof for it exists
  exactly for the inputs that satisfy them. BLAKE3 is the argument \<open>H\<close>, as in theory Merkle.

  The lemmas show what an accepted opening says, that the circuit's verification of a Merkle path
  is the one of the commitments crate, and what the circuits leave unconstrained.
\<close>

section \<open>The library\<close>

type_synonym u32 = "32 word"
type_synonym u64 = "64 word"

text \<open>\<open>combined[i] = left[i]; combined[i + 32] = right[i]\<close> for \<open>i\<close> below 32.\<close>

definition noir_hash_pair :: "hash \<Rightarrow> bytes \<Rightarrow> bytes \<Rightarrow> bytes" where
  "noir_hash_pair H left right = H (map (\<lambda>k. if k < 32 then left ! k else right ! (k - 32)) [0..<64])"

definition noir_hash_claim_bytes :: "hash \<Rightarrow> bytes \<Rightarrow> bytes \<Rightarrow> bytes" where
  "noir_hash_claim_bytes H claim_type value = noir_hash_pair H claim_type value"

definition bytes_equal :: "bytes \<Rightarrow> bytes \<Rightarrow> bool" where
  "bytes_equal a b = list_all (\<lambda>i. a ! i = b ! i) [0..<32]"

definition assert_bytes_equal :: "bytes \<Rightarrow> bytes \<Rightarrow> bool" where
  "assert_bytes_equal a b = list_all (\<lambda>i. a ! i = b ! i) [0..<32]"

text \<open>One turn of the loop over the levels; the length of the arrays is the generic \<open>DEPTH\<close>.\<close>

definition noir_level :: "hash \<Rightarrow> bytes list \<Rightarrow> 1 word list \<Rightarrow> u32 \<Rightarrow> nat \<Rightarrow> bytes \<Rightarrow> bytes" where
  "noir_level H path indices depth i current =
     (if word_of_nat i < depth then
        (if indices ! i = 0 then noir_hash_pair H current (path ! i)
         else noir_hash_pair H (path ! i) current)
      else current)"

definition noir_verify_merkle_proof ::
  "hash \<Rightarrow> bytes \<Rightarrow> bytes list \<Rightarrow> 1 word list \<Rightarrow> bytes \<Rightarrow> u32 \<Rightarrow> bool"
where
  "noir_verify_merkle_proof H leaf path indices expected_root depth =
     bytes_equal (fold (noir_level H path indices depth) [0..<length path] leaf) expected_root"

text \<open>\<open>to_be_bytes\<close> of a field element into 32 bytes.\<close>

definition field_be_bytes :: "nat \<Rightarrow> bytes" where
  "field_be_bytes f = map (\<lambda>k. word_of_nat (f div 256 ^ (31 - k))) [0..<32]"

definition noir_hash_claim_value :: "hash \<Rightarrow> bytes \<Rightarrow> u64 \<Rightarrow> bytes \<Rightarrow> bytes" where
  "noir_hash_claim_value H claim_type value unit =
     (let value_bytes = field_be_bytes (unat value)
      in H (map (\<lambda>k. if k < 32 then claim_type ! k
              else if k < 40 then value_bytes ! (24 + (k - 32)) else unit ! (k - 40)) [0..<72]))"

definition noir_hash_cert_window :: "hash \<Rightarrow> bytes \<Rightarrow> u64 \<Rightarrow> u64 \<Rightarrow> bytes" where
  "noir_hash_cert_window H claim_type valid_from valid_until =
     (let from_bytes = field_be_bytes (unat valid_from); until_bytes = field_be_bytes (unat valid_until)
      in H (map (\<lambda>k. if k < 32 then claim_type ! k
              else if k < 40 then from_bytes ! (24 + (k - 32)) else until_bytes ! (24 + (k - 40))) [0..<48]))"

definition noir_hash_substance_list :: "hash \<Rightarrow> bytes \<Rightarrow> bytes \<Rightarrow> bytes list \<Rightarrow> u32 \<Rightarrow> bytes" where
  "noir_hash_substance_list H domain claim_type substances count =
     (let seed = map (\<lambda>k. if k < 4 then domain ! k else claim_type ! (k - 4)) [0..<36]
      in fold (\<lambda>i current. if word_of_nat i < count then
             H (map (\<lambda>j. if j < 32 then current ! j else (substances ! i) ! (j - 32)) [0..<64])
           else current) [0..<length substances] (H seed))"

definition bind_context :: "hash \<Rightarrow> bytes \<Rightarrow> bytes \<Rightarrow> bool" where
  "bind_context H product_binding requester_binding =
     (let binding_hash = noir_hash_pair H product_binding requester_binding
      in assert_bytes_equal binding_hash binding_hash)"

section \<open>The predicates\<close>

text \<open>The inputs all circuits have: the public ones but the threshold, and the opened leaf.\<close>

record PublicContext =
  commitment_root :: bytes
  product_binding :: bytes
  requester_binding :: bytes

record Opening =
  claim_hash :: bytes
  merkle_path :: "bytes list"
  merkle_indices :: "1 word list"
  tree_depth :: u32

text \<open>The assertions all circuits begin with, for the hash computed from the private values.\<close>

definition leaf_opened :: "hash \<Rightarrow> PublicContext \<Rightarrow> Opening \<Rightarrow> bytes \<Rightarrow> bool" where
  "leaf_opened H ctx op computed_hash =
     (noir_verify_merkle_proof H (claim_hash op) (merkle_path op) (merkle_indices op)
        (commitment_root ctx) (tree_depth op) \<and>
      assert_bytes_equal computed_hash (claim_hash op))"

definition context_bound :: "hash \<Rightarrow> PublicContext \<Rightarrow> bool" where
  "context_bound H ctx = bind_context H (product_binding ctx) (requester_binding ctx)"

definition recycled_content_gte_v1 ::
  "hash \<Rightarrow> u32 \<Rightarrow> PublicContext \<Rightarrow> u32 \<Rightarrow> bytes \<Rightarrow> bytes \<Rightarrow> Opening \<Rightarrow> bool" where
  "recycled_content_gte_v1 H threshold ctx actual_value claim_type_hash unit_hash op =
     (leaf_opened H ctx op (noir_hash_claim_value H claim_type_hash (ucast actual_value) unit_hash) \<and>
      context_bound H ctx \<and> actual_value \<ge> threshold \<and> actual_value \<le> 100)"

definition MAX_FOOTPRINT :: u32 where
  "MAX_FOOTPRINT = 10000000"

definition carbon_footprint_lte_v1 ::
  "hash \<Rightarrow> u32 \<Rightarrow> PublicContext \<Rightarrow> u32 \<Rightarrow> bytes \<Rightarrow> bytes \<Rightarrow> Opening \<Rightarrow> bool" where
  "carbon_footprint_lte_v1 H threshold ctx actual_value claim_type_hash unit_hash op =
     (leaf_opened H ctx op (noir_hash_claim_value H claim_type_hash (ucast actual_value) unit_hash) \<and>
      context_bound H ctx \<and> actual_value \<le> threshold \<and>
      actual_value \<le> MAX_FOOTPRINT \<and> threshold \<le> MAX_FOOTPRINT)"

definition battery_capacity_gte_v1 ::
  "hash \<Rightarrow> u64 \<Rightarrow> PublicContext \<Rightarrow> u64 \<Rightarrow> bytes \<Rightarrow> bytes \<Rightarrow> Opening \<Rightarrow> bool" where
  "battery_capacity_gte_v1 H threshold ctx actual_value claim_type_hash unit_hash op =
     (leaf_opened H ctx op (noir_hash_claim_value H claim_type_hash actual_value unit_hash) \<and>
      context_bound H ctx \<and> actual_value \<ge> threshold \<and> actual_value > 0 \<and> actual_value \<le> 1000000)"

definition state_of_health_gte_v1 ::
  "hash \<Rightarrow> u32 \<Rightarrow> PublicContext \<Rightarrow> u32 \<Rightarrow> bytes \<Rightarrow> bytes \<Rightarrow> Opening \<Rightarrow> bool" where
  "state_of_health_gte_v1 H threshold ctx actual_value claim_type_hash unit_hash op =
     (leaf_opened H ctx op (noir_hash_claim_value H claim_type_hash (ucast actual_value) unit_hash) \<and>
      context_bound H ctx \<and> actual_value \<ge> threshold \<and> actual_value \<le> 100)"

definition recycling_efficiency_gte_v1 ::
  "hash \<Rightarrow> u32 \<Rightarrow> PublicContext \<Rightarrow> u32 \<Rightarrow> bytes \<Rightarrow> bytes \<Rightarrow> Opening \<Rightarrow> bool" where
  "recycling_efficiency_gte_v1 H threshold ctx actual_value claim_type_hash unit_hash op =
     (leaf_opened H ctx op (noir_hash_claim_value H claim_type_hash (ucast actual_value) unit_hash) \<and>
      context_bound H ctx \<and> actual_value \<ge> threshold \<and> actual_value \<le> 100)"

definition energy_density_range_v1 ::
  "hash \<Rightarrow> u32 \<Rightarrow> u32 \<Rightarrow> PublicContext \<Rightarrow> u32 \<Rightarrow> bytes \<Rightarrow> bytes \<Rightarrow> Opening \<Rightarrow> bool" where
  "energy_density_range_v1 H min_threshold max_threshold ctx actual_value claim_type_hash unit_hash op =
     (max_threshold \<ge> min_threshold \<and>
      leaf_opened H ctx op (noir_hash_claim_value H claim_type_hash (ucast actual_value) unit_hash) \<and>
      context_bound H ctx \<and> actual_value \<ge> min_threshold \<and> actual_value \<le> max_threshold \<and>
      actual_value \<ge> 50 \<and> actual_value \<le> 500)"

definition cert_valid_v1 :: "hash \<Rightarrow> u64 \<Rightarrow> PublicContext \<Rightarrow> u64 \<Rightarrow> u64 \<Rightarrow> bytes \<Rightarrow> Opening \<Rightarrow> bool" where
  "cert_valid_v1 H check_timestamp ctx valid_from valid_until claim_type_hash op =
     (leaf_opened H ctx op (noir_hash_cert_window H claim_type_hash valid_from valid_until) \<and>
      context_bound H ctx \<and> valid_from \<le> check_timestamp \<and> check_timestamp < valid_until \<and>
      valid_from < valid_until)"

definition due_diligence_valid_v1 :: "hash \<Rightarrow> u64 \<Rightarrow> PublicContext \<Rightarrow> u64 \<Rightarrow> u64 \<Rightarrow> bytes \<Rightarrow> Opening \<Rightarrow> bool" where
  "due_diligence_valid_v1 H current_timestamp ctx valid_from valid_until claim_type_hash op =
     (leaf_opened H ctx op (noir_hash_cert_window H claim_type_hash valid_from valid_until) \<and>
      context_bound H ctx \<and> current_timestamp \<ge> valid_from \<and> current_timestamp \<le> valid_until \<and>
      valid_until > valid_from)"

text \<open>Whether a value is among the first \<open>count\<close> of an array.\<close>

definition found_in :: "bytes \<Rightarrow> bytes list \<Rightarrow> u32 \<Rightarrow> bool" where
  "found_in value elements count =
     list_ex (\<lambda>i. word_of_nat i < count \<and> bytes_equal value (elements ! i)) [0..<length elements]"

definition substance_not_in_list_v1 ::
  "hash \<Rightarrow> bytes \<Rightarrow> PublicContext \<Rightarrow> bytes list \<Rightarrow> u32 \<Rightarrow> bytes list \<Rightarrow> u32 \<Rightarrow> bytes \<Rightarrow> Opening \<Rightarrow> bool" where
  "substance_not_in_list_v1 H forbidden_list_hash ctx product_substances num_substances
       forbidden_substances num_forbidden claim_type_hash op =
     (assert_bytes_equal
        (noir_hash_substance_list H [0x53, 0x55, 0x42, 0x46] claim_type_hash forbidden_substances num_forbidden)
        forbidden_list_hash \<and>
      leaf_opened H ctx op
        (noir_hash_substance_list H [0x53, 0x55, 0x42, 0x50] claim_type_hash product_substances num_substances) \<and>
      context_bound H ctx \<and>
      list_all (\<lambda>i. word_of_nat i < num_substances \<longrightarrow>
          \<not> found_in (product_substances ! i) forbidden_substances num_forbidden)
        [0..<length product_substances])"

definition battery_chemistry_in_set_v1 ::
  "hash \<Rightarrow> bytes \<Rightarrow> PublicContext \<Rightarrow> bytes \<Rightarrow> bytes \<Rightarrow> bytes list \<Rightarrow> u32 \<Rightarrow> Opening \<Rightarrow> bool" where
  "battery_chemistry_in_set_v1 H set_hash ctx actual_value claim_type_hash set_elements set_size op =
     (leaf_opened H ctx op (noir_hash_claim_bytes H claim_type_hash actual_value) \<and>
      context_bound H ctx \<and>
      assert_bytes_equal
        (noir_hash_substance_list H [0x42, 0x43, 0x48, 0x4D] claim_type_hash set_elements set_size) set_hash \<and>
      found_in actual_value set_elements set_size)"

definition cobalt_origin_not_in_v1 ::
  "hash \<Rightarrow> bytes \<Rightarrow> PublicContext \<Rightarrow> bytes \<Rightarrow> bytes \<Rightarrow> bytes list \<Rightarrow> u32 \<Rightarrow> Opening \<Rightarrow> bool" where
  "cobalt_origin_not_in_v1 H set_hash ctx actual_value claim_type_hash set_elements set_size op =
     (leaf_opened H ctx op (noir_hash_claim_bytes H claim_type_hash actual_value) \<and>
      context_bound H ctx \<and>
      assert_bytes_equal
        (noir_hash_substance_list H [0x43, 0x4F, 0x42, 0x4C] claim_type_hash set_elements set_size) set_hash \<and>
      \<not> found_in actual_value set_elements set_size)"

text \<open>
  The sum of the stages. Addition of Noir's \<open>u64\<close> fails when it overflows, and the assertion after
  it holds of every sum that did not.
\<close>

fun sum_stages :: "u64 \<Rightarrow> u64 list \<Rightarrow> u64 option" where
  "sum_stages subtotal [] = Some subtotal"
| "sum_stages subtotal (v # vs) =
     (if unat subtotal + unat v < 2 ^ 64 \<and> subtotal + v \<ge> v then sum_stages (subtotal + v) vs else None)"

definition carbon_footprint_lifecycle_v1 ::
  "hash \<Rightarrow> u64 \<Rightarrow> PublicContext \<Rightarrow> u64 list \<Rightarrow> bytes list \<Rightarrow> bytes list \<Rightarrow> Opening list \<Rightarrow> bool" where
  "carbon_footprint_lifecycle_v1 H threshold ctx stage_values claim_type_hashes unit_hashes ops =
     (list_all (\<lambda>i. leaf_opened H ctx (ops ! i)
          (noir_hash_claim_value H (claim_type_hashes ! i) (stage_values ! i) (unit_hashes ! i))) [0..<5] \<and>
      context_bound H ctx \<and>
      (case sum_stages 0 stage_values of None \<Rightarrow> False | Some t \<Rightarrow> t \<le> threshold) \<and>
      list_all (\<lambda>v. v \<le> 1000000) stage_values)"

section \<open>Types\<close>

text \<open>What Noir's types say of the inputs: byte arrays of 32, paths of eight levels.\<close>

abbreviation bytes32 :: "bytes \<Rightarrow> bool" where
  "bytes32 b \<equiv> length b = 32"

definition typed_opening :: "Opening \<Rightarrow> bool" where
  "typed_opening op = (bytes32 (claim_hash op) \<and> length (merkle_path op) = 8 \<and>
     length (merkle_indices op) = 8 \<and> list_all bytes32 (merkle_path op))"

definition typed_context :: "PublicContext \<Rightarrow> bool" where
  "typed_context ctx = (bytes32 (commitment_root ctx) \<and> bytes32 (product_binding ctx) \<and>
     bytes32 (requester_binding ctx))"

lemma nth_equal_iff: "length a = n \<Longrightarrow> length b = n \<Longrightarrow> list_all (\<lambda>i. a ! i = b ! i) [0..<n] \<longleftrightarrow> a = b"
  by (simp add: list_all_iff list_eq_iff_nth_eq [of a b] Ball_def)

lemma bytes_equal_iff: "bytes32 a \<Longrightarrow> bytes32 b \<Longrightarrow> bytes_equal a b \<longleftrightarrow> a = b"
  unfolding bytes_equal_def by (rule nth_equal_iff)

lemma assert_bytes_equal_iff: "bytes32 a \<Longrightarrow> bytes32 b \<Longrightarrow> assert_bytes_equal a b \<longleftrightarrow> a = b"
  unfolding assert_bytes_equal_def by (rule nth_equal_iff)

text \<open>The loops that copy bytes one by one concatenate.\<close>

lemma copy_two:
  "length a = m \<Longrightarrow> length b = n \<Longrightarrow> map (\<lambda>k. if k < m then a ! k else b ! (k - m)) [0..<m + n] = a @ b"
  by (auto simp: list_eq_iff_nth_eq nth_append)

lemma noir_hash_pair_eq: "bytes32 l \<Longrightarrow> bytes32 r \<Longrightarrow> noir_hash_pair H l r = hash_pair H l r"
  using copy_two [of l 32 r 32] by (simp add: noir_hash_pair_def hash_pair_def)

text \<open>The eight bytes of a \<open>u64\<close>, most significant first.\<close>

definition be_bytes :: "u64 \<Rightarrow> bytes" where
  "be_bytes v = map (\<lambda>k. word_of_nat (unat v div 256 ^ (7 - k))) [0..<8]"

lemma length_be_bytes [simp]: "length (be_bytes v) = 8"
  by (simp add: be_bytes_def)

lemma field_bytes_of_u64: "k < 8 \<Longrightarrow> field_be_bytes (unat v) ! (24 + k) = be_bytes v ! k"
  by (simp add: field_be_bytes_def be_bytes_def)

definition value_data :: "bytes \<Rightarrow> u64 \<Rightarrow> bytes \<Rightarrow> bytes" where
  "value_data claim_type v unit = claim_type @ be_bytes v @ unit"

definition window_data :: "bytes \<Rightarrow> u64 \<Rightarrow> u64 \<Rightarrow> bytes" where
  "window_data claim_type valid_from valid_until = claim_type @ be_bytes valid_from @ be_bytes valid_until"

lemma noir_hash_claim_value_eq:
  assumes "bytes32 ct" and "bytes32 u"
  shows "noir_hash_claim_value H ct v u = H (value_data ct v u)"
proof -
  have "map (\<lambda>k. if k < 32 then ct ! k else if k < 40 then field_be_bytes (unat v) ! (24 + (k - 32))
      else u ! (k - 40)) [0..<72] = value_data ct v u"
    unfolding value_data_def
  proof (rule nth_equalityI)
    fix k assume k: "k < length (map (\<lambda>k. if k < 32 then ct ! k else if k < 40 then
        field_be_bytes (unat v) ! (24 + (k - 32)) else u ! (k - 40)) [0..<72])"
    then show "map (\<lambda>k. if k < 32 then ct ! k else if k < 40 then field_be_bytes (unat v) ! (24 + (k - 32))
        else u ! (k - 40)) [0..<72] ! k = (ct @ be_bytes v @ u) ! k"
      using assms field_bytes_of_u64 [of "k - 32" v] by (auto simp: nth_append)
  qed (use assms in simp)
  then show ?thesis
    by (simp only: noir_hash_claim_value_def Let_def)
qed

lemma noir_hash_cert_window_eq:
  assumes "bytes32 ct"
  shows "noir_hash_cert_window H ct f u = H (window_data ct f u)"
proof -
  have "map (\<lambda>k. if k < 32 then ct ! k else if k < 40 then field_be_bytes (unat f) ! (24 + (k - 32))
      else field_be_bytes (unat u) ! (24 + (k - 40))) [0..<48] = window_data ct f u"
    unfolding window_data_def
  proof (rule nth_equalityI)
    fix k assume k: "k < length (map (\<lambda>k. if k < 32 then ct ! k else if k < 40 then
        field_be_bytes (unat f) ! (24 + (k - 32)) else field_be_bytes (unat u) ! (24 + (k - 40))) [0..<48])"
    then show "map (\<lambda>k. if k < 32 then ct ! k else if k < 40 then field_be_bytes (unat f) ! (24 + (k - 32))
        else field_be_bytes (unat u) ! (24 + (k - 40))) [0..<48] ! k =
        (ct @ be_bytes f @ be_bytes u) ! k"
      using assms field_bytes_of_u64 [of "k - 32" f] field_bytes_of_u64 [of "k - 40" u]
      by (auto simp: nth_append)
  qed (use assms in simp)
  then show ?thesis
    by (simp only: noir_hash_cert_window_def Let_def)
qed

section \<open>The circuit's path is the crate's\<close>

lemma recompute_append: "recompute H c (xs @ ys) = recompute H (recompute H c xs) ys"
  by (induction H c xs rule: recompute.induct) auto

lemma recompute_digest: "digests H \<Longrightarrow> bytes32 c \<Longrightarrow> bytes32 (recompute H c steps)"
  by (induction H c steps rule: recompute.induct) (auto simp: hash_pair_def digests_def)

lemma side_ucast: "(ucast (b :: 1 word) :: 8 word) = 0 \<longleftrightarrow> b = 0"
proof -
  have "n = 0" if "bit b n" for n
    using bit_imp_le_length [OF that] by simp
  then show ?thesis
    by (auto simp: bit_eq_iff [of b 0] bit_eq_iff [of "ucast b :: 8 word" 0] bit_ucast_iff)
qed

text \<open>The levels below the depth recompute the path; the levels from it on change nothing.\<close>

abbreviation path_steps :: "bytes list \<Rightarrow> 1 word list \<Rightarrow> (bytes \<times> 8 word) list" where
  "path_steps path indices \<equiv> zip path (map ucast indices)"

lemma noir_levels:
  assumes "digests H" and "bytes32 leaf" and "list_all bytes32 path"
    and "length indices = length path" and "length path < 2 ^ 32"
  shows "m \<le> length path \<Longrightarrow> fold (noir_level H path indices depth) [0..<m] leaf =
    recompute H leaf (take (unat depth) (take m (path_steps path indices)))"
proof (induction m)
  case (Suc m)
  let ?steps = "path_steps path indices"
  let ?c = "recompute H leaf (take (unat depth) (take m ?steps))"
  have c: "bytes32 ?c"
    using assms(1,2) by (rule recompute_digest)
  have m: "take (Suc m) ?steps = take m ?steps @ [(path ! m, ucast (indices ! m))]"
    using Suc.prems assms(4) by (simp add: take_Suc_conv_app_nth)
  have small: "word_of_nat m < depth \<longleftrightarrow> m < unat depth"
    using Suc.prems assms(5) by (simp add: word_less_nat_alt unat_of_nat)
  have "bytes32 (path ! m)"
    using Suc.prems assms(3) by (simp add: list_all_length)
  then have "noir_level H path indices depth m ?c =
      recompute H leaf (take (unat depth) (take (Suc m) ?steps))"
    using c small Suc.prems assms(4) unfolding m
    by (auto simp: noir_level_def noir_hash_pair_eq recompute_append side_ucast min_def not_less)
  then show ?case
    using Suc by simp
qed simp

lemma noir_verify_iff:
  assumes "digests H" and "bytes32 leaf" and "list_all bytes32 path" and "bytes32 rt"
    and "length indices = length path" and "length path < 2 ^ 32"
  shows "noir_verify_merkle_proof H leaf path indices rt depth \<longleftrightarrow>
    recompute H leaf (take (unat depth) (path_steps path indices)) = rt"
  using noir_levels [OF assms(1-3,5,6), of "length path" depth] assms
  by (simp add: noir_verify_merkle_proof_def bytes_equal_iff recompute_digest)

section \<open>What an accepted opening says\<close>

definition opening_steps :: "Opening \<Rightarrow> (bytes \<times> 8 word) list" where
  "opening_steps op = take (unat (tree_depth op)) (path_steps (merkle_path op) (merkle_indices op))"

lemma bind_context_vacuous: "bind_context H p r"
  by (simp add: bind_context_def assert_bytes_equal_def list_all_iff Let_def)

lemma context_bound_vacuous [simp]: "context_bound H ctx"
  by (simp add: context_bound_def bind_context_vacuous)

lemma leaf_opened_iff:
  assumes "digests H" and "typed_opening op" and "typed_context ctx"
  shows "leaf_opened H ctx op (H data) \<longleftrightarrow> claim_hash op = H data \<and>
    recompute H (H data) (opening_steps op) = commitment_root ctx"
proof -
  have "assert_bytes_equal (H data) (claim_hash op) \<longleftrightarrow> H data = claim_hash op"
    using assms by (intro assert_bytes_equal_iff) (simp_all add: digests_def typed_opening_def)
  moreover have "noir_verify_merkle_proof H (claim_hash op) (merkle_path op) (merkle_indices op)
      (commitment_root ctx) (tree_depth op) \<longleftrightarrow>
      recompute H (claim_hash op) (opening_steps op) = commitment_root ctx"
    unfolding opening_steps_def using assms
    by (intro noir_verify_iff) (simp_all add: typed_opening_def typed_context_def)
  ultimately show ?thesis
    unfolding leaf_opened_def by metis
qed

text \<open>
  Two different inputs with one digest, the first among the inputs of one list, the second among
  those of another. Both lists are finite and given: those hashed in checking and in committing.
\<close>

definition collides :: "hash \<Rightarrow> bytes list \<Rightarrow> bytes list \<Rightarrow> bool" where
  "collides H xs ys = list_ex (\<lambda>x. list_ex (\<lambda>y. x \<noteq> y \<and> H x = H y) ys) xs"

lemma collides_iff: "collides H xs ys \<longleftrightarrow> (\<exists>x \<in> set xs. \<exists>y \<in> set ys. x \<noteq> y \<and> H x = H y)"
  by (simp add: collides_def list_ex_iff)

lemma collides_mono: "collides H xs ys \<Longrightarrow> set xs \<subseteq> set xs' \<Longrightarrow> set ys \<subseteq> set ys' \<Longrightarrow> collides H xs' ys'"
  by (auto simp: collides_iff)

lemma chain_committed:
  assumes "digests H" and "level \<noteq> []" and "\<forall>l \<in> set level. bytes32 l" and "bytes32 leaf"
    and "length steps = length (below_root H level)"
    and "recompute H leaf steps = hd (last (levels H level))"
  shows "leaf \<in> set level \<or> collides H (inputs_of H leaf steps) (tree_inputs H level)"
proof -
  let ?i = "position (map snd steps)"
  let ?real = "level ! real_index (below_root H level) ?i"
  have real: "?real \<in> set level"
    using real_index_less [OF assms(2)] by simp
  have "sides steps = sides (position_steps (below_root H level) ?i)"
    using sides_position [of "map snd steps" "below_root H level"] assms(5) by (simp add: sides_def split_beta)
  moreover have "length leaf = length ?real"
    using assms(3,4) real by simp
  moreover have "recompute H leaf steps = recompute H ?real (position_steps (below_root H level) ?i)"
    using assms(6) recompute_position [OF assms(2), of H ?i] by simp
  ultimately have "leaf \<noteq> ?real \<Longrightarrow> \<exists>x y. find_collision H leaf steps ?real (position_steps (below_root H level) ?i)
      = Some (x, y) \<and> x \<noteq> y \<and> H x = H y"
    by (intro find_collision_Some [OF assms(1)])
  moreover have "set (inputs_of H ?real (position_steps (below_root H level) ?i)) \<subseteq> set (tree_inputs H level)"
    by (rule inputs_of_position [OF assms(2)])
  ultimately show ?thesis
    using real by (cases "leaf = ?real") (auto simp only: collides_iff dest: find_collision_inputs)
qed

lemma level_0: "levels H level ! 0 = level"
  by (simp add: levels.simps [of H level])

text \<open>The levels above a level are the levels of that level.\<close>

lemma levels_drop:
  "j < length (levels H level) \<Longrightarrow> levels H (levels H level ! j) = drop j (levels H level)"
proof (induction H level arbitrary: j rule: levels.induct)
  case (1 H level)
  show ?case
  proof (cases "length level > 1 \<and> j > 0")
    case True
    then obtain k where "j = Suc k" by (cases j) auto
    then show ?thesis
      using "1.IH" [of k] "1.prems" True by (simp add: levels_grow)
  next
    case False
    then show ?thesis
      using "1.prems" by (cases "length level > 1") (auto simp: levels_small levels.simps [of H level])
  qed
qed

lemma levels_Suc:
  assumes "Suc j < length (levels H level)"
  shows "levels H level ! Suc j = next_level H (levels H level ! j)"
proof -
  let ?l = "levels H level ! j"
  have d: "levels H ?l = drop j (levels H level)"
    using assms by (intro levels_drop) simp
  moreover have "length ?l > 1"
  proof (rule ccontr)
    assume "\<not> length ?l > 1"
    then have "drop j (levels H level) = [?l]"
      using d levels_small [of ?l H] by simp
    from arg_cong [OF this, of length] show False
      using assms by simp
  qed
  ultimately have "drop j (levels H level) = ?l # levels H (next_level H ?l)"
    by (simp add: levels_grow)
  moreover have "levels H (next_level H ?l) ! 0 = next_level H ?l"
    by (simp add: levels.simps [of H "next_level H ?l"])
  ultimately show ?thesis
    using nth_drop [of j "levels H level" 1] assms by simp
qed

lemma tree_inputs_level:
  assumes "j < length (levels H level)"
  shows "set (tree_inputs H (levels H level ! j)) \<subseteq> set (tree_inputs H level)"
  using levels_drop [OF assms] set_drop_subset [of j "butlast (levels H level)"]
  by (auto simp: tree_inputs_def butlast_drop)

lemma level_inputs_in_tree:
  assumes "Suc j < length (levels H level)"
  shows "set (level_inputs (levels H level ! j)) \<subseteq> set (tree_inputs H level)"
proof -
  have "levels H level ! j \<in> set (butlast (levels H level))"
    using assms nth_mem [of j "butlast (levels H level)"] by (simp add: nth_butlast)
  then show ?thesis
    by (auto simp: tree_inputs_def)
qed

lemma length_level_input:
  "\<forall>l \<in> set level. bytes32 l \<Longrightarrow> x \<in> set (level_inputs level) \<Longrightarrow> length x = 64"
  by (induction level rule: level_inputs.induct) auto

lemma level_digests:
  assumes "digests H" and "\<forall>l \<in> set level. bytes32 l" and "j < length (levels H level)"
  shows "\<forall>l \<in> set (levels H level ! j). bytes32 l"
proof (cases j)
  case 0
  then show ?thesis
    using assms(2) by (simp add: level_0)
next
  case (Suc k)
  then show ?thesis
    using assms levels_Suc [of k H level] by (auto simp: next_level_inputs digests_def)
qed

lemma inputs_of_append: "inputs_of H c (xs @ ys) = inputs_of H c xs @ inputs_of H (recompute H c xs) ys"
  by (induction H c xs rule: inputs_of.induct) (auto simp: recompute_Cons Let_def simp del: recompute.simps(2))

section \<open>Soundness against a commitment\<close>

text \<open>A root commits to the data of a list of claims: it is the root of the tree of their hashes.\<close>

definition committed_to :: "hash \<Rightarrow> bytes list \<Rightarrow> bytes \<Rightarrow> bool" where
  "committed_to H datas rt =
     (case build H (map H datas) of Some (Inr t) \<Rightarrow> rt = root t | _ \<Rightarrow> False)"

lemma committed_toE:
  assumes "committed_to H datas rt"
  obtains t where "build H (map H datas) = Some (Inr t)" "rt = root t" "datas \<noteq> []"
    "rt = hd (last (levels H (map H datas)))"
  using assms build_Inr [of H "map H datas"]
  by (auto simp: committed_to_def root_def split: option.splits sum.splits)

lemma shallow_chain:
  assumes "digests H" and "datas \<noteq> []" and "length data \<noteq> 64"
    and "length steps < length (levels H (map H datas))"
    and "recompute H (H data) steps = hd (last (levels H (map H datas)))"
  shows "data \<in> set datas \<or>
    collides H (data # inputs_of H (H data) steps) (datas @ tree_inputs H (map H datas))"
proof -
  let ?leaves = "map H datas"
  let ?j = "length (levels H ?leaves) - Suc (length steps)"
  let ?level = "levels H ?leaves ! ?j"
  have j: "?j < length (levels H ?leaves)"
    using assms(4) by simp
  have digest: "\<forall>l \<in> set ?leaves. bytes32 l"
    using assms(1) by (auto simp: digests_def)
  have drop: "levels H ?level = drop ?j (levels H ?leaves)"
    by (rule levels_drop [OF j])
  have ne: "?level \<noteq> []"
  proof
    assume "?level = []"
    then have "last (levels H ?leaves) = []"
      using drop j levels_small [of "[]" H] by (metis last_drop last.simps list.size(3) zero_le)
    then show False
      using last_level_root [of ?leaves H] assms(2) by (simp add: Suc_le_eq)
  qed
  have "last (levels H ?level) = last (levels H ?leaves)"
    using drop j by simp
  then have "H data \<in> set ?level \<or> collides H (inputs_of H (H data) steps) (tree_inputs H ?level)"
    using assms(1,4,5) ne j drop level_digests [OF assms(1) digest j]
    by (intro chain_committed) (auto simp: digests_def)
  moreover have "data \<in> set datas \<or> collides H [data] (datas @ tree_inputs H ?leaves)"
    if "H data \<in> set ?level"
  proof (cases ?j)
    case 0
    then have "H data \<in> H ` set datas"
      using that by (simp add: level_0)
    then show ?thesis
      by (auto simp: collides_iff)
  next
    case (Suc i)
    then have i: "Suc i < length (levels H ?leaves)"
      using j by simp
    moreover have "H data \<in> set (levels H ?leaves ! Suc i)"
      using that unfolding Suc .
    ultimately have "H data \<in> H ` set (level_inputs (levels H ?leaves ! i))"
      using levels_Suc [of i H ?leaves] by (simp add: next_level_inputs)
    then obtain x where x: "x \<in> set (level_inputs (levels H ?leaves ! i))" "H data = H x"
      by blast
    moreover have "length x = 64"
      using i level_digests [OF assms(1) digest, of i]
      by (intro length_level_input [OF _ x(1)]) simp
    ultimately show ?thesis
      using assms(3) level_inputs_in_tree [OF i]
      by (auto simp: collides_iff)
  qed
  ultimately show ?thesis
    using tree_inputs_level [OF j] by (fastforce simp: collides_iff)
qed

lemma deep_chain:
  assumes "digests H" and "datas \<noteq> []" and "\<forall>d \<in> set datas. length d \<noteq> 64"
    and "list_all (\<lambda>(s, b). bytes32 s) steps"
    and "length steps \<ge> length (levels H (map H datas))"
    and "recompute H (H data) steps = hd (last (levels H (map H datas)))"
  shows "collides H (inputs_of H (H data) steps) (datas @ tree_inputs H (map H datas))"
proof -
  let ?leaves = "map H datas"
  let ?k = "length steps - length (below_root H ?leaves)"
  have deeper: "length (below_root H ?leaves) < length steps"
    using assms(5) length_greater_0_conv [of "levels H ?leaves"] levels_not_Nil [of H ?leaves]
    unfolding length_butlast by linarith
  obtain m where m: "?k = Suc m" "Suc m \<le> length steps"
    using deeper by (cases ?k) auto
  obtain s b where sb: "steps ! m = (s, b)" by fastforce
  let ?c = "recompute H (H data) (take m steps)"
  let ?x = "pair_input b ?c s"
  have split: "steps = take m steps @ (s, b) # drop (Suc m) steps"
    using m(2) sb by (metis Suc_le_lessD id_take_nth_drop)
  have "(s, b) \<in> set steps"
    using m(2) sb by (metis Suc_le_lessD nth_mem)
  then have "bytes32 ?c" "bytes32 s"
    using assms(1,4) recompute_digest [OF assms(1), of "H data"]
    by (auto simp: digests_def list_all_iff)
  then have x: "length ?x = 64"
    by (simp add: pair_input_def)
  have "recompute H (H ?x) (drop (Suc m) steps) = hd (last (levels H ?leaves))"
    using assms(6) by (subst (asm) split) (simp add: recompute_append recompute_Cons del: recompute.simps(2))
  moreover have "length (drop (Suc m) steps) = length (below_root H ?leaves)"
    using m assms(5) by simp
  ultimately have "H ?x \<in> set ?leaves \<or> collides H (inputs_of H (H ?x) (drop (Suc m) steps)) (tree_inputs H ?leaves)"
    using assms(1,2) by (intro chain_committed) (auto simp: digests_def)
  moreover have "inputs_of H (H data) steps = inputs_of H (H data) (take m steps) @
      ?x # inputs_of H (H ?x) (drop (Suc m) steps)"
    by (subst split) (simp add: inputs_of_append Let_def)
  moreover have "collides H [?x] datas" if leaf: "H ?x \<in> set ?leaves"
  proof -
    obtain d where d: "d \<in> set datas" "H ?x = H d"
      using leaf by auto
    then have "?x \<noteq> d"
      using assms(3) x by auto
    with d show ?thesis
      by (auto simp: collides_iff)
  qed
  ultimately show ?thesis
    unfolding collides_iff by auto
qed

lemma opened_data_committed:
  assumes "digests H" and "committed_to H datas (commitment_root ctx)"
    and "\<forall>d \<in> set (data # datas). length d \<noteq> 64"
    and "typed_opening op" and "typed_context ctx" and "leaf_opened H ctx op (H data)"
  shows "data \<in> set datas \<or>
    collides H (data # inputs_of H (H data) (opening_steps op)) (datas @ tree_inputs H (map H datas))"
proof -
  have r: "recompute H (H data) (opening_steps op) = hd (last (levels H (map H datas)))"
    using assms(6) leaf_opened_iff [OF assms(1,4,5), of data] committed_toE [OF assms(2)] by metis
  have "datas \<noteq> []"
    using committed_toE [OF assms(2)] by metis
  moreover have "list_all (\<lambda>(s, b). bytes32 s) (opening_steps op)"
    using assms(4) by (auto simp: opening_steps_def typed_opening_def list_all_iff
        dest!: in_set_takeD set_zip_leftD)
  ultimately have "data \<in> set datas \<or> collides H (data # inputs_of H (H data) (opening_steps op))
      (datas @ tree_inputs H (map H datas)) \<or>
      collides H (inputs_of H (H data) (opening_steps op)) (datas @ tree_inputs H (map H datas))"
    using shallow_chain [OF assms(1) _ _ _ r] deep_chain [OF assms(1) _ _ _ _ r] assms(3)
    by (cases "length (opening_steps op) < length (levels H (map H datas))") auto
  then show ?thesis
    by (auto simp: collides_iff)
qed


section \<open>What is left open\<close>

text \<open>An opening of the only claim of a commitment: nothing above the leaf.\<close>

definition sole_opening :: "bytes \<Rightarrow> Opening" where
  "sole_opening leaf = \<lparr>claim_hash = leaf, merkle_path = replicate 8 (replicate 32 0),
     merkle_indices = replicate 8 0, tree_depth = 0\<rparr>"

lemma sole_opened:
  assumes "digests H" and "typed_context ctx" and "commitment_root ctx = H data"
  shows "leaf_opened H ctx (sole_opening (H data)) (H data)"
proof -
  have "typed_opening (sole_opening (H data))"
    using assms(1) by (simp add: typed_opening_def sole_opening_def digests_def list_all_iff)
  then show ?thesis
    using leaf_opened_iff [OF assms(1) _ assms(2), of "sole_opening (H data)" data] assms(3)
    by (simp add: sole_opening_def opening_steps_def)
qed

lemma committed_sole: "committed_to H [data] (H data)"
  by (simp add: committed_to_def build_cases levels_small root_def)

text \<open>The circuits take the type and the unit of the claim from the prover: any committed value
  of at most 100, say a carbon footprint, is accepted as recycled content, as a state of health and
  as a recycling efficiency, for every product and requester, whatever the text of its type.\<close>

lemma any_claim_type_accepted:
  assumes "digests H" and "v \<le> 100" and "bytes32 product" and "bytes32 requester"
    and "data = value_data (H claim_type) (ucast v) (H unit)"
    and "ctx = \<lparr>commitment_root = H data, product_binding = product, requester_binding = requester\<rparr>"
  shows "committed_to H [data] (commitment_root ctx) \<and>
    recycled_content_gte_v1 H v ctx v (H claim_type) (H unit) (sole_opening (H data)) \<and>
    state_of_health_gte_v1 H v ctx v (H claim_type) (H unit) (sole_opening (H data)) \<and>
    recycling_efficiency_gte_v1 H v ctx v (H claim_type) (H unit) (sole_opening (H data)) \<and>
    carbon_footprint_lte_v1 H v ctx v (H claim_type) (H unit) (sole_opening (H data))"
proof -
  have "typed_context ctx"
    using assms(1,3,4,6) by (simp add: typed_context_def digests_def)
  then have "leaf_opened H ctx (sole_opening (H data)) (H data)"
    using assms(1,6) by (intro sole_opened) simp_all
  moreover have "v \<le> MAX_FOOTPRINT"
    using assms(2) by (auto simp: MAX_FOOTPRINT_def elim: order_trans)
  ultimately show ?thesis
    using assms(1,2,5,6)
    by (simp add: committed_sole recycled_content_gte_v1_def state_of_health_gte_v1_def
        recycling_efficiency_gte_v1_def carbon_footprint_lte_v1_def noir_hash_claim_value_eq digests_def)
qed

lemma demo_hash_32 [simp]: "bytes32 (demo_hash data)"
  using demo_hash_digests by (simp add: digests_def)



text \<open>The lifecycle circuit does not ask for five different claims: the opening of one stage of at
  most 1,000,000, whichever the prover picks, is accepted five times over, against any threshold of
  five times its value, whatever the other stages of the commitment are.\<close>

lemma lifecycle_counts_one_stage:
  assumes "leaf_opened H ctx op (noir_hash_claim_value H ct v u)" and "v \<le> 1000000" and "5 * v \<le> threshold"
  shows "carbon_footprint_lifecycle_v1 H threshold ctx (replicate 5 v) (replicate 5 ct) (replicate 5 u) (replicate 5 op)"
proof -
  have v: "unat v \<le> 1000000"
    using assms(2) by (simp add: word_le_nat_alt)
  have "unat s + n * unat v < 2 ^ 64 \<Longrightarrow> sum_stages s (replicate n v) = Some (s + word_of_nat n * v)" for s n
  proof (induction n arbitrary: s)
    case (Suc n)
    then have "unat (s + v) = unat s + unat v"
      by (simp add: unat_word_ariths)
    then show ?case
      using Suc.IH [of "s + v"] Suc.prems by (simp add: word_le_nat_alt algebra_simps)
  qed simp
  from this [of 0 5] have "sum_stages 0 (replicate 5 v) = Some (5 * v)"
    using v by simp
  then show ?thesis
    using assms by (simp add: carbon_footprint_lifecycle_v1_def list_all_iff)
qed

end
