(* ===== verification/EdgeClaims.thy ===== *)
theory EdgeClaims
  imports EdgeStore Circuits Schemas
begin

text \<open>
  How the edge agent reads and hashes a claim (\<open>commands/mod.rs\<close>): the values of the JSON it
  stores, the identifiers of predicates and bindings, and \<open>compute_claim_hash\<close>, whose digests are
  the leaves of a commitment. Doubles are the machine's (\<open>double\<close>), parsing an RFC 3339 date and
  rendering the canonical JSON of a claim the libraries'.

  The lemmas show that each kind of claim is hashed over exactly the bytes its circuits hash.
\<close>

section \<open>Results\<close>

text \<open>
  What a command comes to: data, an error the command reports (\<open>CommandResponse::err\<close>), an error it
  fails with (\<open>?\<close>, which rejects the caller's promise), or a panic.
\<close>

datatype 'a command = Done 'a | Reported string | Failed string | Panicked

primrec command_bind :: "'a command \<Rightarrow> ('a \<Rightarrow> 'b command) \<Rightarrow> 'b command" where
  "command_bind (Done x) f = f x"
| "command_bind (Reported e) f = Reported e"
| "command_bind (Failed e) f = Failed e"
| "command_bind Panicked f = Panicked"

primrec failing :: "string + 'a \<Rightarrow> 'a command" where
  "failing (Inl e) = Failed e"
| "failing (Inr x) = Done x"

lemma command_bind_Done_iff: "command_bind c f = Done y \<longleftrightarrow> (\<exists>x. c = Done x \<and> f x = Done y)"
  by (cases c) auto

lemma failing_Done_iff: "failing r = Done x \<longleftrightarrow> r = Inr x"
  by (cases r) auto

section \<open>Reading JSON\<close>

record 'f double =
  fl_of_u64 :: "u64 \<Rightarrow> 'f"
  fl_of_int :: "int \<Rightarrow> 'f"
  fl_to_u64 :: "'f \<Rightarrow> u64"
  fl_is_whole :: "'f \<Rightarrow> bool"
  fl_times :: "'f \<Rightarrow> 'f \<Rightarrow> 'f"
  fl_finite :: "'f \<Rightarrow> bool"
  fl_not_negative :: "'f \<Rightarrow> bool"
  fl_round :: "'f \<Rightarrow> 'f"
  fl_within_1e6 :: "'f \<Rightarrow> 'f \<Rightarrow> bool"

fun as_u64 :: "'f Value \<Rightarrow> u64 option" where
  "as_u64 (VUInt n) = Some n"
| "as_u64 v = None"

fun as_f64 :: "'f double \<Rightarrow> 'f Value \<Rightarrow> 'f option" where
  "as_f64 fl (VUInt n) = Some (fl_of_u64 fl n)"
| "as_f64 fl (VNegInt i) = Some (fl_of_int fl i)"
| "as_f64 fl (VFloat f) = Some f"
| "as_f64 fl v = None"

fun as_str :: "'f Value \<Rightarrow> string option" where
  "as_str (VString s) = Some s"
| "as_str v = None"

fun as_object :: "'f Value \<Rightarrow> (string \<times> 'f Value) list option" where
  "as_object (VObject fs) = Some fs"
| "as_object v = None"

fun as_array :: "'f Value \<Rightarrow> 'f Value list option" where
  "as_array (VArray vs) = Some vs"
| "as_array v = None"

text \<open>\<open>str::parse\<close> for an unsigned integer: a plus sign is allowed, and overflow is an error.\<close>

definition is_ascii_digit :: "char \<Rightarrow> bool" where
  "is_ascii_digit c = (48 \<le> (of_char c :: nat) \<and> (of_char c :: nat) \<le> 57)"

definition parse_unsigned :: "nat \<Rightarrow> string \<Rightarrow> nat option" where
  "parse_unsigned bits s =
     (let digits = (if js_startsWith s ''+'' then tl s else s)
      in if digits \<noteq> [] \<and> list_all is_ascii_digit digits \<and> read_nat digits < 2 ^ bits
         then Some (read_nat digits) else None)"

text \<open>\<open>u32::try_from\<close>\<close>

definition u32_try_from :: "u64 \<Rightarrow> string + u32" where
  "u32_try_from n = (if unat n < 2 ^ 32 then Inr (ucast n) else Inl ''Value out of range'')"

definition parse_u32_value :: "'f double \<Rightarrow> 'f Value \<Rightarrow> string + u32" where
  "parse_u32_value fl v =
     (case as_u64 v of
        Some n \<Rightarrow> u32_try_from n
      | None \<Rightarrow>
          (case as_f64 fl v of
             Some n \<Rightarrow> if fl_is_whole fl n then u32_try_from (fl_to_u64 fl n)
                       else Inl ''Claim value is not a number''
           | None \<Rightarrow>
               (case as_str v of
                  Some s \<Rightarrow> (case parse_unsigned 32 s of
                               Some n \<Rightarrow> Inr (word_of_nat n) | None \<Rightarrow> Inl ''Invalid numeric string'')
                | None \<Rightarrow> Inl ''Claim value is not a number'')))"

text \<open>The multiplication at the end wraps around in a release build (a debug build panics).\<close>

definition parse_scaled_u32_value :: "'f double \<Rightarrow> 'f Value \<Rightarrow> u32 \<Rightarrow> string + u32" where
  "parse_scaled_u32_value fl v scale =
     (case as_f64 fl v of
        Some n \<Rightarrow>
          (let scaled = fl_times fl n (fl_of_u64 fl (ucast scale)); rounded = fl_round fl scaled
           in if fl_finite fl scaled \<and> fl_not_negative fl scaled \<and> fl_within_1e6 fl scaled rounded
              then u32_try_from (fl_to_u64 fl rounded)
              else Inl ''Value has too many decimals'')
      | None \<Rightarrow> sum_bind (parse_u32_value fl v) (\<lambda>n. Inr (n * scale)))"

text \<open>The seconds since 1970 of a date are an \<open>i64\<close>, read as a \<open>u64\<close>.\<close>

definition parse_u64_timestamp :: "(string \<Rightarrow> int option) \<Rightarrow> 'f Value \<Rightarrow> string + u64" where
  "parse_u64_timestamp rfc3339 v =
     (case as_u64 v of
        Some n \<Rightarrow> Inr n
      | None \<Rightarrow>
          (case as_str v of
             Some s \<Rightarrow>
               (case parse_unsigned 64 s of
                  Some n \<Rightarrow> Inr (word_of_nat n)
                | None \<Rightarrow> (case rfc3339 s of
                             Some t \<Rightarrow> Inr (word_of_int t) | None \<Rightarrow> Inl ''Invalid timestamp value''))
           | None \<Rightarrow> Inl ''Invalid timestamp value''))"

fun first_of :: "(string \<times> 'v) list \<Rightarrow> string list \<Rightarrow> 'v option" where
  "first_of obj [] = None"
| "first_of obj (k # ks) = (case map_of obj k of Some v \<Rightarrow> Some v | None \<Rightarrow> first_of obj ks)"

definition extract_cert_window :: "(string \<Rightarrow> int option) \<Rightarrow> 'f Value \<Rightarrow> string + u64 \<times> u64" where
  "extract_cert_window rfc3339 v =
     (case as_object v of
        None \<Rightarrow> Inl ''Certificate claim must be an object''
      | Some obj \<Rightarrow>
          (case first_of obj [''valid_from'', ''validFrom'', ''not_before'', ''notBefore''] of
             None \<Rightarrow> Inl ''Missing valid_from''
           | Some valid_from \<Rightarrow>
               (case first_of obj [''valid_until'', ''validUntil'', ''expires_at'', ''expiresAt'',
                    ''not_after'', ''notAfter''] of
                  None \<Rightarrow> Inl ''Missing valid_until''
                | Some valid_until \<Rightarrow>
                    sum_bind (parse_u64_timestamp rfc3339 valid_from) (\<lambda>f.
                    sum_bind (parse_u64_timestamp rfc3339 valid_until) (\<lambda>u. Inr (f, u))))))"

fun strings_of :: "'f Value list \<Rightarrow> string + string list" where
  "strings_of [] = Inr []"
| "strings_of (v # vs) =
     (case as_str v of
        Some s \<Rightarrow> sum_bind (strings_of vs) (\<lambda>ss. Inr (s # ss))
      | None \<Rightarrow> Inl ''Array items must be strings'')"

definition parse_string_list :: "'f Value \<Rightarrow> string + string list" where
  "parse_string_list v =
     (case as_array v of None \<Rightarrow> Inl ''Expected array'' | Some vs \<Rightarrow> strings_of vs)"

section \<open>Identifiers\<close>

definition bytes_of :: "string \<Rightarrow> bytes" where
  "bytes_of s = map of_char s"

definition is_hex_32 :: "string \<Rightarrow> bool" where
  "is_hex_32 s = (length s = 64 \<and> list_all (\<lambda>c. hex_val c \<noteq> None) s)"

text \<open>\<open>from_hex\<close> copies the decoded bytes into an array of 32, which panics for another length.\<close>

definition from_hex :: "codec \<Rightarrow> string \<Rightarrow> bytes command" where
  "from_hex lib s =
     (case lib_hex_decode lib s of
        Inl e \<Rightarrow> Failed (''Invalid hex: '' @ e)
      | Inr decoded \<Rightarrow> if length decoded = 32 then Done decoded else Panicked)"

definition hash_binding :: "hash \<Rightarrow> codec \<Rightarrow> string \<Rightarrow> string \<Rightarrow> string" where
  "hash_binding H lib prefix v = lib_hex_encode lib (H (bytes_of (prefix @ '':'' @ v)))"

definition normalize_binding :: "hash \<Rightarrow> codec \<Rightarrow> string \<Rightarrow> string \<Rightarrow> string" where
  "normalize_binding H lib prefix v =
     (if is_hex_32 v then js_toLowerCase v else hash_binding H lib prefix v)"

definition substance_id_from_str :: "hash \<Rightarrow> codec \<Rightarrow> string \<Rightarrow> bytes" where
  "substance_id_from_str H lib v =
     (if is_hex_32 v then (case from_hex lib (js_toLowerCase v) of Done b \<Rightarrow> b | _ \<Rightarrow> replicate 32 0)
      else H (bytes_of v))"

definition split_once :: "char \<Rightarrow> string \<Rightarrow> (string \<times> string) option" where
  "split_once c s =
     (if c \<in> set s then Some (takeWhile (\<lambda>x. x \<noteq> c) s, tl (dropWhile (\<lambda>x. x \<noteq> c) s)) else None)"

text \<open>\<open>NAME@VERSION\<close>, or else the last underscore separates the two.\<close>

definition parse_predicate_id :: "string \<Rightarrow> string + PredicateId" where
  "parse_predicate_id canonical =
     (case split_once CHR ''@'' canonical of
        Some (name, version) \<Rightarrow> Inr \<lparr>pid_name = name, pid_version = version\<rparr>
      | None \<Rightarrow>
          (case split_once CHR ''_'' (rev canonical) of
             Some (noisrev, eman) \<Rightarrow>
               if eman \<noteq> [] \<and> noisrev \<noteq> []
               then Inr \<lparr>pid_name = rev eman, pid_version = rev noisrev\<rparr>
               else Inl ''Predicate ID must include version (e.g., RECYCLED_CONTENT_GTE_V1)''
           | None \<Rightarrow> Inl ''Predicate ID must include version (e.g., RECYCLED_CONTENT_GTE_V1)''))"

section \<open>Hashing a claim\<close>

definition DOMAIN_SUBSTANCE_PRODUCT :: bytes where
  "DOMAIN_SUBSTANCE_PRODUCT = bytes_of ''SUBP''"

definition DOMAIN_SUBSTANCE_FORBIDDEN :: bytes where
  "DOMAIN_SUBSTANCE_FORBIDDEN = bytes_of ''SUBF''"

definition CARBON_FOOTPRINT_SCALE :: u32 where
  "CARBON_FOOTPRINT_SCALE = 100"

definition hash_claim_type :: "hash \<Rightarrow> string \<Rightarrow> bytes" where
  "hash_claim_type H claim_type = H (bytes_of claim_type)"

definition hash_unit :: "hash \<Rightarrow> string \<Rightarrow> bytes" where
  "hash_unit H unit = H (bytes_of unit)"

definition hash_claim_value :: "hash \<Rightarrow> bytes \<Rightarrow> u64 \<Rightarrow> bytes \<Rightarrow> bytes" where
  "hash_claim_value H claim_type_hash v unit_hash = H (claim_type_hash @ be_bytes v @ unit_hash)"

definition hash_claim_bytes :: "hash \<Rightarrow> bytes \<Rightarrow> bytes \<Rightarrow> bytes" where
  "hash_claim_bytes H claim_type_hash value_hash = H (claim_type_hash @ value_hash)"

definition hash_cert_window :: "hash \<Rightarrow> bytes \<Rightarrow> u64 \<Rightarrow> u64 \<Rightarrow> bytes" where
  "hash_cert_window H claim_type_hash valid_from valid_until =
     H (claim_type_hash @ be_bytes valid_from @ be_bytes valid_until)"

definition hash_substance_list :: "hash \<Rightarrow> bytes \<Rightarrow> bytes \<Rightarrow> bytes list \<Rightarrow> u32 \<Rightarrow> bytes" where
  "hash_substance_list H domain claim_type_hash substances count =
     fold (\<lambda>i current_hash. if word_of_nat i < count then H (current_hash @ substances ! i) else current_hash)
       [0..<length substances] (H (domain @ claim_type_hash))"

definition claim_substances :: "hash \<Rightarrow> codec \<Rightarrow> 'f Value \<Rightarrow> string + bytes list" where
  "claim_substances H lib v =
     (case as_object v of
        None \<Rightarrow> Inl ''Substance claim must be object''
      | Some obj \<Rightarrow>
          (case map_of obj ''substances'' of
             None \<Rightarrow> Inl ''Missing substances list''
           | Some list \<Rightarrow> sum_bind (parse_string_list list)
               (\<lambda>names. Inr (map (substance_id_from_str H lib) names))))"

definition compute_claim_hash ::
  "hash \<Rightarrow> codec \<Rightarrow> 'f double \<Rightarrow> (string \<Rightarrow> int option) \<Rightarrow> ('f ClaimRow \<Rightarrow> string + bytes) \<Rightarrow>
     'f ClaimRow \<Rightarrow> string + bytes"
where
  "compute_claim_hash H lib fl rfc3339 canonical claim =
     (let kind = cl_claim_type claim; type_hash = hash_claim_type H kind in
      if kind = ''recycled_content'' then
        sum_bind (parse_u32_value fl (cl_value claim)) (\<lambda>v.
          Inr (hash_claim_value H type_hash (ucast v) (hash_unit H (cl_unit claim))))
      else if kind = ''carbon_footprint'' then
        sum_bind (parse_scaled_u32_value fl (cl_value claim) CARBON_FOOTPRINT_SCALE) (\<lambda>v.
          Inr (hash_claim_value H type_hash (ucast v) (hash_unit H (cl_unit claim))))
      else if kind = ''certification'' then
        sum_bind (extract_cert_window rfc3339 (cl_value claim)) (\<lambda>(f, u).
          Inr (hash_cert_window H type_hash f u))
      else if kind = ''substance_content'' then
        sum_bind (claim_substances H lib (cl_value claim)) (\<lambda>ids.
          Inr (hash_substance_list H DOMAIN_SUBSTANCE_PRODUCT type_hash ids (word_of_nat (length ids))))
      else if kind = ''battery_chemistry'' \<or> kind = ''cobalt_origin_country'' then
        (case as_str (cl_value claim) of
           None \<Rightarrow> Inl ''Claim value must be string''
         | Some v \<Rightarrow> Inr (hash_claim_bytes H type_hash (substance_id_from_str H lib v)))
      else sum_bind (canonical claim) (\<lambda>text. Inr (H text)))"

end
