(* ===== verification/EdgeProver.thy ===== *)
theory EdgeProver
  imports EdgeClaims
begin

text \<open>
  How the edge agent proves a claim (\<open>generate_proof\<close> of \<open>commands/mod.rs\<close> and \<open>zk/mod.rs\<close>): it hashes
  the claims of a commitment as they stand now, builds their tree, takes the proof of the selected
  claim, fills in the private inputs of the circuit, pads them to the sizes of its arrays and has
  \<open>nargo\<close> execute and prove it. The text of \<open>Prover.toml\<close> is represented by the values it lists;
  \<open>nargo\<close> is the argument \<open>prover\<close>.

  The lemmas show that the circuit accepts the inputs exactly when the claim satisfies the predicate
  and the commitment is to the claims as they stand, and when padding refuses.
\<close>

section \<open>Inputs of the circuits\<close>

text \<open>The fields the four input records of \<open>zk/mod.rs\<close> have in common.\<close>

record ProofInputs =
  in_commitment_root :: bytes
  in_product_binding :: bytes
  in_requester_binding :: bytes
  in_claim_type_hash :: bytes
  in_claim_hash :: bytes
  in_merkle_path :: "bytes list"
  in_merkle_indices :: "8 word list"
  in_tree_depth :: u32

record RecycledContentInputs = ProofInputs +
  rc_threshold :: u32
  rc_actual_value :: u32
  rc_unit_hash :: bytes

record CarbonFootprintInputs = ProofInputs +
  cf_threshold :: u32
  cf_actual_value :: u32
  cf_unit_hash :: bytes

record CertValidInputs = ProofInputs +
  cv_check_timestamp :: u64
  cv_valid_from :: u64
  cv_valid_until :: u64

record SubstanceNotInListInputs = ProofInputs +
  sn_forbidden_list_hash :: bytes
  sn_product_substances :: "bytes list"
  sn_num_substances :: u32
  sn_forbidden_substances :: "bytes list"
  sn_num_forbidden :: u32

datatype CircuitInputs =
  RecycledContent RecycledContentInputs
| CarbonFootprint CarbonFootprintInputs
| CertValid CertValidInputs
| SubstanceNotInList SubstanceNotInListInputs

section \<open>Padding\<close>

definition zero_bytes :: bytes where
  "zero_bytes = replicate 32 0"

definition pad_merkle_path :: "bytes list \<Rightarrow> nat \<Rightarrow> string + bytes list" where
  "pad_merkle_path path depth =
     (if length path > depth
      then Inl (''Merkle path length '' @ show_nat (length path) @ '' exceeds depth '' @ show_nat depth)
      else Inr (path @ replicate (depth - length path) zero_bytes))"

definition pad_merkle_indices :: "8 word list \<Rightarrow> nat \<Rightarrow> string + 8 word list" where
  "pad_merkle_indices indices depth =
     (if length indices > depth
      then Inl (''Merkle indices length '' @ show_nat (length indices) @ '' exceeds depth '' @ show_nat depth)
      else Inr (indices @ replicate (depth - length indices) 0))"

definition pad_substances :: "bytes list \<Rightarrow> nat \<Rightarrow> string + bytes list" where
  "pad_substances substances m =
     (if length substances > m
      then Inl (''Substance list length '' @ show_nat (length substances) @ '' exceeds '' @ show_nat m)
      else Inr (substances @ replicate (m - length substances) zero_bytes))"

definition pad_proof :: "'z ProofInputs_scheme \<Rightarrow> string + 'z ProofInputs_scheme" where
  "pad_proof inputs =
     sum_bind (pad_merkle_path (in_merkle_path inputs) 8) (\<lambda>path.
     sum_bind (pad_merkle_indices (in_merkle_indices inputs) 8) (\<lambda>indices.
       Inr (inputs\<lparr>in_merkle_path := path, in_merkle_indices := indices\<rparr>)))"

fun build_prover_toml :: "CircuitInputs \<Rightarrow> string + CircuitInputs" where
  "build_prover_toml (RecycledContent i) = sum_bind (pad_proof i) (\<lambda>i. Inr (RecycledContent i))"
| "build_prover_toml (CarbonFootprint i) = sum_bind (pad_proof i) (\<lambda>i. Inr (CarbonFootprint i))"
| "build_prover_toml (CertValid i) = sum_bind (pad_proof i) (\<lambda>i. Inr (CertValid i))"
| "build_prover_toml (SubstanceNotInList i) =
     sum_bind (pad_proof i) (\<lambda>i.
     sum_bind (pad_substances (sn_product_substances i) 32) (\<lambda>product_substances.
     sum_bind (pad_substances (sn_forbidden_substances i) 64) (\<lambda>forbidden_substances.
       Inr (SubstanceNotInList (i\<lparr>sn_product_substances := product_substances,
         sn_forbidden_substances := forbidden_substances\<rparr>)))))"

fun circuit_dir_name :: "CircuitInputs \<Rightarrow> string" where
  "circuit_dir_name (RecycledContent i) = ''recycled_content_gte_v1''"
| "circuit_dir_name (CarbonFootprint i) = ''carbon_footprint_lte_v1''"
| "circuit_dir_name (CertValid i) = ''cert_valid_v1''"
| "circuit_dir_name (SubstanceNotInList i) = ''substance_not_in_list_v1''"

text \<open>
  Locating the circuits and \<open>nargo\<close>, compiling, and then executing and proving with a
  \<open>Prover.toml\<close> (the proof file's bytes).
\<close>

record prover =
  nargo_config :: "string + unit"
  nargo_compile :: "string \<Rightarrow> string + unit"
  nargo_prove :: "CircuitInputs \<Rightarrow> string + bytes"

definition prove_circuit :: "codec \<Rightarrow> prover \<Rightarrow> CircuitInputs \<Rightarrow> string command" where
  "prove_circuit lib prover inputs =
     command_bind (failing (map_sum (\<lambda>e. ''Noir CLI config error: '' @ e) (\<lambda>x. x) (nargo_config prover))) (\<lambda>_.
     failing (map_sum (\<lambda>e. ''Proof generation failed: '' @ e) (\<lambda>x. x)
       (sum_bind (nargo_compile prover (circuit_dir_name inputs)) (\<lambda>_.
        sum_bind (build_prover_toml inputs) (\<lambda>toml.
        sum_bind (nargo_prove prover toml) (\<lambda>proof_bytes. Inr (lib_hex_encode lib proof_bytes)))))))"

section \<open>Generating a proof\<close>

record 'f GenerateProofInput =
  gp_commitment_id :: string
  gp_predicate_id :: string
  gp_claim_index :: nat
  gp_threshold :: "u32 option"
  gp_timestamp :: "u64 option"
  gp_extra :: "'f Value option"
  gp_product_id :: string
  gp_requester_id :: string

text \<open>The libraries a proof needs: hash, codecs, doubles, dates, canonical JSON and \<open>nargo\<close>.\<close>

record 'f edge_libs =
  el_hash :: hash
  el_codec :: codec
  el_double :: "'f double"
  el_rfc3339 :: "string \<Rightarrow> int option"
  el_canonical :: "'f ClaimRow \<Rightarrow> string + bytes"
  el_prover :: prover

definition claim_hash_of :: "'f edge_libs \<Rightarrow> 'f ClaimRow \<Rightarrow> string + bytes" where
  "claim_hash_of libs = compute_claim_hash (el_hash libs) (el_codec libs) (el_double libs) (el_rfc3339 libs) (el_canonical libs)"

fun build_error :: "CommitmentError \<Rightarrow> string" where
  "build_error EmptyClaims = ''Empty claims list''"
| "build_error (DepthExceeded n) = ''Tree depth exceeded maximum of '' @ show_nat n"

text \<open>The tree of the claims' hashes; \<open>None\<close>, which never is, would be a build that does not return.\<close>

definition build_tree :: "hash \<Rightarrow> bytes list \<Rightarrow> MerkleTree command" where
  "build_tree H hashes =
     (case build H hashes of
        None \<Rightarrow> Panicked
      | Some (Inl e) \<Rightarrow> Failed (build_error e)
      | Some (Inr t) \<Rightarrow> Done t)"

text \<open>The part of the inputs every predicate has, from the commitment, the bindings and the proof.\<close>

definition common_inputs ::
  "codec \<Rightarrow> string \<Rightarrow> string \<Rightarrow> string \<Rightarrow> bytes \<Rightarrow> MerkleProof \<Rightarrow> ProofInputs command" where
  "common_inputs lib root_hex product_hex requester_hex claim_type_hash proof =
     command_bind (from_hex lib root_hex) (\<lambda>rt.
     command_bind (from_hex lib product_hex) (\<lambda>product.
     command_bind (from_hex lib requester_hex) (\<lambda>requester.
       Done \<lparr>in_commitment_root = rt, in_product_binding = product, in_requester_binding = requester,
         in_claim_type_hash = claim_type_hash, in_claim_hash = mp_leaf proof,
         in_merkle_path = mp_path proof, in_merkle_indices = mp_indices proof,
         in_tree_depth = word_of_nat (length (mp_path proof))\<rparr>)))"

definition recycled_inputs ::
  "'f edge_libs \<Rightarrow> 'f GenerateProofInput \<Rightarrow> 'f ClaimRow \<Rightarrow> (bytes \<Rightarrow> ProofInputs command) \<Rightarrow> CircuitInputs command" where
  "recycled_inputs libs input claim common =
     (case gp_threshold input of
        None \<Rightarrow> Failed ''Threshold required for RECYCLED_CONTENT_GTE_V1''
      | Some threshold \<Rightarrow>
          command_bind (failing (parse_u32_value (el_double libs) (cl_value claim))) (\<lambda>actual_value.
          if cl_claim_type claim \<noteq> ''recycled_content''
          then Reported ''Claim type mismatch for RECYCLED_CONTENT_GTE_V1''
          else command_bind (common (hash_claim_type (el_hash libs) (cl_claim_type claim))) (\<lambda>c.
            Done (RecycledContent (ProofInputs.extend c
              (RecycledContentInputs.fields threshold actual_value (hash_unit (el_hash libs) (cl_unit claim))))))))"

definition carbon_inputs ::
  "'f edge_libs \<Rightarrow> 'f GenerateProofInput \<Rightarrow> 'f ClaimRow \<Rightarrow> (bytes \<Rightarrow> ProofInputs command) \<Rightarrow> CircuitInputs command" where
  "carbon_inputs libs input claim common =
     (case gp_threshold input of
        None \<Rightarrow> Failed ''Threshold required for CARBON_FOOTPRINT_LTE_V1''
      | Some threshold \<Rightarrow>
          command_bind (failing (parse_scaled_u32_value (el_double libs) (cl_value claim) CARBON_FOOTPRINT_SCALE))
            (\<lambda>actual_value.
          if cl_claim_type claim \<noteq> ''carbon_footprint''
          then Reported ''Claim type mismatch for CARBON_FOOTPRINT_LTE_V1''
          else command_bind (common (hash_claim_type (el_hash libs) (cl_claim_type claim))) (\<lambda>c.
            Done (CarbonFootprint (ProofInputs.extend c
              (CarbonFootprintInputs.fields threshold actual_value (hash_unit (el_hash libs) (cl_unit claim))))))))"

text \<open>The time checked: the one given, else one in \<open>extra\<close> that can be read, else the clock's.\<close>

definition check_time ::
  "(string \<Rightarrow> int option) \<Rightarrow> time_ms \<Rightarrow> 'f GenerateProofInput \<Rightarrow> u64" where
  "check_time rfc3339 now input =
     (case gp_timestamp input of
        Some t \<Rightarrow> t
      | None \<Rightarrow>
          (case Option.bind (Option.bind (gp_extra input) as_object)
                  (\<lambda>obj. first_of obj [''check_timestamp'', ''checkTimestamp'']) of
             None \<Rightarrow> word_of_int (now div 1000)
           | Some v \<Rightarrow> (case parse_u64_timestamp rfc3339 v of
                          Inr t \<Rightarrow> t | Inl e \<Rightarrow> word_of_int (now div 1000))))"

definition cert_inputs ::
  "'f edge_libs \<Rightarrow> time_ms \<Rightarrow> 'f GenerateProofInput \<Rightarrow> 'f ClaimRow \<Rightarrow> (bytes \<Rightarrow> ProofInputs command) \<Rightarrow>
     CircuitInputs command" where
  "cert_inputs libs now input claim common =
     (if cl_claim_type claim \<noteq> ''certification'' then Reported ''Claim type mismatch for CERT_VALID_V1''
      else command_bind (failing (extract_cert_window (el_rfc3339 libs) (cl_value claim))) (\<lambda>(valid_from, valid_until).
        command_bind (common (hash_claim_type (el_hash libs) (cl_claim_type claim))) (\<lambda>c.
          Done (CertValid (ProofInputs.extend c
            (CertValidInputs.fields (check_time (el_rfc3339 libs) now input) valid_from valid_until))))))"

definition forbidden_in :: "'f GenerateProofInput \<Rightarrow> string + string list" where
  "forbidden_in input =
     (case Option.bind (Option.bind (gp_extra input) as_object)
             (\<lambda>obj. first_of obj [''forbidden_substances'', ''forbiddenSubstances'']) of
        None \<Rightarrow> Inl ''Missing forbidden_substances in extra''
      | Some v \<Rightarrow> parse_string_list v)"

definition substance_inputs ::
  "'f edge_libs \<Rightarrow> 'f GenerateProofInput \<Rightarrow> 'f ClaimRow \<Rightarrow> (bytes \<Rightarrow> ProofInputs command) \<Rightarrow> CircuitInputs command" where
  "substance_inputs libs input claim common =
     (let H = el_hash libs; substance_id = substance_id_from_str H (el_codec libs) in
      if cl_claim_type claim \<noteq> ''substance_content''
      then Reported ''Claim type mismatch for SUBSTANCE_NOT_IN_LIST_V1''
      else command_bind (failing (claim_substances H (el_codec libs) (cl_value claim))) (\<lambda>product_substances.
        command_bind (failing (forbidden_in input)) (\<lambda>names.
        let forbidden = map substance_id names; num_forbidden = word_of_nat (length forbidden);
            claim_type_hash = hash_claim_type H (cl_claim_type claim)
        in command_bind (common claim_type_hash) (\<lambda>c.
             Done (SubstanceNotInList (ProofInputs.extend c
               (SubstanceNotInListInputs.fields
                 (hash_substance_list H DOMAIN_SUBSTANCE_FORBIDDEN claim_type_hash forbidden num_forbidden)
                 product_substances (word_of_nat (length product_substances)) forbidden num_forbidden)))))))"

text \<open>The match on the predicate; anything else is not supported by the prover.\<close>

definition circuit_inputs ::
  "'f edge_libs \<Rightarrow> time_ms \<Rightarrow> PredicateId \<Rightarrow> 'f GenerateProofInput \<Rightarrow> 'f ClaimRow \<Rightarrow>
     (bytes \<Rightarrow> ProofInputs command) \<Rightarrow> CircuitInputs command" where
  "circuit_inputs libs now pid input claim common =
     (if pid_version pid \<noteq> ''V1'' then Reported ''Predicate not supported by prover yet''
      else if pid_name pid = ''RECYCLED_CONTENT_GTE'' then recycled_inputs libs input claim common
      else if pid_name pid = ''CARBON_FOOTPRINT_LTE'' then carbon_inputs libs input claim common
      else if pid_name pid = ''CERT_VALID'' then cert_inputs libs now input claim common
      else if pid_name pid = ''SUBSTANCE_NOT_IN_LIST'' then substance_inputs libs input claim common
      else Reported ''Predicate not supported by prover yet'')"

text \<open>
  The package leaves as JSON: the extra inputs as the wire values of theory Schemas, where fractional
  numbers, arrays and objects are kept by a text.
\<close>

definition wire_value :: "('f Value \<Rightarrow> string) \<Rightarrow> 'f Value \<Rightarrow> json_value" where
  "wire_value text_of v =
     (case v of
        VNull \<Rightarrow> JNull | VBool b \<Rightarrow> JBool b | VUInt n \<Rightarrow> JNum (uint n) | VNegInt i \<Rightarrow> JNum i
      | VString s \<Rightarrow> JStr s | v \<Rightarrow> JOther (text_of v))"

definition wire_extra :: "('f Value \<Rightarrow> string) \<Rightarrow> 'f Value option \<Rightarrow> (string \<times> json_value) list option" where
  "wire_extra text_of extra =
     map_option (map (\<lambda>(k, v). (k, wire_value text_of v))) (Option.bind extra as_object)"

text \<open>Only the predicate on substances changes the extra inputs; only the one on certificates the time.\<close>

definition extra_of :: "codec \<Rightarrow> CircuitInputs \<Rightarrow> 'f Value option \<Rightarrow> 'f Value option" where
  "extra_of lib inputs extra =
     (case inputs of
        SubstanceNotInList i \<Rightarrow>
          (case (case extra of Some v \<Rightarrow> v | None \<Rightarrow> VObject []) of
             VObject obj \<Rightarrow> Some (VObject (AList.update ''forbiddenListHash''
               (VString (lib_hex_encode lib (sn_forbidden_list_hash i))) obj))
           | v \<Rightarrow> Some v)
      | _ \<Rightarrow> extra)"

definition timestamp_of :: "CircuitInputs \<Rightarrow> u64 option \<Rightarrow> u64 option" where
  "timestamp_of inputs timestamp =
     (case inputs of CertValid i \<Rightarrow> Some (cv_check_timestamp i) | _ \<Rightarrow> timestamp)"

definition reported :: "string + 'a \<Rightarrow> 'a command" where
  "reported r = (case r of Inl e \<Rightarrow> Reported e | Inr x \<Rightarrow> Done x)"

definition or_reported :: "string \<Rightarrow> 'a option \<Rightarrow> 'a command" where
  "or_reported message x = (case x of None \<Rightarrow> Reported message | Some y \<Rightarrow> Done y)"

definition load_claim :: "EdgeEnv \<Rightarrow> 'f EdgeDb \<Rightarrow> string \<Rightarrow> string \<Rightarrow> 'f ClaimRow command" where
  "load_claim env db missing rid =
     command_bind (reported (store_get_claim env rid db)) (\<lambda>found. or_reported missing found)"

text \<open>The loop over the claims of a commitment: each is loaded and hashed before the next.\<close>

fun load_hashes ::
  "('f ClaimRow \<Rightarrow> string + bytes) \<Rightarrow> EdgeEnv \<Rightarrow> 'f EdgeDb \<Rightarrow> (string \<Rightarrow> string) \<Rightarrow> string list \<Rightarrow> bytes list command" where
  "load_hashes hash_of env db missing [] = Done []"
| "load_hashes hash_of env db missing (i # ids) =
     command_bind (load_claim env db (missing i) i) (\<lambda>claim.
     command_bind (failing (hash_of claim)) (\<lambda>h.
     command_bind (load_hashes hash_of env db missing ids) (\<lambda>hs. Done (h # hs))))"

text \<open>
  From the input to the private inputs of the circuit: the commitment must exist, be unrevoked and
  unexpired, and hold a claim at the index; the tree is built from its claims as they are stored now.
\<close>

definition opened_commitment :: "EdgeEnv \<Rightarrow> 'f EdgeDb \<Rightarrow> string \<Rightarrow> CommitmentRow command" where
  "opened_commitment env db rid =
     command_bind (reported (store_get_commitment env rid db)) (\<lambda>found.
     command_bind (or_reported ''Commitment not found'' found) (\<lambda>commitment.
       if cm_revoked commitment then Reported ''Commitment has been revoked''
       else (case cm_valid_until commitment of
               Some t \<Rightarrow> if ee_now env > t then Reported ''Commitment has expired'' else Done commitment
             | None \<Rightarrow> Done commitment)))"

definition prepare_proof ::
  "'f edge_libs \<Rightarrow> EdgeEnv \<Rightarrow> 'f EdgeDb \<Rightarrow> 'f GenerateProofInput \<Rightarrow>
     (CommitmentRow \<times> PredicateId \<times> CircuitInputs) command" where
  "prepare_proof libs env db input =
     (let H = el_hash libs; lib = el_codec libs in
      command_bind (opened_commitment env db (gp_commitment_id input)) (\<lambda>commitment.
      if gp_claim_index input \<ge> length (cm_claim_ids commitment) then Reported ''Invalid claim index''
      else
        command_bind (load_claim env db ''Claim not found'' (cm_claim_ids commitment ! gp_claim_index input)) (\<lambda>claim.
        command_bind (failing (parse_predicate_id (gp_predicate_id input))) (\<lambda>pid.
        command_bind (load_hashes (claim_hash_of libs) env db (\<lambda>_. ''Claim not found in commitment'')
            (cm_claim_ids commitment)) (\<lambda>hashes.
        command_bind (build_tree H hashes) (\<lambda>t.
        case prove t (gp_claim_index input) of
          None \<Rightarrow> Panicked
        | Some proof \<Rightarrow>
            command_bind (circuit_inputs libs (ee_now env) pid input claim
                (\<lambda>claim_type_hash. common_inputs lib (cm_root commitment)
                   (normalize_binding H lib ''product'' (gp_product_id input))
                   (normalize_binding H lib ''requester'' (gp_requester_id input)) claim_type_hash proof))
              (\<lambda>inputs. Done (commitment, pid, inputs))))))))"

definition generate_proof ::
  "'f edge_libs \<Rightarrow> EdgeEnv \<Rightarrow> ('f Value \<Rightarrow> string) \<Rightarrow> 'f EdgeDb \<Rightarrow> 'f GenerateProofInput \<Rightarrow> ProofPackage command" where
  "generate_proof libs env text_of db input =
     (let H = el_hash libs; lib = el_codec libs in
      command_bind (prepare_proof libs env db input) (\<lambda>(commitment, pid, inputs).
      command_bind (prove_circuit lib (el_prover libs) inputs) (\<lambda>proof_hex.
        Done \<lparr>pp_predicateId = Some pid, pp_proof = proof_hex,
          pp_publicInputs = Some
            \<lparr>pi_threshold = map_option uint (gp_threshold input), pi_commitmentRoot = cm_root commitment,
             pi_productBinding = normalize_binding H lib ''product'' (gp_product_id input),
             pi_requesterBinding = normalize_binding H lib ''requester'' (gp_requester_id input),
             pi_timestamp = map_option uint (timestamp_of inputs (gp_timestamp input)),
             pi_extra = wire_extra text_of (extra_of lib inputs (gp_extra input))\<rparr>,
          pp_nonce = lib_hex_encode lib (ee_random env 0), pp_generatedAt = ee_now env,
          pp_context = Some
            \<lparr>ctx_supplierId = (case get_setting env ''supplier_id'' db of Inr s \<Rightarrow> s | Inl e \<Rightarrow> None),
             ctx_requesterId = Some (gp_requester_id input), ctx_productId = Some (gp_product_id input)\<rparr>,
          pp_supplierSignature = None, pp_usageTerms = None\<rparr>)))"

section \<open>The circuit on the agent's inputs\<close>

definition prover_context :: "'z ProofInputs_scheme \<Rightarrow> PublicContext" where
  "prover_context i = \<lparr>commitment_root = in_commitment_root i, product_binding = in_product_binding i,
     requester_binding = in_requester_binding i\<rparr>"

definition prover_opening :: "'z ProofInputs_scheme \<Rightarrow> Opening" where
  "prover_opening i = \<lparr>claim_hash = in_claim_hash i, merkle_path = in_merkle_path i,
     merkle_indices = map ucast (in_merkle_indices i), tree_depth = in_tree_depth i\<rparr>"

text \<open>The circuit each of the four input records is for, on the values \<open>Prover.toml\<close> lists.\<close>

fun circuit_accepts :: "hash \<Rightarrow> CircuitInputs \<Rightarrow> bool" where
  "circuit_accepts H (RecycledContent i) =
     recycled_content_gte_v1 H (rc_threshold i) (prover_context i) (rc_actual_value i)
       (in_claim_type_hash i) (rc_unit_hash i) (prover_opening i)"
| "circuit_accepts H (CarbonFootprint i) =
     carbon_footprint_lte_v1 H (cf_threshold i) (prover_context i) (cf_actual_value i)
       (in_claim_type_hash i) (cf_unit_hash i) (prover_opening i)"
| "circuit_accepts H (CertValid i) =
     cert_valid_v1 H (cv_check_timestamp i) (prover_context i) (cv_valid_from i) (cv_valid_until i)
       (in_claim_type_hash i) (prover_opening i)"
| "circuit_accepts H (SubstanceNotInList i) =
     substance_not_in_list_v1 H (sn_forbidden_list_hash i) (prover_context i)
       (sn_product_substances i) (sn_num_substances i) (sn_forbidden_substances i) (sn_num_forbidden i)
       (in_claim_type_hash i) (prover_opening i)"

text \<open>What the predicate says of the claim.\<close>

fun claim_satisfies :: "CircuitInputs \<Rightarrow> bool" where
  "claim_satisfies (RecycledContent i) = (rc_threshold i \<le> rc_actual_value i \<and> rc_actual_value i \<le> 100)"
| "claim_satisfies (CarbonFootprint i) =
     (cf_actual_value i \<le> cf_threshold i \<and> cf_threshold i \<le> MAX_FOOTPRINT)"
| "claim_satisfies (CertValid i) =
     (cv_valid_from i \<le> cv_check_timestamp i \<and> cv_check_timestamp i < cv_valid_until i)"
| "claim_satisfies (SubstanceNotInList i) =
     (set (sn_product_substances i) \<inter> set (sn_forbidden_substances i) = {})"

lemma position_steps_typed:
  "digests H \<Longrightarrow> level \<noteq> [] \<Longrightarrow> \<forall>l \<in> set level. bytes32 l \<Longrightarrow>
    list_all (\<lambda>(s, b). bytes32 s \<and> (b = 0 \<or> b = 1)) (position_steps (below_root H level) i)"
proof (induction H level arbitrary: i rule: levels.induct)
  case (1 H level)
  show ?case
  proof (cases "length level > 1")
    case True
    have "next_level H level \<noteq> []"
      using True length_next_level [of H level] by auto
    moreover have "\<forall>l \<in> set (next_level H level). bytes32 l"
      using "1.prems"(1) by (auto simp: next_level_inputs digests_def)
    ultimately have "list_all (\<lambda>(s, b). bytes32 s \<and> (b = 0 \<or> b = 1))
        (position_steps (below_root H (next_level H level)) (i div 2))"
      using "1.IH" "1.prems"(1) True by simp
    moreover have "level ! min k (length level - 1) \<in> set level" for k
      using True by (intro nth_mem) (auto simp: min_def)
    ultimately show ?thesis
      using "1.prems"(3) True by (simp add: below_root_grow)
  next
    case False
    then show ?thesis by (simp add: levels_small)
  qed
qed

lemma padded_verify:
  assumes "digests H" and "bytes32 leaf" and "bytes32 rt" and "length steps \<le> 8"
    and "list_all (\<lambda>(s, b). bytes32 s \<and> (b = 0 \<or> b = 1)) steps"
  shows "noir_verify_merkle_proof H leaf (map fst steps @ replicate (8 - length steps) zero_bytes)
      (map ucast (map snd steps @ replicate (8 - length steps) 0)) rt (word_of_nat (length steps)) \<longleftrightarrow>
    recompute H leaf steps = rt"
proof -
  let ?path = "map fst steps @ replicate (8 - length steps) zero_bytes"
  let ?indices = "map ucast (map snd steps @ replicate (8 - length steps) 0) :: 1 word list"
  have "zip (map fst steps) (map ucast (map ucast (map snd steps) :: 1 word list)) = steps"
    using assms(5) by (induction steps) auto
  then have "take (length steps) (path_steps ?path ?indices) = steps"
    by simp
  moreover have "list_all bytes32 ?path"
    using assms(5) by (auto simp: list_all_iff zero_bytes_def)
  moreover have "unat (word_of_nat (length steps) :: u32) = length steps"
    using assms(4) by (simp add: unat_of_nat)
  ultimately show ?thesis
    using noir_verify_iff [OF assms(1,2) _ assms(3), of ?path ?indices "word_of_nat (length steps)"] assms(4)
    by simp
qed

text \<open>Inputs that carry the tree's proof of the leaf at an index.\<close>

definition proof_of_leaf :: "hash \<Rightarrow> bytes list \<Rightarrow> nat \<Rightarrow> 'z ProofInputs_scheme \<Rightarrow> bool" where
  "proof_of_leaf H hashes i c =
     (let steps = position_steps (below_root H hashes) i in
      bytes32 (in_commitment_root c) \<and> in_claim_hash c = hashes ! i \<and>
      in_merkle_path c = map fst steps \<and> in_merkle_indices c = map snd steps \<and>
      in_tree_depth c = word_of_nat (length steps))"

lemma pad_proof_Inr:
  "pad_proof c = Inr c' \<longleftrightarrow> length (in_merkle_path c) \<le> 8 \<and> length (in_merkle_indices c) \<le> 8 \<and>
     c' = c\<lparr>in_merkle_path := in_merkle_path c @ replicate (8 - length (in_merkle_path c)) zero_bytes,
            in_merkle_indices := in_merkle_indices c @ replicate (8 - length (in_merkle_indices c)) 0\<rparr>"
  by (auto simp: pad_proof_def pad_merkle_path_def pad_merkle_indices_def sum_bind_Inr_iff)

lemma padded_opening:
  assumes "digests H" and "i < length hashes" and "\<forall>h \<in> set hashes. bytes32 h"
    and "proof_of_leaf H hashes i c" and "pad_proof c = Inr c'" and "bytes32 computed"
  shows "leaf_opened H (prover_context c') (prover_opening c') computed \<longleftrightarrow>
    in_commitment_root c = hd (last (levels H hashes)) \<and> computed = hashes ! i"
proof -
  let ?steps = "position_steps (below_root H hashes) i"
  have ne: "hashes \<noteq> []" and leaf: "bytes32 (hashes ! i)"
    using assms(2,3) by auto
  have "recompute H (hashes ! i) ?steps = hd (last (levels H hashes))"
    using recompute_position [OF ne, of H i] real_index_leaf [OF assms(2), of H] by simp
  moreover have "noir_verify_merkle_proof H (hashes ! i) (map fst ?steps @ replicate (8 - length ?steps) zero_bytes)
      (map ucast (map snd ?steps @ replicate (8 - length ?steps) 0)) (in_commitment_root c)
      (word_of_nat (length ?steps)) \<longleftrightarrow> recompute H (hashes ! i) ?steps = in_commitment_root c"
    using assms(4,5) leaf position_steps_typed [OF assms(1) ne assms(3)]
    by (intro padded_verify [OF assms(1)]) (auto simp: proof_of_leaf_def pad_proof_Inr Let_def)
  ultimately show ?thesis
    using assms(4,5) assert_bytes_equal_iff [OF assms(6) leaf]
    by (auto simp: leaf_opened_def prover_context_def prover_opening_def proof_of_leaf_def pad_proof_Inr Let_def)
qed

section \<open>Lists of substances\<close>

lemma fold_id: "(\<And>i. i \<in> set xs \<Longrightarrow> f i = (\<lambda>c. c)) \<Longrightarrow> fold f xs d = d"
  by (induction xs arbitrary: d) auto

lemma word_count: "i < 2 ^ 32 \<Longrightarrow> n < 2 ^ 32 \<Longrightarrow> (word_of_nat i :: u32) < word_of_nat n \<longleftrightarrow> i < n"
  by (simp add: word_less_nat_alt unat_of_nat)

text \<open>A loop over an array that acts on the first \<open>n\<close> elements only.\<close>

lemma fold_counted:
  assumes "n \<le> m" and "m < 2 ^ 32"
  shows "fold (\<lambda>i c. if (word_of_nat i :: u32) < word_of_nat n then g i c else c) [0..<m] c = fold g [0..<n] c"
proof -
  let ?g = "\<lambda>i c. if (word_of_nat i :: u32) < word_of_nat n then g i c else c"
  have split: "[0..<m] = [0..<n] @ [n..<m]"
    using assms(1) upt_add_eq_append [of 0 n "m - n"] by simp
  have "fold ?g [0..<n] c = fold g [0..<n] c"
    using assms by (intro fold_cong refl) (auto simp: word_count)
  moreover have "fold ?g [n..<m] d = d" for d
  proof -
    have "fold ?g [n..<m] d = fold (\<lambda>i c. c) [n..<m] d"
      using assms by (intro fold_cong refl) (auto simp: word_count)
    also have "\<dots> = d"
      by (rule fold_id) simp
    finally show ?thesis .
  qed
  ultimately show ?thesis
    by (simp add: split)
qed

lemma substance_chains_agree:
  assumes "digests H" and "bytes32 ct" and "length domain = 4" and "list_all bytes32 ss"
    and "length ss \<le> m" and "m < 2 ^ 32"
  shows "noir_hash_substance_list H domain ct (ss @ replicate (m - length ss) zero_bytes) (word_of_nat (length ss)) =
    hash_substance_list H domain ct ss (word_of_nat (length ss))"
proof -
  let ?n = "length ss" and ?padded = "ss @ replicate (m - length ss) zero_bytes"
  let ?noir = "\<lambda>i c. H (map (\<lambda>j. if j < 32 then c ! j else (?padded ! i) ! (j - 32)) [0..<64])"
  have seed: "map (\<lambda>k. if k < 4 then domain ! k else ct ! (k - 4)) [0..<36] = domain @ ct"
    using copy_two [OF assms(3,2)] by simp
  have "fold ?noir [0..<k] c = fold (\<lambda>i c. H (c @ ss ! i)) [0..<k] c \<and>
      bytes32 (fold (\<lambda>i c. H (c @ ss ! i)) [0..<k] c)" if "k \<le> ?n" "bytes32 c" for k c
    using that(1)
  proof (induction k)
    case (Suc k)
    let ?c = "fold (\<lambda>i c. H (c @ ss ! i)) [0..<k] c"
    have "bytes32 (ss ! k)"
      using Suc.prems assms(4) by (simp add: list_all_length)
    then have "map (\<lambda>j. if j < 32 then ?c ! j else (ss ! k) ! (j - 32)) [0..<64] = ?c @ ss ! k"
      using copy_two [of ?c 32 "ss ! k" 32] Suc by simp
    moreover have "?padded ! k = ss ! k"
      using Suc.prems by (simp add: nth_append)
    ultimately have "map (\<lambda>j. if j < 32 then ?c ! j else (?padded ! k) ! (j - 32)) [0..<64] = ?c @ ss ! k"
      by (simp only:)
    moreover have "fold ?noir [0..<k] c = ?c"
      using Suc by simp
    ultimately have "fold ?noir [0..<Suc k] c = H (?c @ ss ! k)"
      by (simp only: upt_Suc_append fold_append fold_simps comp_apply zero_le)
    then show ?case
      using assms(1) by (simp add: digests_def)
  qed (use that in simp)
  then have "fold ?noir [0..<?n] (H (domain @ ct)) = fold (\<lambda>i c. H (c @ ss ! i)) [0..<?n] (H (domain @ ct))"
    using assms(1) by (simp add: digests_def)
  moreover have "fold (\<lambda>i c. if (word_of_nat i :: u32) < word_of_nat ?n then ?noir i c else c) [0..<m] (H (domain @ ct))
      = fold ?noir [0..<?n] (H (domain @ ct))"
    using assms(5,6) by (rule fold_counted)
  moreover have "fold (\<lambda>i c. if (word_of_nat i :: u32) < word_of_nat ?n then H (c @ ss ! i) else c) [0..<?n] (H (domain @ ct))
      = fold (\<lambda>i c. H (c @ ss ! i)) [0..<?n] (H (domain @ ct))"
    using assms(5,6) by (intro fold_counted) simp_all
  ultimately show ?thesis
    using assms(5) by (simp add: noir_hash_substance_list_def hash_substance_list_def Let_def seed)
qed

lemma found_in_padded:
  assumes "list_all bytes32 ss" and "length ss \<le> m" and "m < 2 ^ 32" and "bytes32 v"
  shows "found_in v (ss @ replicate (m - length ss) zero_bytes) (word_of_nat (length ss)) \<longleftrightarrow> v \<in> set ss"
proof -
  have "found_in v (ss @ replicate (m - length ss) zero_bytes) (word_of_nat (length ss)) \<longleftrightarrow>
      (\<exists>i < length ss. bytes_equal v (ss ! i))"
    using assms(2,3) by (auto simp: found_in_def list_ex_iff nth_append word_count)
  also have "\<dots> \<longleftrightarrow> (\<exists>i < length ss. v = ss ! i)"
    using assms(1,4) by (auto simp: bytes_equal_iff list_all_length)
  finally show ?thesis
    by (auto simp: in_set_conv_nth)
qed

section \<open>Hashes of claims\<close>

lemma hash_substance_list_digest: "digests H \<Longrightarrow> bytes32 (hash_substance_list H domain ct ss n)"
proof -
  assume "digests H"
  then have "bytes32 (fold (\<lambda>i c. if word_of_nat i < n then H (c @ ss ! i) else c) is (H d))" for "is" d
    by (induction "is" arbitrary: d rule: rev_induct) (auto simp: digests_def)
  then show ?thesis
    by (simp add: hash_substance_list_def)
qed

lemma compute_claim_hash_digest:
  "digests H \<Longrightarrow> compute_claim_hash H lib fl date canonical claim = Inr h \<Longrightarrow> bytes32 h"
  by (auto simp: compute_claim_hash_def Let_def sum_bind_Inr_iff hash_substance_list_digest
      hash_claim_value_def hash_cert_window_def hash_claim_bytes_def digests_def
      split: if_splits option.splits prod.splits)

lemma reported_Done_iff: "reported r = Done x \<longleftrightarrow> r = Inr x"
  by (simp add: reported_def split: sum.splits)

lemma or_reported_Done_iff: "or_reported e r = Done x \<longleftrightarrow> r = Some x"
  by (simp add: or_reported_def split: option.splits)

lemmas done_iff = command_bind_Done_iff failing_Done_iff reported_Done_iff or_reported_Done_iff

lemma load_hashes_nth:
  "load_hashes hash_of env db missing ids = Done hs \<Longrightarrow> length hs = length ids \<and>
     (\<forall>k < length ids. \<forall>m. \<exists>c. load_claim env db m (ids ! k) = Done c \<and> hash_of c = Inr (hs ! k))"
proof (induction ids arbitrary: hs)
  case (Cons i ids)
  then show ?case
    by (auto simp: done_iff load_claim_def nth_Cons split: nat.splits)
qed simp

section \<open>The circuit accepts exactly the true claims\<close>

text \<open>The root of the tree over the claims of a commitment as they are stored now.\<close>

definition current_root :: "'f edge_libs \<Rightarrow> EdgeEnv \<Rightarrow> 'f EdgeDb \<Rightarrow> CommitmentRow \<Rightarrow> bytes command" where
  "current_root libs env db commitment =
     command_bind (load_hashes (claim_hash_of libs) env db (\<lambda>_. ''Claim not found in commitment'')
       (cm_claim_ids commitment)) (\<lambda>hashes.
     command_bind (build_tree (el_hash libs) hashes) (\<lambda>t. Done (root t)))"

lemma build_tree_Done_iff: "build_tree H hashes = Done t \<longleftrightarrow> build H hashes = Some (Inr t)"
  by (auto simp: build_tree_def split: option.splits sum.splits)

lemma prepare_proof_Done:
  assumes "prepare_proof libs env db input = Done (commitment, pid, inputs)"
  obtains claim hashes t mproof where
    "gp_claim_index input < length (cm_claim_ids commitment)"
    "load_claim env db ''Claim not found'' (cm_claim_ids commitment ! gp_claim_index input) = Done claim"
    "load_hashes (claim_hash_of libs) env db (\<lambda>_. ''Claim not found in commitment'') (cm_claim_ids commitment) = Done hashes"
    "build (el_hash libs) hashes = Some (Inr t)" "prove t (gp_claim_index input) = Some mproof"
    "circuit_inputs libs (ee_now env) pid input claim (\<lambda>ct. common_inputs (el_codec libs) (cm_root commitment)
       (normalize_binding (el_hash libs) (el_codec libs) ''product'' (gp_product_id input))
       (normalize_binding (el_hash libs) (el_codec libs) ''requester'' (gp_requester_id input)) ct mproof) = Done inputs"
  using assms
  by (auto simp: prepare_proof_def Let_def done_iff build_tree_Done_iff split: if_splits option.splits)

lemma common_inputs_Done:
  assumes "common_inputs lib rh ph qh ct proof = Done c"
  shows "from_hex lib rh = Done (in_commitment_root c) \<and> bytes32 (in_commitment_root c) \<and>
    in_claim_type_hash c = ct \<and> in_claim_hash c = mp_leaf proof \<and> in_merkle_path c = mp_path proof \<and>
    in_merkle_indices c = mp_indices proof \<and> in_tree_depth c = word_of_nat (length (mp_path proof))"
  using assms
  by (auto simp: common_inputs_def done_iff from_hex_def split: sum.splits if_splits)

text \<open>What each branch hands on: the tree's proof, and values its circuit hashes to the leaf.\<close>

fun hashes_to :: "hash \<Rightarrow> CircuitInputs \<Rightarrow> bytes \<Rightarrow> bool" where
  "hashes_to H (RecycledContent i) leaf = (bytes32 (in_claim_type_hash i) \<and> bytes32 (rc_unit_hash i) \<and>
     leaf = H (value_data (in_claim_type_hash i) (ucast (rc_actual_value i)) (rc_unit_hash i)))"
| "hashes_to H (CarbonFootprint i) leaf = (bytes32 (in_claim_type_hash i) \<and> bytes32 (cf_unit_hash i) \<and>
     leaf = H (value_data (in_claim_type_hash i) (ucast (cf_actual_value i)) (cf_unit_hash i)))"
| "hashes_to H (CertValid i) leaf = (bytes32 (in_claim_type_hash i) \<and>
     leaf = H (window_data (in_claim_type_hash i) (cv_valid_from i) (cv_valid_until i)))"
| "hashes_to H (SubstanceNotInList i) leaf = (bytes32 (in_claim_type_hash i) \<and>
     list_all bytes32 (sn_product_substances i) \<and> list_all bytes32 (sn_forbidden_substances i) \<and>
     sn_num_substances i = word_of_nat (length (sn_product_substances i)) \<and>
     sn_num_forbidden i = word_of_nat (length (sn_forbidden_substances i)) \<and>
     sn_forbidden_list_hash i = hash_substance_list H DOMAIN_SUBSTANCE_FORBIDDEN (in_claim_type_hash i)
       (sn_forbidden_substances i) (sn_num_forbidden i) \<and>
     leaf = hash_substance_list H DOMAIN_SUBSTANCE_PRODUCT (in_claim_type_hash i)
       (sn_product_substances i) (sn_num_substances i))"

fun common_of :: "CircuitInputs \<Rightarrow> ProofInputs" where
  "common_of (RecycledContent i) = ProofInputs.truncate i"
| "common_of (CarbonFootprint i) = ProofInputs.truncate i"
| "common_of (CertValid i) = ProofInputs.truncate i"
| "common_of (SubstanceNotInList i) = ProofInputs.truncate i"

lemma substance_id_bytes32: "digests H \<Longrightarrow> bytes32 (substance_id_from_str H lib v)"
  by (auto simp: substance_id_from_str_def from_hex_def digests_def split: sum.splits)

lemma truncate_extend [simp]: "ProofInputs.truncate (ProofInputs.extend c m) = c"
  by (cases c) (simp add: ProofInputs.defs)

lemma extend_common [simp]:
  "in_commitment_root (ProofInputs.extend c m) = in_commitment_root c"
  "in_product_binding (ProofInputs.extend c m) = in_product_binding c"
  "in_requester_binding (ProofInputs.extend c m) = in_requester_binding c"
  "in_claim_type_hash (ProofInputs.extend c m) = in_claim_type_hash c"
  "in_claim_hash (ProofInputs.extend c m) = in_claim_hash c"
  "in_merkle_path (ProofInputs.extend c m) = in_merkle_path c"
  "in_merkle_indices (ProofInputs.extend c m) = in_merkle_indices c"
  "in_tree_depth (ProofInputs.extend c m) = in_tree_depth c"
  by (simp_all add: ProofInputs.extend_def)

lemma extend_recycled [simp]:
  "rc_threshold (ProofInputs.extend c (RecycledContentInputs.fields a b d)) = a"
  "rc_actual_value (ProofInputs.extend c (RecycledContentInputs.fields a b d)) = b"
  "rc_unit_hash (ProofInputs.extend c (RecycledContentInputs.fields a b d)) = d"
  by (simp_all add: ProofInputs.extend_def RecycledContentInputs.fields_def)

lemma extend_carbon [simp]:
  "cf_threshold (ProofInputs.extend c (CarbonFootprintInputs.fields a b d)) = a"
  "cf_actual_value (ProofInputs.extend c (CarbonFootprintInputs.fields a b d)) = b"
  "cf_unit_hash (ProofInputs.extend c (CarbonFootprintInputs.fields a b d)) = d"
  by (simp_all add: ProofInputs.extend_def CarbonFootprintInputs.fields_def)

lemma extend_cert [simp]:
  "cv_check_timestamp (ProofInputs.extend c (CertValidInputs.fields a b d)) = a"
  "cv_valid_from (ProofInputs.extend c (CertValidInputs.fields a b d)) = b"
  "cv_valid_until (ProofInputs.extend c (CertValidInputs.fields a b d)) = d"
  by (simp_all add: ProofInputs.extend_def CertValidInputs.fields_def)

lemma extend_substances [simp]:
  "sn_forbidden_list_hash (ProofInputs.extend c (SubstanceNotInListInputs.fields a b d e g)) = a"
  "sn_product_substances (ProofInputs.extend c (SubstanceNotInListInputs.fields a b d e g)) = b"
  "sn_num_substances (ProofInputs.extend c (SubstanceNotInListInputs.fields a b d e g)) = d"
  "sn_forbidden_substances (ProofInputs.extend c (SubstanceNotInListInputs.fields a b d e g)) = e"
  "sn_num_forbidden (ProofInputs.extend c (SubstanceNotInListInputs.fields a b d e g)) = g"
  by (simp_all add: ProofInputs.extend_def SubstanceNotInListInputs.fields_def)

text \<open>A branch hands on the common inputs of the claim's type and data that hash to the leaf.\<close>

lemma recycled_inputs_hash:
  assumes "recycled_inputs libs input claim common = Done inputs" and "claim_hash_of libs claim = Inr leaf"
    and "digests (el_hash libs)" and "\<And>ct c. common ct = Done c \<Longrightarrow> in_claim_type_hash c = ct"
  shows "hashes_to (el_hash libs) inputs leaf \<and> (\<exists>ct. common ct = Done (common_of inputs))"
proof -
  let ?ct = "hash_claim_type (el_hash libs) (cl_claim_type claim)" and ?u = "hash_unit (el_hash libs) (cl_unit claim)"
  obtain threshold v c where c: "common ?ct = Done c"
      and i: "inputs = RecycledContent (ProofInputs.extend c (RecycledContentInputs.fields threshold v ?u))"
      and "parse_u32_value (el_double libs) (cl_value claim) = Inr v" "cl_claim_type claim = ''recycled_content''"
    using assms(1) by (auto simp: recycled_inputs_def done_iff split: option.splits if_splits)
  then have "leaf = hash_claim_value (el_hash libs) ?ct (ucast v) ?u"
    using assms(2) by (simp add: claim_hash_of_def compute_claim_hash_def Let_def)
  moreover have "bytes32 ?ct" "bytes32 ?u"
    using assms(3) by (simp_all add: hash_claim_type_def hash_unit_def digests_def)
  ultimately show ?thesis
    using c assms(4) [OF c] by (auto simp: i hash_claim_value_def value_data_def)
qed

lemma carbon_inputs_hash:
  assumes "carbon_inputs libs input claim common = Done inputs" and "claim_hash_of libs claim = Inr leaf"
    and "digests (el_hash libs)" and "\<And>ct c. common ct = Done c \<Longrightarrow> in_claim_type_hash c = ct"
  shows "hashes_to (el_hash libs) inputs leaf \<and> (\<exists>ct. common ct = Done (common_of inputs))"
proof -
  let ?ct = "hash_claim_type (el_hash libs) (cl_claim_type claim)" and ?u = "hash_unit (el_hash libs) (cl_unit claim)"
  obtain threshold v c where c: "common ?ct = Done c"
      and i: "inputs = CarbonFootprint (ProofInputs.extend c (CarbonFootprintInputs.fields threshold v ?u))"
      and "parse_scaled_u32_value (el_double libs) (cl_value claim) CARBON_FOOTPRINT_SCALE = Inr v"
        "cl_claim_type claim = ''carbon_footprint''"
    using assms(1) by (auto simp: carbon_inputs_def done_iff split: option.splits if_splits)
  then have "leaf = hash_claim_value (el_hash libs) ?ct (ucast v) ?u"
    using assms(2) by (simp add: claim_hash_of_def compute_claim_hash_def Let_def)
  moreover have "bytes32 ?ct" "bytes32 ?u"
    using assms(3) by (simp_all add: hash_claim_type_def hash_unit_def digests_def)
  ultimately show ?thesis
    using c assms(4) [OF c] by (auto simp: i hash_claim_value_def value_data_def)
qed

lemma cert_inputs_hash:
  assumes "cert_inputs libs now input claim common = Done inputs" and "claim_hash_of libs claim = Inr leaf"
    and "digests (el_hash libs)" and "\<And>ct c. common ct = Done c \<Longrightarrow> in_claim_type_hash c = ct"
  shows "hashes_to (el_hash libs) inputs leaf \<and> (\<exists>ct. common ct = Done (common_of inputs))"
proof -
  let ?ct = "hash_claim_type (el_hash libs) (cl_claim_type claim)"
  obtain f u c where c: "common ?ct = Done c"
      and i: "inputs = CertValid (ProofInputs.extend c
        (CertValidInputs.fields (check_time (el_rfc3339 libs) now input) f u))"
      and "extract_cert_window (el_rfc3339 libs) (cl_value claim) = Inr (f, u)" "cl_claim_type claim = ''certification''"
    using assms(1) by (auto simp: cert_inputs_def done_iff split: if_splits)
  then have "leaf = hash_cert_window (el_hash libs) ?ct f u"
    using assms(2) by (simp add: claim_hash_of_def compute_claim_hash_def Let_def)
  moreover have "bytes32 ?ct"
    using assms(3) by (simp add: hash_claim_type_def digests_def)
  ultimately show ?thesis
    using c assms(4) [OF c] by (auto simp: i hash_cert_window_def window_data_def)
qed

lemma substance_inputs_hash:
  assumes "substance_inputs libs input claim common = Done inputs" and "claim_hash_of libs claim = Inr leaf"
    and "digests (el_hash libs)" and "\<And>ct c. common ct = Done c \<Longrightarrow> in_claim_type_hash c = ct"
  shows "hashes_to (el_hash libs) inputs leaf \<and> (\<exists>ct. common ct = Done (common_of inputs))"
proof -
  let ?H = "el_hash libs"
  let ?ct = "hash_claim_type ?H (cl_claim_type claim)"
  obtain substances names c where c: "common ?ct = Done c"
      and i: "inputs = SubstanceNotInList (ProofInputs.extend c (SubstanceNotInListInputs.fields
        (hash_substance_list ?H DOMAIN_SUBSTANCE_FORBIDDEN ?ct
          (map (substance_id_from_str ?H (el_codec libs)) names) (word_of_nat (length names)))
        substances (word_of_nat (length substances))
        (map (substance_id_from_str ?H (el_codec libs)) names) (word_of_nat (length names))))"
      and ss: "claim_substances ?H (el_codec libs) (cl_value claim) = Inr substances"
      and "cl_claim_type claim = ''substance_content''"
    using assms(1) by (auto simp: substance_inputs_def done_iff Let_def split: if_splits)
  then have "leaf = hash_substance_list ?H DOMAIN_SUBSTANCE_PRODUCT ?ct substances (word_of_nat (length substances))"
    using assms(2) by (simp add: claim_hash_of_def compute_claim_hash_def Let_def)
  moreover have "list_all bytes32 substances"
    using ss substance_id_bytes32 [OF assms(3)]
    by (auto simp: claim_substances_def sum_bind_Inr_iff list_all_iff split: option.splits)
  moreover have "list_all bytes32 (map (substance_id_from_str ?H (el_codec libs)) names)"
    using substance_id_bytes32 [OF assms(3)] by (simp add: list_all_iff)
  moreover have "bytes32 ?ct"
    using assms(3) by (simp add: hash_claim_type_def digests_def)
  ultimately show ?thesis
    using c assms(4) [OF c] by (auto simp: i)
qed

lemma circuit_inputs_hash:
  assumes "digests (el_hash libs)" and "claim_hash_of libs claim = Inr leaf"
    and "circuit_inputs libs now pid input claim common = Done inputs"
    and "\<And>ct c. common ct = Done c \<Longrightarrow> in_claim_type_hash c = ct"
  shows "hashes_to (el_hash libs) inputs leaf \<and> (\<exists>ct. common ct = Done (common_of inputs))"
  using assms(3) recycled_inputs_hash [OF _ assms(2,1,4)] carbon_inputs_hash [OF _ assms(2,1,4)]
    cert_inputs_hash [OF _ assms(2,1,4)] substance_inputs_hash [OF _ assms(2,1,4)]
  unfolding circuit_inputs_def by (auto split: if_splits)

lemma proof_of_truncated [simp]: "proof_of_leaf H hashes i (ProofInputs.truncate c) = proof_of_leaf H hashes i c"
  "in_commitment_root (ProofInputs.truncate c) = in_commitment_root c"
  by (simp_all add: proof_of_leaf_def ProofInputs.truncate_def)

lemma substance_circuit_iff:
  assumes "digests H" and "i < length hashes" and "\<forall>h \<in> set hashes. bytes32 h"
    and "proof_of_leaf H hashes i s" and "hashes_to H (SubstanceNotInList s) (hashes ! i)"
    and "build_prover_toml (SubstanceNotInList s) = Inr toml"
  shows "circuit_accepts H toml \<longleftrightarrow> in_commitment_root s = hd (last (levels H hashes)) \<and>
    set (sn_product_substances s) \<inter> set (sn_forbidden_substances s) = {}"
proof -
  let ?ps = "sn_product_substances s" and ?fs = "sn_forbidden_substances s" and ?ct = "in_claim_type_hash s"
  let ?pad = "\<lambda>m ss. ss @ replicate (m - length ss) zero_bytes"
  obtain s' where pad: "pad_proof s = Inr s'" and n: "length ?ps \<le> 32" "length ?fs \<le> 64"
    and toml: "toml = SubstanceNotInList (s'\<lparr>sn_product_substances := ?pad 32 ?ps,
      sn_forbidden_substances := ?pad 64 ?fs\<rparr>)"
    using assms(6) by (auto simp: sum_bind_Inr_iff pad_substances_def pad_proof_Inr split: if_splits)
  have h: "bytes32 ?ct" "list_all bytes32 ?ps" "list_all bytes32 ?fs"
      "sn_num_substances s = word_of_nat (length ?ps)" "sn_num_forbidden s = word_of_nat (length ?fs)"
      "sn_forbidden_list_hash s = hash_substance_list H DOMAIN_SUBSTANCE_FORBIDDEN ?ct ?fs (word_of_nat (length ?fs))"
      "hashes ! i = hash_substance_list H DOMAIN_SUBSTANCE_PRODUCT ?ct ?ps (word_of_nat (length ?ps))"
    using assms(5) by auto
  have domains: "DOMAIN_SUBSTANCE_PRODUCT = [0x53, 0x55, 0x42, 0x50]" "DOMAIN_SUBSTANCE_FORBIDDEN = [0x53, 0x55, 0x42, 0x46]"
    by (simp_all add: DOMAIN_SUBSTANCE_PRODUCT_def DOMAIN_SUBSTANCE_FORBIDDEN_def bytes_of_def of_char_def)
  have chain: "noir_hash_substance_list H [0x53, 0x55, 0x42, 0x50] ?ct (?pad 32 ?ps) (word_of_nat (length ?ps)) = hashes ! i"
      "noir_hash_substance_list H [0x53, 0x55, 0x42, 0x46] ?ct (?pad 64 ?fs) (word_of_nat (length ?fs)) = sn_forbidden_list_hash s"
    unfolding h(6,7) domains using n h(1-3) by (intro substance_chains_agree [OF assms(1)]; simp)+
  have "leaf_opened H (prover_context s') (prover_opening s') (hashes ! i) \<longleftrightarrow>
      in_commitment_root s = hd (last (levels H hashes))"
    using padded_opening [OF assms(1-4) pad, of "hashes ! i"] assms(2,3) by simp
  moreover have "list_all (\<lambda>k. (word_of_nat k :: u32) < word_of_nat (length ?ps) \<longrightarrow>
      \<not> found_in (?pad 32 ?ps ! k) (?pad 64 ?fs) (word_of_nat (length ?fs))) [0..<32] \<longleftrightarrow>
      set ?ps \<inter> set ?fs = {}"
  proof -
    have "found_in (?ps ! k) (?pad 64 ?fs) (word_of_nat (length ?fs)) \<longleftrightarrow> ?ps ! k \<in> set ?fs" if "k < length ?ps" for k
      using h(2) that n(2) by (intro found_in_padded [OF h(3)]) (auto simp: list_all_length)
    then have "list_all (\<lambda>k. (word_of_nat k :: u32) < word_of_nat (length ?ps) \<longrightarrow>
        \<not> found_in (?pad 32 ?ps ! k) (?pad 64 ?fs) (word_of_nat (length ?fs))) [0..<32] \<longleftrightarrow>
        (\<forall>k < length ?ps. ?ps ! k \<notin> set ?fs)"
      using n(1) by (auto simp: list_all_iff word_count nth_append)
    also have "\<dots> \<longleftrightarrow> set ?ps \<inter> set ?fs = {}"
      unfolding disjoint_iff Ball_def [symmetric] all_set_conv_all_nth ..
    finally show ?thesis .
  qed
  moreover have "assert_bytes_equal (sn_forbidden_list_hash s) (sn_forbidden_list_hash s)"
    by (simp add: assert_bytes_equal_def list_all_iff)
  ultimately show ?thesis
    using pad n chain h(4,5)
    by (simp add: toml substance_not_in_list_v1_def pad_proof_Inr prover_context_def prover_opening_def)
qed

lemma circuit_accepts_iff:
  assumes "digests H" and "i < length hashes" and "\<forall>h \<in> set hashes. bytes32 h"
    and "proof_of_leaf H hashes i (common_of inputs)" and "hashes_to H inputs (hashes ! i)"
    and "build_prover_toml inputs = Inr toml"
  shows "circuit_accepts H toml \<longleftrightarrow>
    in_commitment_root (common_of inputs) = hd (last (levels H hashes)) \<and> claim_satisfies inputs"
proof -
  have leaf: "bytes32 (hashes ! i)"
    using assms(2,3) by simp
  show ?thesis
  proof (cases inputs)
    case (RecycledContent r)
    then obtain r' where "pad_proof r = Inr r'" "toml = RecycledContent r'"
      using assms(6) by (auto simp: sum_bind_Inr_iff)
    with RecycledContent assms(4,5) padded_opening [OF assms(1-3) _ _ leaf, of r r'] show ?thesis
      by (auto simp: recycled_content_gte_v1_def noir_hash_claim_value_eq pad_proof_Inr)
  next
    case (CarbonFootprint r)
    then obtain r' where "pad_proof r = Inr r'" "toml = CarbonFootprint r'"
      using assms(6) by (auto simp: sum_bind_Inr_iff)
    with CarbonFootprint assms(4,5) padded_opening [OF assms(1-3) _ _ leaf, of r r'] show ?thesis
      by (auto simp: carbon_footprint_lte_v1_def noir_hash_claim_value_eq pad_proof_Inr)
  next
    case (CertValid r)
    then obtain r' where "pad_proof r = Inr r'" "toml = CertValid r'"
      using assms(6) by (auto simp: sum_bind_Inr_iff)
    with CertValid assms(4,5) padded_opening [OF assms(1-3) _ _ leaf, of r r'] show ?thesis
      by (auto simp: cert_valid_v1_def noir_hash_cert_window_eq pad_proof_Inr)
  next
    case (SubstanceNotInList s)
    then show ?thesis
      using substance_circuit_iff [OF assms(1-3), of s toml] assms(4-6) by simp
  qed
qed

text \<open>C16: When the agent has prepared inputs that fit the circuit's arrays, the circuit accepts them
  exactly when the commitment's root is the root over its claims as they are stored and the claim
  satisfies the predicate: an honest supplier can prove every true statement about an unchanged
  commitment, and no other.\<close>

theorem prepared_inputs_accepted:
  assumes "prepare_proof libs env db input = Done (commitment, pid, inputs)"
    and "build_prover_toml inputs = Inr toml" and "digests (el_hash libs)"
  shows "circuit_accepts (el_hash libs) toml \<longleftrightarrow>
    from_hex (el_codec libs) (cm_root commitment) = current_root libs env db commitment \<and> claim_satisfies inputs"
proof -
  obtain claim hashes t mproof where i: "gp_claim_index input < length (cm_claim_ids commitment)"
    and claim: "load_claim env db ''Claim not found'' (cm_claim_ids commitment ! gp_claim_index input) = Done claim"
    and hashes: "load_hashes (claim_hash_of libs) env db (\<lambda>_. ''Claim not found in commitment'') (cm_claim_ids commitment) = Done hashes"
    and t: "build (el_hash libs) hashes = Some (Inr t)" and pv: "prove t (gp_claim_index input) = Some mproof"
    and inputs: "circuit_inputs libs (ee_now env) pid input claim (\<lambda>ct. common_inputs (el_codec libs) (cm_root commitment)
       (normalize_binding (el_hash libs) (el_codec libs) ''product'' (gp_product_id input))
       (normalize_binding (el_hash libs) (el_codec libs) ''requester'' (gp_requester_id input)) ct mproof) = Done inputs"
    by (rule prepare_proof_Done [OF assms(1)])
  let ?H = "el_hash libs" and ?i = "gp_claim_index input"
  note nth = load_hashes_nth [OF hashes]
  have "\<exists>c. load_claim env db ''Claim not found'' (cm_claim_ids commitment ! ?i) = Done c \<and>
      claim_hash_of libs c = Inr (hashes ! ?i)"
    using nth i by blast
  then have h: "length hashes = length (cm_claim_ids commitment)" "claim_hash_of libs claim = Inr (hashes ! ?i)"
    using nth claim by auto
  have "bytes32 (hashes ! k)" if "k < length hashes" for k
    using nth that compute_claim_hash_digest [OF assms(3)] unfolding claim_hash_of_def by metis
  then have h32: "\<forall>h \<in> set hashes. bytes32 h"
    by (auto simp: in_set_conv_nth)
  have c: "hashes_to ?H inputs (hashes ! ?i)"
      "\<exists>ct. common_inputs (el_codec libs) (cm_root commitment)
       (normalize_binding ?H (el_codec libs) ''product'' (gp_product_id input))
       (normalize_binding ?H (el_codec libs) ''requester'' (gp_requester_id input)) ct mproof = Done (common_of inputs)"
    using circuit_inputs_hash [OF assms(3) h(2) inputs] common_inputs_Done by blast+
  then have p: "proof_of_leaf ?H hashes ?i (common_of inputs)"
      and r: "from_hex (el_codec libs) (cm_root commitment) = Done (in_commitment_root (common_of inputs))"
    using pv prove_Some [OF t] i h(1) by (auto simp: proof_of_leaf_def Let_def dest!: common_inputs_Done)
  have "current_root libs env db commitment = Done (hd (last (levels ?H hashes)))"
    using hashes t build_Inr [OF t] by (simp add: current_root_def build_tree_def root_def)
  moreover have "circuit_accepts ?H toml \<longleftrightarrow>
      in_commitment_root (common_of inputs) = hd (last (levels ?H hashes)) \<and> claim_satisfies inputs"
    using i h by (intro circuit_accepts_iff [OF assms(3) _ h32 p c(1) assms(2)]) simp
  ultimately show ?thesis
    using r by simp
qed

text \<open>A commitment to one claim of 25 percent recycled content, with hex as theory Schemas has it.\<close>

lemma hex_val_digit: "d < 16 \<Longrightarrow> hex_val (hex_digit d) = Some d"
  by (auto simp: hex_val_def hex_digit_def Let_def)

lemma hex_decode_encode: "\<forall>b \<in> set bs. b < 256 \<Longrightarrow> hex_decode (hex_encode bs) = bs"
  by (induction bs) (auto simp: hex_encode_def hex_val_digit)

definition demo_codec :: codec where
  "demo_codec = \<lparr>lib_hex_encode = \<lambda>bs. hex_encode (map unat bs),
     lib_hex_decode = \<lambda>s. if list_all (\<lambda>c. hex_val c \<noteq> None) s \<and> even (length s)
       then Inr (map word_of_nat (hex_decode s)) else Inl ''Invalid character'',
     b64_encode = \<lambda>bs. hex_encode (map unat bs), b64_decode = \<lambda>s. Inr (map word_of_nat (hex_decode s)),
     aes_encrypt = \<lambda>key nonce text. Inr text, aes_decrypt = \<lambda>key nonce sealed. Inr sealed, trim_text = \<lambda>s. s\<rparr>"

lemma unat_byte: "unat (b :: 8 word) < 256" "unat b < 16 * 16"
  using unsigned_less [of b, where ?'a = nat] by simp_all

lemma demo_from_hex: "bytes32 bs \<Longrightarrow> from_hex demo_codec (lib_hex_encode demo_codec bs) = Done bs"
proof -
  assume "bytes32 bs"
  moreover have "hex_decode (hex_encode (map unat bs)) = map unat bs"
    by (rule hex_decode_encode) (auto simp: unat_byte)
  moreover have "list_all (\<lambda>c. hex_val c \<noteq> None) (hex_encode (map unat bs))"
    by (induction bs) (auto simp: hex_encode_def hex_val_digit unat_byte less_mult_imp_div_less)
  moreover have "even (length (hex_encode ns))" for ns
    by (induction ns) (auto simp: hex_encode_def)
  ultimately show ?thesis
    by (simp add: from_hex_def demo_codec_def comp_def)
qed

definition demo_libs :: "nat edge_libs" where
  "demo_libs = \<lparr>el_hash = demo_hash, el_codec = demo_codec,
     el_double = \<lparr>fl_of_u64 = unat, fl_of_int = nat, fl_to_u64 = word_of_nat, fl_is_whole = \<lambda>_. True,
       fl_times = (*), fl_finite = \<lambda>_. True, fl_not_negative = \<lambda>_. True, fl_round = \<lambda>n. n,
       fl_within_1e6 = (=)\<rparr>,
     el_rfc3339 = \<lambda>_. None, el_canonical = \<lambda>_. Inl ''unused'',
     el_prover = \<lparr>nargo_config = Inr (), nargo_compile = \<lambda>_. Inr (), nargo_prove = \<lambda>_. Inr [1]\<rparr>\<rparr>"

definition demo_edge_env :: EdgeEnv where
  "demo_edge_env = \<lparr>ee_now = 1000, ee_uuid = \<lambda>_. ''u'', ee_random = \<lambda>_. replicate 16 0,
     ee_vars = \<lambda>_. None, ee_sqlite = None\<rparr>"

definition demo_claim :: "nat ClaimRow" where
  "demo_claim = \<lparr>cl_id = ''c1'', cl_claim_type = ''recycled_content'', cl_value = VUInt 25, cl_unit = ''percent'',
     cl_product_id = ''p'', cl_evidence_ids = [], cl_confidence = None, cl_verified = True, cl_metadata = VObject [],
     cl_created_at = 1, cl_updated_at = 1\<rparr>"

definition demo_leaf_hash :: bytes where
  "demo_leaf_hash = hash_claim_value demo_hash (hash_claim_type demo_hash ''recycled_content'') 25
     (hash_unit demo_hash ''percent'')"

definition demo_commitment :: CommitmentRow where
  "demo_commitment = \<lparr>cm_id = ''m1'', cm_root = lib_hex_encode demo_codec demo_leaf_hash, cm_claim_count = 1,
     cm_claim_ids = [''c1''], cm_public_key = ''k'', cm_signature = ''s'', cm_valid_from = None,
     cm_valid_until = None, cm_revoked = False, cm_revoked_at = None, cm_revoked_reason = None, cm_created_at = 2\<rparr>"

definition demo_edge_db :: "nat EdgeDb" where
  "demo_edge_db = \<lparr>db_evidence = [], db_claims = [demo_claim], db_commitments = [demo_commitment],
     db_keypairs = [], db_settings = []\<rparr>"

definition demo_proof_input :: "nat GenerateProofInput" where
  "demo_proof_input = \<lparr>gp_commitment_id = ''m1'', gp_predicate_id = ''RECYCLED_CONTENT_GTE_V1'', gp_claim_index = 0,
     gp_threshold = Some 20, gp_timestamp = None, gp_extra = None, gp_product_id = ''p'', gp_requester_id = ''r''\<rparr>"

lemma demo_claim_hash: "claim_hash_of demo_libs demo_claim = Inr demo_leaf_hash"
  by (simp add: claim_hash_of_def demo_libs_def compute_claim_hash_def demo_claim_def parse_u32_value_def
      u32_try_from_def demo_leaf_hash_def Let_def)

lemma demo_load: "load_claim demo_edge_env demo_edge_db m ''c1'' = Done demo_claim"
  by (simp add: load_claim_def store_get_claim_def sqlite_def demo_edge_env_def demo_edge_db_def row_by_def
      demo_claim_def reported_def or_reported_def)

lemma demo_leaf_hash_32: "bytes32 demo_leaf_hash"
  by (simp add: demo_leaf_hash_def hash_claim_value_def)

lemma demo_binding: "bytes32 (demo_hash b) \<Longrightarrow>
    from_hex demo_codec (normalize_binding demo_hash demo_codec prefix [c]) =
      Done (demo_hash (bytes_of (prefix @ CHR '':'' # [c])))"
  by (simp add: normalize_binding_def is_hex_32_def hash_binding_def demo_from_hex)

lemma demo_hashes: "load_hashes (claim_hash_of demo_libs) demo_edge_env demo_edge_db m [''c1''] = Done [demo_leaf_hash]"
  by (simp add: demo_load demo_claim_hash)

theorem prepared_inputs_accepted_witness:
  "\<exists>inputs toml. prepare_proof demo_libs demo_edge_env demo_edge_db demo_proof_input =
      Done (demo_commitment, \<lparr>pid_name = ''RECYCLED_CONTENT_GTE'', pid_version = ''V1''\<rparr>, inputs) \<and>
    build_prover_toml inputs = Inr toml \<and> circuit_accepts demo_hash toml"
proof -
  let ?pid = "\<lparr>pid_name = ''RECYCLED_CONTENT_GTE'', pid_version = ''V1''\<rparr>"
  let ?t = "\<lparr>mt_nodes = [[demo_leaf_hash]], mt_leaves = [demo_leaf_hash]\<rparr>"
  let ?proof = "\<lparr>mp_leaf = demo_leaf_hash, mp_path = [], mp_indices = []\<rparr>"
  have libs: "el_hash demo_libs = demo_hash" "el_codec demo_libs = demo_codec"
    by (simp_all add: demo_libs_def)
  have commitment: "opened_commitment demo_edge_env demo_edge_db ''m1'' = Done demo_commitment"
    by (simp add: opened_commitment_def store_get_commitment_def sqlite_def demo_edge_env_def demo_edge_db_def
        row_by_def demo_commitment_def reported_def or_reported_def)
  have t: "build demo_hash [demo_leaf_hash] = Some (Inr ?t)"
    by (simp add: build_cases levels_small)
  have p: "prove ?t 0 = Some ?proof"
    by (simp add: prove_def)
  have pid: "parse_predicate_id ''RECYCLED_CONTENT_GTE_V1'' = Inr ?pid"
    by (simp add: parse_predicate_id_def split_once_def)
  obtain c where c: "common_inputs demo_codec (cm_root demo_commitment)
      (normalize_binding demo_hash demo_codec ''product'' ''p'')
      (normalize_binding demo_hash demo_codec ''requester'' ''r'')
      (hash_claim_type demo_hash ''recycled_content'') ?proof = Done c"
    by (simp add: common_inputs_def demo_binding demo_from_hex demo_leaf_hash_32 demo_commitment_def)
  let ?inputs = "RecycledContent (ProofInputs.extend c (RecycledContentInputs.fields 20 25 (hash_unit demo_hash ''percent'')))"
  have prepared: "prepare_proof demo_libs demo_edge_env demo_edge_db demo_proof_input = Done (demo_commitment, ?pid, ?inputs)"
    using c commitment t p pid demo_hashes demo_load
    by (simp add: prepare_proof_def libs demo_proof_input_def demo_commitment_def build_tree_def circuit_inputs_def
        recycled_inputs_def parse_u32_value_def u32_try_from_def demo_claim_def demo_libs_def)
  obtain toml where toml: "build_prover_toml ?inputs = Inr toml"
    using common_inputs_Done [OF c] by (simp add: sum_bind_Inr_iff pad_proof_Inr)
  have "current_root demo_libs demo_edge_env demo_edge_db demo_commitment = Done demo_leaf_hash"
    using t by (simp add: demo_load demo_claim_hash current_root_def libs demo_commitment_def build_tree_def root_def)
  moreover have "from_hex demo_codec (cm_root demo_commitment) = Done demo_leaf_hash"
    by (simp add: demo_commitment_def demo_from_hex demo_leaf_hash_32)
  ultimately have "circuit_accepts demo_hash toml"
    using prepared_inputs_accepted [OF prepared toml] by (simp add: libs demo_hash_digests)
  with prepared toml show ?thesis
    by blast
qed


text \<open>
  A commitment can be to more claims than a circuit's arrays have levels for: of more than 256
  claims none can be proven.
\<close>

lemma more_than_256_unprovable:
  assumes "prepare_proof libs env db input = Done (commitment, pid, inputs)" and "digests (el_hash libs)"
    and "length (cm_claim_ids commitment) > 256"
  shows "\<exists>e. build_prover_toml inputs = Inl e"
proof -
  obtain claim hashes t mproof where i: "gp_claim_index input < length (cm_claim_ids commitment)"
    and claim: "load_claim env db ''Claim not found'' (cm_claim_ids commitment ! gp_claim_index input) = Done claim"
    and hashes: "load_hashes (claim_hash_of libs) env db (\<lambda>_. ''Claim not found in commitment'') (cm_claim_ids commitment) = Done hashes"
    and t: "build (el_hash libs) hashes = Some (Inr t)" and pv: "prove t (gp_claim_index input) = Some mproof"
    and inputs: "circuit_inputs libs (ee_now env) pid input claim (\<lambda>ct. common_inputs (el_codec libs) (cm_root commitment)
       (normalize_binding (el_hash libs) (el_codec libs) ''product'' (gp_product_id input))
       (normalize_binding (el_hash libs) (el_codec libs) ''requester'' (gp_requester_id input)) ct mproof) = Done inputs"
    by (rule prepare_proof_Done [OF assms(1)])
  have n: "length hashes > 2 ^ 8"
    using load_hashes_nth [OF hashes] assms(3) by simp
  have "\<exists>c. load_claim env db ''Claim not found'' (cm_claim_ids commitment ! gp_claim_index input) = Done c \<and>
      claim_hash_of libs c = Inr (hashes ! gp_claim_index input)"
    using load_hashes_nth [OF hashes] i by blast
  then have "claim_hash_of libs claim = Inr (hashes ! gp_claim_index input)"
    using claim by auto
  then obtain ct where "common_inputs (el_codec libs) (cm_root commitment)
      (normalize_binding (el_hash libs) (el_codec libs) ''product'' (gp_product_id input))
      (normalize_binding (el_hash libs) (el_codec libs) ''requester'' (gp_requester_id input)) ct mproof =
      Done (common_of inputs)"
    using circuit_inputs_hash [OF assms(2) _ inputs] common_inputs_Done by blast
  moreover have "ceillog2 (length hashes) > 8"
    using n ceillog2_le_iff [of "length hashes" 8] by (cases "hashes = []") (auto simp: not_le [symmetric])
  then have "length (mp_path mproof) > 8"
    using pv prove_Some [OF t, of "gp_claim_index input"] i load_hashes_nth [OF hashes]
      length_levels [of hashes "el_hash libs"] n by (auto simp: length_position_steps)
  ultimately have "length (in_merkle_path (common_of inputs)) > 8"
    by (auto dest!: common_inputs_Done)
  then show ?thesis
    by (cases inputs) (auto simp: pad_proof_def pad_merkle_path_def ProofInputs.truncate_def)
qed

end
