(* ===== verification/Signing.thy ===== *)
theory Signing
  imports EdgeStore
begin

text \<open>
  The keys and signatures of the edge agent (\<open>crates/crypto/src/lib.rs\<close>): a wrapper of Ed25519 that
  passes keys and signatures as hex. Ed25519 itself is the argument \<open>ed\<close>, the hex codec \<open>lib\<close>;
  \<open>signature_scheme\<close> states what their documentation promises. A panic is \<open>None\<close>.

  The lemmas show that what a keypair signs verifies under its public key.
\<close>

record ed25519 =
  ed_public :: "bytes \<Rightarrow> bytes"
  ed_sign :: "bytes \<Rightarrow> bytes \<Rightarrow> bytes"
  ed_verify :: "bytes \<Rightarrow> bytes \<Rightarrow> bytes \<Rightarrow> string + bool"

datatype CryptoError =
  InvalidKeyLength nat nat
| InvalidSignature
| KeyParsing string
| HexDecode string

fun crypto_message :: "CryptoError \<Rightarrow> string" where
  "crypto_message (InvalidKeyLength n m) =
     ''Invalid key length: expected '' @ show_nat n @ '', got '' @ show_nat m"
| "crypto_message InvalidSignature = ''Invalid signature''"
| "crypto_message (KeyParsing e) = ''Key parsing error: '' @ e"
| "crypto_message (HexDecode e) = ''Hex decoding error: '' @ e"

definition SECRET_KEY_LENGTH :: nat where
  "SECRET_KEY_LENGTH = 32"

text \<open>A keypair is its 32 secret bytes.\<close>

definition KeyPair_from_bytes :: "bytes \<Rightarrow> CryptoError + bytes" where
  "KeyPair_from_bytes secret_bytes =
     (if length secret_bytes \<noteq> SECRET_KEY_LENGTH
      then Inl (InvalidKeyLength SECRET_KEY_LENGTH (length secret_bytes)) else Inr secret_bytes)"

definition hex_bytes :: "codec \<Rightarrow> string \<Rightarrow> CryptoError + bytes" where
  "hex_bytes lib s = map_sum HexDecode (\<lambda>b. b) (lib_hex_decode lib s)"

definition KeyPair_from_hex :: "codec \<Rightarrow> string \<Rightarrow> CryptoError + bytes" where
  "KeyPair_from_hex lib s = sum_bind (hex_bytes lib s) KeyPair_from_bytes"

definition public_key :: "codec \<Rightarrow> ed25519 \<Rightarrow> bytes \<Rightarrow> string" where
  "public_key lib ed kp = lib_hex_encode lib (ed_public ed kp)"

definition sign_hex :: "codec \<Rightarrow> ed25519 \<Rightarrow> bytes \<Rightarrow> bytes \<Rightarrow> string" where
  "sign_hex lib ed kp message = lib_hex_encode lib (ed_sign ed kp message)"

record SerializableKeyPair =
  sk_secret_key :: string
  sk_public_key :: string

definition to_serializable :: "codec \<Rightarrow> ed25519 \<Rightarrow> bytes \<Rightarrow> SerializableKeyPair" where
  "to_serializable lib ed kp = \<lparr>sk_secret_key = lib_hex_encode lib kp, sk_public_key = public_key lib ed kp\<rparr>"

definition from_serializable :: "codec \<Rightarrow> SerializableKeyPair \<Rightarrow> CryptoError + bytes" where
  "from_serializable lib s = KeyPair_from_hex lib (sk_secret_key s)"

definition PublicKey_from_hex :: "codec \<Rightarrow> string \<Rightarrow> CryptoError + string" where
  "PublicKey_from_hex lib s =
     sum_bind (hex_bytes lib s) (\<lambda>bs.
       if length bs \<noteq> 32 then Inl (InvalidKeyLength 32 (length bs)) else Inr s)"

text \<open>Copying a key of another length than 32 bytes panics.\<close>

definition PublicKey_verify :: "codec \<Rightarrow> ed25519 \<Rightarrow> string \<Rightarrow> bytes \<Rightarrow> bytes \<Rightarrow> (CryptoError + bool) option" where
  "PublicKey_verify lib ed key message signature =
     (case hex_bytes lib key of
        Inl e \<Rightarrow> Some (Inl e)
      | Inr key_bytes \<Rightarrow>
          if length key_bytes \<noteq> 32 then None
          else Some (map_sum KeyParsing (\<lambda>b. b) (ed_verify ed key_bytes message signature)))"

definition verify_hex :: "codec \<Rightarrow> ed25519 \<Rightarrow> string \<Rightarrow> bytes \<Rightarrow> string \<Rightarrow> (CryptoError + bool) option" where
  "verify_hex lib ed key message signature_hex =
     (case hex_bytes lib signature_hex of
        Inl e \<Rightarrow> Some (Inl e)
      | Inr sig_bytes \<Rightarrow>
          if length sig_bytes \<noteq> 64 then Some (Inl InvalidSignature)
          else PublicKey_verify lib ed key message sig_bytes)"

section \<open>Signing and verifying\<close>

definition hex_ok :: "codec \<Rightarrow> bool" where
  "hex_ok lib = (\<forall>bs. lib_hex_decode lib (lib_hex_encode lib bs) = Inr bs)"

definition signature_scheme :: "ed25519 \<Rightarrow> bool" where
  "signature_scheme ed = (\<forall>kp message. length (ed_public ed kp) = 32 \<and> length (ed_sign ed kp message) = 64 \<and>
     ed_verify ed (ed_public ed kp) message (ed_sign ed kp message) = Inr True)"

lemma signed_verifies:
  "hex_ok lib \<Longrightarrow> signature_scheme ed \<Longrightarrow>
     verify_hex lib ed (public_key lib ed kp) message (sign_hex lib ed kp message) = Some (Inr True)"
  by (simp add: verify_hex_def PublicKey_verify_def hex_bytes_def hex_ok_def signature_scheme_def
      public_key_def sign_hex_def)

lemma serialized_keypair_roundtrip:
  "hex_ok lib \<Longrightarrow> length kp = 32 \<Longrightarrow> from_serializable lib (to_serializable lib ed kp) = Inr kp"
  by (simp add: from_serializable_def to_serializable_def KeyPair_from_hex_def hex_bytes_def hex_ok_def
      KeyPair_from_bytes_def SECRET_KEY_LENGTH_def)

lemma public_key_roundtrip:
  "hex_ok lib \<Longrightarrow> signature_scheme ed \<Longrightarrow>
     PublicKey_from_hex lib (public_key lib ed kp) = Inr (public_key lib ed kp)"
  by (simp add: PublicKey_from_hex_def public_key_def hex_bytes_def hex_ok_def signature_scheme_def)

end
