(* ===== verification/EdgeCommands.thy ===== *)
theory EdgeCommands
  imports EdgeProver Signing
begin

text \<open>
  The commands of the edge agent (\<open>commands/mod.rs\<close>, registered by \<open>main.rs\<close>) and the extraction of
  claims by a language model (\<open>ollama/mod.rs\<close>). A command holds the lock of the database while it
  uses it, so that part is one step from a database to the command's result and a database; a panic
  in it poisons the lock. Reading files, texts of PDF files, Ollama's server, parsing JSON, Ed25519
  and calendar arithmetic are arguments.

  The lemmas show what holds of the agent's state after any sequence of commands: keys are unique,
  at most one keypair is active, every commitment is signed over the root of the claims it names
  and opens against them, and commitments never change but by being revoked.
\<close>

section \<open>Commands and the lock\<close>

definition then_do :: "'a command \<times> 's \<Rightarrow> ('a \<Rightarrow> 's \<Rightarrow> 'b command \<times> 's) \<Rightarrow> 'b command \<times> 's" where
  "then_do rs f =
     (case rs of
        (Done x, s) \<Rightarrow> f x s
      | (Reported e, s) \<Rightarrow> (Reported e, s) | (Failed e, s) \<Rightarrow> (Failed e, s) | (Panicked, s) \<Rightarrow> (Panicked, s))"

fun panicked :: "'a command \<Rightarrow> bool" where
  "panicked Panicked = True"
| "panicked c = False"

record 'f AppState =
  as_db :: "'f EdgeDb"
  as_poisoned :: bool

definition POISONED :: string where
  "POISONED = ''poisoned lock: another task failed inside''"

definition under_lock :: "('f EdgeDb \<Rightarrow> 'a command \<times> 'f EdgeDb) \<Rightarrow> 'f AppState \<Rightarrow> 'a command \<times> 'f AppState" where
  "under_lock f st =
     (if as_poisoned st then (Failed POISONED, st)
      else let (r, db) = f (as_db st) in (r, \<lparr>as_db = db, as_poisoned = panicked r\<rparr>))"

text \<open>A command that only reads.\<close>

definition reading :: "('f EdgeDb \<Rightarrow> 'a command) \<Rightarrow> 'f EdgeDb \<Rightarrow> 'a command \<times> 'f EdgeDb" where
  "reading f db = (f db, db)"

section \<open>Evidence\<close>

record file_access =
  fa_read :: "string \<Rightarrow> string + bytes"
  fa_utf8_lossy :: "bytes \<Rightarrow> string"
  fa_pdf_text :: "string \<Rightarrow> string option"
  fa_file_name :: "string \<Rightarrow> string option"

definition ends_with :: "string \<Rightarrow> string \<Rightarrow> bool" where
  "ends_with s suffix = (length suffix \<le> length s \<and> drop (length s - length suffix) s = suffix)"

definition extracted_text :: "file_access \<Rightarrow> string \<Rightarrow> bytes \<Rightarrow> string" where
  "extracted_text files path content =
     (if ends_with path ''.txt'' then fa_utf8_lossy files content
      else if ends_with path ''.pdf'' then (case fa_pdf_text files path of Some text \<Rightarrow> text | None \<Rightarrow> [])
      else [])"

definition mime_type_of :: "string \<Rightarrow> string option" where
  "mime_type_of path =
     (let extension = last (js_split CHR ''.'' path) in
      if extension = ''pdf'' then Some ''application/pdf''
      else if extension = ''txt'' then Some ''text/plain''
      else if extension = ''json'' then Some ''application/json''
      else None)"

definition document_evidence ::
  "'f edge_libs \<Rightarrow> file_access \<Rightarrow> EdgeEnv \<Rightarrow> string \<Rightarrow> string \<Rightarrow> bytes \<Rightarrow> EvidenceRow" where
  "document_evidence libs files env path evidence_type content =
     (let text = extracted_text files path content in
      \<lparr>er_id = ee_uuid env 0, er_evidence_type = evidence_type,
       er_original_filename = fa_file_name files path, er_mime_type = mime_type_of path,
       er_content_hash = lib_hex_encode (el_codec libs) (el_hash libs content),
       er_extracted_text = (if text = [] then None else Some text),
       er_issuer_name = None, er_issuer_type = None, er_valid_from = None, er_valid_until = None,
       er_created_at = ee_now env\<rparr>)"

definition store_evidence ::
  "codec \<Rightarrow> EdgeEnv \<Rightarrow> EvidenceRow \<Rightarrow> bytes \<Rightarrow> 'f EdgeDb \<Rightarrow> EvidenceRow command \<times> 'f EdgeDb" where
  "store_evidence lib env evidence content db =
     (case insert_evidence lib env evidence (Some content) db of
        Inl e \<Rightarrow> (Failed e, db) | Inr db' \<Rightarrow> (Done evidence, db'))"

definition ingest_document ::
  "'f edge_libs \<Rightarrow> file_access \<Rightarrow> EdgeEnv \<Rightarrow> string \<Rightarrow> string \<Rightarrow> 'f AppState \<Rightarrow> EvidenceRow command \<times> 'f AppState" where
  "ingest_document libs files env path evidence_type st =
     (case fa_read files path of
        Inl e \<Rightarrow> (Reported (''Failed to read file: '' @ e), st)
      | Inr content \<Rightarrow>
          under_lock (store_evidence (el_codec libs) env
            (document_evidence libs files env path evidence_type content) content) st)"

definition list_evidence :: "EdgeEnv \<Rightarrow> 'f EdgeDb \<Rightarrow> EvidenceRow list command" where
  "list_evidence env db = reported (store_list_evidence env db)"

definition get_evidence :: "EdgeEnv \<Rightarrow> string \<Rightarrow> 'f EdgeDb \<Rightarrow> EvidenceRow option command" where
  "get_evidence env rid db = reported (store_get_evidence env rid db)"

definition delete_evidence :: "EdgeEnv \<Rightarrow> string \<Rightarrow> 'f EdgeDb \<Rightarrow> bool command \<times> 'f EdgeDb" where
  "delete_evidence env rid db = map_prod reported (\<lambda>d. d) (store_delete_evidence env rid db)"

section \<open>Extracting claims\<close>

record 'f ExtractedClaim =
  ec_claim_type :: string
  ec_value :: "'f Value"
  ec_unit :: string
  ec_confidence :: 'f
  ec_source_text :: "string option"

text \<open>
  What \<open>serde\<close> makes of a JSON text for a struct: an object with every field exactly once (others are
  ignored), or an array with a value for each. Only \<open>source_text\<close> may be missing or null;
  \<open>raw_response\<close> must be there.
\<close>

definition struct_fields :: "string list \<Rightarrow> 'f Value \<Rightarrow> (string \<times> 'f Value) list option" where
  "struct_fields names v =
     (case v of
        VObject obj \<Rightarrow> let known = filter (\<lambda>(k, _). k \<in> set names) obj
                       in if distinct (map fst known) then Some known else None
      | VArray vs \<Rightarrow> if length vs = length names then Some (zip names vs) else None
      | _ \<Rightarrow> None)"

definition optional_text :: "(string \<times> 'f Value) list \<Rightarrow> string \<Rightarrow> string option option" where
  "optional_text obj key =
     (case map_of obj key of
        None \<Rightarrow> Some None | Some VNull \<Rightarrow> Some None | Some v \<Rightarrow> map_option Some (as_str v))"

definition extracted_claim :: "'f double \<Rightarrow> 'f Value \<Rightarrow> 'f ExtractedClaim option" where
  "extracted_claim fl v =
     Option.bind (struct_fields [''claim_type'', ''value'', ''unit'', ''confidence'', ''source_text''] v) (\<lambda>obj.
     Option.bind (Option.bind (map_of obj ''claim_type'') as_str) (\<lambda>claim_type.
     Option.bind (map_of obj ''value'') (\<lambda>value.
     Option.bind (Option.bind (map_of obj ''unit'') as_str) (\<lambda>unit.
     Option.bind (Option.bind (map_of obj ''confidence'') (as_f64 fl)) (\<lambda>confidence.
     Option.bind (optional_text obj ''source_text'') (\<lambda>source_text.
       Some \<lparr>ec_claim_type = claim_type, ec_value = value, ec_unit = unit, ec_confidence = confidence,
         ec_source_text = source_text\<rparr>))))))"

fun all_some :: "'a option list \<Rightarrow> 'a list option" where
  "all_some [] = Some []"
| "all_some (x # xs) = Option.bind x (\<lambda>y. Option.bind (all_some xs) (\<lambda>ys. Some (y # ys)))"

definition extraction_result :: "'f double \<Rightarrow> 'f Value \<Rightarrow> 'f ExtractedClaim list option" where
  "extraction_result fl v =
     Option.bind (struct_fields [''claims'', ''raw_response''] v) (\<lambda>obj.
     Option.bind (Option.bind (map_of obj ''claims'') as_array) (\<lambda>claims.
     Option.bind (all_some (map (extracted_claim fl) claims)) (\<lambda>ecs.
     Option.bind (Option.bind (map_of obj ''raw_response'') as_str) (\<lambda>raw. Some ecs))))"

definition char_index :: "char \<Rightarrow> string \<Rightarrow> nat option" where
  "char_index c s = (if c \<in> set s then Some (length (takeWhile (\<lambda>x. x \<noteq> c) s)) else None)"

definition last_char_index :: "char \<Rightarrow> string \<Rightarrow> nat option" where
  "last_char_index c s = map_option (\<lambda>i. length s - 1 - i) (char_index c (rev s))"

text \<open>The whole response, or else what stands between its first opening and last closing brace.\<close>

definition claims_of_response ::
  "'f double \<Rightarrow> (string \<Rightarrow> 'f Value option) \<Rightarrow> string \<Rightarrow> 'f ExtractedClaim list command" where
  "claims_of_response fl parse_json response =
     (case Option.bind (parse_json response) (extraction_result fl) of
        Some claims \<Rightarrow> Done claims
      | None \<Rightarrow>
          (case (char_index CHR ''{'' response, last_char_index CHR ''}'' response) of
             (Some s, Some e) \<Rightarrow>
               if s > e + 1 then Panicked
               else (case Option.bind (parse_json (take (e + 1 - s) (drop s response))) (extraction_result fl) of
                       Some claims \<Rightarrow> Done claims | None \<Rightarrow> Done [])
           | _ \<Rightarrow> Done []))"

record 'f ollama =
  ol_generate :: "string \<Rightarrow> string \<Rightarrow> string \<Rightarrow> string + string"
  ol_parse_json :: "string \<Rightarrow> 'f Value option"

definition default_model :: string where
  "default_model = ''phi3''"

definition option_of :: "string + 'a option \<Rightarrow> 'a option" where
  "option_of r = (case r of Inr x \<Rightarrow> x | Inl e \<Rightarrow> None)"

text \<open>The claims are stored one by one: those before one that fails stay.\<close>

fun store_claims :: "EdgeEnv \<Rightarrow> 'f ClaimRow list \<Rightarrow> 'f EdgeDb \<Rightarrow> string option \<times> 'f EdgeDb" where
  "store_claims env [] db = (None, db)"
| "store_claims env (c # cs) db =
     (case insert_claim env c db of Inl e \<Rightarrow> (Some e, db) | Inr db' \<Rightarrow> store_claims env cs db')"

definition claim_of ::
  "EdgeEnv \<Rightarrow> string \<Rightarrow> string \<Rightarrow> string \<Rightarrow> nat \<Rightarrow> 'f ExtractedClaim \<Rightarrow> 'f ClaimRow" where
  "claim_of env product_id evidence_id model k ec =
     \<lparr>cl_id = ee_uuid env k, cl_claim_type = ec_claim_type ec, cl_value = ec_value ec, cl_unit = ec_unit ec,
      cl_product_id = product_id, cl_evidence_ids = [evidence_id], cl_confidence = Some (ec_confidence ec),
      cl_verified = False,
      cl_metadata = VObject
        [(''source_text'', case ec_source_text ec of Some s \<Rightarrow> VString s | None \<Rightarrow> VNull),
         (''extraction_model'', VString model)],
      cl_created_at = ee_now env, cl_updated_at = ee_now env\<rparr>"

definition store_extracted :: "EdgeEnv \<Rightarrow> 'f ClaimRow list \<Rightarrow> 'f EdgeDb \<Rightarrow> 'f ClaimRow list command \<times> 'f EdgeDb" where
  "store_extracted env claims db =
     (case store_claims env claims db of (Some e, db') \<Rightarrow> (Reported e, db') | (None, db') \<Rightarrow> (Done claims, db'))"

definition evidence_text :: "EvidenceRow \<Rightarrow> string command" where
  "evidence_text evidence = or_reported ''No text content in evidence'' (js_or_null (er_extracted_text evidence))"

definition ask_model :: "'f edge_libs \<Rightarrow> 'f ollama \<Rightarrow> string \<Rightarrow> string \<Rightarrow> string \<Rightarrow> 'f ExtractedClaim list command" where
  "ask_model libs ollama url model text =
     (case ol_generate ollama url model text of
        Inl e \<Rightarrow> Reported (''AI extraction failed: '' @ e)
      | Inr response \<Rightarrow> claims_of_response (el_double libs) (ol_parse_json ollama) response)"

text \<open>
  The lock is taken three times: for the evidence, for the settings, and to store the claims. The
  model answers between, without it.
\<close>

definition extract_claims ::
  "'f edge_libs \<Rightarrow> 'f ollama \<Rightarrow> string \<Rightarrow> EdgeEnv \<Rightarrow> string \<Rightarrow> string \<Rightarrow> 'f AppState \<Rightarrow>
     'f ClaimRow list command \<times> 'f AppState" where
  "extract_claims libs ollama ollama_base env evidence_id product_id st =
     then_do (under_lock (reading (\<lambda>db.
       command_bind (reported (store_get_evidence env evidence_id db)) (or_reported ''Evidence not found''))) st)
     (\<lambda>evidence st. then_do (evidence_text evidence, st)
     (\<lambda>text st. then_do (under_lock (reading (\<lambda>db. Done
         (js_coalesce (option_of (get_setting env ''ollama_url'' db)) ollama_base,
          js_coalesce (option_of (get_setting env ''ollama_model'' db)) default_model))) st)
     (\<lambda>(url, model) st. then_do (ask_model libs ollama url model text, st)
     (\<lambda>ecs st. under_lock (store_extracted env
         (map2 (claim_of env product_id evidence_id model) [0..<length ecs] ecs)) st))))"

section \<open>Claims\<close>

definition list_claims :: "EdgeEnv \<Rightarrow> string option \<Rightarrow> 'f EdgeDb \<Rightarrow> 'f ClaimRow list command" where
  "list_claims env product_id db = reported (store_list_claims env product_id db)"

definition get_claim :: "EdgeEnv \<Rightarrow> string \<Rightarrow> 'f EdgeDb \<Rightarrow> 'f ClaimRow option command" where
  "get_claim env rid db = reported (store_get_claim env rid db)"

definition update_claim :: "EdgeEnv \<Rightarrow> 'f ClaimRow \<Rightarrow> 'f EdgeDb \<Rightarrow> bool command \<times> 'f EdgeDb" where
  "update_claim env claim db = map_prod reported (\<lambda>d. d) (store_update_claim env claim db)"

definition delete_claim :: "EdgeEnv \<Rightarrow> string \<Rightarrow> 'f EdgeDb \<Rightarrow> bool command \<times> 'f EdgeDb" where
  "delete_claim env rid db = map_prod reported (\<lambda>d. d) (store_delete_claim env rid db)"

definition verify_claim :: "EdgeEnv \<Rightarrow> string \<Rightarrow> bool \<Rightarrow> 'f EdgeDb \<Rightarrow> bool command \<times> 'f EdgeDb" where
  "verify_claim env rid verified db =
     then_do (load_claim env db ''Claim not found'' rid, db) (\<lambda>claim db.
       map_prod reported (\<lambda>d. d)
         (store_update_claim env (claim\<lparr>cl_verified := verified, cl_updated_at := ee_now env\<rparr>) db))"

section \<open>Commitments\<close>

text \<open>The keypair a call makes: \<open>ee_random\<close> gives its secret and the nonce it is encrypted with.\<close>

definition stored_keypair :: "'f edge_libs \<Rightarrow> ed25519 \<Rightarrow> EdgeEnv \<Rightarrow> string + StoredKeypair" where
  "stored_keypair libs ed env =
     sum_bind (encode_secret_key (el_codec libs) (ee_vars env) (ee_random env 1) (ee_random env 0)) (\<lambda>encoded.
       Inr \<lparr>kp_id = ee_uuid env 0, kp_public_key = public_key (el_codec libs) ed (ee_random env 0),
         kp_secret_key_encrypted = encoded, kp_created_at = ee_now env, kp_is_active = True\<rparr>)"

definition add_keypair :: "'f edge_libs \<Rightarrow> ed25519 \<Rightarrow> EdgeEnv \<Rightarrow> 'f EdgeDb \<Rightarrow> StoredKeypair command \<times> 'f EdgeDb" where
  "add_keypair libs ed env db =
     (case stored_keypair libs ed env of
        Inl e \<Rightarrow> (Failed e, db)
      | Inr stored \<Rightarrow>
          (case insert_keypair env stored db of
             (Inl e, db') \<Rightarrow> (Failed e, db') | (Inr _, db') \<Rightarrow> (Done stored, db')))"

definition signing_key :: "'f edge_libs \<Rightarrow> ed25519 \<Rightarrow> EdgeEnv \<Rightarrow> 'f EdgeDb \<Rightarrow> bytes command \<times> 'f EdgeDb" where
  "signing_key libs ed env db =
     (case get_active_keypair env db of
        Inl e \<Rightarrow> (Reported e, db)
      | Inr (Some kp) \<Rightarrow>
          (failing (sum_bind (decode_secret_key (el_codec libs) (ee_vars env) (kp_secret_key_encrypted kp))
             (\<lambda>secret. map_sum crypto_message (\<lambda>k. k) (KeyPair_from_bytes secret))), db)
      | Inr None \<Rightarrow> then_do (add_keypair libs ed env db) (\<lambda>_ db'. (Done (ee_random env 0), db')))"

text \<open>\<open>now + Duration::days(n)\<close>, which panics out of range: \<open>add_days\<close> is then \<open>None\<close>.\<close>

definition expires_after :: "(time_ms \<Rightarrow> int \<Rightarrow> time_ms option) \<Rightarrow> time_ms \<Rightarrow> int option \<Rightarrow> time_ms option command" where
  "expires_after add_days now valid_days =
     (case valid_days of
        None \<Rightarrow> Done None
      | Some days \<Rightarrow> (case add_days now days of None \<Rightarrow> Panicked | Some t \<Rightarrow> Done (Some t)))"

definition signed_commitment ::
  "'f edge_libs \<Rightarrow> ed25519 \<Rightarrow> (time_ms \<Rightarrow> int \<Rightarrow> time_ms option) \<Rightarrow> EdgeEnv \<Rightarrow> string list \<Rightarrow> int option \<Rightarrow>
     bytes \<Rightarrow> 'f EdgeDb \<Rightarrow> CommitmentRow command" where
  "signed_commitment libs ed add_days env claim_ids valid_days keypair db =
     (let lib = el_codec libs in
      command_bind (load_hashes (claim_hash_of libs) env db (\<lambda>i. ''Claim '' @ i @ '' not found'') claim_ids) (\<lambda>hashes.
      command_bind (build_tree (el_hash libs) hashes) (\<lambda>t.
      command_bind (expires_after add_days (ee_now env) valid_days) (\<lambda>valid_until.
        Done \<lparr>cm_id = ee_uuid env 1, cm_root = lib_hex_encode lib (root t),
          cm_claim_count = length claim_ids, cm_claim_ids = claim_ids,
          cm_public_key = public_key lib ed keypair, cm_signature = sign_hex lib ed keypair (root t),
          cm_valid_from = Some (ee_now env), cm_valid_until = valid_until, cm_revoked = False,
          cm_revoked_at = None, cm_revoked_reason = None, cm_created_at = ee_now env\<rparr>))))"

definition commit_claims ::
  "'f edge_libs \<Rightarrow> ed25519 \<Rightarrow> (time_ms \<Rightarrow> int \<Rightarrow> time_ms option) \<Rightarrow> EdgeEnv \<Rightarrow> string list \<Rightarrow> int option \<Rightarrow>
     'f EdgeDb \<Rightarrow> CommitmentRow command \<times> 'f EdgeDb" where
  "commit_claims libs ed add_days env claim_ids valid_days db =
     then_do (signing_key libs ed env db) (\<lambda>keypair db.
     then_do (signed_commitment libs ed add_days env claim_ids valid_days keypair db, db) (\<lambda>commitment db.
       case insert_commitment env commitment db of
         Inl e \<Rightarrow> (Failed e, db) | Inr db' \<Rightarrow> (Done commitment, db')))"

definition create_commitment ::
  "'f edge_libs \<Rightarrow> ed25519 \<Rightarrow> (time_ms \<Rightarrow> int \<Rightarrow> time_ms option) \<Rightarrow> EdgeEnv \<Rightarrow> string list \<Rightarrow> int option \<Rightarrow>
     'f AppState \<Rightarrow> CommitmentRow command \<times> 'f AppState" where
  "create_commitment libs ed add_days env claim_ids valid_days st =
     (if claim_ids = [] then (Reported ''No claims specified'', st)
      else under_lock (commit_claims libs ed add_days env claim_ids valid_days) st)"

definition list_commitments :: "EdgeEnv \<Rightarrow> 'f EdgeDb \<Rightarrow> CommitmentRow list command" where
  "list_commitments env db = reported (store_list_commitments env db)"

definition get_commitment :: "EdgeEnv \<Rightarrow> string \<Rightarrow> 'f EdgeDb \<Rightarrow> CommitmentRow option command" where
  "get_commitment env rid db = reported (store_get_commitment env rid db)"

definition revoke_commitment :: "EdgeEnv \<Rightarrow> string \<Rightarrow> string \<Rightarrow> 'f EdgeDb \<Rightarrow> bool command \<times> 'f EdgeDb" where
  "revoke_commitment env rid reason db = map_prod reported (\<lambda>d. d) (store_revoke_commitment env rid reason db)"

section \<open>Keys and settings\<close>

record KeypairInfo =
  ki_id :: string
  ki_public_key :: string
  ki_created_at :: time_ms

definition keypair_info :: "StoredKeypair \<Rightarrow> KeypairInfo" where
  "keypair_info kp = \<lparr>ki_id = kp_id kp, ki_public_key = kp_public_key kp, ki_created_at = kp_created_at kp\<rparr>"

definition get_keypair :: "EdgeEnv \<Rightarrow> 'f EdgeDb \<Rightarrow> KeypairInfo option command" where
  "get_keypair env db = reported (map_sum (\<lambda>e. e) (map_option keypair_info) (get_active_keypair env db))"

definition generate_new_keypair ::
  "'f edge_libs \<Rightarrow> ed25519 \<Rightarrow> EdgeEnv \<Rightarrow> 'f EdgeDb \<Rightarrow> KeypairInfo command \<times> 'f EdgeDb" where
  "generate_new_keypair libs ed env db =
     then_do (add_keypair libs ed env db) (\<lambda>stored db'. (Done (keypair_info stored), db'))"

record AppSettings =
  st_supplier_id :: "string option"
  st_supplier_name :: "string option"
  st_ollama_url :: "string option"
  st_ollama_model :: "string option"

definition get_settings :: "EdgeEnv \<Rightarrow> 'f EdgeDb \<Rightarrow> AppSettings command" where
  "get_settings env db =
     Done \<lparr>st_supplier_id = option_of (get_setting env ''supplier_id'' db),
       st_supplier_name = option_of (get_setting env ''supplier_name'' db),
       st_ollama_url = option_of (get_setting env ''ollama_url'' db),
       st_ollama_model = option_of (get_setting env ''ollama_model'' db)\<rparr>"

text \<open>One statement for each setting that is given; the first that fails ends the command.\<close>

fun set_settings :: "EdgeEnv \<Rightarrow> (string \<times> string option) list \<Rightarrow> 'f EdgeDb \<Rightarrow> bool command \<times> 'f EdgeDb" where
  "set_settings env [] db = (Done True, db)"
| "set_settings env ((key, None) # kvs) db = set_settings env kvs db"
| "set_settings env ((key, Some v) # kvs) db =
     (case set_setting env key v db of Inl e \<Rightarrow> (Failed e, db) | Inr db' \<Rightarrow> set_settings env kvs db')"

definition update_settings :: "EdgeEnv \<Rightarrow> AppSettings \<Rightarrow> 'f EdgeDb \<Rightarrow> bool command \<times> 'f EdgeDb" where
  "update_settings env settings =
     set_settings env [(''supplier_id'', st_supplier_id settings), (''supplier_name'', st_supplier_name settings),
       (''ollama_url'', st_ollama_url settings), (''ollama_model'', st_ollama_model settings)]"

section \<open>The agent\<close>

text \<open>What the window can invoke (\<open>main.rs\<close>), and the state after it.\<close>

datatype 'f invocation =
  IngestDocument string string
| ListEvidence
| GetEvidence string
| DeleteEvidence string
| ExtractClaims string string
| ListClaims "string option"
| GetClaim string
| UpdateClaim "'f ClaimRow"
| DeleteClaim string
| VerifyClaim string bool
| CreateCommitment "string list" "int option"
| ListCommitments
| GetCommitment string
| RevokeCommitment string string
| GenerateProof "'f GenerateProofInput"
| GetKeypair
| GenerateNewKeypair
| GetSettings
| UpdateSettings AppSettings

record 'f agent =
  ag_libs :: "'f edge_libs"
  ag_ed25519 :: ed25519
  ag_add_days :: "time_ms \<Rightarrow> int \<Rightarrow> time_ms option"
  ag_files :: file_access
  ag_ollama :: "'f ollama"
  ag_ollama_base :: string
  ag_text_of :: "'f Value \<Rightarrow> string"

fun invoke :: "'f agent \<Rightarrow> EdgeEnv \<Rightarrow> 'f invocation \<Rightarrow> 'f AppState \<Rightarrow> 'f AppState" where
  "invoke ag env (IngestDocument path kind) st = snd (ingest_document (ag_libs ag) (ag_files ag) env path kind st)"
| "invoke ag env ListEvidence st = snd (under_lock (reading (list_evidence env)) st)"
| "invoke ag env (GetEvidence i) st = snd (under_lock (reading (get_evidence env i)) st)"
| "invoke ag env (DeleteEvidence i) st = snd (under_lock (delete_evidence env i) st)"
| "invoke ag env (ExtractClaims i product) st =
     snd (extract_claims (ag_libs ag) (ag_ollama ag) (ag_ollama_base ag) env i product st)"
| "invoke ag env (ListClaims product) st = snd (under_lock (reading (list_claims env product)) st)"
| "invoke ag env (GetClaim i) st = snd (under_lock (reading (get_claim env i)) st)"
| "invoke ag env (UpdateClaim c) st = snd (under_lock (update_claim env c) st)"
| "invoke ag env (DeleteClaim i) st = snd (under_lock (delete_claim env i) st)"
| "invoke ag env (VerifyClaim i v) st = snd (under_lock (verify_claim env i v) st)"
| "invoke ag env (CreateCommitment is days) st =
     snd (create_commitment (ag_libs ag) (ag_ed25519 ag) (ag_add_days ag) env is days st)"
| "invoke ag env ListCommitments st = snd (under_lock (reading (list_commitments env)) st)"
| "invoke ag env (GetCommitment i) st = snd (under_lock (reading (get_commitment env i)) st)"
| "invoke ag env (RevokeCommitment i reason) st = snd (under_lock (revoke_commitment env i reason) st)"
| "invoke ag env (GenerateProof input) st =
     snd (under_lock (reading (\<lambda>db. generate_proof (ag_libs ag) env (ag_text_of ag) db input)) st)"
| "invoke ag env GetKeypair st = snd (under_lock (reading (get_keypair env)) st)"
| "invoke ag env GenerateNewKeypair st = snd (under_lock (generate_new_keypair (ag_libs ag) (ag_ed25519 ag) env) st)"
| "invoke ag env GetSettings st = snd (under_lock (reading (get_settings env)) st)"
| "invoke ag env (UpdateSettings s) st = snd (under_lock (update_settings env s) st)"

definition initial_state :: "'f AppState" where
  "initial_state = \<lparr>as_db = \<lparr>db_evidence = [], db_claims = [], db_commitments = [], db_keypairs = [],
     db_settings = []\<rparr>, as_poisoned = False\<rparr>"

inductive agent_reaches :: "'f agent \<Rightarrow> 'f AppState \<Rightarrow> 'f AppState \<Rightarrow> bool" for ag where
  agent_start: "agent_reaches ag st st"
| agent_step: "agent_reaches ag st st' \<Longrightarrow> agent_reaches ag st (invoke ag env call st')"

section \<open>What every invocation keeps\<close>

lemma under_lock_state:
  "snd (under_lock f st) = st \<or>
     snd (under_lock f st) = \<lparr>as_db = snd (f (as_db st)), as_poisoned = panicked (fst (f (as_db st)))\<rparr>"
  by (simp add: under_lock_def split: prod.splits)

lemma then_do_simps [simp]:
  "then_do (Done x, s) f = f x s" "then_do (Reported e, s) f = (Reported e, s)"
  "then_do (Failed e, s) f = (Failed e, s)" "then_do (Panicked, s) f = (Panicked, s)"
  by (simp_all add: then_do_def)

lemma under_lock_read:
  "\<not> as_poisoned st \<Longrightarrow> f (as_db st) = Done x \<Longrightarrow> under_lock (reading f) st = (Done x, st)"
  by (simp add: under_lock_def reading_def)

lemma under_lock_done:
  "\<not> as_poisoned st \<Longrightarrow> f (as_db st) = (Done x, db) \<Longrightarrow>
     under_lock f st = (Done x, \<lparr>as_db = db, as_poisoned = False\<rparr>)"
  by (simp add: under_lock_def)

lemma snd_then_do:
  "snd (then_do rs f) = snd rs \<or> (\<exists>x. fst rs = Done x \<and> snd (then_do rs f) = snd (f x (snd rs)))"
  by (cases rs) (auto simp: then_do_def split: command.splits)

lemma snd_reading [simp]: "snd (reading f db) = db" "fst (reading f db) = f db"
  by (simp_all add: reading_def)

text \<open>A commitment as the agent makes it: to some claims, and signed over their root.\<close>

definition signed_root :: "codec \<Rightarrow> ed25519 \<Rightarrow> CommitmentRow \<Rightarrow> bool" where
  "signed_root lib ed c = (cm_claim_ids c \<noteq> [] \<and> cm_claim_count c = length (cm_claim_ids c) \<and>
     (\<exists>kp rt. cm_root c = lib_hex_encode lib rt \<and> cm_public_key c = public_key lib ed kp \<and>
        cm_signature c = sign_hex lib ed kp rt))"

lemma load_hashes_Nil: "load_hashes hash_of env db missing ids = Done [] \<Longrightarrow> ids = []"
  using load_hashes_nth [of hash_of env db missing ids "[]"] by simp

lemma signed_commitment_Done:
  assumes "signed_commitment libs ed add_days env claim_ids valid_days keypair db = Done c"
  obtains hashes t valid_until where
    "load_hashes (claim_hash_of libs) env db (\<lambda>i. ''Claim '' @ i @ '' not found'') claim_ids = Done hashes"
    "build (el_hash libs) hashes = Some (Inr t)" "claim_ids \<noteq> []"
    "c = \<lparr>cm_id = ee_uuid env 1, cm_root = lib_hex_encode (el_codec libs) (root t),
       cm_claim_count = length claim_ids, cm_claim_ids = claim_ids,
       cm_public_key = public_key (el_codec libs) ed keypair,
       cm_signature = sign_hex (el_codec libs) ed keypair (root t),
       cm_valid_from = Some (ee_now env), cm_valid_until = valid_until, cm_revoked = False,
       cm_revoked_at = None, cm_revoked_reason = None, cm_created_at = ee_now env\<rparr>"
proof -
  obtain hashes t valid_until where r:
    "load_hashes (claim_hash_of libs) env db (\<lambda>i. ''Claim '' @ i @ '' not found'') claim_ids = Done hashes"
    "build_tree (el_hash libs) hashes = Done t" "expires_after add_days (ee_now env) valid_days = Done valid_until"
    "c = \<lparr>cm_id = ee_uuid env 1, cm_root = lib_hex_encode (el_codec libs) (root t),
       cm_claim_count = length claim_ids, cm_claim_ids = claim_ids,
       cm_public_key = public_key (el_codec libs) ed keypair,
       cm_signature = sign_hex (el_codec libs) ed keypair (root t),
       cm_valid_from = Some (ee_now env), cm_valid_until = valid_until, cm_revoked = False,
       cm_revoked_at = None, cm_revoked_reason = None, cm_created_at = ee_now env\<rparr>"
    using assms by (auto simp: signed_commitment_def Let_def command_bind_Done_iff)
  have "claim_ids \<noteq> []"
    using r(1,2) by (auto simp: build_tree_Done_iff build_cases)
  then show ?thesis
    using that r by (auto simp: build_tree_Done_iff)
qed

lemma signed_commitment_root:
  "signed_commitment libs ed add_days env claim_ids valid_days keypair db = Done c \<Longrightarrow> signed_root (el_codec libs) ed c"
  by (elim signed_commitment_Done) (simp add: signed_root_def, blast)

text \<open>
  A relation between databases, reflexive and transitive, that storing a claim is in: extracting
  claims is in it too. If it is a relation that all the statements of \<open>storage/mod.rs\<close> are in, it
  relates the databases before and after any invocation.
\<close>

locale claim_relation =
  fixes R :: "'f EdgeDb \<Rightarrow> 'f EdgeDb \<Rightarrow> bool"
  assumes refl: "R db db"
    and trans: "R db db1 \<Longrightarrow> R db1 db2 \<Longrightarrow> R db db2"
    and claim_in: "insert_claim env c db = Inr db' \<Longrightarrow> R db db'"
begin

lemma locked: "(\<And>db. R db (snd (f db))) \<Longrightarrow> R (as_db st) (as_db (snd (under_lock f st)))"
  using under_lock_state [of f st] refl by auto

lemma chained:
  assumes "R db (as_db (snd rs))" and "\<And>x. R (as_db (snd rs)) (as_db (snd (f x (snd rs))))"
  shows "R db (as_db (snd (then_do rs f)))"
  using snd_then_do [of rs f] assms trans by metis

lemma chained_db:
  assumes "R db (snd rs)" and "\<And>x. fst rs = Done x \<Longrightarrow> R (snd rs) (snd (f x (snd rs)))"
  shows "R db (snd (then_do rs f))"
  using snd_then_do [of rs f] assms trans by metis

lemma stored: "R db (snd (store_claims env cs db))"
proof (induction cs arbitrary: db)
  case (Cons c cs)
  show ?case
    using refl claim_in trans Cons.IH by (cases "insert_claim env c db") (auto, metis)
qed (simp add: refl)

lemma extracted: "R db (snd (store_extracted env cs db))"
  using stored [of db env cs]
  by (cases "store_claims env cs db") (auto simp: store_extracted_def split: option.splits)

lemma extracting: "R (as_db st) (as_db (snd (extract_claims libs ollama base env i product st)))"
  unfolding extract_claims_def
  by (intro chained locked) (auto simp: refl extracted intro!: chained locked split: prod.splits)

end

locale edge_relation = claim_relation R for R :: "'f EdgeDb \<Rightarrow> 'f EdgeDb \<Rightarrow> bool" +
  fixes ag :: "'f agent"
  assumes evidence_in: "insert_evidence lib env e raw db = Inr db' \<Longrightarrow> R db db'"
    and evidence_out: "R db (snd (store_delete_evidence env i db))"
    and claim_out: "R db (snd (store_delete_claim env i db))"
    and claim_changed: "R db (snd (store_update_claim env c db))"
    and commitment_in: "signed_root (el_codec (ag_libs ag)) (ag_ed25519 ag) m \<Longrightarrow>
      insert_commitment env m db = Inr db' \<Longrightarrow> R db db'"
    and commitment_revoked: "R db (snd (store_revoke_commitment env i reason db))"
    and keypair_in: "R db (snd (insert_keypair env kp db))"
    and setting_in: "set_setting env k v db = Inr db' \<Longrightarrow> R db db'"
begin

lemma keypair_added: "R db (snd (add_keypair libs ed env db))"
proof (cases "stored_keypair libs ed env")
  case (Inr stored)
  then show ?thesis
    using keypair_in [of db env stored] by (auto simp: add_keypair_def split: prod.splits sum.splits)
qed (simp add: add_keypair_def refl)

lemma key_chosen: "R db (snd (signing_key libs ed env db))"
  by (auto simp: signing_key_def refl intro!: chained_db keypair_added split: sum.splits option.splits)

lemma committed:
  "R db (snd (commit_claims (ag_libs ag) (ag_ed25519 ag) add_days env is days db))"
  unfolding commit_claims_def
proof (intro chained_db key_chosen)
  fix kp m db'
  assume "fst (signed_commitment (ag_libs ag) (ag_ed25519 ag) add_days env is days kp db', db') = Done m"
  then show "R (snd (signed_commitment (ag_libs ag) (ag_ed25519 ag) add_days env is days kp db', db'))
      (snd (case insert_commitment env m (snd (signed_commitment (ag_libs ag) (ag_ed25519 ag) add_days env is days kp db', db')) of
         Inl e \<Rightarrow> (Failed e, snd (signed_commitment (ag_libs ag) (ag_ed25519 ag) add_days env is days kp db', db'))
       | Inr db'' \<Rightarrow> (Done m, db'')))"
    using commitment_in signed_commitment_root refl by (fastforce split: sum.splits)
qed (simp add: refl)

lemma settings_written: "R db (snd (set_settings env kvs db))"
  by (induction env kvs db rule: set_settings.induct)
     (auto simp: refl split: sum.splits intro: trans setting_in)

lemma invocation: "R (as_db st) (as_db (invoke ag env call st))"
proof (cases call)
  case (IngestDocument path kind)
  then show ?thesis
    by (auto simp: ingest_document_def store_evidence_def refl intro!: locked dest: evidence_in split: sum.splits)
next
  case (VerifyClaim i v)
  then show ?thesis
    by (auto simp: verify_claim_def refl claim_changed intro!: locked chained_db)
next
  case (CreateCommitment "is" days)
  then show ?thesis
    by (auto simp: create_commitment_def refl intro!: locked committed)
next
  case GenerateNewKeypair
  then show ?thesis
    by (auto simp: generate_new_keypair_def refl keypair_added intro!: locked chained_db)
qed (auto simp: refl extracting delete_evidence_def delete_claim_def update_claim_def revoke_commitment_def
    update_settings_def evidence_out claim_out claim_changed commitment_revoked settings_written intro!: locked)

lemma reached: "agent_reaches ag st st' \<Longrightarrow> R (as_db st) (as_db st')"
  by (induction rule: agent_reaches.induct) (auto intro: refl trans invocation)

end

section \<open>Invariants of the agent\<close>

definition agent_ok :: "'f agent \<Rightarrow> 'f EdgeDb \<Rightarrow> bool" where
  "agent_ok ag db = (edge_ok db \<and>
     (\<forall>m \<in> set (db_commitments db). signed_root (el_codec (ag_libs ag)) (ag_ed25519 ag) m))"

lemma revoked_signed [simp]:
  "signed_root lib ed (m\<lparr>cm_revoked := r\<rparr>) = signed_root lib ed m"
  "signed_root lib ed (m\<lparr>cm_revoked_at := t\<rparr>) = signed_root lib ed m"
  "signed_root lib ed (m\<lparr>cm_revoked_reason := e\<rparr>) = signed_root lib ed m"
  by (simp_all add: signed_root_def)

text \<open>Only two statements touch the table of commitments.\<close>

lemma commitments_untouched:
  "insert_evidence lib env e raw db = Inr db' \<Longrightarrow> db_commitments db' = db_commitments db"
  "insert_claim env c db = Inr db' \<Longrightarrow> db_commitments db' = db_commitments db"
  "set_setting env k v db = Inr db' \<Longrightarrow> db_commitments db' = db_commitments db"
  "db_commitments (snd (store_delete_evidence env i db)) = db_commitments db"
  "db_commitments (snd (store_delete_claim env i db)) = db_commitments db"
  "db_commitments (snd (store_update_claim env c db)) = db_commitments db"
  "db_commitments (snd (insert_keypair env kp db)) = db_commitments db"
  by (auto simp: insert_evidence_def insert_claim_def set_setting_def store_delete_evidence_def
      store_delete_claim_def store_update_claim_def insert_keypair_def inr_iff Let_def
      split: option.splits prod.splits)

lemma revoked_commitments:
  "db_commitments (snd (store_revoke_commitment env i reason db)) = db_commitments db \<or>
   db_commitments (snd (store_revoke_commitment env i reason db)) =
     update_where (\<lambda>c. cm_id c = i)
       (\<lambda>c. c\<lparr>cm_revoked := True, cm_revoked_at := Some (ee_now env), cm_revoked_reason := Some reason\<rparr>)
       (db_commitments db)"
  by (auto simp: store_revoke_commitment_def split: option.splits)

lemma inserted_commitments:
  "insert_commitment env m db = Inr db' \<Longrightarrow>
     db_commitments db' = db_commitments db @ [m\<lparr>cm_revoked_at := None, cm_revoked_reason := None\<rparr>]"
  by (auto simp: insert_commitment_def inr_iff)

lemma agent_ok_untouched:
  "db_commitments db' = db_commitments db \<Longrightarrow> (edge_ok db \<Longrightarrow> edge_ok db') \<Longrightarrow>
     agent_ok ag db \<longrightarrow> agent_ok ag db'"
  by (simp add: agent_ok_def)

interpretation sound: edge_relation "\<lambda>db db'. agent_ok ag db \<longrightarrow> agent_ok ag db'" ag for ag :: "'f agent"
proof
  fix db db1 db2 :: "'f EdgeDb"
  assume "agent_ok ag db \<longrightarrow> agent_ok ag db1" and "agent_ok ag db1 \<longrightarrow> agent_ok ag db2"
  then show "agent_ok ag db \<longrightarrow> agent_ok ag db2"
    by blast
next
  fix env i reason and db :: "'f EdgeDb"
  show "agent_ok ag db \<longrightarrow> agent_ok ag (snd (store_revoke_commitment env i reason db))"
    using revoked_commitments [of env i reason db] update_ok(2) [of db env i reason]
    by (auto simp: agent_ok_def set_update_where)
next
  fix m env and db db' :: "'f EdgeDb"
  assume "signed_root (el_codec (ag_libs ag)) (ag_ed25519 ag) m" and "insert_commitment env m db = Inr db'"
  then show "agent_ok ag db \<longrightarrow> agent_ok ag db'"
    using inserted_commitments [of env m db db'] insert_commitment_ok [of env m db db'] by (auto simp: agent_ok_def)
qed (rule agent_ok_untouched; auto simp: commitments_untouched delete_ok update_ok(1) insert_keypair_ok
    intro: insert_evidence_ok insert_claim_ok set_setting_ok)+

lemma initial_ok: "agent_ok ag (as_db initial_state)"
  by (simp add: agent_ok_def initial_state_def edge_ok_def unique_on_def)

lemma reached_ok: "agent_reaches ag initial_state st \<Longrightarrow> agent_ok ag (as_db st)"
  using sound.reached initial_ok by blast

text \<open>A commitment only ever changes by being revoked.\<close>

definition kept_but_revoked :: "CommitmentRow \<Rightarrow> CommitmentRow \<Rightarrow> bool" where
  "kept_but_revoked m m' = (m' = m \<or> cm_revoked m' \<and>
     m' = m\<lparr>cm_revoked := True, cm_revoked_at := cm_revoked_at m', cm_revoked_reason := cm_revoked_reason m'\<rparr>)"

definition commitments_kept :: "'f EdgeDb \<Rightarrow> 'f EdgeDb \<Rightarrow> bool" where
  "commitments_kept db db' = (\<forall>m \<in> set (db_commitments db). \<exists>m' \<in> set (db_commitments db'). kept_but_revoked m m')"

lemma kept_trans: "kept_but_revoked a b \<Longrightarrow> kept_but_revoked b c \<Longrightarrow> kept_but_revoked a c"
  unfolding kept_but_revoked_def by (cases a; cases b; cases c) auto

lemma kept_same: "db_commitments db' = db_commitments db \<Longrightarrow> commitments_kept db db'"
  by (auto simp: commitments_kept_def kept_but_revoked_def)

lemma kept_update:
  "db_commitments db' = update_where P f (db_commitments db) \<Longrightarrow> (\<And>m. kept_but_revoked m (f m)) \<Longrightarrow>
     commitments_kept db db'"
  by (auto simp: commitments_kept_def update_where_def kept_but_revoked_def)

interpretation kept: edge_relation commitments_kept ag for ag :: "'f agent"
proof
  fix a b c :: "'f EdgeDb"
  assume "commitments_kept a b" and "commitments_kept b c"
  then show "commitments_kept a c"
    unfolding commitments_kept_def using kept_trans by meson
next
  fix m env and db db' :: "'f EdgeDb"
  assume "insert_commitment env m db = Inr db'"
  then show "commitments_kept db db'"
    using inserted_commitments [of env m db db'] by (auto simp: commitments_kept_def kept_but_revoked_def)
next
  fix env i reason and db :: "'f EdgeDb"
  show "commitments_kept db (snd (store_revoke_commitment env i reason db))"
    using revoked_commitments [of env i reason db]
    by (auto intro: kept_same kept_update simp: kept_but_revoked_def)
qed (auto intro: kept_same commitments_untouched)

section \<open>Properties\<close>

lemma agent_reaches_once: "agent_reaches ag st (invoke ag env call st)"
  by (intro agent_reaches.intros)

text \<open>C14: In every state the agent can be brought to by any sequence of invocations, with any clock,
  random numbers, settings of the environment and failures of SQLite, the keys of all tables are
  unique and at most one keypair is active; and every stored commitment is to at least one claim,
  counts its claims correctly, and its signature verifies, under the public key stored with it, the
  root stored with it.\<close>

theorem stored_commitments_verify:
  assumes "agent_reaches ag initial_state st" and "hex_ok (el_codec (ag_libs ag))"
    and "signature_scheme (ag_ed25519 ag)"
  shows "edge_ok (as_db st) \<and> (\<forall>m \<in> set (db_commitments (as_db st)).
    cm_claim_ids m \<noteq> [] \<and> cm_claim_count m = length (cm_claim_ids m) \<and>
    (\<exists>rt. lib_hex_decode (el_codec (ag_libs ag)) (cm_root m) = Inr rt \<and>
       verify_hex (el_codec (ag_libs ag)) (ag_ed25519 ag) (cm_public_key m) rt (cm_signature m) = Some (Inr True)))"
proof -
  have "agent_ok ag (as_db st)"
    using assms(1) by (rule reached_ok)
  moreover have "\<exists>rt. lib_hex_decode (el_codec (ag_libs ag)) (cm_root m) = Inr rt \<and>
      verify_hex (el_codec (ag_libs ag)) (ag_ed25519 ag) (cm_public_key m) rt (cm_signature m) = Some (Inr True)"
    if "signed_root (el_codec (ag_libs ag)) (ag_ed25519 ag) m" for m
    using that assms(2) signed_verifies [OF assms(2,3)] by (auto simp: signed_root_def hex_ok_def)
  ultimately show ?thesis
    by (auto simp: agent_ok_def signed_root_def)
qed

text \<open>C21: Whatever is invoked, a commitment is never lost and never changes, but for being revoked: its
  root, claims, key, signature and dates stay, and once revoked it stays so.\<close>

theorem commitments_permanent:
  assumes "agent_reaches ag st st'" and "m \<in> set (db_commitments (as_db st))"
  shows "\<exists>m' \<in> set (db_commitments (as_db st')). (m' = m \<or> cm_revoked m') \<and>
    m'\<lparr>cm_revoked := cm_revoked m, cm_revoked_at := cm_revoked_at m, cm_revoked_reason := cm_revoked_reason m\<rparr> = m"
proof -
  obtain m' where "m' \<in> set (db_commitments (as_db st'))" and k: "kept_but_revoked m m'"
    using kept.reached [OF assms(1)] assms(2) by (auto simp: commitments_kept_def)
  moreover have "(m' = m \<or> cm_revoked m') \<and>
      m'\<lparr>cm_revoked := cm_revoked m, cm_revoked_at := cm_revoked_at m, cm_revoked_reason := cm_revoked_reason m\<rparr> = m"
    using k by (cases m; cases m') (auto simp: kept_but_revoked_def)
  ultimately show ?thesis
    by blast
qed

lemma poisoned_stays:
  "agent_reaches ag st st' \<Longrightarrow> as_poisoned st \<Longrightarrow> st' = st"
proof (induction rule: agent_reaches.induct)
  case (agent_step st st' env call)
  then have st': "st' = st" and p: "as_poisoned st"
    by simp_all
  have locked: "snd (under_lock f st) = st" for f :: "'a EdgeDb \<Rightarrow> 'b command \<times> 'a EdgeDb"
    using p by (simp add: under_lock_def)
  have "snd (extract_claims (ag_libs ag) (ag_ollama ag) (ag_ollama_base ag) env i product st) = st" for i product
    using p by (simp add: extract_claims_def then_do_def under_lock_def)
  then show ?case
    unfolding st' using p
    by (cases call) (simp_all add: under_lock_def ingest_document_def create_commitment_def split: sum.splits)
qed simp

lemma commit_claims_panics:
  assumes "signing_key libs ed env db = (Done kp, db1)"
    and "load_hashes (claim_hash_of libs) env db1 (\<lambda>i. ''Claim '' @ i @ '' not found'') is = Done hashes"
    and "build_tree (el_hash libs) hashes = Done t" and "add_days (ee_now env) days = None"
  shows "commit_claims libs ed add_days env is (Some days) db = (Panicked, db1)"
  using assms by (simp add: commit_claims_def then_do_def signed_commitment_def expires_after_def)

text \<open>C22: A number of days for which the date of expiry is out of range does more than fail: the call
  panics while it holds the lock, and from then on, until the agent is restarted, nothing invoked
  changes the agent's state, and every use of the database fails.\<close>

theorem panic_ends_the_agent:
  assumes "as_poisoned st = False" and "claim_ids \<noteq> []"
    and "signing_key libs ed env (as_db st) = (Done kp, db)"
    and "load_hashes (claim_hash_of libs) env db (\<lambda>i. ''Claim '' @ i @ '' not found'') claim_ids = Done hashes"
    and "build_tree (el_hash libs) hashes = Done t" and "add_days (ee_now env) days = None"
    and "create_commitment libs ed add_days env claim_ids (Some days) st = (r, st1)"
    and "agent_reaches ag st1 st2"
  shows "r = Panicked \<and> st2 = st1 \<and> under_lock f st2 = (Failed POISONED, st2)"
proof -
  have "r = Panicked" and "as_poisoned st1"
    using commit_claims_panics [where add_days = add_days and days = days, OF assms(3-6)] assms(1,2,7) by (auto simp: create_commitment_def under_lock_def)
  moreover have "st2 = st1"
    using poisoned_stays [OF assms(8)] calculation(2) .
  ultimately show ?thesis
    by (simp add: under_lock_def)
qed

lemma tree_root_digest:
  "digests H \<Longrightarrow> list_all bytes32 level \<Longrightarrow> level \<noteq> [] \<Longrightarrow> bytes32 (hd (last (levels H level)))"
proof (induction H level rule: levels.induct)
  case (1 H level)
  show ?case
  proof (cases "length level \<le> 1")
    case True
    then show ?thesis
      using 1(3,4) by (cases level) (auto simp: levels_small)
  next
    case False
    then have "0 < length (next_level H level)"
      by (simp add: length_next_level del: length_greater_0_conv)
    then have "next_level H level \<noteq> []"
      by blast
    moreover have "list_all bytes32 (next_level H level)"
      using 1(2) by (auto simp: next_level_inputs digests_def list_all_iff)
    ultimately show ?thesis
      using 1(1,2) False by (simp add: levels_grow)
  qed
qed

lemma claims_of_root:
  assumes "db_claims db = db_claims db'" and "ee_sqlite env = None" and "ee_sqlite env' = None"
    and "load_hashes hash_of env db missing ids = Done hs"
  shows "load_hashes hash_of env' db' missing' ids = Done hs"
  using assms(4)
proof (induction ids arbitrary: hs)
  case (Cons i ids)
  then show ?case
    using assms(1-3) by (auto simp: command_bind_Done_iff load_claim_def store_get_claim_def
        reported_Done_iff or_reported_Done_iff)
qed simp

lemma commit_claims_Done:
  assumes "commit_claims libs ed add_days env is days db = (Done m, db')"
  obtains kp db1 where "signing_key libs ed env db = (Done kp, db1)"
    "signed_commitment libs ed add_days env is days kp db1 = Done m"
    "insert_commitment env m db1 = Inr db'" 
  using assms
  by (auto simp: commit_claims_def then_do_def split: prod.splits command.splits sum.splits)

text \<open>C20: A commitment that was created is stored, and it opens: as long as no claim was changed
  or deleted, the tree that a proof is made from has the root the commitment holds.\<close>

theorem created_commitment_opens:
  assumes "create_commitment libs ed add_days env claim_ids days st = (Done m, st1)"
    and "digests (el_hash libs)" and "hex_ok (el_codec libs)"
    and "db_claims db = db_claims (as_db st1)" and "ee_sqlite env' = None"
  shows "row_by cm_id (cm_id m) (db_commitments (as_db st1)) = Some m \<and> cm_claim_ids m = claim_ids \<and>
    current_root libs env' db m = from_hex (el_codec libs) (cm_root m)"
proof -
  have c: "commit_claims libs ed add_days env claim_ids days (as_db st) = (Done m, as_db st1)"
    using assms(1) by (auto simp: create_commitment_def under_lock_def split: if_splits prod.splits)
  obtain kp db1 where s: "signed_commitment libs ed add_days env claim_ids days kp db1 = Done m"
    and i: "insert_commitment env m db1 = Inr (as_db st1)"
    by (rule commit_claims_Done [OF c])
  obtain hashes t valid_until where
    hs: "load_hashes (claim_hash_of libs) env db1 (\<lambda>i. ''Claim '' @ i @ '' not found'') claim_ids = Done hashes"
    and t: "build (el_hash libs) hashes = Some (Inr t)" and m: "cm_root m = lib_hex_encode (el_codec libs) (root t)"
      "cm_claim_ids m = claim_ids" "cm_revoked_at m = None" "cm_revoked_reason m = None"
    by (rule signed_commitment_Done [OF s]) auto
  have stored: "row_by cm_id (cm_id m) (db_commitments (as_db st1)) = Some m"
    using inserted_commitments [OF i] i m(3,4) row_by_None_iff [of cm_id "cm_id m" "db_commitments db1"]
    by (cases m) (auto simp: insert_commitment_def inr_iff row_by_append)
  have up: "ee_sqlite env = None" and "db_claims (as_db st1) = db_claims db1"
    using i by (auto simp: insert_commitment_def inr_iff dest!: sym [of _ "as_db st1"])
  then have "db_claims db1 = db_claims db"
    using assms(4) by simp
  then have hs': "load_hashes (claim_hash_of libs) env' db (\<lambda>_. ''Claim not found in commitment'') claim_ids = Done hashes"
    using claims_of_root [OF _ up assms(5) hs] by blast
  have "list_all bytes32 hashes"
    using load_hashes_nth [OF hs] compute_claim_hash_digest [OF assms(2)]
    by (fastforce simp: list_all_length claim_hash_of_def)
  then have "bytes32 (root t)"
    using tree_root_digest [OF assms(2)] build_Inr [OF t] by (simp add: root_def)
  then show ?thesis
    using stored hs' t m assms(3)
    by (simp add: current_root_def build_tree_def from_hex_def hex_ok_def)
qed

section \<open>An example\<close>

definition demo_ed25519 :: ed25519 where
  "demo_ed25519 = \<lparr>ed_public = \<lambda>kp. take 32 (kp @ replicate 32 0),
     ed_sign = \<lambda>kp message. take 32 (kp @ replicate 32 0) @ take 32 (message @ replicate 32 0),
     ed_verify = \<lambda>key message s. Inr (s = key @ take 32 (message @ replicate 32 0))\<rparr>"

lemma demo_signature_scheme: "signature_scheme demo_ed25519"
  by (auto simp: signature_scheme_def demo_ed25519_def min_def)

lemma demo_hex_ok: "hex_ok demo_codec"
proof -
  have "hex_decode (hex_encode (map unat bs)) = map unat bs" for bs :: bytes
    by (rule hex_decode_encode) (auto simp: unat_byte)
  moreover have "list_all (\<lambda>c. hex_val c \<noteq> None) (hex_encode (map unat bs))" for bs :: bytes
    by (induction bs) (auto simp: hex_encode_def hex_val_digit unat_byte less_mult_imp_div_less)
  moreover have "even (length (hex_encode ns))" for ns
    by (induction ns) (auto simp: hex_encode_def)
  ultimately show ?thesis
    by (simp add: hex_ok_def demo_codec_def comp_def)
qed

definition demo_value :: "nat Value" where
  "demo_value = VObject [(''claims'', VArray [VObject [(''claim_type'', VString ''recycled_content''),
     (''value'', VUInt 25), (''unit'', VString ''percent''), (''confidence'', VUInt 1)]]),
     (''raw_response'', VString [])]"

definition demo_agent :: "nat agent" where
  "demo_agent = \<lparr>ag_libs = demo_libs, ag_ed25519 = demo_ed25519,
     ag_add_days = \<lambda>now days. if days < 10 ^ 9 then Some (now + days * 86400000) else None,
     ag_files = \<lparr>fa_read = \<lambda>_. Inr [1], fa_utf8_lossy = \<lambda>_. ''25% recycled'', fa_pdf_text = \<lambda>_. None,
       fa_file_name = \<lambda>p. Some p\<rparr>,
     ag_ollama = \<lparr>ol_generate = \<lambda>_ _ _. Inr ''{}'', ol_parse_json = \<lambda>_. Some demo_value\<rparr>,
     ag_ollama_base = [], ag_text_of = \<lambda>_. []\<rparr>"

definition demo_call_env :: EdgeEnv where
  "demo_call_env = \<lparr>ee_now = 1000, ee_uuid = \<lambda>n. if n = 0 then ''c1'' else ''m1'',
     ee_random = \<lambda>_. replicate 32 0,
     ee_vars = \<lambda>v. if v = ''ALLOW_PLAINTEXT_KEYS'' then Some ''true'' else None, ee_sqlite = None\<rparr>"

text \<open>A document is imported, a claim extracted from it, and a commitment made to the claim.\<close>

definition demo_imported :: "nat AppState" where
  "demo_imported = invoke demo_agent demo_call_env (IngestDocument ''a.txt'' ''certificate'') initial_state"

definition demo_extracted :: "nat AppState" where
  "demo_extracted = invoke demo_agent demo_call_env (ExtractClaims ''c1'' ''p'') demo_imported"

definition demo_committed :: "nat AppState" where
  "demo_committed = invoke demo_agent demo_call_env (CreateCommitment [''c1''] (Some 365)) demo_extracted"

lemma demo_reached: "agent_reaches demo_agent initial_state demo_committed"
  unfolding demo_committed_def demo_extracted_def demo_imported_def by (intro agent_reaches.intros)

lemma demo_imported_db:
  "as_poisoned demo_imported = False \<and> db_claims (as_db demo_imported) = [] \<and> db_keypairs (as_db demo_imported) = [] \<and>
   db_commitments (as_db demo_imported) = [] \<and> db_settings (as_db demo_imported) = [] \<and>
   (\<exists>e raw. db_evidence (as_db demo_imported) = [(e, raw)] \<and> er_id e = ''c1'' \<and> er_extracted_text e = Some ''25% recycled'')"
  by (simp add: demo_imported_def ingest_document_def demo_agent_def under_lock_def initial_state_def
      store_evidence_def insert_evidence_def demo_call_env_def maybe_encrypt_blob_def load_master_key_def
      insert_row_def document_evidence_def extracted_text_def ends_with_def Let_def split: sum.splits)

lemma demo_extracted_db:
  "as_poisoned demo_extracted = False \<and> db_keypairs (as_db demo_extracted) = [] \<and>
   db_commitments (as_db demo_extracted) = [] \<and>
   (\<exists>c. db_claims (as_db demo_extracted) = [c] \<and> cl_id c = ''c1'' \<and> cl_claim_type c = ''recycled_content'' \<and>
      cl_value c = VUInt 25 \<and> cl_unit c = ''percent'' \<and> \<not> cl_verified c \<and> cl_created_at c = 1000)"
proof -
  obtain e raw where e: "db_evidence (as_db demo_imported) = [(e, raw)]" "er_id e = ''c1''"
      "er_extracted_text e = Some ''25% recycled''"
    using demo_imported_db by blast
  have "claims_of_response (el_double demo_libs) (\<lambda>_. Some demo_value) r =
      Done [\<lparr>ec_claim_type = ''recycled_content'', ec_value = VUInt 25, ec_unit = ''percent'', ec_confidence = 1,
        ec_source_text = None\<rparr>]" for r
    by (simp add: claims_of_response_def demo_value_def extraction_result_def struct_fields_def
        extracted_claim_def optional_text_def demo_libs_def)
  moreover have "row_by er_id ''c1'' (map fst (db_evidence (as_db demo_imported))) = Some e"
    using e by (simp add: row_by_def)
  moreover have "get_setting demo_call_env k (as_db demo_imported) = Inr None" for k
    using demo_imported_db by (simp add: get_setting_def demo_call_env_def)
  ultimately show ?thesis
    using demo_imported_db e(3)
    by (simp add: demo_extracted_def demo_agent_def extract_claims_def under_lock_read under_lock_done
        store_get_evidence_def demo_call_env_def reported_def or_reported_def evidence_text_def js_truthy_def
        js_or_null_def ask_model_def store_extracted_def claim_of_def insert_claim_def insert_row_def)
qed

definition demo_tree_c1 :: MerkleTree where
  "demo_tree_c1 = \<lparr>mt_nodes = [[demo_leaf_hash]], mt_leaves = [demo_leaf_hash]\<rparr>"

text \<open>States with one such claim, verified or not, and no key and no commitment yet.\<close>

definition demo_ready :: "nat ClaimRow \<Rightarrow> nat AppState \<Rightarrow> bool" where
  "demo_ready c st = (\<not> as_poisoned st \<and> db_keypairs (as_db st) = [] \<and> db_commitments (as_db st) = [] \<and>
     db_claims (as_db st) = [c] \<and> cl_id c = ''c1'' \<and> cl_claim_type c = ''recycled_content'' \<and>
     cl_value c = VUInt 25 \<and> cl_unit c = ''percent'')"

lemma demo_extracted_ready: "\<exists>c. demo_ready c demo_extracted \<and> \<not> cl_verified c \<and> cl_created_at c = 1000"
  using demo_extracted_db by (auto simp: demo_ready_def)

lemma demo_signing_key:
  assumes "demo_ready c st"
  shows "\<exists>db. signing_key demo_libs demo_ed25519 demo_call_env (as_db st) = (Done (replicate 32 0), db) \<and>
     db_claims db = [c] \<and> db_commitments db = []"
  using assms
  by (simp add: demo_ready_def signing_key_def get_active_keypair_def demo_call_env_def add_keypair_def
      stored_keypair_def encode_secret_key_def load_master_key_def insert_keypair_def)

lemma demo_extracted_hashes:
  assumes "demo_ready c st" and "db_claims db = [c]"
  shows "load_hashes (claim_hash_of demo_libs) demo_call_env db missing [''c1''] = Done [demo_leaf_hash]"
proof -
  have "claim_hash_of demo_libs c = Inr demo_leaf_hash"
    using assms(1) by (simp add: demo_ready_def claim_hash_of_def demo_libs_def compute_claim_hash_def
        parse_u32_value_def u32_try_from_def demo_leaf_hash_def Let_def)
  then show ?thesis
    using assms by (simp add: demo_ready_def load_claim_def store_get_claim_def demo_call_env_def row_by_def
        reported_def or_reported_def)
qed

lemma demo_env: "ee_uuid demo_call_env 1 = ''m1''" "ee_uuid demo_call_env (Suc 0) = ''m1''"
  by (simp_all add: demo_call_env_def)

lemma demo_build_c1: "build_tree demo_hash [demo_leaf_hash] = Done demo_tree_c1"
  by (simp add: build_tree_def build_cases levels_small demo_tree_c1_def)

lemma demo_commit_ready:
  assumes "demo_ready c st"
  shows "\<exists>m st'. create_commitment demo_libs demo_ed25519 (ag_add_days demo_agent) demo_call_env [''c1''] (Some 365) st =
     (Done m, st') \<and> cm_id m = ''m1'' \<and> cm_claim_ids m = [''c1''] \<and> db_commitments (as_db st') = [m] \<and> \<not> as_poisoned st'"
proof -
  have libs: "el_hash demo_libs = demo_hash"
    by (simp add: demo_libs_def)
  obtain db where k: "signing_key demo_libs demo_ed25519 demo_call_env (as_db st) = (Done (replicate 32 0), db)"
      and db: "db_claims db = [c]" "db_commitments db = []"
    using demo_signing_key [OF assms] by blast
  have "expires_after (ag_add_days demo_agent) (ee_now demo_call_env) (Some 365) = Done (Some 31536001000)"
    by (simp add: expires_after_def demo_agent_def demo_call_env_def)
  then obtain m where m: "signed_commitment demo_libs demo_ed25519 (ag_add_days demo_agent) demo_call_env [''c1'']
      (Some 365) (replicate 32 0) db = Done m" "cm_id m = ''m1''" "cm_claim_ids m = [''c1'']"
      "cm_revoked_at m = None" "cm_revoked_reason m = None"
    using demo_extracted_hashes [OF assms db(1), of "\<lambda>i. ''Claim '' @ i @ '' not found''"] demo_build_c1
    by (simp add: signed_commitment_def libs Let_def demo_env del: load_hashes.simps)
  then have "insert_commitment demo_call_env m db = Inr (db\<lparr>db_commitments := [m]\<rparr>)"
    using db by (cases m) (simp add: insert_commitment_def demo_call_env_def insert_row_def)
  then show ?thesis
    using m k assms
    by (simp add: demo_ready_def create_commitment_def under_lock_done commit_claims_def)
qed

lemma demo_commit:
  "\<exists>m. create_commitment demo_libs demo_ed25519 (ag_add_days demo_agent) demo_call_env [''c1''] (Some 365) demo_extracted =
     (Done m, demo_committed) \<and> cm_id m = ''m1'' \<and> db_commitments (as_db demo_committed) = [m] \<and>
     \<not> as_poisoned demo_committed"
proof -
  have libs: "ag_libs demo_agent = demo_libs" "ag_ed25519 demo_agent = demo_ed25519"
    by (simp_all add: demo_agent_def)
  obtain c where "demo_ready c demo_extracted"
    using demo_extracted_ready by blast
  then show ?thesis
    using demo_commit_ready [of c demo_extracted] by (auto simp: demo_committed_def libs)
qed

text \<open>The agent commits to claims whether or not they were verified.\<close>

lemma unverified_claim_committed:
  "\<exists>c m st'. c \<in> set (db_claims (as_db demo_extracted)) \<and> \<not> cl_verified c \<and>
     create_commitment demo_libs demo_ed25519 (ag_add_days demo_agent) demo_call_env [cl_id c] (Some 365) demo_extracted =
       (Done m, st')"
proof -
  obtain c where c: "demo_ready c demo_extracted" "\<not> cl_verified c"
    using demo_extracted_ready by blast
  then have "c \<in> set (db_claims (as_db demo_extracted))" and "cl_id c = ''c1''"
    by (simp_all add: demo_ready_def)
  then show ?thesis
    using demo_commit_ready [OF c(1)] c(2) by metis
qed

theorem stored_commitments_verify_witness:
  "\<exists>m \<in> set (db_commitments (as_db demo_committed)). cm_claim_count m = length (cm_claim_ids m) \<and>
     (\<exists>rt. lib_hex_decode demo_codec (cm_root m) = Inr rt \<and>
        verify_hex demo_codec demo_ed25519 (cm_public_key m) rt (cm_signature m) = Some (Inr True))"
proof -
  have libs: "el_codec (ag_libs demo_agent) = demo_codec" "ag_ed25519 demo_agent = demo_ed25519"
    by (simp_all add: demo_agent_def demo_libs_def)
  show ?thesis
    using stored_commitments_verify [OF demo_reached] demo_hex_ok demo_signature_scheme demo_commit
    unfolding libs by auto
qed

theorem commitments_permanent_witness:
  "\<exists>m m'. m \<in> set (db_commitments (as_db demo_committed)) \<and>
     m' \<in> set (db_commitments (as_db (invoke demo_agent demo_call_env (RevokeCommitment ''m1'' ''r'') demo_committed))) \<and>
     cm_revoked m' \<and> m'\<lparr>cm_revoked := cm_revoked m, cm_revoked_at := cm_revoked_at m,
       cm_revoked_reason := cm_revoked_reason m\<rparr> = m"
proof -
  let ?st = "invoke demo_agent demo_call_env (RevokeCommitment ''m1'' ''r'') demo_committed"
  obtain m where m: "db_commitments (as_db demo_committed) = [m]" "cm_id m = ''m1''"
      and "\<not> as_poisoned demo_committed"
    using demo_commit by blast
  then have "\<forall>m' \<in> set (db_commitments (as_db ?st)). cm_revoked m'"
    using m by (simp add: under_lock_def revoke_commitment_def store_revoke_commitment_def demo_call_env_def
        update_where_def)
  then show ?thesis
    using commitments_permanent [OF agent_reaches_once, of m demo_committed demo_agent demo_call_env
        "RevokeCommitment ''m1'' ''r''"] m(1) by auto
qed

theorem panic_ends_the_agent_witness:
  "\<exists>st1. create_commitment demo_libs demo_ed25519 (ag_add_days demo_agent) demo_call_env [''c1''] (Some (10 ^ 9)) demo_extracted =
     (Panicked, st1) \<and> invoke demo_agent demo_call_env ListCommitments st1 = st1 \<and>
     under_lock (reading (list_commitments demo_call_env)) st1 = (Failed POISONED, st1)"
proof -
  obtain c0 where ready: "demo_ready c0 demo_extracted"
    using demo_extracted_ready by blast
  then obtain db where k: "signing_key demo_libs demo_ed25519 demo_call_env (as_db demo_extracted) = (Done (replicate 32 0), db)"
      and db: "db_claims db = [c0]"
    using demo_signing_key by blast
  obtain r st1 where c: "create_commitment demo_libs demo_ed25519 (ag_add_days demo_agent) demo_call_env [''c1'']
      (Some (10 ^ 9)) demo_extracted = (r, st1)"
    by (cases "create_commitment demo_libs demo_ed25519 (ag_add_days demo_agent) demo_call_env [''c1'']
      (Some (10 ^ 9)) demo_extracted")
  have t: "build_tree (el_hash demo_libs) [demo_leaf_hash] = Done demo_tree_c1"
    using demo_build_c1 by (simp add: demo_libs_def)
  have d: "ag_add_days demo_agent (ee_now demo_call_env) (10 ^ 9) = None"
    by (simp add: demo_agent_def)
  have "as_poisoned demo_extracted = False" and "[''c1''] \<noteq> []"
    using demo_extracted_db by simp_all
  then show ?thesis
    using panic_ends_the_agent [where f = "reading (list_commitments demo_call_env)" and add_days = "ag_add_days demo_agent",
        OF _ _ k demo_extracted_hashes [OF ready db] t d c agent_reaches_once [of demo_agent st1 demo_call_env ListCommitments]] c
    by auto
qed

theorem created_commitment_opens_witness:
  "\<exists>m. row_by cm_id ''m1'' (db_commitments (as_db demo_committed)) = Some m \<and> cm_claim_ids m = [''c1''] \<and>
     current_root demo_libs demo_edge_env (as_db demo_committed) m = from_hex demo_codec (cm_root m)"
proof -
  have libs: "digests (el_hash demo_libs)" "el_codec demo_libs = demo_codec" "ee_sqlite demo_edge_env = None"
    by (simp_all add: demo_libs_def demo_hash_digests demo_edge_env_def)
  obtain m where "create_commitment demo_libs demo_ed25519 (ag_add_days demo_agent) demo_call_env [''c1''] (Some 365)
      demo_extracted = (Done m, demo_committed)" and "cm_id m = ''m1''"
    using demo_commit by blast
  then show ?thesis
    using created_commitment_opens [OF _ libs(1), where env' = demo_edge_env and db = "as_db demo_committed"]
      demo_hex_ok libs by metis
qed

section \<open>Extraction\<close>

text \<open>
  The prompt asks the model for an object with the claims only. Such a response has no
  \<open>raw_response\<close>, so it does not parse as the result, and no claim is extracted from it.
\<close>

lemma response_as_asked_gives_nothing:
  assumes "\<And>r v. parse r = Some v \<Longrightarrow> \<exists>obj. v = VObject obj \<and> (\<forall>w. (''raw_response'', w) \<notin> set obj)"
  shows "claims_of_response fl parse response \<in> {Done [], Panicked}"
proof -
  have "Option.bind (parse r) (extraction_result fl) = None" for r
    using assms [of r]
    by (cases "parse r")
       (auto simp: extraction_result_def struct_fields_def Let_def split: Option.bind_splits if_splits)
  then show ?thesis
    by (auto simp: claims_of_response_def split: option.splits)
qed

end
