(* ===== verification/EdgeUi.thy ===== *)
theory EdgeUi
  imports EdgeCommands
begin

text \<open>
  The window of the edge agent (\<open>apps/edge-agent/ui/src\<close>): the five screens, their state, what their
  handlers do with what a command answers, and what they display. A screen loads its data when it
  is mounted and is discarded when the user leaves it. A handler runs from the click to its last
  \<open>setState\<close>, with what the user answers in dialogs as arguments; the alerts it shows are listed.
  Captions, styles and symbols are left out; dates and numbers are rendered by \<open>ui_locale\<close>.

  The lemmas show that a screen that was loaded goes on showing what the agent stores, and that
  only verified claims are committed to from the window.
\<close>

section \<open>What a command answers\<close>

text \<open>
  \<open>invoke\<close> gives a promise: of the command's response, rejected when the command fails, and never
  settled when it panics.
\<close>

datatype 'a promise = Success 'a | Failure string | Rejected string | Unsettled

primrec promise_of :: "('a \<Rightarrow> 'b) \<Rightarrow> 'a command \<Rightarrow> 'b promise" where
  "promise_of f (Done x) = Success (f x)"
| "promise_of f (Reported e) = Failure e"
| "promise_of f (Failed e) = Rejected e"
| "promise_of f Panicked = Unsettled"

text \<open>\<open>Promise.all\<close>: rejected if one is, else unsettled if one is, else both responses.\<close>

fun unsettled :: "'a promise \<Rightarrow> bool" where
  "unsettled Unsettled = True"
| "unsettled p = False"

fun rejected :: "'a promise \<Rightarrow> bool" where
  "rejected (Rejected e) = True"
| "rejected p = False"

text \<open>\<open>response.success ? response.data : d\<close>\<close>

fun data_or :: "'a \<Rightarrow> 'a promise \<Rightarrow> 'a" where
  "data_or d (Success x) = x"
| "data_or d p = d"

record 'f ui_double = "'f double" +
  fl_divide :: "'f \<Rightarrow> 'f \<Rightarrow> 'f"
  fl_at_least :: "'f \<Rightarrow> 'f \<Rightarrow> bool"
  fl_math_round :: "'f \<Rightarrow> int"

record 'f ui_locale =
  lo_date :: "time_ms \<Rightarrow> string"
  lo_date_time :: "time_ms \<Rightarrow> string"
  lo_json :: "'f Value \<Rightarrow> string"
  lo_number :: "'f Value \<Rightarrow> string"

datatype 'v page = LoadingPage | Page 'v

section \<open>Dashboard\<close>

record Stats =
  evidenceCount :: nat
  claimsCount :: nat
  verifiedClaimsCount :: nat
  commitmentsCount :: nat

record Dashboard =
  da_stats :: Stats
  da_loading :: bool

definition Dashboard_initial :: Dashboard where
  "Dashboard_initial = \<lparr>da_stats = \<lparr>evidenceCount = 0, claimsCount = 0, verifiedClaimsCount = 0, commitmentsCount = 0\<rparr>,
     da_loading = True\<rparr>"

text \<open>The three requests, of which only lengths and the flags of the claims are used.\<close>

definition loadStats :: "nat promise \<Rightarrow> bool list promise \<Rightarrow> nat promise \<Rightarrow> Dashboard \<Rightarrow> Dashboard" where
  "loadStats evidenceRes claimsRes commitmentsRes s =
     (if rejected evidenceRes \<or> rejected claimsRes \<or> rejected commitmentsRes then s\<lparr>da_loading := False\<rparr>
      else if unsettled evidenceRes \<or> unsettled claimsRes \<or> unsettled commitmentsRes then s
      else
        let claims = data_or [] claimsRes
        in \<lparr>da_stats = \<lparr>evidenceCount = data_or 0 evidenceRes, claimsCount = length claims,
              verifiedClaimsCount = length (filter (\<lambda>v. v) claims), commitmentsCount = data_or 0 commitmentsRes\<rparr>,
            da_loading = False\<rparr>)"

record DashboardView =
  dv_evidence_documents :: nat
  dv_total_claims :: nat
  dv_verified_claims :: nat
  dv_active_commitments :: nat
  dv_verification_rate :: int

definition Dashboard_render :: "'f ui_double \<Rightarrow> Dashboard \<Rightarrow> DashboardView page" where
  "Dashboard_render fl s =
     (if da_loading s then LoadingPage
      else let stats = da_stats s; num = (\<lambda>n. fl_of_u64 fl (word_of_nat n)) in
        Page \<lparr>dv_evidence_documents = evidenceCount stats, dv_total_claims = claimsCount stats,
          dv_verified_claims = verifiedClaimsCount stats, dv_active_commitments = commitmentsCount stats,
          dv_verification_rate =
            (if claimsCount stats > 0
             then fl_math_round fl (fl_times fl (fl_divide fl (num (verifiedClaimsCount stats)) (num (claimsCount stats))) (num 100))
             else 0)\<rparr>)"

section \<open>Evidence\<close>

record EvidenceItem =
  ei_id :: string
  ei_evidence_type :: string
  ei_original_filename :: "string option"
  ei_content_hash :: string
  ei_extracted_text :: "string option"
  ei_created_at :: time_ms

definition evidence_item :: "EvidenceRow \<Rightarrow> EvidenceItem" where
  "evidence_item r = \<lparr>ei_id = er_id r, ei_evidence_type = er_evidence_type r,
     ei_original_filename = er_original_filename r, ei_content_hash = er_content_hash r,
     ei_extracted_text = er_extracted_text r, ei_created_at = er_created_at r\<rparr>"

record EvidenceScreen =
  es_evidence :: "EvidenceItem list"
  es_loading :: bool
  es_importing :: bool

definition Evidence_initial :: EvidenceScreen where
  "Evidence_initial = \<lparr>es_evidence = [], es_loading = True, es_importing = False\<rparr>"

fun loadEvidence :: "EvidenceItem list promise \<Rightarrow> EvidenceScreen \<Rightarrow> EvidenceScreen" where
  "loadEvidence (Success items) s = s\<lparr>es_evidence := items, es_loading := False\<rparr>"
| "loadEvidence Unsettled s = s"
| "loadEvidence p s = s\<lparr>es_loading := False\<rparr>"

text \<open>What the file dialog gives: a path, nothing, or an error.\<close>

datatype dialog = Chosen string | Cancelled | DialogError

fun document_imported :: "EvidenceItem promise \<Rightarrow> EvidenceScreen \<Rightarrow> EvidenceScreen \<times> string list" where
  "document_imported (Success item) s = (s\<lparr>es_evidence := item # es_evidence s, es_importing := False\<rparr>, [])"
| "document_imported (Failure e) s = (s\<lparr>es_importing := False\<rparr>, [''Import failed: '' @ e])"
| "document_imported (Rejected e) s = (s\<lparr>es_importing := False\<rparr>, [''Failed to import document''])"
| "document_imported Unsettled s = (s, [])"

definition importDocument ::
  "'f agent \<Rightarrow> EdgeEnv \<Rightarrow> dialog \<Rightarrow> EvidenceScreen \<Rightarrow> 'f AppState \<Rightarrow> (EvidenceScreen \<times> string list) \<times> 'f AppState" where
  "importDocument ag env selected s st =
     (case selected of
        DialogError \<Rightarrow> ((s\<lparr>es_importing := False\<rparr>, [''Failed to import document'']), st)
      | Cancelled \<Rightarrow> ((s\<lparr>es_importing := False\<rparr>, []), st)
      | Chosen path \<Rightarrow>
          let (r, st') = ingest_document (ag_libs ag) (ag_files ag) env path ''certificate'' st
          in (document_imported (promise_of evidence_item r) (s\<lparr>es_importing := True\<rparr>), st'))"

fun evidence_deleted :: "string \<Rightarrow> bool promise \<Rightarrow> EvidenceScreen \<Rightarrow> EvidenceScreen" where
  "evidence_deleted i (Success found) s = s\<lparr>es_evidence := filter (\<lambda>e. ei_id e \<noteq> i) (es_evidence s)\<rparr>"
| "evidence_deleted i p s = s"

definition deleteEvidence ::
  "EdgeEnv \<Rightarrow> bool \<Rightarrow> string \<Rightarrow> EvidenceScreen \<Rightarrow> 'f AppState \<Rightarrow> EvidenceScreen \<times> 'f AppState" where
  "deleteEvidence env confirmed i s st =
     (if \<not> confirmed then (s, st)
      else let (r, st') = under_lock (delete_evidence env i) st
           in (evidence_deleted i (promise_of (\<lambda>b. b) r) s, st'))"

fun claims_extracted :: "nat promise \<Rightarrow> string list" where
  "claims_extracted (Success n) = [''Extracted '' @ show_nat n @ '' claims. View them in the Claims tab.'']"
| "claims_extracted (Failure e) = [''Extraction failed: '' @ e]"
| "claims_extracted (Rejected e) = [''Failed to extract claims'']"
| "claims_extracted Unsettled = []"

text \<open>The prompt gives a text, possibly empty, or nothing; its default is a fixed product.\<close>

definition extractClaims ::
  "'f agent \<Rightarrow> EdgeEnv \<Rightarrow> string option \<Rightarrow> string \<Rightarrow> 'f AppState \<Rightarrow> string list \<times> 'f AppState" where
  "extractClaims ag env answer evidenceId st =
     (case js_or_null answer of
        None \<Rightarrow> ([], st)
      | Some productId \<Rightarrow>
          let (r, st') = extract_claims (ag_libs ag) (ag_ollama ag) (ag_ollama_base ag) env evidenceId productId st
          in (claims_extracted (promise_of length r), st'))"

record EvidenceRowView =
  ev_key :: string
  ev_filename :: string
  ev_type :: string
  ev_has_text :: bool
  ev_imported :: string
  ev_extract_disabled :: bool
  ev_extract_title :: string

record EvidenceView =
  ev_import_disabled :: bool
  ev_rows :: "EvidenceRowView list option"

definition evidence_row :: "'f ui_locale \<Rightarrow> EvidenceItem \<Rightarrow> EvidenceRowView" where
  "evidence_row lo item =
     (let has_text = js_truthy_opt (ei_extracted_text item) in
      \<lparr>ev_key = ei_id item, ev_filename = js_or_opt (ei_original_filename item) ''Unknown'',
       ev_type = ei_evidence_type item, ev_has_text = has_text, ev_imported = lo_date lo (ei_created_at item),
       ev_extract_disabled = (\<not> has_text),
       ev_extract_title = (if \<not> has_text then ''No text to extract from'' else ''Extract claims using AI'')\<rparr>)"

text \<open>No rows are a message instead of a table: \<open>None\<close>.\<close>

definition table :: "'r list \<Rightarrow> 'r list option" where
  "table rows = (if length rows = 0 then None else Some rows)"

definition Evidence_render :: "'f ui_locale \<Rightarrow> EvidenceScreen \<Rightarrow> EvidenceView page" where
  "Evidence_render lo s =
     (if es_loading s then LoadingPage
      else Page \<lparr>ev_import_disabled = es_importing s, ev_rows = table (map (evidence_row lo) (es_evidence s))\<rparr>)"

section \<open>Claims\<close>

record 'f UiClaim =
  uc_id :: string
  uc_claim_type :: string
  uc_value :: "'f Value"
  uc_unit :: string
  uc_product_id :: string
  uc_confidence :: "'f option"
  uc_verified :: bool
  uc_created_at :: time_ms

definition ui_claim :: "'f ClaimRow \<Rightarrow> 'f UiClaim" where
  "ui_claim r = \<lparr>uc_id = cl_id r, uc_claim_type = cl_claim_type r, uc_value = cl_value r, uc_unit = cl_unit r,
     uc_product_id = cl_product_id r, uc_confidence = cl_confidence r, uc_verified = cl_verified r,
     uc_created_at = cl_created_at r\<rparr>"

record 'f ClaimsScreen =
  cs_claims :: "'f UiClaim list"
  cs_loading :: bool

definition Claims_initial :: "'f ClaimsScreen" where
  "Claims_initial = \<lparr>cs_claims = [], cs_loading = True\<rparr>"

fun loadClaims :: "'f UiClaim list promise \<Rightarrow> 'f ClaimsScreen \<Rightarrow> 'f ClaimsScreen" where
  "loadClaims (Success items) s = s\<lparr>cs_claims := items, cs_loading := False\<rparr>"
| "loadClaims Unsettled s = s"
| "loadClaims p s = s\<lparr>cs_loading := False\<rparr>"

text \<open>Each screen flips what it holds then; the command sets what the handler saw.\<close>

fun verification_toggled :: "string \<Rightarrow> bool promise \<Rightarrow> 'f ClaimsScreen \<Rightarrow> 'f ClaimsScreen" where
  "verification_toggled i (Success found) s =
     s\<lparr>cs_claims := map (\<lambda>c. if uc_id c = i then c\<lparr>uc_verified := \<not> uc_verified c\<rparr> else c) (cs_claims s)\<rparr>"
| "verification_toggled i p s = s"

definition toggleVerified ::
  "EdgeEnv \<Rightarrow> 'f UiClaim \<Rightarrow> 'f ClaimsScreen \<Rightarrow> 'f AppState \<Rightarrow> 'f ClaimsScreen \<times> 'f AppState" where
  "toggleVerified env claim s st =
     (let (r, st') = under_lock (verify_claim env (uc_id claim) (\<not> uc_verified claim)) st
      in (verification_toggled (uc_id claim) (promise_of (\<lambda>b. b) r) s, st'))"

fun claim_deleted :: "string \<Rightarrow> bool promise \<Rightarrow> 'f ClaimsScreen \<Rightarrow> 'f ClaimsScreen" where
  "claim_deleted i (Success found) s = s\<lparr>cs_claims := filter (\<lambda>c. uc_id c \<noteq> i) (cs_claims s)\<rparr>"
| "claim_deleted i p s = s"

definition deleteClaim ::
  "EdgeEnv \<Rightarrow> bool \<Rightarrow> string \<Rightarrow> 'f ClaimsScreen \<Rightarrow> 'f AppState \<Rightarrow> 'f ClaimsScreen \<times> 'f AppState" where
  "deleteClaim env confirmed i s st =
     (if \<not> confirmed then (s, st)
      else let (r, st') = under_lock (delete_claim env i) st
           in (claim_deleted i (promise_of (\<lambda>b. b) r) s, st'))"

text \<open>The double nearest to \<open>n / 10\<close>, as the literals 0.8 and 0.5 are.\<close>

definition tenths :: "'f ui_double \<Rightarrow> nat \<Rightarrow> 'f" where
  "tenths fl n = fl_divide fl (fl_of_u64 fl (word_of_nat n)) (fl_of_u64 fl 10)"

definition getConfidenceClass :: "'f ui_double \<Rightarrow> 'f option \<Rightarrow> string" where
  "getConfidenceClass fl confidence =
     (case confidence of
        None \<Rightarrow> []
      | Some c \<Rightarrow> if fl_at_least fl c (tenths fl 8) then []
                  else if fl_at_least fl c (tenths fl 5) then ''medium'' else ''low'')"

fun formatValue :: "'f ui_locale \<Rightarrow> 'f Value \<Rightarrow> string" where
  "formatValue lo (VString s) = s"
| "formatValue lo (VBool b) = (if b then ''true'' else ''false'')"
| "formatValue lo (VUInt n) = lo_number lo (VUInt n)"
| "formatValue lo (VNegInt i) = lo_number lo (VNegInt i)"
| "formatValue lo (VFloat f) = lo_number lo (VFloat f)"
| "formatValue lo v = lo_json lo v"

definition spaced :: "string \<Rightarrow> string" where
  "spaced s = map (\<lambda>c. if c = CHR ''_'' then CHR '' '' else c) s"

record 'f ClaimRowView =
  cv_key :: string
  cv_type :: string
  cv_value :: string
  cv_unit :: string
  cv_product :: string
  cv_confidence :: "(string \<times> 'f \<times> int) option"
  cv_verified :: bool
  cv_button :: string

text \<open>The bar of a confidence has a class and a width, and the percentage below it.\<close>

definition claim_row :: "'f ui_double \<Rightarrow> 'f ui_locale \<Rightarrow> 'f UiClaim \<Rightarrow> 'f ClaimRowView" where
  "claim_row fl lo claim =
     \<lparr>cv_key = uc_id claim, cv_type = spaced (uc_claim_type claim), cv_value = formatValue lo (uc_value claim),
      cv_unit = uc_unit claim, cv_product = uc_product_id claim,
      cv_confidence = map_option (\<lambda>c. let width = fl_times fl c (fl_of_u64 fl 100)
        in (getConfidenceClass fl (Some c), width, fl_math_round fl width)) (uc_confidence claim),
      cv_verified = uc_verified claim, cv_button = (if uc_verified claim then ''Unverify'' else ''Verify'')\<rparr>"

record 'f ClaimsView =
  cv_all :: nat
  cv_verified_count :: nat
  cv_pending_count :: nat
  cv_rows :: "'f ClaimRowView list option"

definition Claims_render :: "'f ui_double \<Rightarrow> 'f ui_locale \<Rightarrow> 'f ClaimsScreen \<Rightarrow> 'f ClaimsView page" where
  "Claims_render fl lo s =
     (if cs_loading s then LoadingPage
      else Page \<lparr>cv_all = length (cs_claims s), cv_verified_count = length (filter uc_verified (cs_claims s)),
        cv_pending_count = length (filter (\<lambda>c. \<not> uc_verified c) (cs_claims s)),
        cv_rows = table (map (claim_row fl lo) (cs_claims s))\<rparr>)"

section \<open>Commitments\<close>

record UiCommitment =
  um_id :: string
  um_root :: string
  um_claim_count :: nat
  um_claim_ids :: "string list"
  um_public_key :: string
  um_signature :: string
  um_valid_until :: "time_ms option"
  um_revoked :: bool
  um_created_at :: time_ms

definition ui_commitment :: "CommitmentRow \<Rightarrow> UiCommitment" where
  "ui_commitment r = \<lparr>um_id = cm_id r, um_root = cm_root r, um_claim_count = cm_claim_count r,
     um_claim_ids = cm_claim_ids r, um_public_key = cm_public_key r, um_signature = cm_signature r,
     um_valid_until = cm_valid_until r, um_revoked = cm_revoked r, um_created_at = cm_created_at r\<rparr>"

record 'f CommitmentsScreen =
  ms_commitments :: "UiCommitment list"
  ms_claims :: "'f UiClaim list"
  ms_loading :: bool
  ms_selectedClaims :: "string list"
  ms_showCreateDialog :: bool

definition Commitments_initial :: "'f CommitmentsScreen" where
  "Commitments_initial = \<lparr>ms_commitments = [], ms_claims = [], ms_loading = True, ms_selectedClaims = [],
     ms_showCreateDialog = False\<rparr>"

definition loadData ::
  "UiCommitment list promise \<Rightarrow> 'f UiClaim list promise \<Rightarrow> 'f CommitmentsScreen \<Rightarrow> 'f CommitmentsScreen" where
  "loadData commitmentsRes claimsRes s =
     (if rejected commitmentsRes \<or> rejected claimsRes then s\<lparr>ms_loading := False\<rparr>
      else if unsettled commitmentsRes \<or> unsettled claimsRes then s
      else s\<lparr>ms_commitments := data_or (ms_commitments s) commitmentsRes,
             ms_claims := data_or (ms_claims s) claimsRes, ms_loading := False\<rparr>)"

fun commitment_created :: "UiCommitment promise \<Rightarrow> 'f CommitmentsScreen \<Rightarrow> 'f CommitmentsScreen \<times> string list" where
  "commitment_created (Success m) s =
     (s\<lparr>ms_commitments := m # ms_commitments s, ms_selectedClaims := [], ms_showCreateDialog := False\<rparr>,
      [''Commitment created successfully!''])"
| "commitment_created (Failure e) s = (s, [''Failed: '' @ e])"
| "commitment_created (Rejected e) s = (s, [''Failed to create commitment''])"
| "commitment_created Unsettled s = (s, [])"

definition createCommitment ::
  "'f agent \<Rightarrow> EdgeEnv \<Rightarrow> 'f CommitmentsScreen \<Rightarrow> 'f AppState \<Rightarrow>
     ('f CommitmentsScreen \<times> string list) \<times> 'f AppState" where
  "createCommitment ag env s st =
     (if length (ms_selectedClaims s) = 0 then ((s, [''Please select at least one claim'']), st)
      else let (r, st') = create_commitment (ag_libs ag) (ag_ed25519 ag) (ag_add_days ag) env
                  (ms_selectedClaims s) (Some 365) st
           in (commitment_created (promise_of ui_commitment r) s, st'))"

fun commitment_revoked :: "string \<Rightarrow> bool promise \<Rightarrow> 'f CommitmentsScreen \<Rightarrow> 'f CommitmentsScreen" where
  "commitment_revoked i (Success found) s =
     s\<lparr>ms_commitments := map (\<lambda>c. if um_id c = i then c\<lparr>um_revoked := True\<rparr> else c) (ms_commitments s)\<rparr>"
| "commitment_revoked i p s = s"

definition revokeCommitment ::
  "EdgeEnv \<Rightarrow> string option \<Rightarrow> string \<Rightarrow> 'f CommitmentsScreen \<Rightarrow> 'f AppState \<Rightarrow> 'f CommitmentsScreen \<times> 'f AppState" where
  "revokeCommitment env answer i s st =
     (case js_or_null answer of
        None \<Rightarrow> (s, st)
      | Some reason \<Rightarrow>
          let (r, st') = under_lock (revoke_commitment env i reason) st
          in (commitment_revoked i (promise_of (\<lambda>b. b) r) s, st'))"

definition toggleClaimSelection :: "string \<Rightarrow> 'f CommitmentsScreen \<Rightarrow> 'f CommitmentsScreen" where
  "toggleClaimSelection claimId s =
     s\<lparr>ms_selectedClaims :=
        (if claimId \<in> set (ms_selectedClaims s) then filter (\<lambda>i. i \<noteq> claimId) (ms_selectedClaims s)
         else ms_selectedClaims s @ [claimId])\<rparr>"

definition verifiedClaims :: "'f CommitmentsScreen \<Rightarrow> 'f UiClaim list" where
  "verifiedClaims s = filter uc_verified (ms_claims s)"

record CommitmentRowView =
  mv_key :: string
  mv_root :: string
  mv_claims :: nat
  mv_expires :: string
  mv_revoked :: bool
  mv_revoke_button :: bool

definition commitment_row :: "'f ui_locale \<Rightarrow> UiCommitment \<Rightarrow> CommitmentRowView" where
  "commitment_row lo m =
     \<lparr>mv_key = um_id m, mv_root = take 16 (um_root m) @ ''...'', mv_claims = um_claim_count m,
      mv_expires = (case um_valid_until m of Some t \<Rightarrow> lo_date lo t | None \<Rightarrow> ''Never''),
      mv_revoked = um_revoked m, mv_revoke_button = (\<not> um_revoked m)\<rparr>"

text \<open>The dialog: the verified claims with their boxes, and the button below.\<close>

record CreateDialog =
  cd_claims :: "(string \<times> bool \<times> string \<times> string) list option"
  cd_create_disabled :: bool
  cd_create_count :: nat

definition create_dialog :: "'f ui_locale \<Rightarrow> 'f CommitmentsScreen \<Rightarrow> CreateDialog" where
  "create_dialog lo s =
     \<lparr>cd_claims = table (map (\<lambda>c. (uc_id c, uc_id c \<in> set (ms_selectedClaims s), spaced (uc_claim_type c),
        formatValue lo (uc_value c))) (verifiedClaims s)),
      cd_create_disabled = (length (ms_selectedClaims s) = 0), cd_create_count = length (ms_selectedClaims s)\<rparr>"

record CommitmentsView =
  mv_create_disabled :: bool
  mv_rows :: "CommitmentRowView list option"
  mv_dialog :: "CreateDialog option"

definition Commitments_render :: "'f ui_locale \<Rightarrow> 'f CommitmentsScreen \<Rightarrow> CommitmentsView page" where
  "Commitments_render lo s =
     (if ms_loading s then LoadingPage
      else Page \<lparr>mv_create_disabled = (length (verifiedClaims s) = 0),
        mv_rows = table (map (commitment_row lo) (ms_commitments s)),
        mv_dialog = (if ms_showCreateDialog s then Some (create_dialog lo s) else None)\<rparr>)"

section \<open>Settings\<close>

record SettingsScreen =
  se_settings :: AppSettings
  se_keypair :: "KeypairInfo option"
  se_loading :: bool
  se_saving :: bool

definition Settings_initial :: SettingsScreen where
  "Settings_initial = \<lparr>se_settings = \<lparr>st_supplier_id = None, st_supplier_name = None, st_ollama_url = None,
     st_ollama_model = None\<rparr>, se_keypair = None, se_loading = True, se_saving = False\<rparr>"

definition loadSettings ::
  "AppSettings promise \<Rightarrow> KeypairInfo option promise \<Rightarrow> SettingsScreen \<Rightarrow> SettingsScreen" where
  "loadSettings settingsRes keypairRes s =
     (if rejected settingsRes \<or> rejected keypairRes then s\<lparr>se_loading := False\<rparr>
      else if unsettled settingsRes \<or> unsettled keypairRes then s
      else s\<lparr>se_settings := data_or (se_settings s) settingsRes,
             se_keypair := data_or (se_keypair s) keypairRes, se_loading := False\<rparr>)"

text \<open>Any response counts as saved, whatever it says.\<close>

fun settings_saved :: "bool promise \<Rightarrow> SettingsScreen \<Rightarrow> SettingsScreen \<times> string list" where
  "settings_saved (Rejected e) s = (s\<lparr>se_saving := False\<rparr>, [''Failed to save settings''])"
| "settings_saved Unsettled s = (s, [])"
| "settings_saved p s = (s\<lparr>se_saving := False\<rparr>, [''Settings saved!''])"

definition saveSettings ::
  "EdgeEnv \<Rightarrow> SettingsScreen \<Rightarrow> 'f AppState \<Rightarrow> (SettingsScreen \<times> string list) \<times> 'f AppState" where
  "saveSettings env s st =
     (let (r, st') = under_lock (update_settings env (se_settings s)) st
      in (settings_saved (promise_of (\<lambda>b. b) r) (s\<lparr>se_saving := True\<rparr>), st'))"

fun keypair_generated :: "KeypairInfo promise \<Rightarrow> SettingsScreen \<Rightarrow> SettingsScreen \<times> string list" where
  "keypair_generated (Success kp) s = (s\<lparr>se_keypair := Some kp\<rparr>, [''New keypair generated!''])"
| "keypair_generated (Failure e) s = (s, [''Failed: '' @ e])"
| "keypair_generated (Rejected e) s = (s, [''Failed to generate keypair''])"
| "keypair_generated Unsettled s = (s, [])"

definition generateNewKeypair ::
  "'f agent \<Rightarrow> EdgeEnv \<Rightarrow> bool \<Rightarrow> SettingsScreen \<Rightarrow> 'f AppState \<Rightarrow> (SettingsScreen \<times> string list) \<times> 'f AppState" where
  "generateNewKeypair ag env confirmed s st =
     (if \<not> confirmed then ((s, []), st)
      else let (r, st') = under_lock (generate_new_keypair (ag_libs ag) (ag_ed25519 ag) env) st
           in (keypair_generated (promise_of (\<lambda>k. k) r) s, st'))"

record SettingsView =
  sv_supplier_id :: string
  sv_supplier_name :: string
  sv_ollama_url :: string
  sv_ollama_model :: string
  sv_keypair :: "(string \<times> string) option"
  sv_save_disabled :: bool

definition Settings_render :: "'f ui_locale \<Rightarrow> SettingsScreen \<Rightarrow> SettingsView page" where
  "Settings_render lo s =
     (if se_loading s then LoadingPage
      else let settings = se_settings s in
        Page \<lparr>sv_supplier_id = js_or_opt (st_supplier_id settings) [],
          sv_supplier_name = js_or_opt (st_supplier_name settings) [],
          sv_ollama_url = js_or_opt (st_ollama_url settings) [],
          sv_ollama_model = js_or_opt (st_ollama_model settings) [],
          sv_keypair = map_option (\<lambda>kp. (ki_public_key kp, lo_date_time lo (ki_created_at kp))) (se_keypair s),
          sv_save_disabled = se_saving s\<rparr>)"

section \<open>The window\<close>

datatype 'f Screen =
  OnDashboard Dashboard
| OnEvidence EvidenceScreen
| OnClaims "'f ClaimsScreen"
| OnCommitments "'f CommitmentsScreen"
| OnSettings SettingsScreen
| NoScreen

definition ask :: "'f AppState \<Rightarrow> ('f EdgeDb \<Rightarrow> 'a command) \<Rightarrow> ('a \<Rightarrow> 'b) \<Rightarrow> 'b promise" where
  "ask st query f = promise_of f (fst (under_lock (reading query) st))"

text \<open>The routes of \<open>App.tsx\<close>, each screen after its effect has run.\<close>

definition mount :: "EdgeEnv \<Rightarrow> string \<Rightarrow> 'f AppState \<Rightarrow> 'f Screen" where
  "mount env path st =
     (if path = ''/'' then OnDashboard (loadStats (ask st (list_evidence env) length)
        (ask st (list_claims env None) (map cl_verified)) (ask st (list_commitments env) length) Dashboard_initial)
      else if path = ''/evidence'' then
        OnEvidence (loadEvidence (ask st (list_evidence env) (map evidence_item)) Evidence_initial)
      else if path = ''/claims'' then
        OnClaims (loadClaims (ask st (list_claims env None) (map ui_claim)) Claims_initial)
      else if path = ''/commitments'' then
        OnCommitments (loadData (ask st (list_commitments env) (map ui_commitment))
          (ask st (list_claims env None) (map ui_claim)) Commitments_initial)
      else if path = ''/settings'' then
        OnSettings (loadSettings (ask st (get_settings env) (\<lambda>x. x)) (ask st (get_keypair env) (\<lambda>x. x)) Settings_initial)
      else NoScreen)"

datatype setting = SupplierId | SupplierName | OllamaUrl | OllamaModel

fun edit_setting :: "setting \<Rightarrow> string \<Rightarrow> AppSettings \<Rightarrow> AppSettings" where
  "edit_setting SupplierId v s = s\<lparr>st_supplier_id := Some v\<rparr>"
| "edit_setting SupplierName v s = s\<lparr>st_supplier_name := Some v\<rparr>"
| "edit_setting OllamaUrl v s = s\<lparr>st_ollama_url := Some v\<rparr>"
| "edit_setting OllamaModel v s = s\<lparr>st_ollama_model := Some v\<rparr>"

text \<open>What the user can do: the buttons and fields, with the rows they are in and what dialogs answer.\<close>

datatype action =
  ClickImport dialog
| ClickDeleteEvidence string bool
| ClickExtract string "string option"
| ClickVerify string
| ClickDeleteClaim string bool
| ClickOpenDialog
| ClickCloseDialog
| ClickClaimBox string
| ClickCreate
| ClickRevoke string "string option"
| EditSetting setting string
| ClickSave
| ClickNewKeypair bool

text \<open>A button that is not displayed, or disabled, cannot be clicked.\<close>

fun on_evidence :: "'f agent \<Rightarrow> EdgeEnv \<Rightarrow> action \<Rightarrow> EvidenceScreen \<Rightarrow> 'f AppState \<Rightarrow> EvidenceScreen \<times> 'f AppState" where
  "on_evidence ag env (ClickImport selected) s st =
     (if es_importing s then (s, st) else map_prod fst (\<lambda>t. t) (importDocument ag env selected s st))"
| "on_evidence ag env (ClickDeleteEvidence i confirmed) s st =
     (if i \<in> ei_id ` set (es_evidence s) then deleteEvidence env confirmed i s st else (s, st))"
| "on_evidence ag env (ClickExtract i answer) s st =
     (if \<exists>e \<in> set (es_evidence s). ei_id e = i \<and> js_truthy_opt (ei_extracted_text e)
      then (s, snd (extractClaims ag env answer i st)) else (s, st))"
| "on_evidence ag env act s st = (s, st)"

fun on_claims :: "EdgeEnv \<Rightarrow> action \<Rightarrow> 'f ClaimsScreen \<Rightarrow> 'f AppState \<Rightarrow> 'f ClaimsScreen \<times> 'f AppState" where
  "on_claims env (ClickVerify i) s st =
     (case find (\<lambda>c. uc_id c = i) (cs_claims s) of
        None \<Rightarrow> (s, st) | Some claim \<Rightarrow> toggleVerified env claim s st)"
| "on_claims env (ClickDeleteClaim i confirmed) s st =
     (if i \<in> uc_id ` set (cs_claims s) then deleteClaim env confirmed i s st else (s, st))"
| "on_claims env act s st = (s, st)"

fun on_commitments ::
  "'f agent \<Rightarrow> EdgeEnv \<Rightarrow> action \<Rightarrow> 'f CommitmentsScreen \<Rightarrow> 'f AppState \<Rightarrow> 'f CommitmentsScreen \<times> 'f AppState" where
  "on_commitments ag env ClickOpenDialog s st =
     ((if verifiedClaims s = [] then s else s\<lparr>ms_showCreateDialog := True\<rparr>), st)"
| "on_commitments ag env ClickCloseDialog s st = (s\<lparr>ms_showCreateDialog := False\<rparr>, st)"
| "on_commitments ag env (ClickClaimBox i) s st =
     ((if ms_showCreateDialog s \<and> i \<in> uc_id ` set (verifiedClaims s) then toggleClaimSelection i s else s), st)"
| "on_commitments ag env ClickCreate s st =
     (if ms_showCreateDialog s \<and> ms_selectedClaims s \<noteq> []
      then map_prod fst (\<lambda>t. t) (createCommitment ag env s st) else (s, st))"
| "on_commitments ag env (ClickRevoke i answer) s st =
     (if \<exists>m \<in> set (ms_commitments s). um_id m = i \<and> \<not> um_revoked m
      then revokeCommitment env answer i s st else (s, st))"
| "on_commitments ag env act s st = (s, st)"

fun on_settings :: "'f agent \<Rightarrow> EdgeEnv \<Rightarrow> action \<Rightarrow> SettingsScreen \<Rightarrow> 'f AppState \<Rightarrow> SettingsScreen \<times> 'f AppState" where
  "on_settings ag env (EditSetting k v) s st = (s\<lparr>se_settings := edit_setting k v (se_settings s)\<rparr>, st)"
| "on_settings ag env ClickSave s st =
     (if se_saving s then (s, st) else map_prod fst (\<lambda>t. t) (saveSettings env s st))"
| "on_settings ag env (ClickNewKeypair confirmed) s st =
     map_prod fst (\<lambda>t. t) (generateNewKeypair ag env confirmed s st)"
| "on_settings ag env act s st = (s, st)"

fun page_loading :: "'f Screen \<Rightarrow> bool" where
  "page_loading (OnDashboard s) = da_loading s"
| "page_loading (OnEvidence s) = es_loading s"
| "page_loading (OnClaims s) = cs_loading s"
| "page_loading (OnCommitments s) = ms_loading s"
| "page_loading (OnSettings s) = se_loading s"
| "page_loading NoScreen = True"

definition perform :: "'f agent \<Rightarrow> EdgeEnv \<Rightarrow> action \<Rightarrow> 'f Screen \<Rightarrow> 'f AppState \<Rightarrow> 'f Screen \<times> 'f AppState" where
  "perform ag env act sc st =
     (if page_loading sc then (sc, st)
      else case sc of
        OnDashboard s \<Rightarrow> (sc, st)
      | OnEvidence s \<Rightarrow> map_prod OnEvidence (\<lambda>t. t) (on_evidence ag env act s st)
      | OnClaims s \<Rightarrow> map_prod OnClaims (\<lambda>t. t) (on_claims env act s st)
      | OnCommitments s \<Rightarrow> map_prod OnCommitments (\<lambda>t. t) (on_commitments ag env act s st)
      | OnSettings s \<Rightarrow> map_prod OnSettings (\<lambda>t. t) (on_settings ag env act s st)
      | NoScreen \<Rightarrow> (sc, st))"

text \<open>
  The clock has moved on since the newest document and commitment, and what is drawn at random has
  not been drawn before.
\<close>

definition fresh :: "'f agent \<Rightarrow> EdgeEnv \<Rightarrow> 'f EdgeDb \<Rightarrow> bool" where
  "fresh ag env db = ((\<forall>e \<in> set (db_evidence db). er_created_at (fst e) < ee_now env) \<and>
     (\<forall>m \<in> set (db_commitments db). cm_created_at m < ee_now env) \<and>
     ee_uuid env 0 \<notin> kp_id ` set (db_keypairs db) \<and>
     public_key (el_codec (ag_libs ag)) (ag_ed25519 ag) (ee_random env 0) \<notin> kp_public_key ` set (db_keypairs db))"

text \<open>A screen mounted at any time, with the database answering, and what the user then does in it.\<close>

inductive window_reaches :: "'f agent \<Rightarrow> 'f Screen \<Rightarrow> 'f AppState \<Rightarrow> bool" for ag where
  mounted: "agent_reaches ag initial_state st \<Longrightarrow> \<not> as_poisoned st \<Longrightarrow> ee_sqlite env = None \<Longrightarrow>
     window_reaches ag (mount env path st) st"
| acted: "window_reaches ag sc st \<Longrightarrow> fresh ag env (as_db st) \<Longrightarrow> perform ag env act sc st = (sc', st') \<Longrightarrow>
     window_reaches ag sc' st'"

inductive_cases window_reachesE: "window_reaches ag sc st"

section \<open>Orders\<close>

lemma order_desc_newest:
  "\<forall>y \<in> set xs. key y < key x \<Longrightarrow> order_desc key (xs @ [x]) = x # order_desc key xs"
proof -
  assume "\<forall>y \<in> set xs. key y < key x"
  then have "foldr (insort_key (\<lambda>r. - key r)) xs [x] = x # foldr (insort_key (\<lambda>r. - key r)) xs []"
    by (induction xs) auto
  then show ?thesis
    by (simp add: order_desc_def sort_key_def)
qed

lemma order_desc_filter: "order_desc key (filter P xs) = filter P (order_desc key xs)"
  by (simp add: order_desc_def filter_sort)

lemma order_desc_update:
  "(\<And>r. P r \<Longrightarrow> key (f r) = key r) \<Longrightarrow>
     order_desc key (update_where P f rows) = map (\<lambda>r. if P r then f r else r) (order_desc key rows)"
  unfolding update_where_def by (rule order_desc_map) simp

section \<open>A screen shows what is stored\<close>

fun displays :: "'f Screen \<Rightarrow> 'f EdgeDb \<Rightarrow> bool" where
  "displays (OnDashboard s) db = (da_stats s = \<lparr>evidenceCount = length (db_evidence db), claimsCount = length (db_claims db),
     verifiedClaimsCount = length (filter cl_verified (db_claims db)), commitmentsCount = length (db_commitments db)\<rparr>)"
| "displays (OnEvidence s) db =
     (es_evidence s = map evidence_item (order_desc er_created_at (map fst (db_evidence db))))"
| "displays (OnClaims s) db = (cs_claims s = map ui_claim (order_desc cl_created_at (db_claims db)))"
| "displays (OnCommitments s) db =
     (ms_commitments s = map ui_commitment (order_desc cm_created_at (db_commitments db)) \<and>
      ms_claims s = map ui_claim (order_desc cl_created_at (db_claims db)) \<and>
      set (ms_selectedClaims s) \<subseteq> uc_id ` set (verifiedClaims s))"
| "displays (OnSettings s) db = (se_keypair s = map_option keypair_info (find kp_is_active (db_keypairs db)))"
| "displays NoScreen db = True"

lemma ask_answered:
  "\<not> as_poisoned st \<Longrightarrow> query (as_db st) = Done x \<Longrightarrow> ask st query f = Success (f x)"
  by (simp add: ask_def under_lock_read)

lemma length_filter_desc: "length (filter P (order_desc key xs)) = length (filter P xs)"
  unfolding order_desc_filter [symmetric] by simp

lemma mount_shows:
  assumes "\<not> as_poisoned st" and "ee_sqlite env = None"
  shows "displays (mount env path st) (as_db st)"
proof -
  have q: "list_evidence env (as_db st) = Done (order_desc er_created_at (map fst (db_evidence (as_db st))))"
    "list_claims env None (as_db st) = Done (order_desc cl_created_at (db_claims (as_db st)))"
    "list_commitments env (as_db st) = Done (order_desc cm_created_at (db_commitments (as_db st)))"
    "get_keypair env (as_db st) = Done (map_option keypair_info (find kp_is_active (db_keypairs (as_db st))))"
    "\<exists>s. get_settings env (as_db st) = Done s"
    using assms(2) by (simp_all add: list_evidence_def store_list_evidence_def list_claims_def store_list_claims_def
        list_commitments_def store_list_commitments_def get_keypair_def get_active_keypair_def get_settings_def reported_def)
  then obtain s where "get_settings env (as_db st) = Done s"
    by blast
  then show ?thesis
    using assms(1) q by (auto simp: mount_def ask_answered loadStats_def Evidence_initial_def Claims_initial_def
        Commitments_initial_def loadData_def loadSettings_def length_filter_desc filter_map comp_def)
qed

lemma locked_cases:
  assumes "under_lock f st = (r, st')"
  obtains "r = Failed POISONED" "st' = st" | "f (as_db st) = (r, as_db st')" "r = fst (f (as_db st))" "as_db st' = snd (f (as_db st))"
  using assms by (cases "as_poisoned st"; cases "f (as_db st)") (auto simp: under_lock_def)

lemma inserted_evidence:
  "insert_evidence lib env e content db = Inr db' \<Longrightarrow> \<exists>raw. db_evidence db' = db_evidence db @ [(e, raw)]"
  by (auto simp: insert_evidence_def inr_iff)

lemma ingest_evidence:
  assumes "ingest_document libs files env path kind st = (r, st')"
  shows "(\<exists>e raw. r = Done e \<and> er_created_at e = ee_now env \<and>
      db_evidence (as_db st') = db_evidence (as_db st) @ [(e, raw)]) \<or>
    (\<forall>e. r \<noteq> Done e) \<and> db_evidence (as_db st') = db_evidence (as_db st)"
proof (cases "fa_read files path")
  case (Inr content)
  let ?e = "document_evidence libs files env path kind content"
  have "under_lock (store_evidence (el_codec libs) env ?e content) st = (r, st')"
    using assms Inr by (simp add: ingest_document_def)
  then show ?thesis
  proof (cases rule: locked_cases)
    case 2
    have "er_created_at ?e = ee_now env"
      by (simp add: document_evidence_def Let_def)
    then show ?thesis
      using 2(2,3) by (cases "insert_evidence (el_codec libs) env ?e (Some content) (as_db st)")
        (auto simp: store_evidence_def dest: inserted_evidence)
  qed auto
qed (use assms in \<open>auto simp: ingest_document_def\<close>)

interpretation evidence_kept: claim_relation "\<lambda>db db'. db_evidence db' = db_evidence db"
  by unfold_locales (auto simp: insert_claim_def inr_iff)

lemma delete_evidence_rows:
  assumes "under_lock (delete_evidence env i) st = (r, st')"
  shows "(\<exists>b. r = Done b) \<and> db_evidence (as_db st') = filter (\<lambda>e. er_id (fst e) \<noteq> i) (db_evidence (as_db st)) \<or>
    (\<forall>b. r \<noteq> Done b) \<and> db_evidence (as_db st') = db_evidence (as_db st)"
  using assms by (cases rule: locked_cases)
    (auto simp: delete_evidence_def store_delete_evidence_def delete_row_def reported_def split: option.splits)

lemma evidence_shows:
  assumes "displays (OnEvidence s) (as_db st)" and "fresh ag env (as_db st)" and "on_evidence ag env act s st = (s', st')"
  shows "displays (OnEvidence s') (as_db st')"
proof -
  have newest: "order_desc er_created_at (map fst (db_evidence (as_db st)) @ [e]) =
      e # order_desc er_created_at (map fst (db_evidence (as_db st)))" if "er_created_at e = ee_now env" for e
    using assms(2) that by (intro order_desc_newest) (auto simp: fresh_def)
  show ?thesis
  proof (cases act)
    case (ClickImport selected)
    show ?thesis
    proof (cases "es_importing s \<or> (\<forall>path. selected \<noteq> Chosen path)")
      case True
      then show ?thesis
        using assms(1,3) ClickImport by (cases selected) (auto simp: importDocument_def split: if_splits)
    next
      case False
      then obtain path r where "ingest_document (ag_libs ag) (ag_files ag) env path ''certificate'' st = (r, st')"
          and "s' = fst (document_imported (promise_of evidence_item r) (s\<lparr>es_importing := True\<rparr>))"
        using assms(3) ClickImport by (auto simp: importDocument_def split: prod.splits)
      then show ?thesis
        using assms(1) newest ingest_evidence [of "ag_libs ag" "ag_files ag" env path "''certificate''" st r st']
        by (cases r) auto
    qed
  next
    case (ClickDeleteEvidence i confirmed)
    show ?thesis
    proof (cases "i \<in> ei_id ` set (es_evidence s) \<and> confirmed")
      case True
      then obtain r where r: "under_lock (delete_evidence env i) st = (r, st')"
          and s': "s' = evidence_deleted i (promise_of (\<lambda>b. b) r) s"
        using assms(3) ClickDeleteEvidence by (auto simp: deleteEvidence_def split: prod.splits)
      have "map evidence_item (order_desc er_created_at (map fst (filter (\<lambda>e. er_id (fst e) \<noteq> i) rows))) =
          filter (\<lambda>e. ei_id e \<noteq> i) (map evidence_item (order_desc er_created_at (map fst rows)))"
        for rows :: "(EvidenceRow \<times> bytes option) list"
        by (simp add: filter_map comp_def evidence_item_def flip: order_desc_filter)
      then show ?thesis
        using delete_evidence_rows [OF r] assms(1) s' by (cases r) auto
    qed (use assms ClickDeleteEvidence in \<open>auto simp: deleteEvidence_def split: if_splits\<close>)
  next
    case (ClickExtract i answer)
    then have "s' = s" and "db_evidence (as_db st') = db_evidence (as_db st)"
      using assms(3) evidence_kept.extracting [where st = st]
      by (auto simp: extractClaims_def split: if_splits option.splits prod.splits dest!: arg_cong [where f = snd])
    then show ?thesis
      using assms(1) by simp
  qed (use assms in auto)
qed

section \<open>Claims and commitments\<close>

lemma order_desc_member: "x \<in> set (order_desc key xs) \<longleftrightarrow> x \<in> set xs"
  by simp

lemma verified_rows:
  assumes "under_lock (verify_claim env i v) st = (r, st')" and "unique_on cl_id (db_claims (as_db st))"
  shows "(\<exists>b. r = Done b) \<and> db_claims (as_db st') = update_where (\<lambda>c. cl_id c = i)
      (\<lambda>c. c\<lparr>cl_verified := v, cl_updated_at := ee_now env\<rparr>) (db_claims (as_db st)) \<or>
    (\<forall>b. r \<noteq> Done b) \<and> db_claims (as_db st') = db_claims (as_db st)"
  using assms(1)
proof (cases rule: locked_cases)
  case 2
  show ?thesis
  proof (cases "load_claim env (as_db st) ''Claim not found'' i")
    case (Done claim)
    then have c: "row_by cl_id i (db_claims (as_db st)) = Some claim" and up: "ee_sqlite env = None"
      by (auto simp: load_claim_def store_get_claim_def done_iff inr_iff)
    have same: "r = claim" if "r \<in> set (db_claims (as_db st))" "cl_id r = i" for r
      using that c row_by_unique [OF assms(2), of r] by simp
    have "update_where (\<lambda>c. cl_id c = i) (\<lambda>c. claim\<lparr>cl_verified := v, cl_updated_at := ee_now env, cl_created_at := cl_created_at c,
        cl_updated_at := ee_now env\<rparr>) (db_claims (as_db st)) = update_where (\<lambda>c. cl_id c = i)
        (\<lambda>c. c\<lparr>cl_verified := v, cl_updated_at := ee_now env\<rparr>) (db_claims (as_db st))"
      unfolding update_where_def using same by (intro map_cong refl) auto
    then show ?thesis
      using 2(2,3) Done up row_by_Some [OF c]
      by (simp add: verify_claim_def store_update_claim_def reported_def)
  qed (use 2(2,3) in \<open>simp_all add: verify_claim_def\<close>)
qed auto

lemma deleted_rows:
  assumes "under_lock (delete_claim env i) st = (r, st')"
  shows "(\<exists>b. r = Done b) \<and> db_claims (as_db st') = filter (\<lambda>c. cl_id c \<noteq> i) (db_claims (as_db st)) \<or>
    (\<forall>b. r \<noteq> Done b) \<and> db_claims (as_db st') = db_claims (as_db st)"
  using assms by (cases rule: locked_cases)
    (auto simp: delete_claim_def store_delete_claim_def delete_row_def reported_def split: option.splits)

lemma ui_claim_id [simp]: "uc_id (ui_claim c) = cl_id c" "uc_verified (ui_claim c) = cl_verified c"
  by (simp_all add: ui_claim_def)

lemma claims_shows:
  assumes "displays (OnClaims s) (as_db st)" and "unique_on cl_id (db_claims (as_db st))"
    and "on_claims env act s st = (s', st')"
  shows "displays (OnClaims s') (as_db st')"
proof (cases act)
  case (ClickVerify i)
  show ?thesis
  proof (cases "find (\<lambda>c. uc_id c = i) (cs_claims s)")
    case None
    then show ?thesis
      using assms ClickVerify by auto
  next
    case (Some claim)
    obtain r where r: "under_lock (verify_claim env (uc_id claim) (\<not> uc_verified claim)) st = (r, st')"
        and s': "s' = verification_toggled (uc_id claim) (promise_of (\<lambda>b. b) r) s"
      using assms(3) ClickVerify Some by (auto simp: toggleVerified_def split: prod.splits)
    have "claim \<in> set (cs_claims s)"
      using row_by_Some [of uc_id i "cs_claims s" claim] Some by (simp add: row_by_def)
    then obtain row where row: "row \<in> set (db_claims (as_db st))" "claim = ui_claim row"
      using assms(1) by auto
    have same: "q = row" if "q \<in> set (db_claims (as_db st))" "cl_id q = cl_id row" for q
      using row_by_unique [OF assms(2) that(1)] row_by_unique [OF assms(2) row(1)] that(2)
      by (metis option.inject)
    have "order_desc cl_created_at (update_where (\<lambda>c. cl_id c = cl_id row)
        (\<lambda>c. c\<lparr>cl_verified := \<not> cl_verified row, cl_updated_at := ee_now env\<rparr>) (db_claims (as_db st))) =
      map (\<lambda>c. if cl_id c = cl_id row then c\<lparr>cl_verified := \<not> cl_verified row, cl_updated_at := ee_now env\<rparr> else c)
        (order_desc cl_created_at (db_claims (as_db st)))"
      by (rule order_desc_update) simp
    moreover have "map ui_claim (map (\<lambda>c. if cl_id c = cl_id row
          then c\<lparr>cl_verified := \<not> cl_verified row, cl_updated_at := ee_now env\<rparr> else c)
        (order_desc cl_created_at (db_claims (as_db st)))) =
      map (\<lambda>c. if uc_id c = cl_id row then c\<lparr>uc_verified := \<not> uc_verified c\<rparr> else c)
        (map ui_claim (order_desc cl_created_at (db_claims (as_db st))))"
      unfolding map_map using same by (intro map_cong refl) (auto simp: ui_claim_def)
    ultimately show ?thesis
      using verified_rows [OF r assms(2)] s' row(2) assms(1) by (cases r) auto
  qed
next
  case (ClickDeleteClaim i confirmed)
  show ?thesis
  proof (cases "i \<in> uc_id ` set (cs_claims s) \<and> confirmed")
    case True
    then obtain r where r: "under_lock (delete_claim env i) st = (r, st')"
        and s': "s' = claim_deleted i (promise_of (\<lambda>b. b) r) s"
      using assms(3) ClickDeleteClaim by (auto simp: deleteClaim_def split: prod.splits)
    then show ?thesis
      using deleted_rows [OF r] assms(1) by (cases r) (auto simp: order_desc_filter filter_map comp_def)
  qed (use assms ClickDeleteClaim in \<open>auto simp: deleteClaim_def split: if_splits\<close>)
qed (use assms in auto)

lemma keypair_keeps:
  "db_claims (snd (insert_keypair env kp db)) = db_claims db"
  "db_commitments (snd (insert_keypair env kp db)) = db_commitments db"
  by (auto simp: insert_keypair_def Let_def split: option.splits)

lemma add_keypair_keeps:
  "db_claims (snd (add_keypair libs ed env db)) = db_claims db \<and>
   db_commitments (snd (add_keypair libs ed env db)) = db_commitments db"
proof (cases "stored_keypair libs ed env")
  case (Inr stored)
  then show ?thesis
    using keypair_keeps [of env stored db]
    by (cases "insert_keypair env stored db"; cases "fst (insert_keypair env stored db)") (auto simp: add_keypair_def)
qed (simp add: add_keypair_def)

lemma signing_key_keeps:
  "db_claims (snd (signing_key libs ed env db)) = db_claims db"
  "db_commitments (snd (signing_key libs ed env db)) = db_commitments db"
  using snd_then_do [of "add_keypair libs ed env db" "\<lambda>_ db'. (Done (ee_random env 0), db')"]
    add_keypair_keeps [of libs ed env db]
  by (auto simp: signing_key_def split: sum.splits option.splits)

lemma commit_rows:
  assumes "commit_claims libs ed add_days env claim_ids days db = (r, db')"
  shows "db_claims db' = db_claims db \<and>
    ((\<exists>m. r = Done m \<and> cm_created_at m = ee_now env \<and> cm_claim_ids m = claim_ids \<and>
        db_commitments db' = db_commitments db @ [m]) \<or>
     (\<forall>m. r \<noteq> Done m) \<and> db_commitments db' = db_commitments db)"
proof (cases r)
  case (Done m)
  with assms have "commit_claims libs ed add_days env claim_ids days db = (Done m, db')"
    by simp
  then obtain kp db1 where k: "signing_key libs ed env db = (Done kp, db1)"
      and s: "signed_commitment libs ed add_days env claim_ids days kp db1 = Done m"
      and i: "insert_commitment env m db1 = Inr db'"
    by (rule commit_claims_Done)
  have "cm_created_at m = ee_now env \<and> cm_claim_ids m = claim_ids \<and>
      m\<lparr>cm_revoked_at := None, cm_revoked_reason := None\<rparr> = m"
    using s by (elim signed_commitment_Done) simp
  moreover have "db_claims db' = db_claims db1"
    using i by (auto simp: insert_commitment_def inr_iff)
  ultimately show ?thesis
    using signing_key_keeps [of libs ed env db] k inserted_commitments [OF i] Done by simp
next
  case failed: (Reported e)
  then show ?thesis
    using assms signing_key_keeps [of libs ed env db]
    by (cases "signing_key libs ed env db"; cases "fst (signing_key libs ed env db)")
      (auto simp: commit_claims_def then_do_def split: command.splits sum.splits)
next
  case failed: (Failed e)
  then show ?thesis
    using assms signing_key_keeps [of libs ed env db]
    by (cases "signing_key libs ed env db"; cases "fst (signing_key libs ed env db)")
      (auto simp: commit_claims_def then_do_def split: command.splits sum.splits)
next
  case Panicked
  then show ?thesis
    using assms signing_key_keeps [of libs ed env db]
    by (cases "signing_key libs ed env db"; cases "fst (signing_key libs ed env db)")
      (auto simp: commit_claims_def then_do_def split: command.splits sum.splits)
qed

lemma created_rows:
  assumes "create_commitment libs ed add_days env claim_ids days st = (r, st')"
  shows "db_claims (as_db st') = db_claims (as_db st) \<and>
    ((\<exists>m. r = Done m \<and> cm_created_at m = ee_now env \<and> cm_claim_ids m = claim_ids \<and>
        db_commitments (as_db st') = db_commitments (as_db st) @ [m]) \<or>
     (\<forall>m. r \<noteq> Done m) \<and> db_commitments (as_db st') = db_commitments (as_db st))"
proof (cases "claim_ids = []")
  case False
  then have "under_lock (commit_claims libs ed add_days env claim_ids days) st = (r, st')"
    using assms by (simp add: create_commitment_def)
  then show ?thesis
  proof (cases rule: locked_cases)
    case 2
    show ?thesis
      using 2(1) by (rule commit_rows)
  qed simp
qed (use assms in \<open>auto simp: create_commitment_def\<close>)

lemma revoked_rows:
  assumes "under_lock (revoke_commitment env i reason) st = (r, st')"
  shows "db_claims (as_db st') = db_claims (as_db st) \<and>
    ((\<exists>b. r = Done b) \<and> db_commitments (as_db st') = update_where (\<lambda>c. cm_id c = i)
      (\<lambda>c. c\<lparr>cm_revoked := True, cm_revoked_at := Some (ee_now env), cm_revoked_reason := Some reason\<rparr>)
      (db_commitments (as_db st)) \<or>
    (\<forall>b. r \<noteq> Done b) \<and> db_commitments (as_db st') = db_commitments (as_db st))"
  using assms by (cases rule: locked_cases)
    (auto simp: revoke_commitment_def store_revoke_commitment_def reported_def split: option.splits)

lemma ui_commitment_simps [simp]: "um_id (ui_commitment m) = cm_id m" "um_revoked (ui_commitment m) = cm_revoked m"
  by (simp_all add: ui_commitment_def)

lemma toggled_selection:
  "set (ms_selectedClaims (toggleClaimSelection i s)) \<subseteq> insert i (set (ms_selectedClaims s))"
  "verifiedClaims (toggleClaimSelection i s) = verifiedClaims s"
  "ms_commitments (toggleClaimSelection i s) = ms_commitments s"
  "ms_claims (toggleClaimSelection i s) = ms_claims s"
  by (auto simp: toggleClaimSelection_def verifiedClaims_def)

lemma commitments_shows:
  assumes "displays (OnCommitments s) (as_db st)" and "fresh ag env (as_db st)"
    and "on_commitments ag env act s st = (s', st')"
  shows "displays (OnCommitments s') (as_db st')"
proof (cases act)
  case ClickCreate
  show ?thesis
  proof (cases "ms_showCreateDialog s \<and> ms_selectedClaims s \<noteq> []")
    case True
    then obtain r where r: "create_commitment (ag_libs ag) (ag_ed25519 ag) (ag_add_days ag) env (ms_selectedClaims s)
          (Some 365) st = (r, st')"
        and s': "s' = fst (commitment_created (promise_of ui_commitment r) s)"
      using assms(3) ClickCreate by (auto simp: createCommitment_def split: prod.splits)
    have "order_desc cm_created_at (db_commitments (as_db st) @ [m]) =
        m # order_desc cm_created_at (db_commitments (as_db st))" if "cm_created_at m = ee_now env" for m
      using assms(2) that by (intro order_desc_newest) (auto simp: fresh_def)
    then show ?thesis
      using created_rows [OF r] s' assms(1) by (cases r) (auto simp: verifiedClaims_def)
  qed (use assms ClickCreate in auto)
next
  case (ClickRevoke i answer)
  show ?thesis
  proof (cases "js_or_null answer = None \<or> (s', st') = (s, st)")
    case False
    then obtain reason r where r: "under_lock (revoke_commitment env i reason) st = (r, st')"
        and s': "s' = commitment_revoked i (promise_of (\<lambda>b. b) r) s"
      using assms(3) ClickRevoke by (auto simp: revokeCommitment_def split: prod.splits if_splits option.splits)
    have "map ui_commitment (order_desc cm_created_at (update_where (\<lambda>c. cm_id c = i)
        (\<lambda>c. c\<lparr>cm_revoked := True, cm_revoked_at := Some (ee_now env), cm_revoked_reason := Some reason\<rparr>) rows)) =
      map (\<lambda>c. if um_id c = i then c\<lparr>um_revoked := True\<rparr> else c) (map ui_commitment (order_desc cm_created_at rows))"
      for rows
      by (subst order_desc_update) (auto simp: ui_commitment_def)
    then show ?thesis
      using revoked_rows [OF r] s' assms(1) by (cases r) (auto simp: verifiedClaims_def)
  qed (use assms ClickRevoke in \<open>auto simp: revokeCommitment_def split: if_splits\<close>)
next
  case (ClickClaimBox i)
  then show ?thesis
    using assms(1,3) toggled_selection [of i s] by (auto split: if_splits)
qed (use assms in \<open>auto simp: verifiedClaims_def split: if_splits\<close>)

section \<open>Keys\<close>

lemma saved_keypairs: "db_keypairs (snd (set_settings env kvs db)) = db_keypairs db"
  by (induction env kvs db rule: set_settings.induct)
     (auto simp: set_setting_def inr_iff split: sum.splits)

lemma generated_keypair:
  assumes "fresh ag env db" and "generate_new_keypair (ag_libs ag) (ag_ed25519 ag) env db = (r, db')"
  shows "(\<exists>kp. r = Done kp \<and> map_option keypair_info (find kp_is_active (db_keypairs db')) = Some kp) \<or>
    (\<forall>kp. r \<noteq> Done kp) \<and> db_keypairs db' = db_keypairs db"
proof (cases "stored_keypair (ag_libs ag) (ag_ed25519 ag) env")
  case (Inl e)
  then show ?thesis
    using assms(2) by (auto simp: generate_new_keypair_def add_keypair_def)
next
  case (Inr stored)
  let ?off = "map (\<lambda>k. k\<lparr>kp_is_active := False\<rparr>) (db_keypairs db)"
  have stored: "kp_id stored = ee_uuid env 0" "kp_is_active stored"
      "kp_public_key stored = public_key (el_codec (ag_libs ag)) (ag_ed25519 ag) (ee_random env 0)"
    using Inr by (auto simp: stored_keypair_def inr_iff)
  have "kp_id stored \<notin> kp_id ` set ?off" and "kp_public_key stored \<notin> kp_public_key ` set ?off"
    using assms(1) stored by (auto simp: fresh_def image_iff)
  then have "insert_keypair env stored db =
      (case ee_sqlite env of Some e \<Rightarrow> (Inl e, db) | None \<Rightarrow> (Inr (), db\<lparr>db_keypairs := ?off @ [stored]\<rparr>))"
    using stored(2) by (cases "ee_sqlite env") (simp_all add: insert_keypair_def Let_def)
  moreover have "find kp_is_active (map (\<lambda>k. k\<lparr>kp_is_active := False\<rparr>) kps @ [stored]) = Some stored" for kps
    using stored(2) by (induction kps) auto
  ultimately show ?thesis
    using assms(2) Inr
    by (cases "ee_sqlite env") (auto simp: generate_new_keypair_def add_keypair_def)
qed

lemma settings_shows:
  assumes "displays (OnSettings s) (as_db st)" and "fresh ag env (as_db st)"
    and "on_settings ag env act s st = (s', st')"
  shows "displays (OnSettings s') (as_db st')"
proof (cases act)
  case ClickSave
  show ?thesis
  proof (cases "se_saving s")
    case False
    then obtain r where r: "under_lock (update_settings env (se_settings s)) st = (r, st')"
        and s': "s' = fst (settings_saved (promise_of (\<lambda>b. b) r) (s\<lparr>se_saving := True\<rparr>))"
      using assms(3) ClickSave by (auto simp: saveSettings_def split: prod.splits)
    have "db_keypairs (as_db st') = db_keypairs (as_db st)"
      using r by (cases rule: locked_cases) (simp_all add: update_settings_def saved_keypairs)
    then show ?thesis
      using s' assms(1) by (cases r) auto
  qed (use assms ClickSave in auto)
next
  case (ClickNewKeypair confirmed)
  show ?thesis
  proof (cases confirmed)
    case True
    then obtain r where r: "under_lock (generate_new_keypair (ag_libs ag) (ag_ed25519 ag) env) st = (r, st')"
        and s': "s' = fst (keypair_generated (promise_of (\<lambda>k. k) r) s)"
      using assms(3) ClickNewKeypair by (auto simp: generateNewKeypair_def split: prod.splits)
    from r show ?thesis
    proof (cases rule: locked_cases)
      case 2
      show ?thesis
        using generated_keypair [OF assms(2) 2(1)] s' assms(1) by (cases r) auto
    qed (use s' assms(1) in simp)
  qed (use assms ClickNewKeypair in \<open>auto simp: generateNewKeypair_def\<close>)
qed (use assms in auto)

section \<open>Sessions\<close>

text \<open>What the user does is an invocation, or leaves the agent as it is.\<close>

lemma agent_invoked:
  "snd (ingest_document (ag_libs ag) (ag_files ag) env path kind st) = invoke ag env (IngestDocument path kind) st"
  "snd (under_lock (delete_evidence env i) st) = invoke ag env (DeleteEvidence i) st"
  "snd (extract_claims (ag_libs ag) (ag_ollama ag) (ag_ollama_base ag) env i product st) =
     invoke ag env (ExtractClaims i product) st"
  "snd (under_lock (verify_claim env i v) st) = invoke ag env (VerifyClaim i v) st"
  "snd (under_lock (delete_claim env i) st) = invoke ag env (DeleteClaim i) st"
  "snd (create_commitment (ag_libs ag) (ag_ed25519 ag) (ag_add_days ag) env is days st) =
     invoke ag env (CreateCommitment is days) st"
  "snd (under_lock (revoke_commitment env i reason) st) = invoke ag env (RevokeCommitment i reason) st"
  "snd (under_lock (update_settings env settings) st) = invoke ag env (UpdateSettings settings) st"
  "snd (under_lock (generate_new_keypair (ag_libs ag) (ag_ed25519 ag) env) st) = invoke ag env GenerateNewKeypair st"
  by simp_all

lemma on_evidence_invokes: "snd (on_evidence ag env act s st) = st \<or> (\<exists>call. snd (on_evidence ag env act s st) = invoke ag env call st)"
  by (cases act) (auto simp: importDocument_def deleteEvidence_def extractClaims_def case_prod_beta agent_invoked [where ag = ag]
      simp del: invoke.simps split: dialog.splits option.splits)

lemma on_claims_invokes: "snd (on_claims env act s st) = st \<or> (\<exists>call. snd (on_claims env act s st) = invoke ag env call st)"
  by (cases act) (auto simp: toggleVerified_def deleteClaim_def case_prod_beta agent_invoked [where ag = ag]
      simp del: invoke.simps split: option.splits)

lemma on_commitments_invokes:
  "snd (on_commitments ag env act s st) = st \<or> (\<exists>call. snd (on_commitments ag env act s st) = invoke ag env call st)"
  by (cases act) (auto simp: createCommitment_def revokeCommitment_def case_prod_beta agent_invoked [where ag = ag]
      simp del: invoke.simps split: option.splits)

lemma on_settings_invokes:
  "snd (on_settings ag env act s st) = st \<or> (\<exists>call. snd (on_settings ag env act s st) = invoke ag env call st)"
  by (cases act) (auto simp: saveSettings_def generateNewKeypair_def case_prod_beta agent_invoked [where ag = ag]
      simp del: invoke.simps)

lemma perform_invokes: "snd (perform ag env act sc st) = st \<or> (\<exists>call. snd (perform ag env act sc st) = invoke ag env call st)"
proof (cases sc)
  case (OnEvidence s)
  then show ?thesis
    using on_evidence_invokes [of ag env act s st] by (simp add: perform_def del: invoke.simps)
next
  case (OnClaims s)
  then show ?thesis
    using on_claims_invokes [of env act s st ag] by (simp add: perform_def del: invoke.simps)
next
  case (OnCommitments s)
  then show ?thesis
    using on_commitments_invokes [of ag env act s st] by (simp add: perform_def del: invoke.simps)
next
  case (OnSettings s)
  then show ?thesis
    using on_settings_invokes [of ag env act s st] by (simp add: perform_def del: invoke.simps)
qed (simp_all add: perform_def)

lemma window_agent: "window_reaches ag sc st \<Longrightarrow> agent_reaches ag initial_state st"
proof (induction rule: window_reaches.induct)
  case (acted sc st env act sc' st')
  then show ?case
    using perform_invokes [of ag env act sc st] by (auto intro: agent_step)
qed

lemma window_displays: "window_reaches ag sc st \<Longrightarrow> displays sc (as_db st)"
proof (induction rule: window_reaches.induct)
  case (mounted st env path)
  then show ?case
    by (intro mount_shows)
next
  case (acted sc st env act sc' st')
  have "unique_on cl_id (db_claims (as_db st))"
    using reached_ok [OF window_agent [OF acted(1)]] by (simp add: agent_ok_def edge_ok_def)
  note step = acted(3) [unfolded perform_def] acted.IH
  show ?case
  proof (cases sc)
    case (OnEvidence s)
    then show ?thesis
      using step evidence_shows [of s st ag env act] acted(2)
      by (cases "on_evidence ag env act s st") (auto simp del: displays.simps split: if_splits)
  next
    case (OnClaims s)
    then show ?thesis
      using step claims_shows [of s st env act] \<open>unique_on cl_id _\<close>
      by (cases "on_claims env act s st") (auto simp del: displays.simps split: if_splits)
  next
    case (OnCommitments s)
    then show ?thesis
      using step commitments_shows [of s st ag env act] acted(2)
      by (cases "on_commitments ag env act s st") (auto simp del: displays.simps split: if_splits)
  next
    case (OnSettings s)
    then show ?thesis
      using step settings_shows [of s st ag env act] acted(2)
      by (cases "on_settings ag env act s st") (auto simp del: displays.simps split: if_splits)
  qed (use step in \<open>auto split: if_splits\<close>)
qed

section \<open>Properties\<close>


text \<open>C13: From the window only verified claims are committed to: whatever is done on the screen of
  commitments, a commitment that is new afterwards is to claims that are stored and verified.\<close>

theorem window_commits_verified_claims:
  assumes "window_reaches ag (OnCommitments s) st" and "on_commitments ag env act s st = (s', st')"
    and "m \<in> set (db_commitments (as_db st'))" and "cm_id m \<notin> cm_id ` set (db_commitments (as_db st))"
  shows "\<forall>i \<in> set (cm_claim_ids m). \<exists>c \<in> set (db_claims (as_db st)). cl_id c = i \<and> cl_verified c"
proof (cases act)
  case ClickCreate
  have shown: "displays (OnCommitments s) (as_db st)"
    using assms(1) by (rule window_displays)
  have "as_db st' \<noteq> as_db st"
    using assms(3,4) by auto
  then obtain r where r: "create_commitment (ag_libs ag) (ag_ed25519 ag) (ag_add_days ag) env (ms_selectedClaims s)
      (Some 365) st = (r, st')"
    using assms(2) ClickCreate by (auto simp: createCommitment_def split: prod.splits if_splits)
  then have ids: "cm_claim_ids m = ms_selectedClaims s"
    using created_rows [OF r] assms(3,4) by auto
  show ?thesis
  proof
    fix i
    assume "i \<in> set (cm_claim_ids m)"
    then have "i \<in> uc_id ` set (verifiedClaims s)"
      using shown ids by auto
    then show "\<exists>c \<in> set (db_claims (as_db st)). cl_id c = i \<and> cl_verified c"
      using shown by (auto simp: verifiedClaims_def)
  qed
next
  case (ClickRevoke i answer)
  have "cm_id ` set (db_commitments (as_db st')) = cm_id ` set (db_commitments (as_db st))"
  proof (cases "as_db st' = as_db st")
    case False
    then obtain reason r where r: "under_lock (revoke_commitment env i reason) st = (r, st')"
      using assms(2) ClickRevoke by (auto simp: revokeCommitment_def split: prod.splits if_splits option.splits)
    have ids: "cm_id ` set (update_where (\<lambda>c. cm_id c = i) (\<lambda>c. c\<lparr>cm_revoked := True, cm_revoked_at := Some (ee_now env),
        cm_revoked_reason := Some reason\<rparr>) rows) = cm_id ` set rows" for rows
      by (rule keys_update_where) simp
    have "db_commitments (as_db st') = update_where (\<lambda>c. cm_id c = i) (\<lambda>c. c\<lparr>cm_revoked := True,
        cm_revoked_at := Some (ee_now env), cm_revoked_reason := Some reason\<rparr>) (db_commitments (as_db st)) \<or>
        db_commitments (as_db st') = db_commitments (as_db st)"
      using revoked_rows [OF r] by blast
    then show ?thesis
      by (elim disjE) (simp_all only: ids)
  qed simp
  then show ?thesis
    using assms(3,4) by blast
qed (use assms in auto)

section \<open>An example\<close>

definition demo_later_env :: EdgeEnv where
  "demo_later_env = demo_call_env\<lparr>ee_now := 2000\<rparr>"

lemma demo_later_fresh:
  "demo_ready c st \<Longrightarrow> \<forall>e \<in> set (db_evidence (as_db st)). er_created_at (fst e) \<le> 1000 \<Longrightarrow> fresh demo_agent demo_later_env (as_db st)"
  by (auto simp: fresh_def demo_ready_def demo_later_env_def)

lemma demo_up [simp]: "ee_sqlite demo_call_env = None" "ee_sqlite demo_later_env = None"
  by (simp_all add: demo_call_env_def demo_later_env_def)

lemma demo_extracted_evidence: "\<forall>e \<in> set (db_evidence (as_db demo_extracted)). er_created_at (fst e) \<le> 1000"
proof -
  obtain r where "ingest_document demo_libs (ag_files demo_agent) demo_call_env ''a.txt'' ''certificate'' initial_state =
      (r, demo_imported)"
    by (simp add: demo_imported_def demo_agent_def) (metis prod.collapse)
  moreover have now: "ee_now demo_call_env = 1000" and none: "db_evidence (as_db initial_state) = []"
    by (simp_all add: demo_call_env_def initial_state_def)
  ultimately have "\<forall>e \<in> set (db_evidence (as_db demo_imported)). er_created_at (fst e) \<le> 1000"
    using ingest_evidence [of demo_libs "ag_files demo_agent" demo_call_env "''a.txt''" "''certificate''" initial_state r demo_imported]
    unfolding none by auto
  moreover have "db_evidence (as_db demo_extracted) = db_evidence (as_db demo_imported)"
    unfolding demo_extracted_def invoke.simps by (rule evidence_kept.extracting)
  ultimately show ?thesis
    by simp
qed

lemma demo_extracted_reached: "agent_reaches demo_agent initial_state demo_extracted"
  unfolding demo_extracted_def demo_imported_def by (intro agent_reaches.intros)

text \<open>The user verifies the claim.\<close>

definition demo_claims_screen :: "nat ClaimsScreen" where
  "demo_claims_screen = \<lparr>cs_claims = map ui_claim (db_claims (as_db demo_extracted)), cs_loading = False\<rparr>"

lemma demo_claims_mounted: "window_reaches demo_agent (OnClaims demo_claims_screen) demo_extracted"
proof -
  obtain c where ready: "demo_ready c demo_extracted"
    using demo_extracted_ready by blast
  have "mount demo_call_env ''/claims'' demo_extracted = OnClaims demo_claims_screen"
    using ready by (simp add: mount_def ask_answered demo_ready_def list_claims_def store_list_claims_def reported_def
        Claims_initial_def demo_claims_screen_def order_desc_def)
  moreover have "window_reaches demo_agent (mount demo_call_env ''/claims'' demo_extracted) demo_extracted"
    using ready by (intro mounted demo_extracted_reached) (simp_all add: demo_ready_def)
  ultimately show ?thesis
    by simp
qed

definition demo_verified :: "nat AppState" where
  "demo_verified = snd (on_claims demo_later_env (ClickVerify ''c1'') demo_claims_screen demo_extracted)"

lemma demo_verify:
  "\<exists>s. perform demo_agent demo_later_env (ClickVerify ''c1'') (OnClaims demo_claims_screen) demo_extracted =
     (OnClaims s, demo_verified) \<and> map uc_verified (cs_claims s) = [True]"
proof -
  obtain c where "demo_ready c demo_extracted" and "\<not> cl_verified c"
    using demo_extracted_ready by blast
  then show ?thesis
    by (simp add: perform_def demo_verified_def demo_claims_screen_def demo_ready_def toggleVerified_def
        under_lock_done verify_claim_def load_claim_def store_get_claim_def row_by_def reported_def or_reported_def
        store_update_claim_def ui_claim_def)
qed


text \<open>And commits to it.\<close>

lemma demo_verified_state:
  "\<exists>c. demo_ready c demo_verified \<and> cl_verified c \<and> db_evidence (as_db demo_verified) = db_evidence (as_db demo_extracted)"
proof -
  obtain c where "demo_ready c demo_extracted" and "\<not> cl_verified c"
    using demo_extracted_ready by blast
  then show ?thesis
    by (simp add: demo_verified_def demo_claims_screen_def demo_ready_def toggleVerified_def
        under_lock_done verify_claim_def load_claim_def store_get_claim_def row_by_def reported_def or_reported_def
        store_update_claim_def ui_claim_def update_where_def)
qed

lemma demo_verified_reached: "agent_reaches demo_agent initial_state demo_verified"
proof -
  have "demo_verified = demo_extracted \<or> (\<exists>call. demo_verified = invoke demo_agent demo_later_env call demo_extracted)"
    unfolding demo_verified_def by (rule on_claims_invokes)
  then show ?thesis
    using demo_extracted_reached by (metis agent_step)
qed

definition demo_commitments_screen :: "nat CommitmentsScreen" where
  "demo_commitments_screen = \<lparr>ms_commitments = [], ms_claims = map ui_claim (db_claims (as_db demo_verified)),
     ms_loading = False, ms_selectedClaims = [], ms_showCreateDialog = False\<rparr>"

lemma demo_selected:
  "window_reaches demo_agent (OnCommitments (demo_commitments_screen\<lparr>ms_showCreateDialog := True,
     ms_selectedClaims := [''c1'']\<rparr>)) demo_verified"
proof -
  obtain c where ready: "demo_ready c demo_verified" and v: "cl_verified c"
      and e: "db_evidence (as_db demo_verified) = db_evidence (as_db demo_extracted)"
    using demo_verified_state by blast
  have f: "fresh demo_agent demo_later_env (as_db demo_verified)"
    using ready demo_extracted_evidence by (intro demo_later_fresh) (simp_all add: e)
  have "mount demo_call_env ''/commitments'' demo_verified = OnCommitments demo_commitments_screen"
    using ready by (simp add: mount_def ask_answered demo_ready_def list_claims_def store_list_claims_def reported_def
        list_commitments_def store_list_commitments_def Commitments_initial_def demo_commitments_screen_def
        order_desc_def loadData_def)
  moreover have "window_reaches demo_agent (mount demo_call_env ''/commitments'' demo_verified) demo_verified"
    using ready by (intro mounted demo_verified_reached) (simp_all add: demo_ready_def)
  ultimately have m: "window_reaches demo_agent (OnCommitments demo_commitments_screen) demo_verified"
    by simp
  have "perform demo_agent demo_later_env ClickOpenDialog (OnCommitments demo_commitments_screen) demo_verified =
      (OnCommitments (demo_commitments_screen\<lparr>ms_showCreateDialog := True\<rparr>), demo_verified)"
    using ready v by (simp add: perform_def demo_commitments_screen_def verifiedClaims_def demo_ready_def)
  from acted [OF m f this]
  have d: "window_reaches demo_agent (OnCommitments (demo_commitments_screen\<lparr>ms_showCreateDialog := True\<rparr>)) demo_verified" .
  have "perform demo_agent demo_later_env (ClickClaimBox ''c1'')
        (OnCommitments (demo_commitments_screen\<lparr>ms_showCreateDialog := True\<rparr>)) demo_verified =
      (OnCommitments (demo_commitments_screen\<lparr>ms_showCreateDialog := True, ms_selectedClaims := [''c1'']\<rparr>), demo_verified)"
    using ready v by (simp add: perform_def demo_commitments_screen_def verifiedClaims_def demo_ready_def
        toggleClaimSelection_def)
  from acted [OF d f this] show ?thesis .
qed

theorem window_commits_verified_claims_witness:
  "\<exists>s' st' m c. on_commitments demo_agent demo_call_env ClickCreate
       (demo_commitments_screen\<lparr>ms_showCreateDialog := True, ms_selectedClaims := [''c1'']\<rparr>) demo_verified = (s', st') \<and>
     db_commitments (as_db st') = [m] \<and> c \<in> set (db_claims (as_db demo_verified)) \<and> cl_id c \<in> set (cm_claim_ids m) \<and>
     cl_verified c"
proof -
  let ?s = "demo_commitments_screen\<lparr>ms_showCreateDialog := True, ms_selectedClaims := [''c1'']\<rparr>"
  have libs: "ag_libs demo_agent = demo_libs" "ag_ed25519 demo_agent = demo_ed25519"
    by (simp_all add: demo_agent_def)
  obtain c where ready: "demo_ready c demo_verified"
    using demo_verified_state by blast
  obtain m st' where m: "create_commitment demo_libs demo_ed25519 (ag_add_days demo_agent) demo_call_env [''c1''] (Some 365)
      demo_verified = (Done m, st')" "cm_claim_ids m = [''c1'']" "db_commitments (as_db st') = [m]"
    using demo_commit_ready [OF ready] by blast
  obtain s' where s': "on_commitments demo_agent demo_call_env ClickCreate ?s demo_verified = (s', st')"
    using m(1) by (simp add: createCommitment_def libs)
  have "db_commitments (as_db demo_verified) = []"
    using ready by (simp add: demo_ready_def)
  then have "\<forall>i \<in> set (cm_claim_ids m). \<exists>c \<in> set (db_claims (as_db demo_verified)). cl_id c = i \<and> cl_verified c"
    using window_commits_verified_claims [OF demo_selected s', of m] m(3) by simp
  then show ?thesis
    using s' m(2,3) by auto
qed

end
