(* ===== verification/Spec2Isabelle.thy ===== *)
theory Spec2Isabelle
  imports Gateway JsonSchemas DppViews ChainBridge VerificationEscrow PaymentDistributor Generator AuthClient Services EdgeUi
begin

text \<open>
  A verification development for the ZK-DPP royalty protocol: its TypeScript services and
  packages, its smart contracts, its edge agent and its circuits.

  \<^bold>\<open>The program.\<close> A supplier runs the \<^emph>\<open>edge agent\<close> (\<open>apps/edge-agent\<close>), a window over a
  local database: documents are imported, claims are extracted from them, a Merkle commitment to
  verified claims is signed, and a Noir circuit (\<open>circuits/noir\<close>) proves a predicate of one claim.
  The \<^emph>\<open>verification gateway\<close> (\<open>services/verify-gateway\<close>) checks a proof package, signs a receipt
  and publishes a verification event on NATS. The \<^emph>\<open>passport builder\<close> (\<open>services/dpp-builder\<close>)
  records the event for the product it is bound to and serves views of the product's digital
  passport in three tiers of access. The \<^emph>\<open>metering service\<close> (\<open>services/metering-billing\<close>) records
  each event as a usage at the price of its predicate, draws up settlement statements and submits
  them, through \<open>packages/contracts\<close>, to the contract \<open>RoyaltySettlement\<close>; the contracts
  \<open>VerificationEscrow\<close> and \<open>PaymentDistributor\<close> hold deposits and fees. The services share the
  packages for errors, middleware, logs and metrics (\<open>packages/shared\<close>), the predicate registry and
  its generator (\<open>packages/predicate-lib\<close>), the protocol types (\<open>packages/schemas\<close>), the event bus
  (\<open>packages/event-bus\<close>) and the Keycloak client (\<open>packages/auth-client\<close>).

  \<^bold>\<open>The theories\<close>, one per component, in the order they build on each other:

  \<^item> \<open>Prelude\<close>: JavaScript values in HOL, maps in insertion order, and the locales
    \<open>keyed_map\<close>, \<open>measured_map\<close> and \<open>memo\<close> for loops that accumulate into a map and for caches.
  \<^item> \<open>ErrorCodes\<close>, \<open>Auth\<close>, \<open>RateLimit\<close>, \<open>Observability\<close> (\<open>packages/shared/src\<close>): codes, HTTP
    statuses and error classes; tokens, preHandlers, roles and guards; rate limits; metrics, loggers
    and request contexts.
  \<^item> \<open>Predicates\<close>, \<open>Generator\<close> (\<open>packages/predicate-lib\<close>): the registry as shipped and its
    lookups; the generator of circuits and of registry entries.
  \<^item> \<open>Schemas\<close>, \<open>JsonSchemas\<close> (\<open>packages/schemas\<close>): packages, receipts and events; the JSON schemas
    as data, what their keywords say of a value, and the guards over the compiled validators.
  \<^item> \<open>EventBus\<close> (\<open>packages/event-bus\<close>): the NATS client and the delivery loop, with the
    locales \<open>stable_handler\<close>, \<open>acking_handler\<close> and \<open>redelivery_safe_handler\<close> that the
    two subscribers interpret.
  \<^item> \<open>NonceStore\<close>, \<open>NoirCli\<close>, \<open>Verifier\<close>, \<open>Gateway\<close>
    (\<open>services/verify-gateway/src\<close>): the replay guard (locale \<open>replay_guard\<close>, interpreted
    on the store), the Noir backend over a file system, \<open>verify\<close> and \<open>POST /verify\<close>, then
    start-up and the read-only routes.
  \<^item> \<open>Tables\<close>: tables, queries and updates as all three databases use them.
  \<^item> \<open>DppStore\<close>, \<open>DppViews\<close> (\<open>services/dpp-builder/src\<close>): \<open>db/index.ts\<close>; then the view
    composer (locale \<open>latest_first\<close> on the order of the rows), the routes and the subscriber.
  \<^item> \<open>MeteringStore\<close>, \<open>MeteringRoutes\<close>, \<open>StatementLife\<close>
    (\<open>services/metering-billing/src\<close>): \<open>db/index.ts\<close>; the routes and the subscriber; the
    life of a statement in all runs of the service.
  \<^item> \<open>Services\<close> (the three \<open>src/index.ts\<close>): configuration, start, the way of a request through
    rate limit and authentication, shutdown.
  \<^item> \<open>AuthClient\<close> (\<open>packages/auth-client\<close>): every method of the Keycloak client, with the locale
    \<open>call_frame\<close> for what all calls keep.
  \<^item> \<open>Evm\<close>, \<open>Custody\<close>: what the contracts share: checked arithmetic on 256-bit words, imported
    contracts and the token as parameters, and the locales \<open>journalled\<close> (books that balance) and
    \<open>custodian\<close> (never owing more than is held).
  \<^item> \<open>RoyaltySettlement\<close>, \<open>VerificationEscrow\<close>, \<open>PaymentDistributor\<close> (\<open>contracts/src\<close>): one
    definition per function, the dispatch of transactions, runs.
  \<^item> \<open>ContractAbi\<close>, \<open>ContractClient\<close> (\<open>packages/contracts\<close>): the ABIs as shipped and every method
    of the client over an abstract ethers; \<open>ChainBridge\<close>: the client between the metering routes and
    the contract on a node.
  \<^item> \<open>Merkle\<close> (\<open>crates/commitments\<close>), \<open>Signing\<close> (\<open>crates/crypto\<close>), \<open>Circuits\<close>
    (\<open>circuits/noir\<close>): trees and proofs, signatures, and the circuits as the conjunctions of their
    assertions on fixed-width words.
  \<^item> \<open>EdgeStore\<close>, \<open>EdgeClaims\<close>, \<open>EdgeProver\<close>, \<open>EdgeCommands\<close>
    (\<open>apps/edge-agent/src-tauri/src\<close>): the database, reading and hashing of claims, inputs of the
    circuits, and the commands under the lock (locales \<open>claim_relation\<close> and \<open>edge_relation\<close> for what
    all commands keep); \<open>EdgeUi\<close> (\<open>apps/edge-agent/ui/src\<close>): the screens, their handlers and what
    they show.

  \<^bold>\<open>How the model follows the code.\<close> A definition has the name of the function, method or
  type it translates; a route is named by its verb and resource, and a short prefix tells
  namesakes apart (\<open>rs_\<close>, \<open>esc_\<close> and \<open>dst_\<close> the contracts, \<open>client_\<close> the contract client, \<open>noir_\<close>
  the circuits' library, \<open>store_\<close> the agent's storage). State is passed explicitly: the nonce store
  and the file system of the gateway, the tables of the databases, the storage of a contract, the
  state of NATS, of the chain and of a screen. What a call reads from outside (clock, random
  identifiers, environment variables, whether the database answers) is an argument, in the records
  \<open>VerifyEnv\<close>, \<open>DbEnv\<close>, \<open>MeterEnv\<close>, \<open>CallEnv\<close>, \<open>EdgeEnv\<close> and \<open>TxContext\<close>; a handler that awaits
  several times has one entry for each await. What is thrown or reverted is the left of a sum; a
  command of the agent can also panic; a reply is a status with a value or an error text. Times are
  integers of milliseconds, prices ten-thousandths, the resolution of the database columns;
  integers of contracts and circuits are words of their width.

  \<^bold>\<open>Third-party code is an argument\<close>: JOSE's token check and signature, \<open>nargo\<close>, the NATS client,
  ethers and the node, OpenZeppelin's base contracts and the ERC-20 token, Keycloak behind \<open>fetch\<close>,
  the rate-limit plugin, pino and prom-client, PostgreSQL's reading of texts as UUIDs, times and
  numbers, SQLite's failures, SHA-256, BLAKE3, Ed25519, AES and the hex and base64 codecs, Ollama,
  chrono's calendar, machine doubles, and Ajv's compiled validators. Named hypotheses
  state what the code relies on: \<open>compiled\<close>, \<open>digests\<close>, \<open>signature_scheme\<close>, \<open>hex_ok\<close>, \<open>executes\<close>,
  \<open>prompt_node\<close>, \<open>counts_per_key\<close>, \<open>honest_token\<close>. Nothing is assumed of the hash but the length of
  its digests: where soundness needs more, a theorem exhibits the collision instead.

  \<^bold>\<open>What the theorems show.\<close> Of the agent: in every reachable state each commitment is signed over
  its root; a commitment opens while its claims are unchanged, is permanent, and is made from the
  window to verified claims only; the screens show what is stored; a panic under the lock ends the
  agent. Of proofs: building a tree ends, its proofs verify and forging one gives a collision; the
  circuit for recycled content is sound against a commitment, and accepts what the agent prepares
  exactly when the claim satisfies the predicate. Of the gateway: that a body its
  validator accepts is a package the verifier can read, when exactly a package is accepted, what the receipt
  states, that receipts and events meet their schemas, and that a nonce cannot be used twice while
  the clock agrees with the package's date. Of the passport: that the database keeps its keys and references, which
  results each view shows, to whom a view is served, what the lower views do not disclose, and that
  acknowledged events are recorded. Of metering: that usages are recorded once and at the
  registered price, that statements add up, which states a statement can reach, that it is
  permanent, and that it is submitted once when requests do not overlap and fails for good when they
  do; that the database agrees with the contract, and that a statement gets settled. Of the
  contracts: that books balance, that statements are final, that dispute and finalisation exclude
  each other, that a distribution loses nothing, and that escrow and distributor stay solvent.
  Across the services: an accepted verification is billed and shown in the passport. The lemmas
  beside them record where the code falls short, such as claims whose type no circuit constrains.

  \<^bold>\<open>Bounds.\<close> All functions are total but the loop that builds a Merkle tree, a
  \<open>while_option\<close> that is shown to end; a tree has at most 33 levels and the circuits have room for
  proofs of eight. The search for the circuit directory is limited to six steps by the code. Runs
  of any length are lists of events or the reflexive transitive closure of a step relation, so
  no fuel is needed.

  \<^bold>\<open>Not modelled.\<close> Fastify's plugins, parsing and response filtering; canonical JSON in \<open>crates/commitments\<close> (an argument); opening the agent's database and
  the two health queries to Ollama; \<open>crates/zkp-core\<close>, which nothing uses; captions and styles of the
  window, and handlers that overlap; a token that calls back into a contract; the deployment files
  and test suites. Two requests to one service interleave at their awaits: this is modelled where a
  property depends on it (the Noir files, the submission of a statement) and is otherwise left
  out, each request being one step. A replay window that is not a number is left out of the
  gateway's start.
\<close>

section \<open>From the gateway to the passport and the books\<close>

text \<open>What a published event carries.\<close>

lemma published_event:
  assumes "postVerify cfg env schemaErrors hasBus eventId now pkg st = (resp, [event], st')"
  obtains receipt inputs where "resp_status resp = 200" and "resp_receipt resp = Some receipt"
    and "pp_publicInputs pkg = Some inputs"
    and "pp_predicateId pkg = Some (vr_predicateId receipt)"
    and "event = verification_event eventId now pkg inputs receipt"
proof -
  from assms obtain receipt st'' inputs where v: "verify cfg env pkg st = (Verified receipt, st'')"
    and "pp_publicInputs pkg = Some inputs" and "resp_status resp = 200"
    and "resp_receipt resp = Some receipt" and "event = verification_event eventId now pkg inputs receipt"
    by (auto simp: postVerify_def split: option.splits prod.splits VerifyResult.splits if_splits)
  moreover from v have "pp_predicateId pkg = Some (vr_predicateId receipt)"
    unfolding verify_Verified_iff by (auto simp: passes_guards_def createReceipt_Inr unsigned_receipt_def)
  ultimately show ?thesis using that by blast
qed

text \<open>C3: an accepted verification is billed: delivered to the metering subscriber while its database
  answers, the event adds exactly one usage, with the receipt's identifier and the verified
  predicate, at the price and in the currency the registry lists for that predicate, charged for the
  supplier the package names.\<close>

theorem accepted_verification_is_billed:
  assumes event: "postVerify cfg env schemaErrors hasBus eventId now pkg st = (resp, [event], st')"
    and receipt: "resp_receipt resp = Some receipt"
    and registry: "getPredicateById (me_registry menv) (canonicalId (vr_predicateId receipt)) = Own p"
    and up: "me_up menv" and time: "me_readTime menv (toISO now) = Some t"
    and fits: "usage_fits (usage_row menv (usage_request toISO event)
      (perVerification (pd_pricing p)) (currency (pd_pricing p)) t)"
    and fresh: "eventId \<notin> u_event_id ` set (usages db)" "me_uuid menv \<notin> u_id ` set (usages db)"
  shows "\<exists>u. usages (snd (metering_handle toISO (menv, event) db)) = usages db @ [u] \<and>
    u_event_id u = eventId \<and> u_receipt_id u = vr_id receipt \<and>
    u_predicate_id u = canonicalId (vr_predicateId receipt) \<and>
    u_supplier_id u = js_or_opt (Option.bind (pp_context pkg) ctx_supplierId) ''unknown'' \<and>
    u_verified_at u = t \<and> u_price u = perVerification (pd_pricing p) \<and> u_currency u = currency (pd_pricing p)"
proof -
  from event obtain inputs where e: "event = verification_event eventId now pkg inputs receipt"
    by (rule published_event) (use receipt in auto)
  let ?req = "usage_request toISO event"
  let ?row = "usage_row menv ?req (perVerification (pd_pricing p)) (currency (pd_pricing p)) t"
  have req: "ru_predicateId ?req = canonicalId (vr_predicateId receipt)" "ru_verifiedAt ?req = toISO now"
    "ru_eventId ?req = eventId" "ru_receiptId ?req = vr_id receipt"
    "ru_supplierId ?req = js_or_opt (Option.bind (pp_context pkg) ctx_supplierId) ''unknown''"
    by (simp_all add: usage_request_def e verification_event_def)
  have row: "u_id ?row = me_uuid menv" "u_event_id ?row = eventId" "u_receipt_id ?row = vr_id receipt"
    "u_predicate_id ?row = canonicalId (vr_predicateId receipt)" "u_verified_at ?row = t"
    "u_supplier_id ?row = js_or_opt (Option.bind (pp_context pkg) ctx_supplierId) ''unknown''"
    "u_price ?row = perVerification (pd_pricing p)" "u_currency ?row = currency (pd_pricing p)"
    by (simp_all add: usage_row_def req)
  have "recordUsage menv ?req db = Inr (?row, db\<lparr>usages := usages db @ [?row]\<rparr>)"
    using registry up time fits fresh
    by (simp add: recordUsage_def usage_price_def req with_time_def row Let_def)
  with row show ?thesis by (intro exI [of _ ?row]) simp
qed

text \<open>C4: an accepted verification reaches the passport: delivered to the passport builder while its
  database answers, the event of a package bound to a product adds a verification row, and from
  then on the product's authority view has the audit entry of that receipt and lists the predicate.\<close>

theorem accepted_verification_is_shown:
  assumes event: "postVerify cfg env schemaErrors hasBus eventId now pkg st = (resp, [event], st')"
    and receipt: "resp_receipt resp = Some receipt"
    and inputs: "pp_publicInputs pkg = Some inputs" "js_truthy (pi_productBinding inputs)"
    and product: "row_by (DppStore.product_binding denv) (pi_productBinding inputs) (products db) = Some product"
    and recorded: "dpp_handle (denv, event) db = (None, db')" and wf: "db_wf db"
    and later: "de_up env'" "\<And>p. p \<in> set (products db) \<Longrightarrow> de_readUuid env' (p_id p) = Some (p_id p)"
      "de_readUuid denv (p_id product) = Some (p_id product)"
  shows "\<exists>b infos n suppliers trail.
    composeDPPView registry env' (p_id product) AUTHORITY db' =
      Inr (Some (DPPViewAuthority b infos n suppliers trail)) \<and> b = basic_info product \<and>
    \<lparr>ae_timestamp = de_now denv, ae_details = PredicateVerified (canonicalId (vr_predicateId receipt))
       (vr_id receipt) (js_or_opt (Option.bind (pp_context pkg) ctx_supplierId) ''unknown'') True\<rparr> \<in> set trail \<and>
    canonicalId (vr_predicateId receipt) \<in> set (map vi_predicateId infos)"
proof -
  from event have e: "event = verification_event eventId now pkg inputs receipt"
    by (rule published_event) (use receipt inputs in auto)
  have payload: "js_or_null (pl_productBinding (ev_payload event)) = Some (pi_productBinding inputs)"
    using inputs(2) by (simp add: e verification_event_def js_or_null_def)
  with recorded product obtain row where
    "recordVerification denv (p_id product) (event_request event) db = Inr (row, db')"
    by (auto simp: getProductByBinding_def db_query_def split: if_splits sum.splits)
  note rec = recordVerification_Inr [OF this] recordVerification_unexpiring [OF this]
  have entry: "verification_entry row = \<lparr>ae_timestamp = de_now denv,
      ae_details = PredicateVerified (canonicalId (vr_predicateId receipt))
       (vr_id receipt) (js_or_opt (Option.bind (pp_context pkg) ctx_supplierId) ''unknown'') True\<rparr>"
    and pid: "v_predicate_id row = canonicalId (vr_predicateId receipt)"
    using rec by (simp_all add: verification_entry_def event_request_def e verification_event_def)
  have "product \<in> set (products db')" and same: "products db' = products db"
    using row_by_Some [OF product] rec by auto
  with wf have "row_by p_id (p_id product) (products db') = Some product"
    by (simp add: db_wf_def row_by_unique)
  then have get: "getProduct env' (p_id product) db' = Inr (Some product)"
    using later \<open>product \<in> set (products db')\<close> by (simp add: getProduct_def with_uuid_def same)
  let ?vps = "current_rows (de_now env', p_id product) db'"
  have vps: "getVerifiedPredicates env' (p_id product) db' = Inr ?vps"
    using later \<open>product \<in> set (products db')\<close>
    by (simp add: getVerifiedPredicates_rows with_uuid_def same)
  have row: "row \<in> set ?vps"
    using rec later(3) by (auto simp: current_rows_def unexpired_def event_request_def)
  obtain ls where ls: "getSupplierLinks env' (p_id product) db' = Inr ls"
    using later \<open>product \<in> set (products db')\<close> by (simp add: getSupplierLinks_def with_uuid_def same)
  have "verification_entry row \<in> set (audit_trail ?vps ls)" using row by (simp add: audit_trail_def)
  moreover have "v_predicate_id row \<in> set (map vi_predicateId (jm_values (authority_results registry ?vps [])))"
    unfolding store.authority_rows store.result_ids using row by simp
  ultimately show ?thesis
    using get vps ls by (simp add: composeDPPView_def composeAuthorityView_def entry pid)
qed

lemma demo_published:
  obtains resp st' receipt where
    "postVerify demo_cfg (Verifier.demo_env 5000) (\<lambda>p. None) True ''ev'' 5000 (demo_pkg 5) demo_state =
       (resp, [verification_event ''ev'' 5000 (demo_pkg 5) demo_inputs receipt], st')"
    and "resp_receipt resp = Some receipt" and "vr_id receipt = ''r-1''"
    and "vr_predicateId receipt = \<lparr>pid_name = ''CERT_VALID'', pid_version = ''V1''\<rparr>"
proof -
  have "\<bar>5000 - createdAtMs 5\<bar> \<le> 1000" by (simp add: createdAtMs_def)
  from demo_accepts [OF this] obtain r st' where
    v: "verify demo_cfg (Verifier.demo_env 5000) (demo_pkg 5) demo_state = (Verified r, st')" by blast
  then have r: "vr_id r = ''r-1''" "vr_predicateId r = \<lparr>pid_name = ''CERT_VALID'', pid_version = ''V1''\<rparr>"
    unfolding verify_Verified_iff
    by (auto simp: passes_guards_def createReceipt_Inr unsigned_receipt_def Verifier.demo_env_def demo_pkg_def)
  have "pp_publicInputs (demo_pkg 5) = Some demo_inputs" by (simp add: demo_pkg_def)
  with v have "postVerify demo_cfg (Verifier.demo_env 5000) (\<lambda>p. None) True ''ev'' 5000 (demo_pkg 5) demo_state =
     (\<lparr>resp_status = 200, resp_success = True, resp_receipt = Some r, resp_error = None\<rparr>,
      [verification_event ''ev'' 5000 (demo_pkg 5) demo_inputs r], st')"
    by (simp add: postVerify_def)
  then show ?thesis by (rule that) (simp_all only: VerifyResponse.simps r)
qed

lemma demo_canonical: "canonicalId \<lparr>pid_name = ''CERT_VALID'', pid_version = ''V1''\<rparr> = ''CERT_VALID_V1''"
  by (simp add: canonicalId_def)

theorem accepted_verification_is_billed_witness:
  "\<exists>event u. ev_eventId event = ''ev'' \<and>
     usages (snd (metering_handle (\<lambda>t. ''xxx'') (demo_meter_env, event) demo_meter)) = usages demo_meter @ [u] \<and>
     u_predicate_id u = ''CERT_VALID_V1'' \<and> u_price u = 300"
proof -
  obtain resp st' receipt where pv:
    "postVerify demo_cfg (Verifier.demo_env 5000) (\<lambda>p. None) True ''ev'' 5000 (demo_pkg 5) demo_state =
       (resp, [verification_event ''ev'' 5000 (demo_pkg 5) demo_inputs receipt], st')"
    and r: "resp_receipt resp = Some receipt" "vr_id receipt = ''r-1''"
      "vr_predicateId receipt = \<lparr>pid_name = ''CERT_VALID'', pid_version = ''V1''\<rparr>"
    by (rule demo_published)
  let ?e = "verification_event ''ev'' 5000 (demo_pkg 5) demo_inputs receipt"
  obtain p where p: "getPredicateById predicates_json ''CERT_VALID_V1'' = Own p"
    and price: "perVerification (pd_pricing p) = 300" "currency (pd_pricing p) = EUR"
    using demo_price by (auto simp: usage_price_def split: js_prop.splits)
  have "getPredicateById (me_registry demo_meter_env) (canonicalId (vr_predicateId receipt)) = Own p"
    by (simp add: r demo_canonical p demo_meter_env_def)
  moreover have "usage_fits (usage_row demo_meter_env (usage_request (\<lambda>t. ''xxx'') ?e)
      (perVerification (pd_pricing p)) (currency (pd_pricing p)) 3)"
    by (simp add: usage_fits_def usage_row_def usage_request_def verification_event_def r price fits_def
        demo_canonical demo_pkg_def js_or_null_def js_or_opt_def js_truthy_def)
  ultimately have "\<exists>u. usages (snd (metering_handle (\<lambda>t. ''xxx'') (demo_meter_env, ?e) demo_meter)) = usages demo_meter @ [u] \<and>
    u_event_id u = ''ev'' \<and> u_receipt_id u = vr_id receipt \<and>
    u_predicate_id u = canonicalId (vr_predicateId receipt) \<and>
    u_supplier_id u = js_or_opt (Option.bind (pp_context (demo_pkg 5)) ctx_supplierId) ''unknown'' \<and>
    u_verified_at u = 3 \<and> u_price u = perVerification (pd_pricing p) \<and> u_currency u = currency (pd_pricing p)"
    by (intro accepted_verification_is_billed [OF pv r(1)])
      (simp_all add: demo_meter_env_def demo_meter_def empty_meter_def demo_usage_row_def)
  moreover have "ev_eventId ?e = ''ev''" by (simp add: verification_event_def)
  ultimately show ?thesis using price r by (metis demo_canonical)
qed

theorem accepted_verification_is_shown_witness:
  "\<exists>event db'. dpp_handle (demo_db_env\<lparr>de_sha256 := (\<lambda>s. ''bb'')\<rparr>, event) demo_db = (None, db') \<and>
     (\<exists>view. composeDPPView predicates_json demo_db_env ''u1'' AUTHORITY db' = Inr (Some view))"
proof -
  let ?env = "demo_db_env\<lparr>de_sha256 := (\<lambda>s. ''bb'')\<rparr>"
  obtain resp st' receipt where pv:
    "postVerify demo_cfg (Verifier.demo_env 5000) (\<lambda>p. None) True ''ev'' 5000 (demo_pkg 5) demo_state =
       (resp, [verification_event ''ev'' 5000 (demo_pkg 5) demo_inputs receipt], st')"
    and r: "resp_receipt resp = Some receipt" "vr_id receipt = ''r-1''"
      "vr_predicateId receipt = \<lparr>pid_name = ''CERT_VALID'', pid_version = ''V1''\<rparr>"
    by (rule demo_published)
  let ?e = "verification_event ''ev'' 5000 (demo_pkg 5) demo_inputs receipt"
  have inputs: "pp_publicInputs (demo_pkg 5) = Some demo_inputs" "js_truthy (pi_productBinding demo_inputs)"
    by (simp_all add: demo_pkg_def demo_inputs_def js_truthy_def)
  have product: "row_by (DppStore.product_binding ?env) (pi_productBinding demo_inputs) (products demo_db) = Some demo_product"
    by (simp add: row_by_def DppStore.product_binding_def demo_inputs_def demo_db_def)
  have "\<exists>db'. dpp_handle (?env, ?e) demo_db = (None, db')"
    using r by (simp add: verification_event_def demo_inputs_def demo_db_defs js_or_null_def js_truthy_def
      getProductByBinding_def row_by_def DppStore.product_binding_def recordVerification_def event_request_def
      with_uuid_def DppStore.expiry_def canonicalId_def fits_def Let_def demo_pkg_def js_or_opt_def)
  then obtain db' where rec: "dpp_handle (?env, ?e) demo_db = (None, db')" by blast
  have wf: "db_wf demo_db"
    by (simp add: db_wf_def demo_db_def unique_on_def demo_verif_def demo_product_def)
  have "\<exists>b infos n suppliers trail.
    composeDPPView predicates_json demo_db_env (p_id demo_product) AUTHORITY db' =
      Inr (Some (DPPViewAuthority b infos n suppliers trail)) \<and> b = basic_info demo_product \<and>
    \<lparr>ae_timestamp = de_now ?env, ae_details = PredicateVerified (canonicalId (vr_predicateId receipt))
       (vr_id receipt) (js_or_opt (Option.bind (pp_context (demo_pkg 5)) ctx_supplierId) ''unknown'') True\<rparr> \<in> set trail \<and>
    canonicalId (vr_predicateId receipt) \<in> set (map vi_predicateId infos)"
    by (rule accepted_verification_is_shown [OF pv r(1) inputs product rec wf])
      (simp_all add: demo_db_env_def)
  with rec show ?thesis by (auto simp: demo_product_def)
qed

end
